(* ===== verification/Prelude.thy ===== *)
theory Prelude
  imports Complex_Main "HOL-Library.AList"
begin

text \<open>
  What every component of the development shares: the errors the Python code raises as a
  datatype, results as sums with the error on the left, the bind that stops at the first
  error, Python dictionaries as association lists in insertion order
  (\<open>AList.update\<close> replaces in place or appends, as \<open>d[k] = v\<close> does), and the collections
  that the component proofs rewrite with.
\<close>

named_theorems model_simps \<open>unfolding rules of the model, for evaluating concrete runs\<close>
named_theorems frame_simps \<open>what an operation leaves unchanged\<close>

section \<open>Errors and results\<close>

text \<open>One constructor per exception class that the modelled code can raise.\<close>

datatype py_error =
    DivisionByZero
  | InvalidOperation
  | ValueError
  | KeyError
  | AttributeError
  | OverflowError
  | TypeError
  | MultipleResultsFound
  | ConnectionError
  | ExternalError string

type_synonym 'a result = "py_error + 'a"

fun res_bind :: "'e + 'a \<Rightarrow> ('a \<Rightarrow> 'e + 'b) \<Rightarrow> 'e + 'b" where
  "res_bind (Inl e) f = Inl e"
| "res_bind (Inr x) f = f x"

lemma res_bind_Inr [simp]: "res_bind r Inr = r"
  by (cases r) auto

lemma res_bind_assoc: "res_bind (res_bind r f) g = res_bind r (\<lambda>x. res_bind (f x) g)"
  by (cases r) auto

lemma res_bind_eq_Inr: "res_bind r f = Inr y \<longleftrightarrow> (\<exists>x. r = Inr x \<and> f x = Inr y)"
  by (cases r) auto

lemma res_bind_eq_Inl: "res_bind r f = Inl e \<longleftrightarrow> r = Inl e \<or> (\<exists>x. r = Inr x \<and> f x = Inl e)"
  by (cases r) auto

text \<open>A loop whose body can raise.\<close>

fun res_fold :: "('a \<Rightarrow> 's \<Rightarrow> 'e + 's) \<Rightarrow> 'a list \<Rightarrow> 's \<Rightarrow> 'e + 's" where
  "res_fold f [] s = Inr s"
| "res_fold f (x # xs) s = res_bind (f x s) (res_fold f xs)"

lemma res_fold_append: "res_fold f (xs @ ys) s = res_bind (res_fold f xs s) (res_fold f ys)"
proof (induction xs arbitrary: s)
  case (Cons x xs)
  then show ?case by (cases "f x s") simp_all
qed simp

lemma res_fold_snocD:
  "res_fold f (xs @ [x]) s = Inr u \<Longrightarrow> \<exists>t. res_fold f xs s = Inr t \<and> f x t = Inr u"
  by (auto simp: res_fold_append res_bind_eq_Inr)

lemma res_fold_invariant:
  assumes "\<And>x s t. x \<in> set xs \<Longrightarrow> P s \<Longrightarrow> f x s = Inr t \<Longrightarrow> P t" and "P s" and "res_fold f xs s = Inr t"
  shows "P t"
  using assms by (induction xs arbitrary: s) (auto simp: res_bind_eq_Inr)

text \<open>A comprehension whose elements can raise.\<close>

fun res_map :: "('a \<Rightarrow> 'e + 'b) \<Rightarrow> 'a list \<Rightarrow> 'e + 'b list" where
  "res_map f [] = Inr []"
| "res_map f (x # xs) = res_bind (f x) (\<lambda>y. res_bind (res_map f xs) (\<lambda>ys. Inr (y # ys)))"

lemma res_map_total: "(\<And>x. x \<in> set xs \<Longrightarrow> f x = Inr (g x)) \<Longrightarrow> res_map f xs = Inr (map g xs)"
  by (induction xs) simp_all

text \<open>A quantity that every iteration extends by what it adds.\<close>

lemma res_fold_extends:
  assumes "\<And>x s t. x \<in> set xs \<Longrightarrow> f x s = Inr t \<Longrightarrow> \<exists>ys. g t = g s @ ys \<and> (\<forall>y \<in> set ys. R x y)"
    and "res_fold f xs s = Inr t"
  shows "\<exists>ys. g t = g s @ ys \<and> (\<forall>y \<in> set ys. \<exists>x \<in> set xs. R x y)"
  using assms
proof (induction xs arbitrary: s)
  case (Cons x xs)
  from Cons.prems(2) obtain u where u: "f x s = Inr u" "res_fold f xs u = Inr t"
    by (auto simp: res_bind_eq_Inr)
  from Cons.prems(1) [of x s u] u(1) obtain ys where ys: "g u = g s @ ys" "\<forall>y \<in> set ys. R x y" by auto
  from Cons.IH [of u] Cons.prems(1) u(2) obtain zs where
    zs: "g t = g u @ zs" "\<forall>y \<in> set zs. \<exists>x \<in> set xs. R x y" by auto
  show ?case using ys zs by (intro exI [of _ "ys @ zs"]) auto
qed simp

section \<open>Lists and dictionaries\<close>

lemma filter_cong_False: "(\<And>x. x \<in> set xs \<Longrightarrow> \<not> P x) \<Longrightarrow> filter P xs = []"
  by (induction xs) auto

lemma map_if_id: "(\<And>x. x \<in> set xs \<Longrightarrow> \<not> P x) \<Longrightarrow> map (\<lambda>x. if P x then f x else x) xs = xs"
  by (induction xs) auto

lemma filter_map_replace:
  "(\<And>r. r \<in> set xs \<Longrightarrow> k r = i \<Longrightarrow> P r) \<Longrightarrow> P y \<Longrightarrow>
   filter P (map (\<lambda>r. if k r = i then y else r) xs)
     = map (\<lambda>r. if k r = i then y else r) (filter P xs)"
  by (induction xs) auto

lemma filter_map_other:
  "(\<And>x. x \<in> set xs \<Longrightarrow> k x = i \<Longrightarrow> \<not> P x) \<Longrightarrow> \<not> P y \<Longrightarrow>
   filter P (map (\<lambda>r. if k r = i then y else r) xs) = filter P xs"
  by (induction xs) auto

lemma length_filter_map_if:
  "(\<And>x. P (f x) = P x) \<Longrightarrow>
   length (filter P (map (\<lambda>x. if Q x then f x else x) xs)) = length (filter P xs)"
  by (induction xs) auto

lemma distinct_keys_update [simp]:
  "distinct (map fst (AList.update k v al)) = distinct (map fst al)"
  by (induction al) (auto simp: dom_update)

lemma map_of_update [simp]: "map_of (AList.update k v al) = (map_of al)(k \<mapsto> v)"
  by (rule update_conv')

section \<open>Tables\<close>

text \<open>A database table is a list of rows; these are a lookup by a unique key and an update of
  the rows with a given key.\<close>

definition row_at :: "('r \<Rightarrow> 'k) \<Rightarrow> 'k \<Rightarrow> 'r list \<Rightarrow> 'r option" where
  "row_at key k rows = find (\<lambda>r. key r = k) rows"

definition put_row :: "('r \<Rightarrow> 'k) \<Rightarrow> 'r \<Rightarrow> 'r list \<Rightarrow> 'r list" where
  "put_row key r rows = map (\<lambda>x. if key x = key r then r else x) rows"

lemma row_at_SomeD: "row_at key k rows = Some r \<Longrightarrow> r \<in> set rows \<and> key r = k"
  by (induction rows) (auto simp: row_at_def split: if_splits)

lemma row_at_distinct:
  "distinct (map key rows) \<Longrightarrow> row_at key k rows = Some r \<longleftrightarrow> r \<in> set rows \<and> key r = k"
  by (induction rows) (auto simp: row_at_def)

lemma row_at_put_row:
  "row_at key k (put_row key r rows)
     = (if k = key r then map_option (\<lambda>_. r) (row_at key k rows) else row_at key k rows)"
  by (induction rows) (auto simp: row_at_def put_row_def)

lemma put_row_keys [simp]: "map key (put_row key r rows) = map key rows"
  by (auto simp: put_row_def)

lemma put_row_put_row [simp]: "put_row key r (put_row key r rows) = put_row key r rows"
  by (auto simp: put_row_def)

lemma put_row_id: "distinct (map key rows) \<Longrightarrow> r \<in> set rows \<Longrightarrow> put_row key r rows = rows"
  by (auto simp: put_row_def distinct_map inj_on_def intro!: map_idI)

lemma put_row_elemD: "x \<in> set (put_row key r rows) \<Longrightarrow> x = r \<or> x \<in> set rows"
  by (auto simp: put_row_def split: if_splits)

lemma put_row_other: "x \<in> set rows \<Longrightarrow> key x \<noteq> key r \<Longrightarrow> x \<in> set (put_row key r rows)"
  by (force simp: put_row_def)

lemma put_row_map:
  "(\<And>x. x \<in> set rows \<Longrightarrow> key x = key r \<Longrightarrow> f x = f r) \<Longrightarrow> map f (put_row key r rows) = map f rows"
  by (auto simp: put_row_def)

lemma put_row_all: "(\<And>x. x \<in> set rows \<Longrightarrow> P x) \<Longrightarrow> P r \<Longrightarrow> x \<in> set (put_row key r rows) \<Longrightarrow> P x"
  by (auto simp: put_row_def split: if_splits)

section \<open>Strings\<close>

text \<open>\<open>str.upper\<close> and \<open>str.lower\<close> on ASCII letters.\<close>

definition char_upper :: "char \<Rightarrow> char" where
  "char_upper c =
     (let n = of_char c in if 97 \<le> n \<and> n \<le> (122 :: nat) then char_of (n - 32) else c)"

definition char_lower :: "char \<Rightarrow> char" where
  "char_lower c =
     (let n = of_char c in if 65 \<le> n \<and> n \<le> (90 :: nat) then char_of (n + 32) else c)"

definition py_upper :: "string \<Rightarrow> string" where
  "py_upper s = map char_upper s"

definition py_lower :: "string \<Rightarrow> string" where
  "py_lower s = map char_lower s"

text \<open>Decimal digits of a number and the zero-padding of \<open>f"{n:06d}"\<close>.\<close>

definition digit_char :: "nat \<Rightarrow> char" where
  "digit_char n = char_of (48 + n)"

fun show_nat :: "nat \<Rightarrow> string" where
  "show_nat n = (if n < 10 then [digit_char n] else show_nat (n div 10) @ [digit_char (n mod 10)])"

declare show_nat.simps [simp del]

definition zfill :: "nat \<Rightarrow> string \<Rightarrow> string" where
  "zfill w s = replicate (w - length s) (CHR ''0'') @ s"

definition read_nat :: "string \<Rightarrow> nat" where
  "read_nat s = foldl (\<lambda>n c. 10 * n + (of_char c - 48)) 0 s"

lemma of_digit_char: "n < 10 \<Longrightarrow> (of_char (digit_char n) :: nat) = 48 + n"
  by (simp add: digit_char_def)

lemma read_show_nat [simp]: "read_nat (show_nat n) = n"
proof (induction n rule: show_nat.induct)
  case (1 n)
  show ?case
  proof (cases "n < 10")
    case True
    then show ?thesis by (simp add: show_nat.simps [of n] read_nat_def of_digit_char)
  next
    case False
    with 1 show ?thesis by (simp add: show_nat.simps [of n] read_nat_def of_digit_char)
  qed
qed

lemma read_zfill [simp]: "read_nat (zfill w s) = read_nat s"
proof -
  have "foldl (\<lambda>n c. 10 * n + (of_char c - 48)) 0 (replicate k (CHR ''0'') @ s)
      = foldl (\<lambda>n c. 10 * n + (of_char c - 48 :: nat)) 0 s" for k
    by (induction k) simp_all
  then show ?thesis by (simp add: read_nat_def zfill_def)
qed

lemma padded_inj: "zfill w (show_nat m) = zfill w (show_nat n) \<longleftrightarrow> m = n"
  by (metis read_show_nat read_zfill)

section \<open>Enumerations with string values\<close>

text \<open>\<open>Enum(value)\<close> looks a member up by its value; None is Python's ValueError.\<close>

definition enum_of :: "'e list \<Rightarrow> ('e \<Rightarrow> string) \<Rightarrow> string \<Rightarrow> 'e option" where
  "enum_of members val s = find (\<lambda>e. val e = s) members"

locale str_enum =
  fixes members :: "'e list" and val :: "'e \<Rightarrow> string"
  assumes all_members: "e \<in> set members" and val_inj: "val e = val f \<Longrightarrow> e = f"
begin

lemma enum_of_val: "enum_of members val (val e) = Some e"
proof -
  from all_members [of e] obtain f where f: "find (\<lambda>x. val x = val e) members = Some f"
    by (cases "find (\<lambda>x. val x = val e) members") (auto simp: find_None_iff)
  then have "val f = val e" by (auto simp: find_Some_iff)
  with f show ?thesis by (simp add: enum_of_def val_inj [of f e])
qed

lemma val_enum_of: "enum_of members val s = Some e \<longleftrightarrow> s = val e"
  using enum_of_val [of e] by (auto simp: enum_of_def find_Some_iff)

end

section \<open>Step systems\<close>

text \<open>What a component that moves in steps promises: every step keeps the invariant. The
  components instantiate this contract with their own step relation and invariant.\<close>

locale step_invariant =
  fixes step :: "'s \<Rightarrow> 's \<Rightarrow> bool" and inv :: "'s \<Rightarrow> bool"
  assumes step_keeps: "step s t \<Longrightarrow> inv s \<Longrightarrow> inv t"
begin

lemma run_keeps: "step\<^sup>*\<^sup>* s t \<Longrightarrow> inv s \<Longrightarrow> inv t"
  by (induction rule: rtranclp_induct) (auto intro: step_keeps)

end

text \<open>A step that also never decreases a measure of progress.\<close>

locale step_progress = step_invariant +
  fixes rank :: "'s \<Rightarrow> nat"
  assumes rank_mono: "step s t \<Longrightarrow> inv s \<Longrightarrow> rank s \<le> rank t"
begin

lemma run_rank: "step\<^sup>*\<^sup>* s t \<Longrightarrow> inv s \<Longrightarrow> inv t \<and> rank s \<le> rank t"
proof (induction rule: rtranclp_induct)
  case (step t u)
  then show ?case using step_keeps rank_mono [of t u] by force
qed simp

end

end
