(* ===== verification/Numerics.thy ===== *)
theory Numerics
  imports Prelude
begin

text \<open>
  The arithmetic of Python's standard library that the code computes with. A
  \<open>decimal.Decimal\<close> and a binary \<open>float\<close> are both rational numbers whose operations round
  to a fixed number of significant digits, half to even: 28 decimal digits in the default
  decimal context, 53 binary digits for a double. \<open>sig_round\<close> is that rounding, for any base
  and precision; it computes. The lemmas give what the component proofs need: exactness on
  values with few digits, the relative error, oddness, positivity and monotonicity.
  Exponent limits (overflow to infinity, subnormal doubles) are outside the model; infinite
  and NaN floats that can enter from outside are constructors of \<open>py_float\<close>.
\<close>

section \<open>Rounding to significant digits\<close>

fun ilog :: "nat \<Rightarrow> nat \<Rightarrow> nat" where
  "ilog b n = (if b < 2 \<or> n < b then 0 else Suc (ilog b (n div b)))"

declare ilog.simps [simp del]

definition lead_exp :: "nat \<Rightarrow> rat \<Rightarrow> int" where
  "lead_exp b q =
     (if 1 \<le> \<bar>q\<bar> then int (ilog b (nat \<lfloor>\<bar>q\<bar>\<rfloor>))
      else - int (Suc (ilog b (nat (\<lceil>1 / \<bar>q\<bar>\<rceil> - 1)))))"

definition round_half_even :: "rat \<Rightarrow> int" where
  "round_half_even x =
     (let f = \<lfloor>x\<rfloor>; d = x - of_int f
      in if d < 1 / 2 then f else if d > 1 / 2 then f + 1
         else if even f then f else f + 1)"

definition sig_round :: "nat \<Rightarrow> nat \<Rightarrow> rat \<Rightarrow> rat" where
  "sig_round b p q =
     (if q = 0 then 0
      else let e = lead_exp b q - (int p - 1)
           in of_int (round_half_even (q / of_nat b powi e)) * of_nat b powi e)"

lemma ilog_lt [simp]: "n < b \<Longrightarrow> ilog b n = 0"
  by (simp add: ilog.simps)

lemma ilog_ge: "2 \<le> b \<Longrightarrow> b \<le> n \<Longrightarrow> ilog b n = Suc (ilog b (n div b))"
  by (simp add: ilog.simps [of b n])

lemma rat_floor_divide_numeral [simp]:
  "\<lfloor>1 / numeral b :: rat\<rfloor> = 1 div numeral b"
  "\<lfloor>- (1 / numeral b) :: rat\<rfloor> = - 1 div numeral b"
  "\<lfloor>numeral a / numeral b :: rat\<rfloor> = numeral a div numeral b"
  "\<lfloor>- (numeral a / numeral b) :: rat\<rfloor> = - numeral a div numeral b"
  using floor_divide_of_int_eq [of 1 "numeral b", where 'a = rat]
    floor_divide_of_int_eq [of "- 1" "numeral b", where 'a = rat]
    floor_divide_of_int_eq [of "numeral a" "numeral b", where 'a = rat]
    floor_divide_of_int_eq [of "- numeral a" "numeral b", where 'a = rat]
  by simp_all

section \<open>Laws of the rounding\<close>

lemma ilog_lower: "2 \<le> b \<Longrightarrow> 0 < n \<Longrightarrow> b ^ ilog b n \<le> n"
proof (induction b n rule: ilog.induct)
  case (1 b n)
  show ?case
  proof (cases "n < b")
    case True
    then show ?thesis using 1 by (simp add: ilog.simps [of b n])
  next
    case False
    then have "0 < n div b" using 1 by (simp add: div_greater_zero_iff)
    then have "b ^ ilog b (n div b) \<le> n div b" using 1 False by simp
    then have "b * b ^ ilog b (n div b) \<le> b * (n div b)" by simp
    also have "\<dots> \<le> n" by simp
    finally show ?thesis using 1 False by (simp add: ilog.simps [of b n])
  qed
qed

lemma ilog_upper: "2 \<le> b \<Longrightarrow> n < b ^ Suc (ilog b n)"
proof (induction b n rule: ilog.induct)
  case (1 b n)
  show ?case
  proof (cases "n < b")
    case True
    then show ?thesis using 1 by (simp add: ilog.simps [of b n])
  next
    case False
    then have "n div b < b ^ Suc (ilog b (n div b))" using 1 by simp
    then have "n < b ^ Suc (ilog b (n div b)) * b"
      using 1 by (simp add: div_less_iff_less_mult)
    then show ?thesis using 1 False by (simp add: ilog.simps [of b n] mult.commute)
  qed
qed


lemma lead_exp_lower:
  assumes "2 \<le> b" and "q \<noteq> 0"
  shows "(of_nat b :: rat) powi lead_exp b q \<le> \<bar>q\<bar>"
proof (cases "1 \<le> \<bar>q\<bar>")
  case True
  let ?n = "nat \<lfloor>\<bar>q\<bar>\<rfloor>"
  have "0 < ?n" using True by simp
  then have "b ^ ilog b ?n \<le> ?n" using assms by (intro ilog_lower) auto
  then have "(of_nat (b ^ ilog b ?n) :: rat) \<le> of_nat ?n" by (simp only: of_nat_le_iff)
  also have "\<dots> \<le> \<bar>q\<bar>" using True by simp
  finally show ?thesis using True by (simp add: lead_exp_def)
next
  case False
  let ?y = "1 / \<bar>q\<bar>" and ?m = "nat (\<lceil>1 / \<bar>q\<bar>\<rceil> - 1)"
  have pos: "0 < \<bar>q\<bar>" using assms by simp
  have "?m < b ^ Suc (ilog b ?m)" using assms by (intro ilog_upper)
  then have "?m + 1 \<le> b ^ Suc (ilog b ?m)" by simp
  then have le: "(of_nat (?m + 1) :: rat) \<le> of_nat (b ^ Suc (ilog b ?m))"
    by (simp only: of_nat_le_iff)
  have "1 < ?y" using False pos by simp
  then have "1 < \<lceil>?y\<rceil>" by simp
  then have "of_nat (?m + 1) = (of_int \<lceil>?y\<rceil> :: rat)"
    by (simp add: of_nat_nat del: one_less_ceiling)
  with le have "?y \<le> of_nat (b ^ Suc (ilog b ?m))" using le_of_int_ceiling [of ?y] by linarith
  then have "1 / of_nat (b ^ Suc (ilog b ?m)) \<le> \<bar>q\<bar>"
    using pos assms by (simp add: field_simps)
  then show ?thesis using False
    by (simp add: lead_exp_def power_int_minus power_int_def field_simps nat_add_distrib)
qed

lemma lead_exp_upper:
  assumes "2 \<le> b" and "q \<noteq> 0"
  shows "\<bar>q\<bar> < (of_nat b :: rat) powi (lead_exp b q + 1)"
proof (cases "1 \<le> \<bar>q\<bar>")
  case True
  let ?n = "nat \<lfloor>\<bar>q\<bar>\<rfloor>"
  have "?n + 1 \<le> b ^ Suc (ilog b ?n)" using ilog_upper [OF assms(1), of ?n] by simp
  then have "(of_nat (?n + 1) :: rat) \<le> of_nat (b ^ Suc (ilog b ?n))" by (simp only: of_nat_le_iff)
  moreover have "\<bar>q\<bar> < of_nat (?n + 1)" using True floor_correct [of "\<bar>q\<bar>"] by simp
  ultimately have "\<bar>q\<bar> < of_nat (b ^ Suc (ilog b ?n))" by linarith
  then show ?thesis using True by (simp add: lead_exp_def power_int_def nat_add_distrib)
next
  case False
  let ?y = "1 / \<bar>q\<bar>" and ?m = "nat (\<lceil>1 / \<bar>q\<bar>\<rceil> - 1)"
  have pos: "0 < \<bar>q\<bar>" using assms by simp
  have y1: "1 < ?y" using False pos by simp
  then have c1: "1 < \<lceil>?y\<rceil>" by simp
  then have "b ^ ilog b ?m \<le> ?m" using assms by (intro ilog_lower) auto
  then have "(of_nat (b ^ ilog b ?m) :: rat) \<le> of_nat ?m" by (simp only: of_nat_le_iff)
  also have "\<dots> < ?y" using c1 ceiling_correct [of ?y] by simp
  finally have "\<bar>q\<bar> < 1 / of_nat (b ^ ilog b ?m)"
    using pos assms by (simp add: field_simps)
  then show ?thesis using False
    by (simp add: lead_exp_def power_int_minus power_int_def field_simps)
qed

lemma round_half_even_of_int [simp]: "round_half_even (of_int k) = k"
  by (simp add: round_half_even_def)

lemma round_half_even_error: "\<bar>of_int (round_half_even x) - x\<bar> \<le> 1 / 2"
proof -
  have "of_int \<lfloor>x\<rfloor> \<le> x" "x < of_int \<lfloor>x\<rfloor> + 1" using floor_correct [of x] by simp_all
  then show ?thesis unfolding round_half_even_def Let_def abs_le_iff
    by (simp add: field_simps; linarith)
qed

lemma round_half_even_ge: "of_int k \<le> x \<Longrightarrow> k \<le> round_half_even x"
  unfolding le_floor_iff [symmetric] round_half_even_def Let_def by auto

lemma round_half_even_le: "x \<le> of_int k \<Longrightarrow> round_half_even x \<le> k"
proof -
  assume x: "x \<le> of_int k"
  show "round_half_even x \<le> k"
  proof (cases "x = of_int k")
    case False
    with x have "\<lfloor>x\<rfloor> < k" by (simp add: floor_less_iff)
    then show ?thesis by (auto simp: round_half_even_def Let_def)
  qed simp
qed

lemma round_half_even_mono: "x \<le> y \<Longrightarrow> round_half_even x \<le> round_half_even y"
proof -
  assume xy: "x \<le> y"
  show ?thesis
  proof (cases "\<lfloor>x\<rfloor> = \<lfloor>y\<rfloor>")
    case True
    with xy show ?thesis by (auto simp: round_half_even_def Let_def)
  next
    case False
    with floor_mono [OF xy] have "\<lfloor>x\<rfloor> + 1 \<le> \<lfloor>y\<rfloor>" by simp
    moreover have "round_half_even x \<le> \<lfloor>x\<rfloor> + 1" by (auto simp: round_half_even_def Let_def)
    moreover have "\<lfloor>y\<rfloor> \<le> round_half_even y" by (auto simp: round_half_even_def Let_def)
    ultimately show ?thesis by linarith
  qed
qed

lemma sig_round_0 [simp]: "sig_round b p 0 = 0"
  by (simp add: sig_round_def)

lemma powi_pos [simp]: "2 \<le> b \<Longrightarrow> 0 < (of_nat b :: rat) powi e"
  by (simp add: zero_less_power_int)

text \<open>A value with at most \<open>p\<close> digits in base \<open>b\<close> is not changed.\<close>

lemma sig_round_exact:
  assumes b: "2 \<le> b" and p: "0 < p" and m: "\<bar>m\<bar> < int b ^ p"
    and q: "q = of_int m * of_nat b powi k"
  shows "sig_round b p q = q"
proof (cases "q = 0")
  case False
  let ?e = "lead_exp b q - (int p - 1)" and ?B = "of_nat b :: rat"
  have B: "1 < ?B" using b by simp
  have "\<bar>of_int m :: rat\<bar> < ?B ^ p" using m
    by (metis of_int_abs of_int_less_iff of_int_of_nat_eq of_int_power)
  then have "\<bar>q\<bar> < ?B ^ p * ?B powi k"
    using q b by (simp add: abs_mult)
  also have "\<dots> = ?B powi (int p + k)" using B by (simp add: power_int_add)
  finally have "?B powi lead_exp b q < ?B powi (int p + k)"
    using lead_exp_lower [OF b False] by linarith
  then have "lead_exp b q < int p + k"
    using power_int_increasing [of "int p + k" "lead_exp b q" ?B] B by fastforce
  then have e: "?e \<le> k" by simp
  have "q / ?B powi ?e = of_int m * ?B powi (k - ?e)"
    using B q by (simp add: power_int_diff)
  also have "?B powi (k - ?e) = of_int (int b ^ nat (k - ?e))"
    using e by (simp add: power_int_def)
  finally have "q / ?B powi ?e = of_int (m * int b ^ nat (k - ?e))" by simp
  then have "of_int (round_half_even (q / ?B powi ?e)) = q / ?B powi ?e"
    by (metis round_half_even_of_int)
  then show ?thesis using False B by (simp add: sig_round_def Let_def)
qed simp

text \<open>The relative error of one rounding is at most half a unit in the last place.\<close>

lemma sig_round_error:
  assumes b: "2 \<le> b" and p: "0 < p"
  shows "\<bar>sig_round b p q - q\<bar> \<le> \<bar>q\<bar> / (2 * of_nat b ^ (p - 1))"
proof (cases "q = 0")
  case False
  let ?e = "lead_exp b q - (int p - 1)" and ?B = "of_nat b :: rat"
  let ?r = "of_int (round_half_even (q / ?B powi ?e)) :: rat"
  have B: "1 < ?B" and P: "0 < ?B powi ?e" using b by simp_all
  have "sig_round b p q - q = (?r - q / ?B powi ?e) * ?B powi ?e"
    using False b by (simp add: sig_round_def Let_def left_diff_distrib)
  then have "\<bar>sig_round b p q - q\<bar> = \<bar>?r - q / ?B powi ?e\<bar> * ?B powi ?e"
    using P by (simp add: abs_mult)
  also have "\<dots> \<le> 1 / 2 * ?B powi ?e"
    using P by (intro mult_right_mono round_half_even_error) simp
  also have "?B powi ?e = ?B powi lead_exp b q / ?B ^ (p - 1)"
    using B p power_int_diff [of ?B "lead_exp b q" "int (p - 1)"]
    by (cases p) (simp_all add: algebra_simps)
  also have "1 / 2 * \<dots> \<le> 1 / 2 * (\<bar>q\<bar> / ?B ^ (p - 1))"
    using lead_exp_lower [OF b False] B by (intro mult_left_mono divide_right_mono) auto
  finally show ?thesis by (simp add: field_simps)
qed simp


text \<open>Rounding is odd, positive on positive values and monotone.\<close>

lemma round_half_even_minus: "round_half_even (- x) = - round_half_even x"
proof (cases "x = of_int \<lfloor>x\<rfloor>")
  case True
  then show ?thesis by (metis of_int_minus round_half_even_of_int)
next
  case False
  then have lt: "of_int \<lfloor>x\<rfloor> < x" using of_int_floor_le [of x] by linarith
  then have "\<lfloor>- x\<rfloor> = - \<lfloor>x\<rfloor> - 1" using floor_correct [of x] by (intro floor_unique) auto
  then show ?thesis by (auto simp: round_half_even_def Let_def)
qed

lemma lead_exp_minus [simp]: "lead_exp b (- q) = lead_exp b q"
  by (simp add: lead_exp_def)

lemma sig_round_minus: "sig_round b p (- q) = - sig_round b p q"
  by (simp add: sig_round_def Let_def round_half_even_minus)

lemma lead_exp_unique:
  assumes "2 \<le> b" and "q \<noteq> 0"
    and "(of_nat b :: rat) powi i \<le> \<bar>q\<bar>" and "\<bar>q\<bar> < (of_nat b :: rat) powi (j + 1)"
  shows "i \<le> lead_exp b q" and "lead_exp b q \<le> j"
proof -
  have B: "1 < (of_nat b :: rat)" using assms by simp
  have "(of_nat b :: rat) powi i < of_nat b powi (lead_exp b q + 1)"
    using lead_exp_upper [OF assms(1,2)] assms(3) by linarith
  then show "i \<le> lead_exp b q"
    using power_int_increasing [of "lead_exp b q + 1" i "of_nat b :: rat"] B by fastforce
  have "(of_nat b :: rat) powi lead_exp b q < of_nat b powi (j + 1)"
    using lead_exp_lower [OF assms(1,2)] assms(4) by linarith
  then show "lead_exp b q \<le> j"
    using power_int_increasing [of "j + 1" "lead_exp b q" "of_nat b :: rat"] B by fastforce
qed

text \<open>The rounded value of a positive number stays between the powers that enclose it.\<close>

lemma sig_round_enclosed:
  assumes b: "2 \<le> b" and p: "0 < p" and q: "0 < q"
  shows "of_nat b powi lead_exp b q \<le> sig_round b p q"
    and "sig_round b p q \<le> of_nat b powi (lead_exp b q + 1)"
proof -
  let ?B = "of_nat b :: rat"
  let ?e = "lead_exp b q - (int p - 1)"
  have B: "1 < ?B" and P: "0 < ?B powi ?e" using b by simp_all
  have eq: "sig_round b p q = of_int (round_half_even (q / ?B powi ?e)) * ?B powi ?e"
    using q by (simp add: sig_round_def Let_def)
  have split: "of_int (int b ^ n) * ?B powi ?e = ?B powi (int n + ?e)" for n
    using B by (simp add: power_int_add)
  have "of_int (int b ^ (p - 1)) * ?B powi ?e = ?B powi lead_exp b q"
    unfolding split using p by (simp add: of_nat_diff)
  with lead_exp_lower [of b q] b q P
  have "of_int (int b ^ (p - 1)) \<le> q / ?B powi ?e" by (simp add: field_simps)
  then have "int b ^ (p - 1) \<le> round_half_even (q / ?B powi ?e)" by (rule round_half_even_ge)
  then have "of_int (int b ^ (p - 1)) \<le> (of_int (round_half_even (q / ?B powi ?e)) :: rat)"
    by (simp only: of_int_le_iff)
  then have "of_int (int b ^ (p - 1)) * ?B powi ?e \<le> sig_round b p q"
    unfolding eq using P by (intro mult_right_mono) simp_all
  then show "of_nat b powi lead_exp b q \<le> sig_round b p q"
    using \<open>of_int (int b ^ (p - 1)) * ?B powi ?e = ?B powi lead_exp b q\<close> by simp
  have up: "of_int (int b ^ p) * ?B powi ?e = ?B powi (lead_exp b q + 1)"
    unfolding split by (simp add: algebra_simps)
  with lead_exp_upper [of b q] b q P
  have "q / ?B powi ?e \<le> of_int (int b ^ p)" by (simp add: field_simps)
  then have "round_half_even (q / ?B powi ?e) \<le> int b ^ p" by (rule round_half_even_le)
  then have "(of_int (round_half_even (q / ?B powi ?e)) :: rat) \<le> of_int (int b ^ p)"
    by (simp only: of_int_le_iff)
  then have "sig_round b p q \<le> of_int (int b ^ p) * ?B powi ?e"
    unfolding eq using P by (intro mult_right_mono) simp_all
  then show "sig_round b p q \<le> of_nat b powi (lead_exp b q + 1)" unfolding up .
qed

lemma sig_round_pos: "2 \<le> b \<Longrightarrow> 0 < p \<Longrightarrow> 0 < q \<Longrightarrow> 0 < sig_round b p q"
  using sig_round_enclosed(1) [of b p q] powi_pos [of b "lead_exp b q"] by linarith

lemma sig_round_mono_pos:
  assumes b: "2 \<le> b" and p: "0 < p" and x: "0 < x" and xy: "x \<le> y"
  shows "sig_round b p x \<le> sig_round b p y"
proof -
  let ?B = "of_nat b :: rat"
  have y: "0 < y" using x xy by linarith
  have "lead_exp b x \<le> lead_exp b y"
  proof (rule lead_exp_unique(1) [OF b])
    show "y \<noteq> 0" using y by simp
    show "?B powi lead_exp b x \<le> \<bar>y\<bar>" using lead_exp_lower [of b x] b x y xy by simp
    show "\<bar>y\<bar> < ?B powi (lead_exp b y + 1)" using lead_exp_upper [of b y] b y by simp
  qed
  then consider "lead_exp b x = lead_exp b y" | "lead_exp b x + 1 \<le> lead_exp b y" by linarith
  then show ?thesis
  proof cases
    case 1
    have "x / ?B powi (lead_exp b y - (int p - 1)) \<le> y / ?B powi (lead_exp b y - (int p - 1))"
      using xy b by (intro divide_right_mono) (simp_all add: less_imp_le)
    from round_half_even_mono [OF this] show ?thesis using 1 x y b
      by (simp add: sig_round_def Let_def mult_right_mono less_imp_le)
  next
    case 2
    have "sig_round b p x \<le> ?B powi (lead_exp b x + 1)" by (rule sig_round_enclosed [OF b p x])
    also have "\<dots> \<le> ?B powi lead_exp b y" using 2 b by (intro power_int_increasing) auto
    also have "\<dots> \<le> sig_round b p y" by (rule sig_round_enclosed [OF b p y])
    finally show ?thesis .
  qed
qed

lemma sig_round_mono:
  assumes b: "2 \<le> b" and p: "0 < p" and xy: "x \<le> y"
  shows "sig_round b p x \<le> sig_round b p y"
proof -
  have pos: "0 \<le> sig_round b p z" if "0 \<le> z" for z
    using that sig_round_pos [OF b p, of z] by (cases "z = 0") auto
  consider "0 < x" | "y < 0" | "x \<le> 0" "0 \<le> y" by linarith
  then show ?thesis
  proof cases
    case 1
    then show ?thesis using xy by (rule sig_round_mono_pos [OF b p])
  next
    case 2
    then have "sig_round b p (- y) \<le> sig_round b p (- x)"
      using xy by (intro sig_round_mono_pos [OF b p]) auto
    then show ?thesis by (simp add: sig_round_minus)
  next
    case 3
    then show ?thesis using pos [of y] pos [of "- x"] by (simp add: sig_round_minus)
  qed
qed


section \<open>Decimal numbers\<close>

type_synonym decimal = rat

definition dec :: "rat \<Rightarrow> decimal" where
  "dec q = sig_round 10 28 q"

definition dec_add :: "decimal \<Rightarrow> decimal \<Rightarrow> decimal" where
  "dec_add x y = dec (x + y)"

definition dec_sub :: "decimal \<Rightarrow> decimal \<Rightarrow> decimal" where
  "dec_sub x y = dec (x - y)"

definition dec_mul :: "decimal \<Rightarrow> decimal \<Rightarrow> decimal" where
  "dec_mul x y = dec (x * y)"

definition dec_div :: "decimal \<Rightarrow> decimal \<Rightarrow> decimal result" where
  "dec_div x y =
     (if y = 0 then Inl (if x = 0 then InvalidOperation else DivisionByZero)
      else Inr (dec (x / y)))"

definition dec_abs :: "decimal \<Rightarrow> decimal" where
  "dec_abs x = dec \<bar>x\<bar>"

text \<open>\<open>sum\<close> starts from the integer 0 and adds from the left.\<close>

definition dec_sum :: "decimal list \<Rightarrow> decimal" where
  "dec_sum xs = foldl dec_add 0 xs"

lemmas dec_defs = dec_add_def dec_sub_def dec_mul_def dec_div_def dec_abs_def dec_sum_def

lemma dec_exact:
  assumes "q = of_int m * 10 powi k" and "\<bar>m\<bar> < 10 ^ 28"
  shows "dec q = q"
  unfolding dec_def using assms sig_round_exact [of 10 28 m q k] by simp

lemma dec_0 [simp]: "dec 0 = 0"
  by (simp add: dec_def)

lemma dec_mono: "x \<le> y \<Longrightarrow> dec x \<le> dec y"
  by (simp add: dec_def sig_round_mono)

lemma dec_minus: "dec (- x) = - dec x"
  by (simp add: dec_def sig_round_minus)

lemma dec_pos: "0 < x \<Longrightarrow> 0 < dec x"
  by (simp add: dec_def sig_round_pos)

lemma dec_nonneg: "0 \<le> x \<Longrightarrow> 0 \<le> dec x"
  using dec_mono [of 0 x] by simp

lemma dec_error: "\<bar>dec q - q\<bar> \<le> \<bar>q\<bar> / (2 * 10 ^ 27)"
  using sig_round_error [of 10 28 q] by (simp add: dec_def)

text \<open>
  The money grid: values with four decimal places, as the \<open>Numeric(18, 4)\<close> columns hold
  them, and their products with integer quantities.
\<close>

definition on_grid :: "int \<Rightarrow> rat \<Rightarrow> bool" where
  "on_grid B q \<longleftrightarrow> \<bar>q\<bar> * 10 ^ 4 < of_int B \<and> of_int \<lfloor>q * 10 ^ 4\<rfloor> = q * 10 ^ 4"

abbreviation money :: "rat \<Rightarrow> bool" where
  "money q \<equiv> on_grid (10 ^ 18) q"

abbreviation int32 :: "int \<Rightarrow> bool" where
  "int32 n \<equiv> \<bar>n\<bar> \<le> 2 ^ 31"

lemma on_gridE:
  assumes "on_grid B q"
  obtains m where "q = of_int m / 10 ^ 4" and "\<bar>m\<bar> < B"
proof -
  let ?m = "\<lfloor>q * 10 ^ 4\<rfloor>"
  have m: "of_int ?m = q * 10 ^ 4" using assms unfolding on_grid_def by blast
  then have q: "q = of_int ?m / 10 ^ 4" by (simp del: of_int_floor_cancel)
  have "\<bar>of_int ?m :: rat\<bar> < of_int B" using assms unfolding m on_grid_def by (simp add: abs_mult)
  then have "(of_int \<bar>?m\<bar> :: rat) < of_int B" by simp
  then have "\<bar>?m\<bar> < B" by (simp only: of_int_less_iff)
  with q show thesis by (rule that)
qed

lemma on_gridI: "\<bar>m\<bar> < B \<Longrightarrow> on_grid B (of_int m / 10 ^ 4)"
proof -
  assume "\<bar>m\<bar> < B"
  then have "(of_int \<bar>m\<bar> :: rat) < of_int B" by (simp only: of_int_less_iff)
  then show ?thesis by (simp add: on_grid_def)
qed

lemma on_grid_0: "0 < B \<Longrightarrow> on_grid B 0"
  by (simp add: on_grid_def)

lemma dec_grid: "on_grid B q \<Longrightarrow> B \<le> 10 ^ 28 \<Longrightarrow> dec q = q"
  by (elim on_gridE, rule dec_exact [where k = "- 4"])
    (auto simp: power_int_minus field_simps)

text \<open>A contract multiplier of 100 shifts the digits and costs no precision.\<close>

lemma dec_grid_100:
  assumes "on_grid B q" and "B \<le> 10 ^ 28"
  shows "dec (q * 100) = q * 100"
proof -
  obtain m where m: "q = of_int m / 10 ^ 4" "\<bar>m\<bar> < B" by (rule on_gridE [OF assms(1)])
  have "q * 100 = of_int m * 10 powi (- 2)" by (simp add: m power_int_minus)
  then show ?thesis by (rule dec_exact) (use m assms(2) in linarith)
qed

lemma on_grid_mono: "on_grid B q \<Longrightarrow> B \<le> C \<Longrightarrow> on_grid C q"
  by (elim on_gridE) (simp only: on_gridI)

lemma on_grid_minus: "on_grid B q \<Longrightarrow> on_grid B (- q)"
  by (elim on_gridE) (metis abs_minus_cancel minus_divide_left of_int_minus on_gridI)

lemma on_grid_of_int_mult:
  assumes "on_grid B q" and "\<bar>n\<bar> \<le> C" and "0 < C"
  shows "on_grid (B * C) (q * of_int n)"
proof -
  obtain m where m: "q = of_int m / 10 ^ 4" "\<bar>m\<bar> < B" by (rule on_gridE [OF assms(1)])
  have "\<bar>m * n\<bar> \<le> \<bar>m\<bar> * C"
    unfolding abs_mult using assms by (intro mult_left_mono) auto
  also have "\<dots> < B * C" using m assms by simp
  finally have "on_grid (B * C) (of_int (m * n) / 10 ^ 4)" by (rule on_gridI)
  also have "of_int (m * n) / 10 ^ 4 = q * of_int n" by (simp only: m of_int_mult times_divide_eq_left)
  finally show ?thesis .
qed

lemma on_grid_add:
  assumes "on_grid B x" and "on_grid C y"
  shows "on_grid (B + C) (x + y)"
proof -
  obtain m where m: "x = of_int m / 10 ^ 4" "\<bar>m\<bar> < B" by (rule on_gridE [OF assms(1)])
  obtain n where n: "y = of_int n / 10 ^ 4" "\<bar>n\<bar> < C" by (rule on_gridE [OF assms(2)])
  have "\<bar>m + n\<bar> < B + C" using m n by simp
  then have "on_grid (B + C) (of_int (m + n) / 10 ^ 4)" by (rule on_gridI)
  also have "of_int (m + n) / 10 ^ 4 = x + y" by (simp only: m n of_int_add add_divide_distrib)
  finally show ?thesis .
qed

lemma on_grid_diff: "on_grid B x \<Longrightarrow> on_grid C y \<Longrightarrow> on_grid (B + C) (x - y)"
  using on_grid_add [OF _ on_grid_minus] by fastforce

text \<open>
  The products and sums the portfolio forms from stored prices and 32-bit quantities have
  at most 28 digits, so the decimal context never rounds them.
\<close>

lemma dec_mul_money: "money x \<Longrightarrow> int32 n \<Longrightarrow> dec_mul x (of_int n) = x * of_int n"
  unfolding dec_mul_def by (rule dec_grid [OF on_grid_of_int_mult]) auto

lemma dec_sub_money: "money x \<Longrightarrow> money y \<Longrightarrow> dec_sub x y = x - y"
  unfolding dec_sub_def by (rule dec_grid [OF on_grid_diff]) auto

lemma dec_mul_money_diff:
  "money x \<Longrightarrow> money y \<Longrightarrow> int32 n \<Longrightarrow> dec_mul (x - y) (of_int n) = (x - y) * of_int n"
  unfolding dec_mul_def by (rule dec_grid [OF on_grid_of_int_mult [OF on_grid_diff]]) auto

lemma dec_mul_money_diff_100:
  "money x \<Longrightarrow> money y \<Longrightarrow> int32 n \<Longrightarrow>
   dec_mul ((x - y) * of_int n) 100 = (x - y) * of_int n * 100"
  unfolding dec_mul_def by (rule dec_grid_100 [OF on_grid_of_int_mult [OF on_grid_diff]]) auto

lemma dec_mul_money_diff_1:
  "money x \<Longrightarrow> money y \<Longrightarrow> int32 n \<Longrightarrow>
   dec_mul ((x - y) * of_int n) 1 = (x - y) * of_int n"
  using dec_mul_money_diff by (simp add: dec_mul_def)

lemma dec_add_money:
  "money x \<Longrightarrow> money y \<Longrightarrow> int32 m \<Longrightarrow> int32 n \<Longrightarrow>
   dec_add (x * of_int m) (y * of_int n) = x * of_int m + y * of_int n"
  unfolding dec_add_def
  by (rule dec_grid [OF on_grid_add [OF on_grid_of_int_mult on_grid_of_int_mult]]) auto

lemmas money_arith =
  dec_sub_money dec_mul_money dec_mul_money_diff dec_mul_money_diff_100
  dec_mul_money_diff_1 dec_add_money

section \<open>Binary floats\<close>

type_synonym double = rat

definition fl :: "rat \<Rightarrow> double" where
  "fl q = sig_round 2 53 q"

datatype py_float = Finite double | Infinite bool | NaN

text \<open>\<open>int(x)\<close> truncates towards zero and raises on values that are not finite.\<close>

definition trunc_int :: "rat \<Rightarrow> int" where
  "trunc_int q = (if 0 \<le> q then \<lfloor>q\<rfloor> else - \<lfloor>- q\<rfloor>)"

fun py_int :: "py_float \<Rightarrow> int result" where
  "py_int (Finite x) = Inr (trunc_int x)"
| "py_int (Infinite _) = Inl OverflowError"
| "py_int NaN = Inl ValueError"

text \<open>
  \<open>str(x)\<close> of a finite float prints the shortest decimal that reads back as \<open>x\<close>, so
  \<open>Decimal(str(x))\<close> is the nearest decimal with the fewest digits that rounds to \<open>x\<close>
  (17 digits always do).
\<close>

definition float_repr :: "double \<Rightarrow> decimal" where
  "float_repr x =
     (case filter (\<lambda>n. fl (sig_round 10 n x) = x) [1..<17] of
        [] \<Rightarrow> sig_round 10 17 x
      | n # _ \<Rightarrow> sig_round 10 n x)"

lemmas num_eval =
  dec_def fl_def sig_round_def lead_exp_def round_half_even_def ilog_ge Let_def ceiling_def

lemma float_repr_short:
  "fl (sig_round 10 1 x) = x \<Longrightarrow> float_repr x = sig_round 10 1 x"
  by (simp add: float_repr_def upt_rec)

lemma fl_mono: "x \<le> y \<Longrightarrow> fl x \<le> fl y"
  by (simp add: fl_def sig_round_mono)

lemma fl_exact: "q = of_int m * 2 powi k \<Longrightarrow> \<bar>m\<bar> < 2 ^ 53 \<Longrightarrow> fl q = q"
  unfolding fl_def using sig_round_exact [of 2 53 m q k] by simp

lemma fl_of_int: "\<bar>n\<bar> < 2 ^ 53 \<Longrightarrow> fl (of_int n) = of_int n"
  by (rule fl_exact [of _ n 0]) simp_all

lemma fl_error: "\<bar>fl q - q\<bar> \<le> \<bar>q\<bar> / 2 ^ 53"
  using sig_round_error [of 2 53 q] by (simp add: fl_def)

end
