(* ===== verification/Trading_Types.thy ===== *)
theory Trading_Types
  imports Numerics
begin

text \<open>
  The data that the trading components exchange: signals and fills (strategies/signals.py),
  orders (orders/models.py), and the rows of the positions, transactions and accounts tables
  (models/position.py, models/transaction.py, models/account.py). Field names carry a prefix
  for their class, since record fields are constants of the theory. A timestamp is an
  integer count of microseconds; the clock is an argument of the operations that read it.
\<close>

section \<open>Signals and fills\<close>

datatype side = Buy | Sell

datatype order_type = Market | Limit

record signal =
  sig_strategy_id :: string
  sig_symbol :: string
  sig_action :: side
  sig_quantity :: int
  sig_order_type :: order_type
  sig_limit_price :: "decimal option"
  sig_reason :: string
  sig_timestamp :: int
  sig_factor_scores :: "(string \<times> decimal) list"

record order_fill =
  fill_id :: string
  fill_order_id :: string
  fill_symbol :: string
  fill_side :: side
  fill_quantity :: int
  fill_price :: decimal
  fill_timestamp :: int

section \<open>Orders\<close>

datatype order_status =
    PENDING | SUBMITTED | PARTIAL_FILL | CANCEL_REQUESTED
  | FILLED | CANCELLED | REJECTED
  | EXPIRED | UNKNOWN

record order =
  order_id :: string
  broker_order_id :: "string option"
  ord_strategy_id :: string
  ord_symbol :: string
  ord_side :: side
  ord_quantity :: int
  ord_type :: order_type
  ord_limit_price :: "decimal option"
  ord_status :: order_status
  filled_qty :: int
  avg_fill_price :: "decimal option"
  created_at :: int
  updated_at :: int
  error_message :: "string option"

definition from_signal :: "signal \<Rightarrow> string \<Rightarrow> int \<Rightarrow> order" where
  "from_signal sg oid now =
     \<lparr>order_id = oid, broker_order_id = None, ord_strategy_id = sig_strategy_id sg,
      ord_symbol = sig_symbol sg, ord_side = sig_action sg, ord_quantity = sig_quantity sg,
      ord_type = sig_order_type sg, ord_limit_price = sig_limit_price sg,
      ord_status = PENDING, filled_qty = 0, avg_fill_price = None,
      created_at = now, updated_at = now, error_message = None\<rparr>"

section \<open>Database rows\<close>

datatype asset_type = STOCK | OPTION | FUTURE

datatype put_call = PUT | CALL

datatype position_status = OPEN | CLOSING | CLOSED | CLOSE_RETRYABLE | CLOSE_FAILED

record position =
  pos_id :: nat
  pos_account_id :: string
  pos_symbol :: string
  pos_asset_type :: asset_type
  pos_strategy_id :: "string option"
  pos_status :: position_status
  pos_quantity :: int
  avg_cost :: decimal
  current_price :: decimal
  strike :: "decimal option"
  expiry :: "int option"
  pos_put_call :: "put_call option"
  active_close_request_id :: "nat option"
  closed_at :: "int option"

definition multiplier :: "asset_type \<Rightarrow> int" where
  "multiplier t = (if t = OPTION then 100 else 1)"

definition market_value :: "position \<Rightarrow> decimal" where
  "market_value p =
     dec_mul (dec_mul (of_int (pos_quantity p)) (current_price p))
       (of_int (multiplier (pos_asset_type p)))"

definition unrealized_pnl :: "position \<Rightarrow> decimal" where
  "unrealized_pnl p =
     dec_mul (dec_mul (dec_sub (current_price p) (avg_cost p)) (of_int (pos_quantity p)))
       (of_int (multiplier (pos_asset_type p)))"

datatype transaction_action = TX_BUY | TX_SELL | DIVIDEND | FEE | INTEREST | TRANSFER

record transaction =
  tx_account_id :: string
  tx_symbol :: string
  tx_action :: transaction_action
  tx_quantity :: int
  tx_price :: decimal
  tx_commission :: decimal
  realized_pnl :: decimal
  tx_strategy_id :: "string option"
  tx_order_id :: "string option"
  tx_broker_order_id :: "string option"
  executed_at :: int

definition total_value :: "transaction \<Rightarrow> decimal" where
  "total_value t = dec_mul (of_int (tx_quantity t)) (tx_price t)"

record account =
  acc_account_id :: string
  acc_broker :: string
  acc_currency :: string
  cash :: decimal
  buying_power :: decimal
  margin_used :: decimal
  total_equity :: decimal
  synced_at :: "int option"

text \<open>
  Market value and unrealised profit of a position whose columns hold money values are
  exact: no digit is lost to the decimal context.
\<close>

lemma market_value_exact:
  assumes "money (current_price p)" and "int32 (pos_quantity p)"
  shows "market_value p =
    of_int (pos_quantity p) * current_price p * of_int (multiplier (pos_asset_type p))"
proof -
  have "dec_mul (current_price p) (of_int (pos_quantity p)) = current_price p * of_int (pos_quantity p)"
    using assms by (rule dec_mul_money)
  moreover have "on_grid (10 ^ 18 * 2 ^ 31) (current_price p * of_int (pos_quantity p))"
    using assms by (intro on_grid_of_int_mult) auto
  ultimately show ?thesis
    using dec_grid [of "10 ^ 18 * 2 ^ 31"] dec_grid_100 [of "10 ^ 18 * 2 ^ 31"]
    by (simp add: market_value_def multiplier_def dec_mul_def mult.commute)
qed

lemma unrealized_pnl_exact:
  assumes "money (current_price p)" and "money (avg_cost p)" and "int32 (pos_quantity p)"
  shows "unrealized_pnl p =
    (current_price p - avg_cost p) * of_int (pos_quantity p)
      * of_int (multiplier (pos_asset_type p))"
  using assms by (simp add: unrealized_pnl_def multiplier_def money_arith)

end
