(* ===== verification/Portfolio_Repo.thy ===== *)
theory Portfolio_Repo
  imports Trading_Types
begin

text \<open>
  The repository of db/repositories/portfolio_repo.py: the accounts, positions and
  transactions tables and the queries and updates on them. A table is a list of rows in
  insertion order. What the database does to a decimal that passes through a
  \<open>Numeric(18, 4)\<close> column is the parameter \<open>col\<close>: rows are refreshed from the database
  after every commit, so every stored decimal is a value of \<open>col\<close>. The locale
  \<open>numeric_column\<close> states the documented behaviour of such a column.
\<close>

record db =
  accounts :: "string \<rightharpoonup> account"
  positions :: "position list"
  transactions :: "transaction list"
  next_position_id :: nat

section \<open>Accounts\<close>

definition new_account :: "string \<Rightarrow> string \<Rightarrow> string \<Rightarrow> account" where
  "new_account acct broker currency =
     \<lparr>acc_account_id = acct, acc_broker = broker, acc_currency = currency,
      cash = 0, buying_power = 0, margin_used = 0, total_equity = 0, synced_at = None\<rparr>"

definition create_account :: "db \<Rightarrow> string \<Rightarrow> string \<Rightarrow> string \<Rightarrow> (db \<times> account) result" where
  "create_account d acct broker currency =
     (case accounts d acct of
        Some _ \<Rightarrow> Inl (ExternalError ''IntegrityError'')
      | None \<Rightarrow>
          (let a = new_account acct broker currency
           in Inr (d\<lparr>accounts := (accounts d)(acct \<mapsto> a)\<rparr>, a)))"

definition get_account :: "db \<Rightarrow> string \<Rightarrow> account option" where
  "get_account d acct = accounts d acct"

definition set_opt :: "('a \<Rightarrow> 's \<Rightarrow> 's) \<Rightarrow> 'a option \<Rightarrow> 's \<Rightarrow> 's" where
  "set_opt f v s = (case v of None \<Rightarrow> s | Some x \<Rightarrow> f x s)"

definition update_account ::
  "(decimal \<Rightarrow> decimal) \<Rightarrow> db \<Rightarrow> string \<Rightarrow> decimal option \<Rightarrow> decimal option
   \<Rightarrow> decimal option \<Rightarrow> decimal option \<Rightarrow> int option \<Rightarrow> db \<times> account option" where
  "update_account col d acct c bp mu te sy =
     (case get_account d acct of
        None \<Rightarrow> (d, None)
      | Some a \<Rightarrow>
          (let a1 = set_opt (\<lambda>x s. s\<lparr>cash := col x\<rparr>) c a;
               a2 = set_opt (\<lambda>x s. s\<lparr>buying_power := col x\<rparr>) bp a1;
               a3 = set_opt (\<lambda>x s. s\<lparr>margin_used := col x\<rparr>) mu a2;
               a4 = set_opt (\<lambda>x s. s\<lparr>total_equity := col x\<rparr>) te a3;
               a5 = set_opt (\<lambda>x s. s\<lparr>synced_at := Some x\<rparr>) sy a4
           in (d\<lparr>accounts := (accounts d)(acct \<mapsto> a5)\<rparr>, Some a5)))"

section \<open>Positions\<close>

text \<open>The \<open>where\<close> clause: account and symbol, and the strategy when one is given.\<close>

definition pos_matches :: "string \<Rightarrow> string \<Rightarrow> string option \<Rightarrow> position \<Rightarrow> bool" where
  "pos_matches acct smb strat p \<longleftrightarrow>
     pos_account_id p = acct \<and> pos_symbol p = smb \<and>
     (strat \<noteq> None \<longrightarrow> pos_strategy_id p = strat)"

definition create_position ::
  "(decimal \<Rightarrow> decimal) \<Rightarrow> db \<Rightarrow> string \<Rightarrow> string \<Rightarrow> int \<Rightarrow> decimal \<Rightarrow> asset_type
   \<Rightarrow> string option \<Rightarrow> decimal option \<Rightarrow> int option \<Rightarrow> put_call option
   \<Rightarrow> db \<times> position" where
  "create_position col d acct smb qty cost atype strat strk expy pc =
     (let p = \<lparr>pos_id = next_position_id d, pos_account_id = acct, pos_symbol = smb,
               pos_asset_type = atype, pos_strategy_id = strat, pos_status = OPEN,
               pos_quantity = qty, avg_cost = col cost, current_price = 0,
               strike = map_option col strk, expiry = expy, pos_put_call = pc,
               active_close_request_id = None, closed_at = None\<rparr>
      in (d\<lparr>positions := positions d @ [p], next_position_id := Suc (next_position_id d)\<rparr>, p))"

text \<open>\<open>scalar_one_or_none\<close>: one row, none, or an exception when several match.\<close>

definition scalar_one_or_none :: "'a list \<Rightarrow> 'a option result" where
  "scalar_one_or_none rows =
     (case rows of
        [] \<Rightarrow> Inr None
      | [r] \<Rightarrow> Inr (Some r)
      | _ \<Rightarrow> Inl MultipleResultsFound)"

definition get_position :: "db \<Rightarrow> string \<Rightarrow> string \<Rightarrow> string option \<Rightarrow> position option result" where
  "get_position d acct smb strat =
     scalar_one_or_none (filter (pos_matches acct smb strat) (positions d))"

definition get_position_by_id :: "db \<Rightarrow> nat \<Rightarrow> position option result" where
  "get_position_by_id d pid =
     scalar_one_or_none (filter (\<lambda>p. pos_id p = pid) (positions d))"

definition get_positions ::
  "db \<Rightarrow> string \<Rightarrow> string option \<Rightarrow> string option \<Rightarrow> position_status option \<Rightarrow> position list" where
  "get_positions d acct strat smb status =
     filter (\<lambda>p. pos_account_id p = acct
               \<and> (strat \<noteq> None \<longrightarrow> pos_strategy_id p = strat)
               \<and> (smb \<noteq> None \<longrightarrow> Some (pos_symbol p) = smb)
               \<and> (status \<noteq> None \<longrightarrow> Some (pos_status p) = status)) (positions d)"

definition get_open_positions :: "db \<Rightarrow> string \<Rightarrow> string option \<Rightarrow> position list" where
  "get_open_positions d acct strat = get_positions d acct strat None (Some OPEN)"

definition write_row :: "db \<Rightarrow> position \<Rightarrow> db" where
  "write_row d p =
     d\<lparr>positions := map (\<lambda>r. if pos_id r = pos_id p then p else r) (positions d)\<rparr>"

definition update_position ::
  "(decimal \<Rightarrow> decimal) \<Rightarrow> db \<Rightarrow> string \<Rightarrow> string \<Rightarrow> int option \<Rightarrow> decimal option
   \<Rightarrow> decimal option \<Rightarrow> string option \<Rightarrow> (db \<times> position option) result" where
  "update_position col d acct smb qty cost price strat =
     res_bind (get_position d acct smb strat) (\<lambda>found.
       case found of
         None \<Rightarrow> Inr (d, None)
       | Some p \<Rightarrow>
           (let p1 = set_opt (\<lambda>x s. s\<lparr>pos_quantity := x\<rparr>) qty p;
                p2 = set_opt (\<lambda>x s. s\<lparr>avg_cost := col x\<rparr>) cost p1;
                p3 = set_opt (\<lambda>x s. s\<lparr>current_price := col x\<rparr>) price p2
            in Inr (write_row d p3, Some p3)))"

definition update_position_status ::
  "db \<Rightarrow> nat \<Rightarrow> position_status \<Rightarrow> (db \<times> position option) result" where
  "update_position_status d pid st =
     res_bind (get_position_by_id d pid) (\<lambda>found.
       case found of
         None \<Rightarrow> Inr (d, None)
       | Some p \<Rightarrow> (let p1 = p\<lparr>pos_status := st\<rparr> in Inr (write_row d p1, Some p1)))"

definition close_position :: "db \<Rightarrow> string \<Rightarrow> string \<Rightarrow> string option \<Rightarrow> db \<times> bool" where
  "close_position d acct smb strat =
     (d\<lparr>positions := filter (\<lambda>p. \<not> pos_matches acct smb strat p) (positions d)\<rparr>,
      filter (pos_matches acct smb strat) (positions d) \<noteq> [])"

section \<open>Transactions\<close>

definition record_transaction ::
  "(decimal \<Rightarrow> decimal) \<Rightarrow> db \<Rightarrow> transaction \<Rightarrow> db \<times> transaction" where
  "record_transaction col d t =
     (let row = t\<lparr>tx_price := col (tx_price t), tx_commission := col (tx_commission t),
                  realized_pnl := col (realized_pnl t)\<rparr>
      in (d\<lparr>transactions := transactions d @ [row]\<rparr>, row))"

definition get_transactions ::
  "db \<Rightarrow> string \<Rightarrow> string option \<Rightarrow> string option \<Rightarrow> nat \<Rightarrow> transaction list" where
  "get_transactions d acct smb strat limit =
     take limit (sort_key (\<lambda>t. - executed_at t)
       (filter (\<lambda>t. tx_account_id t = acct
                  \<and> (smb \<noteq> None \<longrightarrow> Some (tx_symbol t) = smb)
                  \<and> (strat \<noteq> None \<longrightarrow> tx_strategy_id t = strat)) (transactions d)))"

section \<open>The column contract\<close>

locale numeric_column =
  fixes col :: "decimal \<Rightarrow> decimal"
  assumes col_money: "money x \<Longrightarrow> col x = x"
    and col_error: "\<bar>col x - x\<bar> \<le> 1 / 20000"
    and col_mono: "x \<le> y \<Longrightarrow> col x \<le> col y"
begin

lemma col_0 [simp]: "col 0 = 0"
  by (rule col_money) (simp add: on_grid_0)

lemma col_nonneg: "0 \<le> x \<Longrightarrow> 0 \<le> col x"
  using col_mono [of 0 x] by simp

lemma col_between: "money lo \<Longrightarrow> money hi \<Longrightarrow> lo \<le> x \<Longrightarrow> x \<le> hi \<Longrightarrow> lo \<le> col x \<and> col x \<le> hi"
  using col_mono [of lo x] col_mono [of x hi] by (simp add: col_money)

end

text \<open>The rounding a scale of 4 stands for, half away from zero.\<close>

definition round_scale4 :: "decimal \<Rightarrow> decimal" where
  "round_scale4 x =
     (if 0 \<le> x then of_int \<lfloor>x * 10000 + 1 / 2\<rfloor> / 10000
      else - (of_int \<lfloor>- x * 10000 + 1 / 2\<rfloor> / 10000))"

lemma floor_plus_half_int: "\<lfloor>of_int m + 1 / 2 :: rat\<rfloor> = m"
  by (rule floor_unique) auto

lemma round_scale4_error: "\<bar>round_scale4 x - x\<bar> \<le> 1 / 20000"
proof -
  have *: "\<bar>of_int \<lfloor>y * 10000 + 1 / 2\<rfloor> / 10000 - y\<bar> \<le> (1 / 20000 :: rat)" for y
    using floor_correct [of "y * 10000 + 1 / 2"] by linarith
  show ?thesis using * [of x] * [of "- x"] unfolding round_scale4_def by (split if_split) linarith
qed

lemma round_scale4_mono: "x \<le> y \<Longrightarrow> round_scale4 x \<le> round_scale4 y"
proof -
  assume xy: "x \<le> y"
  have up: "of_int \<lfloor>u * 10000 + 1 / 2\<rfloor> / 10000 \<le> (of_int \<lfloor>v * 10000 + 1 / 2\<rfloor> / 10000 :: rat)"
    if "u \<le> v" for u v :: rat
    using that by (simp add: floor_mono divide_right_mono)
  have nonneg: "0 \<le> (of_int \<lfloor>u * 10000 + 1 / 2\<rfloor> / 10000 :: rat)" if "0 \<le> u" for u :: rat
    using that by simp
  consider "0 \<le> x" | "y < 0" | "x < 0" "0 \<le> y" using xy by linarith
  then show ?thesis
  proof cases
    case 1
    then show ?thesis using up [OF xy] xy unfolding round_scale4_def by simp
  next
    case 2
    then show ?thesis using up [of "- y" "- x"] xy unfolding round_scale4_def by simp
  next
    case 3
    then have "0 \<le> round_scale4 y" and "round_scale4 x \<le> 0"
      using nonneg [of y] nonneg [of "- x"] unfolding round_scale4_def by simp_all
    then show ?thesis by linarith
  qed
qed

interpretation scale4: numeric_column round_scale4
proof unfold_locales
  fix x :: decimal
  assume "money x"
  then obtain m where m: "x = of_int m / 10 ^ 4" by (rule on_gridE)
  then have "x * 10000 = of_int m" "- x * 10000 = of_int (- m)" by simp_all
  then show "round_scale4 x = x"
    unfolding round_scale4_def by (simp only: floor_plus_half_int) (simp add: m)
qed (rule round_scale4_error, rule round_scale4_mono)

section \<open>The table invariant\<close>

text \<open>
  Row identifiers are distinct and below the next one; this is the primary key.
\<close>

definition db_ok :: "db \<Rightarrow> bool" where
  "db_ok d \<longleftrightarrow> distinct (map pos_id (positions d))
     \<and> list_all (\<lambda>p. pos_id p < next_position_id d) (positions d)"

text \<open>One open row per account, symbol and strategy.\<close>

definition unique_key :: "db \<Rightarrow> bool" where
  "unique_key d \<longleftrightarrow>
     distinct (map (\<lambda>p. (pos_account_id p, pos_symbol p, pos_strategy_id p)) (positions d))"

lemma create_position_ok:
  "db_ok d \<Longrightarrow> create_position col d acct smb q c atype s k e pc = (d', p) \<Longrightarrow> db_ok d'"
  by (fastforce simp: create_position_def db_ok_def Let_def list_all_iff)

lemma map_pos_id_write_row [simp]: "map pos_id (positions (write_row d p)) = map pos_id (positions d)"
  by (auto simp: write_row_def)

lemma next_id_write_row [simp]: "next_position_id (write_row d p) = next_position_id d"
  by (simp add: write_row_def)

lemma db_ok_alt:
  "db_ok d \<longleftrightarrow> distinct (map pos_id (positions d))
     \<and> (\<forall>i \<in> set (map pos_id (positions d)). i < next_position_id d)"
  by (auto simp: db_ok_def list_all_iff)

lemma write_row_ok: "db_ok d \<Longrightarrow> db_ok (write_row d p)"
  unfolding db_ok_alt by simp

lemma close_position_ok: "db_ok d \<Longrightarrow> db_ok (fst (close_position d acct smb strat))"
  by (auto simp: close_position_def db_ok_def list_all_iff distinct_map inj_on_def)

lemma scalar_one_or_none_Some:
  "scalar_one_or_none rows = Inr (Some r) \<longleftrightarrow> rows = [r]"
  by (auto simp: scalar_one_or_none_def split: list.splits)

lemma scalar_one_or_none_None:
  "scalar_one_or_none rows = Inr None \<longleftrightarrow> rows = []"
  by (auto simp: scalar_one_or_none_def split: list.splits)

lemma filter_singletonD: "filter P xs = [r] \<Longrightarrow> r \<in> set xs \<and> P r"
  by (metis filter_eq_ConsD in_set_conv_decomp)

lemma filter_key_cases:
  assumes "distinct (map k xs)"
  obtains "filter (\<lambda>x. k x = v) xs = []" | x where "filter (\<lambda>x. k x = v) xs = [x]"
proof -
  have "filter (\<lambda>x. k x = v) xs = [] \<or> (\<exists>x. filter (\<lambda>x. k x = v) xs = [x])"
    using assms
  proof (induction xs)
    case (Cons x xs)
    then have "filter (\<lambda>y. k y = k x) xs = []" by (simp add: filter_empty_conv) (metis imageI)
    with Cons show ?case by (cases "k x = v") auto
  qed simp
  then show thesis using that by blast
qed

text \<open>A query by a unique key never raises.\<close>

lemma scalar_key_total:
  "distinct (map k xs) \<Longrightarrow> \<exists>r. scalar_one_or_none (filter (\<lambda>x. k x = v) xs) = Inr r"
  by (erule filter_key_cases [of k xs v]) (simp_all add: scalar_one_or_none_def)

lemma get_position_Some:
  "get_position d acct smb strat = Inr (Some p)
     \<longleftrightarrow> filter (pos_matches acct smb strat) (positions d) = [p]"
  by (simp add: get_position_def scalar_one_or_none_Some)

lemma get_position_None:
  "get_position d acct smb strat = Inr None
     \<longleftrightarrow> filter (pos_matches acct smb strat) (positions d) = []"
  by (simp add: get_position_def scalar_one_or_none_None)

lemma get_position_in: "get_position d acct smb strat = Inr (Some p) \<Longrightarrow> p \<in> set (positions d)"
  unfolding get_position_Some by (metis filter_is_subset list.set_intros(1) subsetD)

lemma get_position_matches:
  "get_position d acct smb strat = Inr (Some p) \<Longrightarrow> pos_matches acct smb strat p"
  unfolding get_position_Some by (metis filter_eq_ConsD)

text \<open>With a strategy given and one row per key, the query never raises.\<close>

lemma get_position_total:
  assumes "unique_key d"
  shows "\<exists>r. get_position d acct smb (Some s) = Inr r"
proof -
  let ?rows = "filter (pos_matches acct smb (Some s)) (positions d)"
  let ?key = "\<lambda>p. (pos_account_id p, pos_symbol p, pos_strategy_id p)"
  have "distinct (map ?key ?rows)"
    using assms unfolding unique_key_def by (auto simp: distinct_map inj_on_def)
  moreover have "\<forall>p \<in> set ?rows. ?key p = (acct, smb, Some s)" by (auto simp: pos_matches_def)
  ultimately have "length ?rows \<le> 1"
    by (cases ?rows; cases "tl ?rows") auto
  then show ?thesis
    by (cases ?rows; cases "tl ?rows") (auto simp: get_position_def scalar_one_or_none_def)
qed

text \<open>Writing back the row that matched gives it back to the same query.\<close>

lemma get_after_write:
  assumes ok: "db_ok d" and g: "get_position d acct smb strat = Inr (Some p)"
    and id: "pos_id p' = pos_id p" and m: "pos_matches acct smb strat p'"
  shows "get_position (write_row d p') acct smb strat = Inr (Some p')"
proof -
  have "r = p" if "r \<in> set (positions d)" "pos_id r = pos_id p" for r
    using that ok get_position_in [OF g] by (auto simp: db_ok_def distinct_map inj_on_def)
  then have "filter (pos_matches acct smb strat) (positions (write_row d p'))
      = map (\<lambda>r. if pos_id r = pos_id p then p' else r)
          (filter (pos_matches acct smb strat) (positions d))"
    using m get_position_matches [OF g]
    unfolding write_row_def by (simp add: id) (rule filter_map_replace, auto)
  then show ?thesis using g by (simp add: get_position_Some)
qed

end
