(* ===== verification/Portfolio_Manager.thy ===== *)
theory Portfolio_Manager
  imports Portfolio_Repo
begin

text \<open>
  The portfolio manager of core/portfolio.py on the repository: recording a fill (new
  position, weighted average cost, partial close, flip, full close), exposure, unrealised
  and realised profit, and price updates. The lemmas show that a fill preserves the table
  invariants, what every branch of a fill does, and that the profit a fill books is the
  change of the position's value: no money appears or disappears.
\<close>

section \<open>Accounts and queries\<close>

definition sync_account ::
  "(decimal \<Rightarrow> decimal) \<Rightarrow> int \<Rightarrow> db \<Rightarrow> string \<Rightarrow> decimal \<Rightarrow> decimal \<Rightarrow> decimal \<Rightarrow> decimal
   \<Rightarrow> db \<times> account option" where
  "sync_account col now d acct c bp mu te =
     update_account col d acct (Some c) (Some bp) (Some mu) (Some te) (Some now)"

definition get_exposure :: "db \<Rightarrow> string \<Rightarrow> string \<Rightarrow> decimal" where
  "get_exposure d acct smb = dec_sum (map market_value (get_positions d acct None (Some smb) None))"

section \<open>Recording a fill\<close>

text \<open>
  The arithmetic of the branches of \<open>record_fill\<close> for an existing position: the realised
  profit, the new quantity, and the new average cost, or \<open>None\<close> when the position closes.
\<close>

definition fill_outcome ::
  "int \<Rightarrow> decimal \<Rightarrow> side \<Rightarrow> int \<Rightarrow> decimal \<Rightarrow> int \<Rightarrow> (decimal \<times> int \<times> decimal option) result" where
  "fill_outcome old_qty old_cost sd quantity price mul =
     (if sd = Buy then
        (let new_qty = old_qty + quantity
         in if new_qty = 0 then
              Inr (dec_mul (dec_mul (dec_sub old_cost price) (of_int quantity)) (of_int mul), 0, None)
            else if old_qty < 0 then
              (let cover_qty = min quantity \<bar>old_qty\<bar>;
                   pnl = dec_mul (dec_mul (dec_sub old_cost price) (of_int cover_qty)) (of_int mul);
                   new_cost = (if new_qty > 0 then price else old_cost)
               in Inr (pnl, new_qty, Some new_cost))
            else
              (let total_cost = dec_add (dec_mul old_cost (of_int old_qty))
                                        (dec_mul price (of_int quantity))
               in res_bind (dec_div total_cost (of_int new_qty)) (\<lambda>new_cost.
                    Inr (0, new_qty, Some new_cost))))
      else
        (let new_qty = old_qty - quantity
         in if new_qty = 0 then
              Inr (dec_mul (dec_mul (dec_sub price old_cost) (of_int quantity)) (of_int mul), 0, None)
            else if old_qty > 0 then
              (let sell_qty = min quantity old_qty;
                   pnl = dec_mul (dec_mul (dec_sub price old_cost) (of_int sell_qty)) (of_int mul);
                   new_cost = (if new_qty < 0 then price else old_cost)
               in Inr (pnl, new_qty, Some new_cost))
            else
              (let total_cost = dec_add (dec_mul old_cost (of_int \<bar>old_qty\<bar>))
                                        (dec_mul price (of_int quantity))
               in res_bind (dec_div total_cost (of_int \<bar>new_qty\<bar>)) (\<lambda>new_cost.
                    Inr (0, new_qty, Some new_cost)))))"

record fill_request =
  req_account_id :: string
  req_symbol :: string
  req_side :: side
  req_quantity :: int
  req_price :: decimal
  req_commission :: decimal
  req_strategy_id :: "string option"
  req_order_id :: "string option"
  req_broker_order_id :: "string option"
  req_asset_type :: asset_type
  req_strike :: "decimal option"
  req_expiry :: "int option"
  req_put_call :: "put_call option"

definition fill_transaction :: "fill_request \<Rightarrow> decimal \<Rightarrow> int \<Rightarrow> transaction" where
  "fill_transaction r pnl now =
     \<lparr>tx_account_id = req_account_id r, tx_symbol = req_symbol r,
      tx_action = (if req_side r = Buy then TX_BUY else TX_SELL),
      tx_quantity = req_quantity r, tx_price = req_price r, tx_commission = req_commission r,
      realized_pnl = pnl, tx_strategy_id = req_strategy_id r, tx_order_id = req_order_id r,
      tx_broker_order_id = req_broker_order_id r, executed_at = now\<rparr>"

definition record_fill ::
  "(decimal \<Rightarrow> decimal) \<Rightarrow> int \<Rightarrow> db \<Rightarrow> fill_request \<Rightarrow> (db \<times> position option) result" where
  "record_fill col now d r =
     (let acct = req_account_id r; smb = req_symbol r; strat = req_strategy_id r;
          qty = req_quantity r; price = req_price r
      in res_bind (get_position d acct smb strat) (\<lambda>existing.
         case existing of
           None \<Rightarrow>
             (let (d1, p) = create_position col d acct smb
                              (if req_side r = Buy then qty else - qty) price
                              (req_asset_type r) strat (req_strike r) (req_expiry r) (req_put_call r);
                  (d2, _) = record_transaction col d1 (fill_transaction r 0 now)
              in Inr (d2, Some p))
         | Some old \<Rightarrow>
             res_bind (fill_outcome (pos_quantity old) (avg_cost old) (req_side r) qty price
                         (multiplier (req_asset_type r))) (\<lambda>(pnl, new_qty, new_cost).
             res_bind
               (case new_cost of
                  None \<Rightarrow> (let (d1, _) = close_position d acct smb strat
                           in Inr (d1, Some (old\<lparr>pos_quantity := 0\<rparr>)))
                | Some c \<Rightarrow> update_position col d acct smb (Some new_qty) (Some c) None strat)
               (\<lambda>(d1, p). let (d2, _) = record_transaction col d1 (fill_transaction r pnl now)
                          in Inr (d2, p)))))"

section \<open>Profit and prices\<close>

text \<open>
  \<open>quote\<close> is the Redis lookup of the key for a symbol, already read as a decimal; \<open>None\<close>
  stands for no client, no key or an empty value.
\<close>

definition position_pnl :: "(string \<Rightarrow> decimal option) \<Rightarrow> position \<Rightarrow> decimal" where
  "position_pnl quote p =
     (let price = (case quote (pos_symbol p) of None \<Rightarrow> current_price p | Some q \<Rightarrow> q)
      in dec_mul (dec_mul (dec_sub price (avg_cost p)) (of_int (pos_quantity p)))
           (of_int (multiplier (pos_asset_type p))))"

definition calculate_unrealized_pnl ::
  "(string \<Rightarrow> decimal option) \<Rightarrow> db \<Rightarrow> string \<Rightarrow> string option \<Rightarrow> decimal" where
  "calculate_unrealized_pnl quote d acct strat =
     dec_sum (map (position_pnl quote) (get_positions d acct strat None None))"

text \<open>The query keeps its default limit of 100 transactions.\<close>

definition calculate_realized_pnl :: "db \<Rightarrow> string \<Rightarrow> string option \<Rightarrow> decimal" where
  "calculate_realized_pnl d acct strat =
     dec_sum (map realized_pnl (get_transactions d acct None strat 100))"

fun update_prices_loop ::
  "(decimal \<Rightarrow> decimal) \<Rightarrow> string \<Rightarrow> (string \<rightharpoonup> decimal) \<Rightarrow> position list \<Rightarrow> db \<Rightarrow> db result" where
  "update_prices_loop col acct prices [] d = Inr d"
| "update_prices_loop col acct prices (p # ps) d =
     (case prices (pos_symbol p) of
        None \<Rightarrow> update_prices_loop col acct prices ps d
      | Some x \<Rightarrow>
          res_bind (update_position col d acct (pos_symbol p) None None (Some x) (pos_strategy_id p))
            (\<lambda>(d1, _). update_prices_loop col acct prices ps d1))"

definition update_prices ::
  "(decimal \<Rightarrow> decimal) \<Rightarrow> db \<Rightarrow> string \<Rightarrow> (string \<rightharpoonup> decimal) \<Rightarrow> db result" where
  "update_prices col d acct prices =
     update_prices_loop col acct prices (get_positions d acct None None None) d"

section \<open>Branches of a fill\<close>

lemma dec_div_nonzero: "y \<noteq> 0 \<Longrightarrow> dec_div x y = Inr (dec (x / y))"
  by (simp add: dec_div_def)

lemmas fill_outcome_unfold = fill_outcome_def Let_def dec_div_nonzero

text \<open>No branch of a fill divides by zero.\<close>

lemma fill_outcome_total: "\<exists>pnl q c. fill_outcome oq oc sd n x m = Inr (pnl, q, c)"
  by (auto simp: fill_outcome_unfold)

lemma fill_outcome_quantity:
  "fill_outcome oq oc sd n x m = Inr (pnl, q, c) \<Longrightarrow> q = (if sd = Buy then oq + n else oq - n)"
  by (auto simp: fill_outcome_unfold split: if_splits)

lemma fill_outcome_closes:
  "fill_outcome oq oc sd n x m = Inr (pnl, q, c) \<Longrightarrow> c = None \<longleftrightarrow> q = 0"
  by (auto simp: fill_outcome_unfold split: if_splits)

text \<open>
  The signed quantity a fill adds, and the value of a holding against a price \<open>m\<close>: what
  closing it at \<open>m\<close> would gain.
\<close>

definition signed_qty :: "side \<Rightarrow> int \<Rightarrow> int" where
  "signed_qty sd n = (if sd = Buy then n else - n)"

definition holding_gain :: "int \<Rightarrow> decimal \<Rightarrow> decimal \<Rightarrow> rat" where
  "holding_gain q cost m = of_int q * (m - cost)"

section \<open>What a fill does to the tables\<close>

text \<open>The row a first fill opens, the row a later one leaves, and the transaction booked.\<close>

definition opened_row :: "(decimal \<Rightarrow> decimal) \<Rightarrow> db \<Rightarrow> fill_request \<Rightarrow> position" where
  "opened_row col d r =
     \<lparr>pos_id = next_position_id d, pos_account_id = req_account_id r, pos_symbol = req_symbol r,
      pos_asset_type = req_asset_type r, pos_strategy_id = req_strategy_id r, pos_status = OPEN,
      pos_quantity = signed_qty (req_side r) (req_quantity r), avg_cost = col (req_price r),
      current_price = 0, strike = map_option col (req_strike r), expiry = req_expiry r,
      pos_put_call = req_put_call r, active_close_request_id = None, closed_at = None\<rparr>"

definition booked :: "(decimal \<Rightarrow> decimal) \<Rightarrow> int \<Rightarrow> fill_request \<Rightarrow> decimal \<Rightarrow> transaction" where
  "booked col now r pnl = snd (record_transaction col
     \<lparr>accounts = Map.empty, positions = [], transactions = [], next_position_id = 0\<rparr>
     (fill_transaction r pnl now))"

lemma booked_pnl [simp]: "realized_pnl (booked col now r pnl) = col pnl"
  by (simp add: booked_def record_transaction_def fill_transaction_def Let_def)

lemma record_transaction_booked:
  "record_transaction col d (fill_transaction r pnl now)
     = (d\<lparr>transactions := transactions d @ [booked col now r pnl]\<rparr>, booked col now r pnl)"
  by (simp add: booked_def record_transaction_def fill_transaction_def Let_def)

abbreviation req_position :: "db \<Rightarrow> fill_request \<Rightarrow> position option result" where
  "req_position d r \<equiv> get_position d (req_account_id r) (req_symbol r) (req_strategy_id r)"

abbreviation req_matches :: "fill_request \<Rightarrow> position \<Rightarrow> bool" where
  "req_matches r \<equiv> pos_matches (req_account_id r) (req_symbol r) (req_strategy_id r)"

abbreviation req_outcome :: "position \<Rightarrow> fill_request \<Rightarrow> (decimal \<times> int \<times> decimal option) result" where
  "req_outcome old r \<equiv>
     fill_outcome (pos_quantity old) (avg_cost old) (req_side r) (req_quantity r) (req_price r)
       (multiplier (req_asset_type r))"

lemma record_fill_open:
  "req_position d r = Inr None \<Longrightarrow>
   record_fill col now d r =
     Inr (d\<lparr>positions := positions d @ [opened_row col d r],
            next_position_id := Suc (next_position_id d),
            transactions := transactions d @ [booked col now r 0]\<rparr>,
          Some (opened_row col d r))"
  by (simp add: record_fill_def create_position_def record_transaction_booked Let_def
      opened_row_def signed_qty_def)

lemma record_fill_close:
  "req_position d r = Inr (Some old) \<Longrightarrow> req_outcome old r = Inr (pnl, q, None) \<Longrightarrow>
   record_fill col now d r =
     Inr (d\<lparr>positions := filter (\<lambda>p. \<not> req_matches r p) (positions d),
            transactions := transactions d @ [booked col now r pnl]\<rparr>,
          Some (old\<lparr>pos_quantity := 0\<rparr>))"
  by (simp add: record_fill_def close_position_def record_transaction_booked Let_def)

lemma record_fill_change:
  "req_position d r = Inr (Some old) \<Longrightarrow> req_outcome old r = Inr (pnl, q, Some c) \<Longrightarrow>
   record_fill col now d r =
     (let new = old\<lparr>pos_quantity := q, avg_cost := col c\<rparr>; d1 = write_row d new
      in Inr (d1\<lparr>transactions := transactions d1 @ [booked col now r pnl]\<rparr>, Some new))"
  by (simp add: record_fill_def update_position_def set_opt_def record_transaction_booked Let_def)

text \<open>A fill raises only when several positions match the request.\<close>

lemma record_fill_raises:
  "(\<exists>e. record_fill col now d r = Inl e) \<longleftrightarrow> req_position d r = Inl MultipleResultsFound"
proof (cases "req_position d r")
  case (Inl e)
  then have "e = MultipleResultsFound"
    by (auto simp: get_position_def scalar_one_or_none_def split: list.splits)
  with Inl show ?thesis by (auto simp: record_fill_def Let_def)
next
  case (Inr found)
  show ?thesis
  proof (cases found)
    case None
    with Inr show ?thesis by (simp add: record_fill_open)
  next
    case (Some old)
    obtain pnl q c where "req_outcome old r = Inr (pnl, q, c)" using fill_outcome_total by blast
    with Inr Some show ?thesis
      by (cases c) (simp_all add: record_fill_close record_fill_change Let_def)
  qed
qed

text \<open>The three ways a fill can succeed, as a case rule for the properties.\<close>

lemma record_fill_cases [consumes 1, case_names opened closed changed]:
  assumes "record_fill col now d r = Inr (d', p)"
  obtains "req_position d r = Inr None" "p = Some (opened_row col d r)"
      "d' = d\<lparr>positions := positions d @ [opened_row col d r],
              next_position_id := Suc (next_position_id d),
              transactions := transactions d @ [booked col now r 0]\<rparr>"
  | old pnl where "req_position d r = Inr (Some old)" "req_outcome old r = Inr (pnl, 0, None)"
      "p = Some (old\<lparr>pos_quantity := 0\<rparr>)"
      "d' = d\<lparr>positions := filter (\<lambda>p. \<not> req_matches r p) (positions d),
              transactions := transactions d @ [booked col now r pnl]\<rparr>"
  | old pnl q c new where "req_position d r = Inr (Some old)"
      "req_outcome old r = Inr (pnl, q, Some c)" "q \<noteq> 0"
      "new = old\<lparr>pos_quantity := q, avg_cost := col c\<rparr>" "p = Some new"
      "d' = (write_row d new)\<lparr>transactions := transactions d @ [booked col now r pnl]\<rparr>"
proof (cases "req_position d r")
  case (Inl e)
  with assms show thesis by (simp add: record_fill_def Let_def)
next
  case (Inr found)
  show thesis
  proof (cases found)
    case None
    with Inr assms show thesis by (intro that(1)) (simp_all add: record_fill_open)
  next
    case (Some old)
    obtain pnl q c where o: "req_outcome old r = Inr (pnl, q, c)" using fill_outcome_total by blast
    show thesis
    proof (cases c)
      case None
      moreover then have "q = 0" using fill_outcome_closes [OF o] by simp
      ultimately show thesis using Inr Some o assms
        by (intro that(2)) (auto simp: record_fill_close)
    next
      case (Some k)
      moreover then have "q \<noteq> 0" using fill_outcome_closes [OF o] by simp
      ultimately show thesis using Inr \<open>found = Some old\<close> o assms
        by (intro that(3)) (auto simp: record_fill_change Let_def write_row_def)
    qed
  qed
qed

section \<open>Invariants\<close>

lemma record_fill_db_ok:
  assumes "db_ok d" and "record_fill col now d r = Inr (d', p)"
  shows "db_ok d'"
  using assms(2)
proof (cases rule: record_fill_cases)
  case opened
  with assms(1) show ?thesis by (auto simp: db_ok_def list_all_iff opened_row_def)
next
  case (closed old pnl)
  with assms(1) show ?thesis by (auto simp: db_ok_def list_all_iff distinct_map inj_on_def)
next
  case (changed old pnl q c new)
  with write_row_ok [OF assms(1), of new] show ?thesis by (simp add: db_ok_def)
qed

lemma write_row_keys:
  assumes "db_ok d" and "old \<in> set (positions d)" and "pos_id new = pos_id old"
    and "pos_account_id new = pos_account_id old" "pos_symbol new = pos_symbol old"
      "pos_strategy_id new = pos_strategy_id old"
  shows "map (\<lambda>p. (pos_account_id p, pos_symbol p, pos_strategy_id p)) (positions (write_row d new))
    = map (\<lambda>p. (pos_account_id p, pos_symbol p, pos_strategy_id p)) (positions d)"
proof -
  have "r = old" if "r \<in> set (positions d)" "pos_id r = pos_id old" for r
    using that assms by (auto simp: db_ok_def distinct_map inj_on_def)
  then show ?thesis using assms by (auto simp: write_row_def)
qed

lemma unique_key_append:
  assumes "unique_key d" and "req_position d r = Inr None"
  shows "unique_key (d\<lparr>positions := positions d @ [opened_row col d r]\<rparr>)"
proof -
  have "\<forall>p \<in> set (positions d). \<not> req_matches r p"
    using assms(2) by (simp add: get_position_None filter_empty_conv)
  then have "(req_account_id r, req_symbol r, req_strategy_id r)
      \<notin> (\<lambda>p. (pos_account_id p, pos_symbol p, pos_strategy_id p)) ` set (positions d)"
    by (auto simp: pos_matches_def)
  then show ?thesis using assms(1) by (simp add: unique_key_def opened_row_def)
qed

lemma record_fill_unique_key:
  assumes "db_ok d" and "unique_key d" and "record_fill col now d r = Inr (d', p)"
  shows "unique_key d'"
  using assms(3)
proof (cases rule: record_fill_cases)
  case opened
  with unique_key_append [OF assms(2)] show ?thesis by (simp add: unique_key_def)
next
  case (closed old pnl)
  with assms(2) show ?thesis by (auto simp: unique_key_def distinct_map inj_on_def)
next
  case (changed old pnl q c new)
  with assms(2) write_row_keys [OF assms(1) get_position_in [OF changed(1)], of new]
  show ?thesis by (simp add: unique_key_def)
qed

section \<open>Net quantity\<close>

definition net_quantity :: "db \<Rightarrow> string \<Rightarrow> string \<Rightarrow> int" where
  "net_quantity d acct smb =
     sum_list (map pos_quantity (filter (pos_matches acct smb None) (positions d)))"

text \<open>Replacing or removing one row changes the total by that row alone.\<close>

lemma sum_list_replace:
  assumes "distinct (map k xs)" and "x \<in> set xs" and "k y = k x" and "P x" and "P y"
  shows "sum_list (map f (filter P (map (\<lambda>r. if k r = k y then y else r) xs)))
    = sum_list (map f (filter P xs)) - f x + (f y :: int)"
  using assms
proof (induction xs)
  case (Cons z zs)
  show ?case
  proof (cases "z = x")
    case True
    with Cons.prems have "k y \<notin> k ` set zs" by simp
    then have "map (\<lambda>r. if k r = k y then y else r) zs = zs"
      by (intro map_if_id) (metis imageI)
    with True Cons.prems show ?thesis by simp
  next
    case False
    with Cons.prems have "k z \<noteq> k y" by force
    with False Cons show ?thesis by auto
  qed
qed simp

lemma sum_list_remove:
  assumes "filter Q xs = [x]" and "P x"
  shows "sum_list (map f (filter P (filter (\<lambda>r. \<not> Q r) xs)))
    = sum_list (map f (filter P xs)) - (f x :: int)"
proof -
  have "sum_list (map f (filter P xs)) = sum_list (map f (filter P (filter Q xs)))
      + sum_list (map f (filter P (filter (\<lambda>r. \<not> Q r) xs)))"
    by (induction xs) auto
  then show ?thesis using assms by simp
qed

lemma req_matches_None: "req_matches r p \<Longrightarrow> pos_matches (req_account_id r) (req_symbol r) None p"
  by (simp add: pos_matches_def)

lemma record_fill_net:
  assumes "db_ok d" and "record_fill col now d r = Inr (d', p)"
  shows "net_quantity d' (req_account_id r) (req_symbol r)
    = net_quantity d (req_account_id r) (req_symbol r)
      + signed_qty (req_side r) (req_quantity r)"
  using assms(2)
proof (cases rule: record_fill_cases)
  case opened
  then show ?thesis by (simp add: net_quantity_def opened_row_def pos_matches_def)
next
  case (closed old pnl)
  then have f: "filter (req_matches r) (positions d) = [old]" by (simp add: get_position_Some)
  moreover have "pos_quantity old + signed_qty (req_side r) (req_quantity r) = 0"
    using fill_outcome_quantity [OF closed(2)] by (auto simp: signed_qty_def split: if_splits)
  ultimately show ?thesis
    using closed sum_list_remove [OF f, of "pos_matches (req_account_id r) (req_symbol r) None" pos_quantity]
      get_position_matches [OF closed(1)]
    by (simp add: net_quantity_def req_matches_None)
next
  case (changed old pnl q c new)
  have qty: "pos_quantity new = pos_quantity old + signed_qty (req_side r) (req_quantity r)"
    using fill_outcome_quantity [OF changed(2)] changed by (auto simp: signed_qty_def)
  have m: "pos_matches (req_account_id r) (req_symbol r) None old"
    using get_position_matches [OF changed(1)] by (rule req_matches_None)
  then have m': "pos_matches (req_account_id r) (req_symbol r) None new"
    using changed(4) by (simp add: pos_matches_def)
  have "positions d' = map (\<lambda>r. if pos_id r = pos_id new then new else r) (positions d)"
    using changed(6) by (simp add: write_row_def)
  moreover have "distinct (map pos_id (positions d))" using assms(1) by (simp add: db_ok_def)
  moreover have "pos_id new = pos_id old" using changed(4) by simp
  ultimately show ?thesis
    using sum_list_replace [of pos_id "positions d" old new _ pos_quantity, OF _ _ _ m m']
      get_position_in [OF changed(1)]
    by (simp add: net_quantity_def qty)
qed

section \<open>The value of a fill\<close>

lemma pnl_exact:
  "money x \<Longrightarrow> money y \<Longrightarrow> int32 n \<Longrightarrow>
   dec_mul (dec_mul (dec_sub x y) (of_int n)) (of_int (multiplier t))
     = (x - y) * of_int n * of_int (multiplier t)"
  by (simp add: multiplier_def money_arith)

text \<open>
  A fill against the position books the gain of the part it closes: booked profit plus what
  the remaining holding gains equals what the old holding and the trade gain together.
\<close>

lemma fill_outcome_reduces:
  assumes "fill_outcome oq oc sd n x (multiplier t) = Inr (pnl, q, c)"
    and "oq * signed_qty sd n < 0" and "0 < n"
    and "money oc" and "money x" and "int32 oq" and "int32 n"
  shows "pnl + of_int (multiplier t) * holding_gain q (case c of None \<Rightarrow> k | Some y \<Rightarrow> y) m
    = of_int (multiplier t) * (holding_gain oq oc m + holding_gain (signed_qty sd n) x m)"
proof (cases sd)
  case Buy
  with assms(2,3) have neg: "oq < 0" by (simp add: signed_qty_def mult_less_0_iff)
  have i: "int32 (min n \<bar>oq\<bar>)" using assms by auto
  show ?thesis
  proof (cases "oq + n = 0")
    case True
    then have [simp]: "oq = - n" by simp
    show ?thesis using assms Buy pnl_exact [OF assms(4,5,7), of t]
      by (auto simp: fill_outcome_unfold signed_qty_def holding_gain_def algebra_simps)
  next
    case False
    then show ?thesis using assms(1) Buy neg pnl_exact [OF assms(4,5) i, of t]
      by (auto simp: fill_outcome_unfold signed_qty_def holding_gain_def algebra_simps min_def
          split: if_splits)
  qed
next
  case Sell
  with assms(2,3) have pos: "0 < oq" by (simp add: signed_qty_def zero_less_mult_iff)
  have i: "int32 (min n oq)" using assms by auto
  show ?thesis
  proof (cases "oq - n = 0")
    case True
    then have [simp]: "oq = n" by simp
    show ?thesis using assms Sell pnl_exact [OF assms(5,4,7), of t]
      by (auto simp: fill_outcome_unfold signed_qty_def holding_gain_def algebra_simps)
  next
    case False
    then show ?thesis using assms(1) Sell pos pnl_exact [OF assms(5,4) i, of t]
      by (auto simp: fill_outcome_unfold signed_qty_def holding_gain_def algebra_simps min_def
          split: if_splits)
  qed
qed

text \<open>
  A fill in the direction of the position books nothing and leaves an average cost between
  the old cost and the fill price, off the exact average by one rounding.
\<close>

lemma weighted_average_between:
  fixes x y :: rat
  assumes "0 \<le> a" and "0 \<le> b" and "0 < a + b"
  shows "min x y \<le> (x * a + y * b) / (a + b)" and "(x * a + y * b) / (a + b) \<le> max x y"
proof -
  have "min x y * a + min x y * b \<le> x * a + y * b"
    using assms by (intro add_mono mult_right_mono) auto
  then show "min x y \<le> (x * a + y * b) / (a + b)" using assms by (simp add: field_simps)
  have "x * a + y * b \<le> max x y * a + max x y * b"
    using assms by (intro add_mono mult_right_mono) auto
  then show "(x * a + y * b) / (a + b) \<le> max x y" using assms by (simp add: field_simps)
qed

lemma dec_between: "money lo \<Longrightarrow> money hi \<Longrightarrow> lo \<le> x \<Longrightarrow> x \<le> hi \<Longrightarrow> lo \<le> dec x \<and> dec x \<le> hi"
  using dec_mono [of lo x] dec_mono [of x hi] by (simp add: dec_grid)

lemma fill_outcome_adds:
  assumes "fill_outcome oq oc sd n x mul = Inr (pnl, q, c)"
    and "0 \<le> oq * signed_qty sd n" and "0 < n" and "oq \<noteq> 0"
    and "money oc" and "money x" and "int32 oq" and "int32 n"
  shows "pnl = 0 \<and> c = Some (dec ((oc * of_int \<bar>oq\<bar> + x * of_int n) / of_int (\<bar>oq\<bar> + n)))"
proof (cases sd)
  case Buy
  then have pos: "0 < oq" using assms(2-4) by (auto simp: signed_qty_def zero_le_mult_iff)
  moreover from this assms have "dec_add (dec_mul oc (of_int oq)) (dec_mul x (of_int n))
      = oc * of_int oq + x * of_int n"
    by (simp add: money_arith)
  ultimately show ?thesis using assms Buy by (auto simp: fill_outcome_unfold split: if_splits)
next
  case Sell
  then have "oq * n \<le> 0" using assms(2) by (simp add: signed_qty_def)
  then have neg: "oq < 0" using assms(3,4) by (auto simp: mult_le_0_iff)
  have "int32 \<bar>oq\<bar>" using assms by simp
  from dec_add_money [OF assms(5,6) this assms(8)] dec_mul_money [OF assms(5) this]
    dec_mul_money [OF assms(6,8)]
  have "dec_add (dec_mul oc (of_int \<bar>oq\<bar>)) (dec_mul x (of_int n))
      = oc * of_int \<bar>oq\<bar> + x * of_int n"
    by simp
  moreover have "\<bar>oq - n\<bar> = \<bar>oq\<bar> + n" using neg assms(3) by simp
  ultimately show ?thesis using assms Sell neg
    by (auto simp: fill_outcome_unfold simp del: of_int_abs split: if_splits)
qed

text \<open>C1. A fill that reduces, closes or flips a position (its direction is opposite to the
  holding) books exactly the gain of the quantity it closes: for every mark price \<open>m\<close>, the
  realised profit of the recorded transaction plus the gain of the remaining position at
  \<open>m\<close> equals the gain of the old position and of the trade. Prices and costs are money
  values, quantities fit 32 bits and the profit fits its column.\<close>

theorem record_fill_conserves_value:
  assumes col: "numeric_column col"
    and old: "req_position d r = Inr (Some old)"
    and fill: "record_fill col now d r = Inr (d', p)"
    and opposite: "pos_quantity old * signed_qty (req_side r) (req_quantity r) < 0"
    and bounds: "0 < req_quantity r" "int32 (req_quantity r)" "int32 (pos_quantity old)"
      "money (avg_cost old)" "money (req_price r)"
    and fits: "\<forall>pnl q c. req_outcome old r = Inr (pnl, q, c) \<longrightarrow> money pnl"
  shows "\<exists>t q. transactions d' = transactions d @ [t] \<and> p = Some q
    \<and> realized_pnl t + of_int (multiplier (req_asset_type r))
          * holding_gain (pos_quantity q) (avg_cost q) m
      = of_int (multiplier (req_asset_type r))
          * (holding_gain (pos_quantity old) (avg_cost old) m
             + holding_gain (signed_qty (req_side r) (req_quantity r)) (req_price r) m)"
  using fill
proof (cases rule: record_fill_cases)
  case opened
  with old show ?thesis by simp
next
  case (closed old' pnl)
  then have o: "req_outcome old r = Inr (pnl, 0, None)" and [simp]: "old' = old" using old by auto
  have "col pnl = pnl" using col fits o by (auto simp: numeric_column.col_money)
  with fill_outcome_reduces [OF o opposite bounds(1,4,5,3,2), of 0 m] closed show ?thesis
    by (simp add: holding_gain_def)
next
  case (changed old' pnl q c new)
  then have o: "req_outcome old r = Inr (pnl, q, Some c)" and [simp]: "old' = old" using old by auto
  have "c = req_price r \<or> c = avg_cost old"
    using o opposite bounds(1)
    by (auto simp: fill_outcome_unfold signed_qty_def mult_less_0_iff split: if_splits)
  then have "col c = c" "col pnl = pnl"
    using col bounds fits o by (auto simp: numeric_column.col_money)
  with fill_outcome_reduces [OF o opposite bounds(1,4,5,3,2), of 0 m] changed show ?thesis
    by simp
qed

text \<open>A fill in the direction of an open position realises no profit and leaves an average
  cost between the old average cost and the fill price, whatever rounding the decimal
  context and the column apply.\<close>

theorem record_fill_average_between:
  assumes col: "numeric_column col"
    and old: "req_position d r = Inr (Some old)"
    and fill: "record_fill col now d r = Inr (d', p)"
    and same: "0 < pos_quantity old * signed_qty (req_side r) (req_quantity r)"
    and bounds: "0 < req_quantity r" "int32 (req_quantity r)" "int32 (pos_quantity old)"
      "money (avg_cost old)" "money (req_price r)"
  shows "\<exists>t q. transactions d' = transactions d @ [t] \<and> realized_pnl t = 0 \<and> p = Some q
    \<and> pos_quantity q = pos_quantity old + signed_qty (req_side r) (req_quantity r)
    \<and> min (avg_cost old) (req_price r) \<le> avg_cost q
    \<and> avg_cost q \<le> max (avg_cost old) (req_price r)"
proof -
  let ?oq = "pos_quantity old" and ?oc = "avg_cost old" and ?n = "req_quantity r" and ?x = "req_price r"
  let ?avg = "(?oc * of_int \<bar>?oq\<bar> + ?x * of_int ?n) / of_int (\<bar>?oq\<bar> + ?n) :: rat"
  obtain pnl q c where o: "req_outcome old r = Inr (pnl, q, c)" using fill_outcome_total by blast
  have nz: "?oq \<noteq> 0" using same by auto
  from fill_outcome_adds [OF o _ bounds(1) nz bounds(4,5,3,2)] same
  have pnl: "pnl = 0" and c: "c = Some (dec ?avg)" by auto
  have "min ?oc ?x \<le> ?avg" "?avg \<le> max ?oc ?x"
    using weighted_average_between [of "of_int \<bar>?oq\<bar>" "of_int ?n" ?oc ?x] bounds(1) by simp_all
  moreover have mm: "money (min ?oc ?x)" "money (max ?oc ?x)" using bounds by (auto simp: min_def max_def)
  ultimately have "min ?oc ?x \<le> dec ?avg" "dec ?avg \<le> max ?oc ?x"
    using dec_between by blast+
  then have "min ?oc ?x \<le> col (dec ?avg)" "col (dec ?avg) \<le> max ?oc ?x"
    using numeric_column.col_between [OF col mm] by blast+
  moreover have "col 0 = 0" using col by (rule numeric_column.col_0)
  moreover have "q = ?oq + signed_qty (req_side r) ?n"
    using fill_outcome_quantity [OF o] by (simp add: signed_qty_def)
  ultimately show ?thesis
    using record_fill_change [OF old o [unfolded c], of col now] fill pnl
    by (auto simp: Let_def write_row_def)
qed

text \<open>Recording a fill keeps row identifiers distinct and keeps one row per account, symbol
  and strategy, and changes the net quantity held of the symbol by exactly the signed
  quantity of the fill, whichever branch it takes.\<close>

theorem record_fill_invariant:
  assumes "db_ok d" and "unique_key d" and "record_fill col now d r = Inr (d', p)"
  shows "db_ok d' \<and> unique_key d'
    \<and> net_quantity d' (req_account_id r) (req_symbol r)
        = net_quantity d (req_account_id r) (req_symbol r)
          + signed_qty (req_side r) (req_quantity r)"
  using record_fill_db_ok record_fill_unique_key record_fill_net assms by blast

section \<open>Concrete runs\<close>

definition demo_fill :: "side \<Rightarrow> int \<Rightarrow> decimal \<Rightarrow> asset_type \<Rightarrow> fill_request" where
  "demo_fill sd n x t =
     \<lparr>req_account_id = ''A'', req_symbol = ''SPY'', req_side = sd, req_quantity = n,
      req_price = x, req_commission = 0, req_strategy_id = Some ''s1'', req_order_id = None,
      req_broker_order_id = None, req_asset_type = t, req_strike = None, req_expiry = None,
      req_put_call = None\<rparr>"

definition empty_db :: db where
  "empty_db = \<lparr>accounts = Map.empty, positions = [], transactions = [], next_position_id = 0\<rparr>"

definition demo_row :: position where
  "demo_row = opened_row round_scale4 empty_db (demo_fill Buy 10 100 STOCK)"

definition demo_db :: db where
  "demo_db = empty_db\<lparr>positions := [demo_row], next_position_id := 1\<rparr>"

lemma demo_fill_fields [simp]:
  "req_account_id (demo_fill sd n x t) = ''A''" "req_symbol (demo_fill sd n x t) = ''SPY''"
  "req_side (demo_fill sd n x t) = sd" "req_quantity (demo_fill sd n x t) = n"
  "req_price (demo_fill sd n x t) = x" "req_asset_type (demo_fill sd n x t) = t"
  "req_strategy_id (demo_fill sd n x t) = Some ''s1''"
  by (simp_all add: demo_fill_def)

lemma demo_row_fields [simp]:
  "pos_quantity demo_row = 10" "avg_cost demo_row = 100" "pos_account_id demo_row = ''A''"
  "pos_symbol demo_row = ''SPY''" "pos_strategy_id demo_row = Some ''s1''" "pos_id demo_row = 0"
  by (simp_all add: demo_row_def opened_row_def empty_db_def signed_qty_def round_scale4_def)

lemma demo_db_fields [simp]:
  "positions demo_db = [demo_row]" "transactions demo_db = []" "next_position_id demo_db = 1"
  by (simp_all add: demo_db_def empty_db_def)

lemma demo_req: "req_position demo_db (demo_fill sd n x t) = Inr (Some demo_row)"
  by (simp add: get_position_Some pos_matches_def)

lemma money_numeral: "\<bar>n\<bar> < 10 ^ 14 \<Longrightarrow> money (of_int n)"
  using on_gridI [of "n * 10000" "10 ^ 18"] by simp

lemma money_demo: "money 100" "money 110" "money 90"
  using money_numeral [of 100] money_numeral [of 110] money_numeral [of 90] by simp_all

lemma demo_fill_succeeds:
  obtains d' p where "record_fill round_scale4 0 demo_db (demo_fill sd n x t) = Inr (d', p)"
  using record_fill_raises [of round_scale4 0 demo_db "demo_fill sd n x t"] demo_req [of sd n x t]
  by (cases "record_fill round_scale4 0 demo_db (demo_fill sd n x t)") auto

theorem record_fill_conserves_value_witness:
  "\<exists>d' t q. record_fill round_scale4 0 demo_db (demo_fill Sell 25 110 STOCK) = Inr (d', Some q)
     \<and> transactions d' = [t]
     \<and> realized_pnl t + holding_gain (pos_quantity q) (avg_cost q) 7
       = holding_gain 10 100 7 + holding_gain (- 25) 110 7"
proof -
  obtain d' p where f: "record_fill round_scale4 0 demo_db (demo_fill Sell 25 110 STOCK) = Inr (d', p)"
    by (rule demo_fill_succeeds)
  have o: "req_outcome demo_row (demo_fill Sell 25 110 STOCK) = Inr (100, - 15, Some 110)"
    by (simp add: fill_outcome_unfold multiplier_def dec_defs num_eval)
  have "\<exists>t q. transactions d' = [t] \<and> p = Some q
      \<and> realized_pnl t + holding_gain (pos_quantity q) (avg_cost q) 7
        = holding_gain 10 100 7 + holding_gain (- 25) 110 7"
    using record_fill_conserves_value [OF scale4.numeric_column_axioms demo_req f, of 7] o money_demo
    by (simp add: multiplier_def signed_qty_def)
  then show ?thesis using f by blast
qed

theorem record_fill_average_between_witness:
  "\<exists>d' q. record_fill round_scale4 0 demo_db (demo_fill Buy 3 110 STOCK) = Inr (d', Some q)
     \<and> pos_quantity q = 13 \<and> 100 \<le> avg_cost q \<and> avg_cost q \<le> 110"
proof -
  obtain d' p where f: "record_fill round_scale4 0 demo_db (demo_fill Buy 3 110 STOCK) = Inr (d', p)"
    by (rule demo_fill_succeeds)
  have "\<exists>q. p = Some q \<and> pos_quantity q = 13 \<and> 100 \<le> avg_cost q \<and> avg_cost q \<le> 110"
    using record_fill_average_between [OF scale4.numeric_column_axioms demo_req f] money_demo
    by (auto simp: signed_qty_def)
  then show ?thesis using f by blast
qed

theorem record_fill_invariant_witness:
  "\<exists>d' p. record_fill round_scale4 0 demo_db (demo_fill Sell 4 90 STOCK) = Inr (d', p)
     \<and> db_ok d' \<and> unique_key d' \<and> net_quantity d' ''A'' ''SPY'' = 6"
proof -
  obtain d' p where f: "record_fill round_scale4 0 demo_db (demo_fill Sell 4 90 STOCK) = Inr (d', p)"
    by (rule demo_fill_succeeds)
  have "db_ok demo_db" "unique_key demo_db" by (simp_all add: db_ok_def unique_key_def)
  from record_fill_invariant [OF this f]
  have "db_ok d' \<and> unique_key d' \<and> net_quantity d' ''A'' ''SPY'' = 6"
    by (simp add: net_quantity_def pos_matches_def signed_qty_def)
  then show ?thesis using f by blast
qed

end
