(* ===== verification/Order_Repo.thy ===== *)
theory Order_Repo
  imports Portfolio_Repo
begin

text \<open>
  Persistent orders: the \<open>OrderRecord\<close> row of models/order.py and the repository of
  db/repositories/order_repo.py. The order manager writes these rows; the close-position
  workers read and update them.
\<close>

datatype db_order_status =
    DB_PENDING | DB_SUBMITTED | DB_PARTIAL_FILL | DB_CANCEL_REQUESTED
  | DB_FILLED | DB_CANCELLED | DB_REJECTED | DB_EXPIRED

record order_record =
  rec_order_id :: string
  rec_broker_order_id :: "string option"
  rec_account_id :: string
  rec_strategy_id :: string
  rec_symbol :: string
  rec_side :: side
  rec_quantity :: int
  rec_order_type :: order_type
  rec_limit_price :: "decimal option"
  rec_status :: db_order_status
  rec_filled_qty :: int
  rec_avg_fill_price :: "decimal option"
  rec_error_message :: "string option"
  rec_created_at :: int
  rec_updated_at :: int
  rec_close_request_id :: "nat option"
  rec_broker_update_seq :: "int option"
  rec_last_broker_update_at :: "int option"
  rec_not_found_count :: int

definition is_terminal :: "order_record \<Rightarrow> bool" where
  "is_terminal r \<longleftrightarrow> rec_status r \<in> {DB_FILLED, DB_CANCELLED, DB_REJECTED, DB_EXPIRED}"

definition is_active :: "order_record \<Rightarrow> bool" where
  "is_active r \<longleftrightarrow> \<not> is_terminal r"

type_synonym order_table = "order_record list"

text \<open>The \<open>order_id\<close> column is unique: inserting a second row with the same id fails.\<close>

definition create_order ::
  "(decimal \<Rightarrow> decimal) \<Rightarrow> int \<Rightarrow> string \<Rightarrow> order \<Rightarrow> db_order_status \<Rightarrow> order_table \<Rightarrow> order_table result" where
  "create_order col now acct ord st tbl =
     (if order_id ord \<in> rec_order_id ` set tbl then Inl (ExternalError ''IntegrityError'')
      else Inr (tbl @ [\<lparr>
        rec_order_id = order_id ord, rec_broker_order_id = broker_order_id ord,
        rec_account_id = acct, rec_strategy_id = ord_strategy_id ord, rec_symbol = ord_symbol ord,
        rec_side = ord_side ord, rec_quantity = ord_quantity ord, rec_order_type = ord_type ord,
        rec_limit_price = map_option col (ord_limit_price ord), rec_status = st,
        rec_filled_qty = 0, rec_avg_fill_price = None, rec_error_message = None,
        rec_created_at = now, rec_updated_at = now, rec_close_request_id = None,
        rec_broker_update_seq = None, rec_last_broker_update_at = None,
        rec_not_found_count = 0\<rparr>]))"

definition get_order_record :: "order_table \<Rightarrow> string \<Rightarrow> order_record option result" where
  "get_order_record tbl oid = scalar_one_or_none (filter (\<lambda>r. rec_order_id r = oid) tbl)"

definition get_order_by_broker_id :: "order_table \<Rightarrow> string \<Rightarrow> order_record option result" where
  "get_order_by_broker_id tbl bid =
     scalar_one_or_none (filter (\<lambda>r. rec_broker_order_id r = Some bid) tbl)"

definition write_order :: "order_record \<Rightarrow> order_table \<Rightarrow> order_table" where
  "write_order r tbl = map (\<lambda>x. if rec_order_id x = rec_order_id r then r else x) tbl"

definition update_order ::
  "(decimal \<Rightarrow> decimal) \<Rightarrow> int \<Rightarrow> string \<Rightarrow> string option \<Rightarrow> db_order_status option \<Rightarrow> int option
   \<Rightarrow> decimal option \<Rightarrow> string option \<Rightarrow> order_table \<Rightarrow> order_table result" where
  "update_order col now oid bid st fq avg err tbl =
     res_bind (get_order_record tbl oid) (\<lambda>found.
       case found of
         None \<Rightarrow> Inr tbl
       | Some r \<Rightarrow>
           (let r1 = set_opt (\<lambda>x s. s\<lparr>rec_broker_order_id := Some x\<rparr>) bid r;
                r2 = set_opt (\<lambda>x s. s\<lparr>rec_status := x\<rparr>) st r1;
                r3 = set_opt (\<lambda>x s. s\<lparr>rec_filled_qty := x\<rparr>) fq r2;
                r4 = set_opt (\<lambda>x s. s\<lparr>rec_avg_fill_price := Some (col x)\<rparr>) avg r3;
                r5 = set_opt (\<lambda>x s. s\<lparr>rec_error_message := Some x\<rparr>) err r4
            in Inr (write_order (r5\<lparr>rec_updated_at := now\<rparr>) tbl)))"

definition get_orders_by_account ::
  "order_table \<Rightarrow> string \<Rightarrow> db_order_status option \<Rightarrow> nat \<Rightarrow> order_record list" where
  "get_orders_by_account tbl acct st limit =
     take limit (sort_key (\<lambda>r. - rec_created_at r)
       (filter (\<lambda>r. rec_account_id r = acct \<and> (st \<noteq> None \<longrightarrow> Some (rec_status r) = st)) tbl))"

definition get_order_records_by_strategy ::
  "order_table \<Rightarrow> string \<Rightarrow> db_order_status option \<Rightarrow> nat \<Rightarrow> order_record list" where
  "get_order_records_by_strategy tbl strat st limit =
     take limit (sort_key (\<lambda>r. - rec_created_at r)
       (filter (\<lambda>r. rec_strategy_id r = strat \<and> (st \<noteq> None \<longrightarrow> Some (rec_status r) = st)) tbl))"

definition get_active_orders :: "order_table \<Rightarrow> string option \<Rightarrow> order_record list" where
  "get_active_orders tbl acct =
     sort_key rec_created_at
       (filter (\<lambda>r. rec_status r \<in> {DB_PENDING, DB_SUBMITTED, DB_PARTIAL_FILL, DB_CANCEL_REQUESTED}
                  \<and> (acct \<noteq> None \<longrightarrow> Some (rec_account_id r) = acct)) tbl)"

section \<open>Laws of the order table\<close>

definition orders_ok :: "order_table \<Rightarrow> bool" where
  "orders_ok tbl \<longleftrightarrow> distinct (map rec_order_id tbl)"

lemma write_order_ids [simp]: "map rec_order_id (write_order r tbl) = map rec_order_id tbl"
  by (auto simp: write_order_def)

lemma write_order_ok [simp]: "orders_ok (write_order r tbl) = orders_ok tbl"
  by (simp add: orders_ok_def)

lemma create_order_ok: "orders_ok tbl \<Longrightarrow> create_order col now acct ord st tbl = Inr tbl' \<Longrightarrow> orders_ok tbl'"
  by (auto simp: create_order_def orders_ok_def split: if_splits)

lemma get_order_record_ok: "orders_ok tbl \<Longrightarrow> \<exists>r. get_order_record tbl oid = Inr r"
  unfolding get_order_record_def orders_ok_def by (rule scalar_key_total)

lemma get_order_record_Some:
  "get_order_record tbl oid = Inr (Some r) \<Longrightarrow> r \<in> set tbl \<and> rec_order_id r = oid"
  unfolding get_order_record_def scalar_one_or_none_Some by (drule filter_singletonD) simp

lemma active_orders_active:
  "set (get_active_orders tbl acct)
     = {r \<in> set tbl. is_active r \<and> (acct \<noteq> None \<longrightarrow> Some (rec_account_id r) = acct)}"
  unfolding get_active_orders_def is_active_def is_terminal_def
  by (auto; metis db_order_status.exhaust)

lemma update_order_total:
  "orders_ok tbl \<Longrightarrow> \<exists>tbl'. update_order col now oid bid st fq avg err tbl = Inr tbl' \<and> orders_ok tbl'"
  using get_order_record_ok [of tbl oid]
  by (auto simp: update_order_def Let_def split: option.splits)

end
