(* ===== verification/Order_Manager.thy ===== *)
theory Order_Manager
  imports Portfolio_Manager Order_Repo
begin

text \<open>
  The order manager of orders/manager.py: a signal becomes an order that is persisted
  before it goes to the broker, and a fill notification updates the order, the portfolio
  and the order table exactly once. The broker's answer to a submission is an argument;
  \<open>published\<close> is the Redis channel the fills are sent to. A handler that raises has still
  changed the state up to that point, so handlers return the state and the error, if any.
\<close>

section \<open>State\<close>

datatype broker_reply = Accepted string | Broker_Error string | Broker_Crash py_error

record om =
  om_account_id :: string
  active_orders :: "(string \<times> order) list"
  broker_id_map :: "string \<rightharpoonup> string"
  processed_fills :: "string set"
  om_db :: db
  om_orders :: order_table
  published :: "order_fill list"

definition om_init :: "string \<Rightarrow> db \<Rightarrow> order_table \<Rightarrow> om" where
  "om_init acct d tbl =
     \<lparr>om_account_id = acct, active_orders = [], broker_id_map = Map.empty,
      processed_fills = {}, om_db = d, om_orders = tbl, published = []\<rparr>"

fun status_map :: "order_status \<Rightarrow> db_order_status" where
  "status_map PENDING = DB_PENDING"
| "status_map SUBMITTED = DB_SUBMITTED"
| "status_map PARTIAL_FILL = DB_PARTIAL_FILL"
| "status_map CANCEL_REQUESTED = DB_CANCEL_REQUESTED"
| "status_map FILLED = DB_FILLED"
| "status_map CANCELLED = DB_CANCELLED"
| "status_map REJECTED = DB_REJECTED"
| "status_map EXPIRED = DB_EXPIRED"
| "status_map UNKNOWN = DB_PENDING"

text \<open>Persisting swallows every exception: the table then stays as it was.\<close>

definition persist_order :: "(decimal \<Rightarrow> decimal) \<Rightarrow> int \<Rightarrow> order \<Rightarrow> bool \<Rightarrow> om \<Rightarrow> om" where
  "persist_order col now ord is_new s =
     (case (if is_new
            then create_order col now (om_account_id s) ord (status_map (ord_status ord)) (om_orders s)
            else update_order col now (order_id ord) (broker_order_id ord)
                   (Some (status_map (ord_status ord))) (Some (filled_qty ord))
                   (avg_fill_price ord) (error_message ord) (om_orders s)) of
        Inl _ \<Rightarrow> s
      | Inr tbl \<Rightarrow> s\<lparr>om_orders := tbl\<rparr>)"

definition put_order :: "order \<Rightarrow> om \<Rightarrow> om" where
  "put_order ord s = s\<lparr>active_orders := AList.update (order_id ord) ord (active_orders s)\<rparr>"

section \<open>Signals\<close>

text \<open>Everything up to the call of the broker.\<close>

definition prepare_order :: "(decimal \<Rightarrow> decimal) \<Rightarrow> int \<Rightarrow> string \<Rightarrow> signal \<Rightarrow> om \<Rightarrow> om \<times> order" where
  "prepare_order col now oid sg s =
     (let ord = from_signal sg oid now
      in (persist_order col now ord True (put_order ord s), ord))"

definition finish_order ::
  "(decimal \<Rightarrow> decimal) \<Rightarrow> int \<Rightarrow> broker_reply \<Rightarrow> order \<Rightarrow> om \<Rightarrow> om \<times> order result" where
  "finish_order col now reply ord s =
     (case reply of
        Accepted bid \<Rightarrow>
          (let ord1 = ord\<lparr>broker_order_id := Some bid, ord_status := SUBMITTED, updated_at := now\<rparr>;
               s1 = put_order ord1 s;
               s2 = s1\<lparr>broker_id_map := (broker_id_map s1)(bid \<mapsto> order_id ord1)\<rparr>
           in (persist_order col now ord1 False s2, Inr ord1))
      | Broker_Error msg \<Rightarrow>
          (let ord1 = ord\<lparr>ord_status := REJECTED, error_message := Some msg, updated_at := now\<rparr>
           in (persist_order col now ord1 False (put_order ord1 s), Inr ord1))
      | Broker_Crash e \<Rightarrow> (s, Inl e))"

definition process_signal ::
  "(decimal \<Rightarrow> decimal) \<Rightarrow> int \<Rightarrow> string \<Rightarrow> signal \<Rightarrow> broker_reply \<Rightarrow> om \<Rightarrow> om \<times> order result" where
  "process_signal col now oid sg reply s =
     (let (s1, ord) = prepare_order col now oid sg s in finish_order col now reply ord s1)"

text \<open>
  The consumer takes the signals from the queue one after the other; an exception is logged
  and the next signal is taken. Each signal comes with the id and the reply it gets.
\<close>

definition consume_signals ::
  "(decimal \<Rightarrow> decimal) \<Rightarrow> int \<Rightarrow> (signal \<times> string \<times> broker_reply) list \<Rightarrow> om \<Rightarrow> om" where
  "consume_signals col now queue s =
     foldl (\<lambda>s (sg, oid, reply). fst (process_signal col now oid sg reply s)) s queue"

definition get_order :: "string \<Rightarrow> om \<Rightarrow> order option" where
  "get_order oid s = map_of (active_orders s) oid"

definition get_orders_by_strategy :: "string \<Rightarrow> om \<Rightarrow> order list" where
  "get_orders_by_strategy strat s =
     filter (\<lambda>ord. ord_strategy_id ord = strat) (map snd (active_orders s))"

section \<open>Fills\<close>

definition calc_avg_price :: "int \<Rightarrow> decimal \<Rightarrow> order_fill \<Rightarrow> decimal result" where
  "calc_avg_price prev_qty prev_avg fill =
     (let total_qty = prev_qty + fill_quantity fill;
          total_value = dec_add (dec_mul prev_avg (of_int prev_qty))
                                (dec_mul (fill_price fill) (of_int (fill_quantity fill)))
      in dec_div total_value (of_int total_qty))"

definition fill_as_request :: "string \<Rightarrow> order \<Rightarrow> order_fill \<Rightarrow> fill_request" where
  "fill_as_request acct ord fill =
     \<lparr>req_account_id = acct, req_symbol = ord_symbol ord, req_side = ord_side ord,
      req_quantity = fill_quantity fill, req_price = fill_price fill, req_commission = 0,
      req_strategy_id = Some (ord_strategy_id ord), req_order_id = None,
      req_broker_order_id = None, req_asset_type = STOCK, req_strike = None,
      req_expiry = None, req_put_call = None\<rparr>"

definition remove_filled :: "order \<Rightarrow> om \<Rightarrow> om \<times> py_error option" where
  "remove_filled ord s =
     (if ord_status ord \<noteq> FILLED then (s, None)
      else
        (let s1 = s\<lparr>active_orders := AList.delete (order_id ord) (active_orders s)\<rparr>
         in case broker_order_id ord of
              None \<Rightarrow> (s1, Some KeyError)
            | Some bid \<Rightarrow>
                if broker_id_map s1 bid = None then (s1, Some KeyError)
                else (s1\<lparr>broker_id_map := (broker_id_map s1)(bid := None)\<rparr>, None)))"

definition apply_fill :: "(decimal \<Rightarrow> decimal) \<Rightarrow> int \<Rightarrow> order_fill \<Rightarrow> order \<Rightarrow> om \<Rightarrow> om \<times> py_error option" where
  "apply_fill col now fill ord s =
     (let prev_qty = filled_qty ord;
          prev_avg = (case avg_fill_price ord of None \<Rightarrow> 0 | Some a \<Rightarrow> a);
          ord1 = ord\<lparr>filled_qty := prev_qty + fill_quantity fill\<rparr>
      in case calc_avg_price prev_qty prev_avg fill of
           Inl e \<Rightarrow> (put_order ord1 s, Some e)
         | Inr avg \<Rightarrow>
             (let ord2 = ord1\<lparr>avg_fill_price := Some avg, updated_at := now,
                              ord_status := (if filled_qty ord1 \<ge> ord_quantity ord1
                                             then FILLED else PARTIAL_FILL)\<rparr>;
                  s2 = put_order ord2 s
              in case record_fill col now (om_db s2) (fill_as_request (om_account_id s2) ord2 fill) of
                   Inl e \<Rightarrow> (s2, Some e)
                 | Inr (d', _) \<Rightarrow>
                     (let s3 = s2\<lparr>om_db := d', published := published s2 @ [fill]\<rparr>
                      in remove_filled ord2 (persist_order col now ord2 False s3))))"

definition handle_fill :: "(decimal \<Rightarrow> decimal) \<Rightarrow> int \<Rightarrow> order_fill \<Rightarrow> om \<Rightarrow> om \<times> py_error option" where
  "handle_fill col now fill s =
     (if fill_id fill \<in> processed_fills s then (s, None)
      else
        (let s1 = s\<lparr>processed_fills := insert (fill_id fill) (processed_fills s)\<rparr>
         in case broker_id_map s1 (fill_order_id fill) of
              None \<Rightarrow> (s1, None)
            | Some oid \<Rightarrow>
                (if oid = [] then (s1, None)
                 else case map_of (active_orders s1) oid of
                        None \<Rightarrow> (s1, None)
                      | Some ord \<Rightarrow> apply_fill col now fill ord s1)))"

definition handle_fills :: "(decimal \<Rightarrow> decimal) \<Rightarrow> int \<Rightarrow> order_fill list \<Rightarrow> om \<Rightarrow> om" where
  "handle_fills col now fills s = foldl (\<lambda>s f. fst (handle_fill col now f s)) s fills"

section \<open>Frame laws\<close>

lemma persist_frame [simp]:
  "om_account_id (persist_order col now ord b s) = om_account_id s"
  "active_orders (persist_order col now ord b s) = active_orders s"
  "broker_id_map (persist_order col now ord b s) = broker_id_map s"
  "processed_fills (persist_order col now ord b s) = processed_fills s"
  "om_db (persist_order col now ord b s) = om_db s"
  "published (persist_order col now ord b s) = published s"
  by (simp_all add: persist_order_def split: sum.split)

lemma put_order_frame [simp]:
  "om_account_id (put_order ord s) = om_account_id s"
  "broker_id_map (put_order ord s) = broker_id_map s"
  "processed_fills (put_order ord s) = processed_fills s"
  "om_db (put_order ord s) = om_db s"
  "om_orders (put_order ord s) = om_orders s"
  "published (put_order ord s) = published s"
  "map_of (active_orders (put_order ord s)) = (map_of (active_orders s))(order_id ord \<mapsto> ord)"
  by (simp_all add: put_order_def)

lemma remove_filled_frame [simp]:
  "om_account_id (fst (remove_filled ord s)) = om_account_id s"
  "processed_fills (fst (remove_filled ord s)) = processed_fills s"
  "om_db (fst (remove_filled ord s)) = om_db s"
  "om_orders (fst (remove_filled ord s)) = om_orders s"
  "published (fst (remove_filled ord s)) = published s"
  by (simp_all add: remove_filled_def Let_def split: option.split)

lemma apply_fill_frame [simp]:
  "om_account_id (fst (apply_fill col now f ord s)) = om_account_id s"
  "processed_fills (fst (apply_fill col now f ord s)) = processed_fills s"
  by (auto simp: apply_fill_def Let_def split: sum.split)

lemma handle_fill_processed:
  "processed_fills (fst (handle_fill col now f s)) = insert (fill_id f) (processed_fills s)"
  by (auto simp: handle_fill_def Let_def split: option.split)

lemma handle_fill_seen: "fill_id f \<in> processed_fills s \<Longrightarrow> handle_fill col now f s = (s, None)"
  by (simp add: handle_fill_def)

section \<open>Each fill counts once\<close>

text \<open>The fills of a list whose id has not been seen before, first occurrences only.\<close>

fun first_only :: "string set \<Rightarrow> order_fill list \<Rightarrow> order_fill list" where
  "first_only seen [] = []"
| "first_only seen (f # fs) =
     (if fill_id f \<in> seen then first_only seen fs
      else f # first_only (insert (fill_id f) seen) fs)"

lemma first_only_fresh:
  "distinct (map fill_id (first_only seen fs)) \<and> fill_id ` set (first_only seen fs) \<inter> seen = {}"
  by (induction seen fs rule: first_only.induct) auto

text \<open>C2. Fill handling is idempotent under any redelivery: processing a stream of fills in
  which ids repeat, in any order and any number of times, leaves the same orders,
  portfolio, order table and published events as processing only the first occurrence of
  each id not seen before.\<close>

theorem handle_fills_idempotent:
  "handle_fills col now fs s = handle_fills col now (first_only (processed_fills s) fs) s"
proof (induction fs arbitrary: s)
  case (Cons f fs)
  show ?case
    using Cons [of "fst (handle_fill col now f s)"] Cons [of s]
    by (auto simp: handle_fills_def handle_fill_seen handle_fill_processed)
qed (simp add: handle_fills_def)

section \<open>The invariant of the order manager\<close>

definition order_ok :: "string \<Rightarrow> order \<Rightarrow> bool" where
  "order_ok k ord \<longleftrightarrow> order_id ord = k \<and> k \<noteq> [] \<and> 0 \<le> filled_qty ord"

definition ids_ok :: "om \<Rightarrow> bool" where
  "ids_ok s \<longleftrightarrow> (\<forall>bid oid. broker_id_map s bid = Some oid \<longrightarrow>
     (\<exists>ord. map_of (active_orders s) oid = Some ord \<and> broker_order_id ord = Some bid))"

definition om_ok :: "om \<Rightarrow> bool" where
  "om_ok s \<longleftrightarrow> db_ok (om_db s) \<and> unique_key (om_db s) \<and> orders_ok (om_orders s)
     \<and> (\<forall>k ord. map_of (active_orders s) k = Some ord \<longrightarrow> order_ok k ord) \<and> ids_ok s"

lemma ids_okD:
  "ids_ok s \<Longrightarrow> broker_id_map s bid = Some oid \<Longrightarrow>
   \<exists>ord. map_of (active_orders s) oid = Some ord \<and> broker_order_id ord = Some bid"
  unfolding ids_ok_def by blast

lemma om_okD:
  assumes "om_ok s"
  shows "db_ok (om_db s)" "unique_key (om_db s)" "orders_ok (om_orders s)" "ids_ok s"
    and "map_of (active_orders s) k = Some ord \<Longrightarrow> order_ok k ord"
  using assms by (simp_all add: om_ok_def)

lemma persist_orders_ok: "orders_ok (om_orders s) \<Longrightarrow> orders_ok (om_orders (persist_order col now ord b s))"
proof -
  assume ok: "orders_ok (om_orders s)"
  from update_order_total [OF ok, of col now "order_id ord" "broker_order_id ord"
      "Some (status_map (ord_status ord))" "Some (filled_qty ord)" "avg_fill_price ord" "error_message ord"]
  show ?thesis using ok by (auto simp: persist_order_def create_order_ok split: sum.split)
qed

lemma om_ok_persist: "om_ok s \<Longrightarrow> om_ok (persist_order col now ord b s)"
  using persist_orders_ok by (simp add: om_ok_def ids_ok_def)

lemma om_ok_put_new:
  assumes "om_ok s" and "order_ok (order_id ord) ord"
    and "\<And>bid. broker_id_map s bid \<noteq> Some (order_id ord)"
  shows "om_ok (put_order ord s)"
proof -
  have "ids_ok (put_order ord s)"
    unfolding ids_ok_def using assms(3) ids_okD [OF om_okD(4) [OF assms(1)]] by auto
  then show ?thesis using assms(2) om_okD [OF assms(1)] by (simp add: om_ok_def)
qed

lemma om_ok_map_broker_id:
  assumes "om_ok s" and "m = broker_id_map s"
    and "\<exists>ord. map_of (active_orders s) oid = Some ord \<and> broker_order_id ord = Some bid"
  shows "om_ok (s\<lparr>broker_id_map := m(bid \<mapsto> oid)\<rparr>)"
proof -
  have "ids_ok (s\<lparr>broker_id_map := m(bid \<mapsto> oid)\<rparr>)"
    unfolding ids_ok_def using assms(2,3) ids_okD [OF om_okD(4) [OF assms(1)]] by auto
  then show ?thesis using om_okD [OF assms(1)] by (simp add: om_ok_def)
qed

lemma from_signal_fields [simp]:
  "order_id (from_signal sg oid now) = oid" "filled_qty (from_signal sg oid now) = 0"
  "broker_order_id (from_signal sg oid now) = None" "ord_status (from_signal sg oid now) = PENDING"
  "avg_fill_price (from_signal sg oid now) = None"
  by (simp_all add: from_signal_def)

text \<open>A new order with a fresh id keeps the invariant, whatever the broker answers.\<close>

lemma process_signal_ok:
  assumes ok: "om_ok s" and nonempty: "oid \<noteq> []" and new: "map_of (active_orders s) oid = None"
  shows "om_ok (fst (process_signal col now oid sg reply s))"
proof -
  let ?s1 = "persist_order col now (from_signal sg oid now) True (put_order (from_signal sg oid now) s)"
  have fresh: "broker_id_map s bid \<noteq> Some oid" for bid
    using ids_okD [OF om_okD(4) [OF ok], of bid oid] new by auto
  have s1: "om_ok ?s1"
    using ok nonempty fresh by (intro om_ok_persist om_ok_put_new) (simp_all add: order_ok_def)
  have put: "om_ok (put_order o' ?s1)" if "order_id o' = oid" "filled_qty o' = 0" for o'
    using s1 nonempty fresh that by (intro om_ok_put_new) (simp_all add: order_ok_def)
  show ?thesis
    by (cases reply)
      (auto simp: process_signal_def prepare_order_def finish_order_def Let_def s1
        intro!: om_ok_persist om_ok_map_broker_id put)
qed

lemma remove_filled_ok:
  assumes "om_ok s" and "map_of (active_orders s) (order_id ord) = Some ord"
    and "broker_order_id ord = Some bid" and "broker_id_map s bid = Some (order_id ord)"
  shows "om_ok (fst (remove_filled ord s)) \<and> snd (remove_filled ord s) = None"
proof (cases "ord_status ord = FILLED")
  case True
  have other: "oid \<noteq> order_id ord" if "broker_id_map s bid' = Some oid" "bid' \<noteq> bid" for bid' oid
    using ids_okD [OF om_okD(4) [OF assms(1)] that(1)] that(2) assms(2,3) by auto
  have "ids_ok (fst (remove_filled ord s))"
    unfolding ids_ok_def using True assms other ids_okD [OF om_okD(4) [OF assms(1)]]
    by (auto simp: remove_filled_def Let_def delete_conv')
  moreover have "order_ok k o'" if "map_of (active_orders (fst (remove_filled ord s))) k = Some o'" for k o'
    using that True assms om_okD(5) [OF assms(1)]
    by (auto simp: remove_filled_def Let_def delete_conv' split: if_splits)
  ultimately show ?thesis using True assms om_okD [OF assms(1)]
    by (simp add: om_ok_def) (simp add: remove_filled_def Let_def)
next
  case False
  with assms show ?thesis by (simp add: remove_filled_def)
qed

lemma put_order_ok:
  assumes "om_ok s" and "map_of (active_orders s) (order_id ord) = Some old"
    and "order_ok (order_id ord) ord" and "broker_order_id ord = broker_order_id old"
  shows "om_ok (put_order ord s)"
proof -
  have "ids_ok (put_order ord s)"
    unfolding ids_ok_def
  proof (intro allI impI)
    fix bid oid
    assume "broker_id_map (put_order ord s) bid = Some oid"
    then have "broker_id_map s bid = Some oid" by simp
    from ids_okD [OF om_okD(4) [OF assms(1)] this] assms(2,4)
    show "\<exists>o'. map_of (active_orders (put_order ord s)) oid = Some o' \<and> broker_order_id o' = Some bid"
      by auto
  qed
  then show ?thesis using assms(3) om_okD [OF assms(1)] by (simp add: om_ok_def)
qed

lemma calc_avg_price_total:
  "0 \<le> prev \<Longrightarrow> 0 < fill_quantity f \<Longrightarrow> \<exists>a. calc_avg_price prev avg f = Inr a"
  by (simp add: calc_avg_price_def dec_div_def Let_def)

lemma fill_as_request_fields [simp]:
  "req_account_id (fill_as_request acct ord f) = acct"
  "req_symbol (fill_as_request acct ord f) = ord_symbol ord"
  "req_strategy_id (fill_as_request acct ord f) = Some (ord_strategy_id ord)"
  "req_side (fill_as_request acct ord f) = ord_side ord"
  "req_quantity (fill_as_request acct ord f) = fill_quantity f"
  "req_price (fill_as_request acct ord f) = fill_price f"
  "req_asset_type (fill_as_request acct ord f) = STOCK"
  by (simp_all add: fill_as_request_def)

lemma record_order_fill_total:
  assumes "unique_key d"
  obtains d' p where "record_fill col now d (fill_as_request acct ord f) = Inr (d', p)"
  using record_fill_raises [of col now d "fill_as_request acct ord f"]
    get_position_total [OF assms, of acct "ord_symbol ord" "ord_strategy_id ord"]
  by (cases "record_fill col now d (fill_as_request acct ord f)") auto

text \<open>The order after a fill, and how a fill of a known order ends.\<close>

definition filled_order :: "int \<Rightarrow> order_fill \<Rightarrow> decimal \<Rightarrow> order \<Rightarrow> order" where
  "filled_order now f avg ord =
     ord\<lparr>filled_qty := filled_qty ord + fill_quantity f, avg_fill_price := Some avg,
         updated_at := now,
         ord_status := (if filled_qty ord + fill_quantity f \<ge> ord_quantity ord
                        then FILLED else PARTIAL_FILL)\<rparr>"

definition prev_average :: "order \<Rightarrow> decimal" where
  "prev_average ord = (case avg_fill_price ord of None \<Rightarrow> 0 | Some a \<Rightarrow> a)"

lemma filled_order_fields [simp]:
  "order_id (filled_order now f avg ord) = order_id ord"
  "broker_order_id (filled_order now f avg ord) = broker_order_id ord"
  "filled_qty (filled_order now f avg ord) = filled_qty ord + fill_quantity f"
  "ord_quantity (filled_order now f avg ord) = ord_quantity ord"
  "ord_side (filled_order now f avg ord) = ord_side ord"
  "ord_symbol (filled_order now f avg ord) = ord_symbol ord"
  "ord_strategy_id (filled_order now f avg ord) = ord_strategy_id ord"
  "avg_fill_price (filled_order now f avg ord) = Some avg"
  by (simp_all add: filled_order_def)

lemma apply_fill_eq:
  assumes "calc_avg_price (filled_qty ord) (prev_average ord) f = Inr avg"
    and "record_fill col now (om_db s)
           (fill_as_request (om_account_id s) (filled_order now f avg ord) f) = Inr (d', p)"
  shows "apply_fill col now f ord s =
    remove_filled (filled_order now f avg ord)
      (persist_order col now (filled_order now f avg ord) False
        ((put_order (filled_order now f avg ord) s)
           \<lparr>om_db := d', published := published s @ [f]\<rparr>))"
  using assms by (simp add: apply_fill_def prev_average_def filled_order_def Let_def)

definition knows :: "om \<Rightarrow> order_fill \<Rightarrow> order \<Rightarrow> bool" where
  "knows s f ord \<longleftrightarrow> (\<exists>oid. broker_id_map s (fill_order_id f) = Some oid \<and> oid \<noteq> []
     \<and> map_of (active_orders s) oid = Some ord)"

lemma handle_fill_known:
  assumes "fill_id f \<notin> processed_fills s" and "knows s f ord"
  shows "handle_fill col now f s =
    apply_fill col now f ord (s\<lparr>processed_fills := insert (fill_id f) (processed_fills s)\<rparr>)"
  using assms by (auto simp: handle_fill_def knows_def)

lemma handle_fill_unknown:
  assumes "fill_id f \<notin> processed_fills s" and "\<nexists>ord. knows s f ord"
  shows "handle_fill col now f s =
    (s\<lparr>processed_fills := insert (fill_id f) (processed_fills s)\<rparr>, None)"
  using assms by (auto simp: handle_fill_def knows_def Let_def split: option.split)

lemma knows_ok:
  assumes "om_ok s" and "knows s f ord"
  shows "broker_id_map s (fill_order_id f) = Some (order_id ord)"
    "map_of (active_orders s) (order_id ord) = Some ord"
    "broker_order_id ord = Some (fill_order_id f)" "0 \<le> filled_qty ord"
proof -
  obtain oid where o: "broker_id_map s (fill_order_id f) = Some oid" "map_of (active_orders s) oid = Some ord"
    using assms(2) by (auto simp: knows_def)
  have "order_ok oid ord" using om_okD(5) [OF assms(1) o(2)] .
  with o ids_okD [OF om_okD(4) [OF assms(1)] o(1)]
  show "broker_id_map s (fill_order_id f) = Some (order_id ord)"
    "map_of (active_orders s) (order_id ord) = Some ord"
    "broker_order_id ord = Some (fill_order_id f)" "0 \<le> filled_qty ord"
    by (auto simp: order_ok_def)
qed

lemma processed_ok [simp]: "om_ok (s\<lparr>processed_fills := x\<rparr>) = om_ok s"
  by (simp add: om_ok_def ids_ok_def)

lemma apply_fill_ok:
  assumes ok: "om_ok s" and pos: "0 < fill_quantity f" and known: "knows s f ord"
  shows "om_ok (fst (apply_fill col now f ord s)) \<and> snd (apply_fill col now f ord s) = None"
proof -
  note k = knows_ok [OF ok known]
  obtain avg where avg: "calc_avg_price (filled_qty ord) (prev_average ord) f = Inr avg"
    using calc_avg_price_total [OF k(4) pos] by blast
  let ?o = "filled_order now f avg ord"
  have uk: "unique_key (om_db s)" and dok: "db_ok (om_db s)" using ok by (simp_all add: om_ok_def)
  obtain d' p where rf: "record_fill col now (om_db s)
      (fill_as_request (om_account_id s) ?o f) = Inr (d', p)"
    by (rule record_order_fill_total [OF uk])
  have d': "db_ok d'" "unique_key d'"
    using record_fill_db_ok [OF dok rf] record_fill_unique_key [OF dok uk rf] by blast+
  let ?s = "persist_order col now ?o False
      ((put_order ?o s)\<lparr>om_db := d', published := published s @ [f]\<rparr>)"
  have "om_ok (put_order ?o s)"
  proof (rule put_order_ok [OF ok, of _ ord])
    show "order_ok (order_id ?o) ?o"
      using om_okD(5) [OF ok k(2)] pos by (simp add: order_ok_def)
  qed (use k in simp_all)
  then have "om_ok ?s" using d' persist_orders_ok by (simp add: om_ok_def ids_ok_def)
  then show ?thesis unfolding apply_fill_eq [OF avg rf]
    using k by (intro remove_filled_ok) simp_all
qed

lemma handle_fill_ok:
  assumes "om_ok s" and "0 < fill_quantity f"
  shows "snd (handle_fill col now f s) = None \<and> om_ok (fst (handle_fill col now f s))"
proof (cases "fill_id f \<in> processed_fills s")
  case True
  with assms show ?thesis by (simp add: handle_fill_seen)
next
  case False
  show ?thesis
  proof (cases "\<exists>ord. knows s f ord")
    case True
    then obtain ord where k: "knows s f ord" by blast
    let ?s = "s\<lparr>processed_fills := insert (fill_id f) (processed_fills s)\<rparr>"
    have "knows ?s f ord" using k by (simp add: knows_def)
    with apply_fill_ok [of ?s f ord col now] assms handle_fill_known [OF False k]
    show ?thesis by simp
  next
    case unknown: False
    with assms handle_fill_unknown [OF False] show ?thesis by simp
  qed
qed

lemma handle_fills_ok: "om_ok s \<Longrightarrow> \<forall>f \<in> set fs. 0 < fill_quantity f \<Longrightarrow> om_ok (handle_fills col now fs s)"
proof (induction fs arbitrary: s)
  case (Cons f fs)
  then show ?case using handle_fill_ok [of s f col now] by (simp add: handle_fills_def)
qed (simp add: handle_fills_def)


section \<open>The life of an order\<close>

text \<open>One new fill of a known order, in one law.\<close>

lemma handle_fill_step:
  assumes ok: "om_ok s" and new: "fill_id f \<notin> processed_fills s" and known: "knows s f ord"
    and pos: "0 < fill_quantity f"
  obtains avg where "calc_avg_price (filled_qty ord) (prev_average ord) f = Inr avg"
    and "om_account_id (fst (handle_fill col now f s)) = om_account_id s"
    and "published (fst (handle_fill col now f s)) = published s @ [f]"
    and "net_quantity (om_db (fst (handle_fill col now f s))) (om_account_id s) (ord_symbol ord)
      = net_quantity (om_db s) (om_account_id s) (ord_symbol ord)
        + signed_qty (ord_side ord) (fill_quantity f)"
    and "filled_qty ord + fill_quantity f < ord_quantity ord \<Longrightarrow>
      broker_id_map (fst (handle_fill col now f s)) = broker_id_map s
      \<and> map_of (active_orders (fst (handle_fill col now f s))) (order_id ord)
        = Some (filled_order now f avg ord)"
    and "ord_quantity ord \<le> filled_qty ord + fill_quantity f \<Longrightarrow>
      broker_id_map (fst (handle_fill col now f s)) (fill_order_id f) = None
      \<and> map_of (active_orders (fst (handle_fill col now f s))) (order_id ord) = None"
proof -
  let ?s = "s\<lparr>processed_fills := insert (fill_id f) (processed_fills s)\<rparr>"
  note k = knows_ok [OF ok known]
  obtain avg where avg: "calc_avg_price (filled_qty ord) (prev_average ord) f = Inr avg"
    using calc_avg_price_total [OF k(4) pos] by blast
  let ?o = "filled_order now f avg ord"
  obtain d' p where rf: "record_fill col now (om_db s)
      (fill_as_request (om_account_id s) ?o f) = Inr (d', p)"
    by (rule record_order_fill_total [OF om_okD(2) [OF ok]])
  have eq: "handle_fill col now f s = remove_filled ?o (persist_order col now ?o False
      ((put_order ?o ?s)\<lparr>om_db := d', published := published s @ [f]\<rparr>))"
    using handle_fill_known [OF new known, of col now] apply_fill_eq [OF avg, of col now ?s d' p] rf
    by simp
  show thesis
  proof (rule that [OF avg])
    show "net_quantity (om_db (fst (handle_fill col now f s))) (om_account_id s) (ord_symbol ord)
      = net_quantity (om_db s) (om_account_id s) (ord_symbol ord)
        + signed_qty (ord_side ord) (fill_quantity f)"
      unfolding eq using record_fill_net [OF om_okD(1) [OF ok] rf] by simp
  qed (use k in \<open>auto simp: eq remove_filled_def filled_order_def Let_def delete_conv'\<close>)
qed

definition total_filled :: "order_fill list \<Rightarrow> int" where
  "total_filled fs = sum_list (map fill_quantity fs)"

definition new_fills_for :: "string \<Rightarrow> om \<Rightarrow> order_fill list \<Rightarrow> bool" where
  "new_fills_for bid s fs \<longleftrightarrow> distinct (map fill_id fs)
     \<and> (\<forall>f \<in> set fs. fill_order_id f = bid \<and> 0 < fill_quantity f \<and> fill_id f \<notin> processed_fills s)"

lemma total_filled_pos: "new_fills_for bid s fs \<Longrightarrow> fs \<noteq> [] \<Longrightarrow> 0 < total_filled fs"
proof (induction fs)
  case (Cons f fs)
  then show ?case by (cases fs) (auto simp: new_fills_for_def total_filled_def)
qed simp

lemma filled_order_average [simp]: "prev_average (filled_order now f avg ord) = avg"
  by (simp add: prev_average_def)

text \<open>The average stays between bounds on the fill prices through every rounding.\<close>

definition avg_within :: "decimal \<Rightarrow> decimal \<Rightarrow> order \<Rightarrow> bool" where
  "avg_within lo hi ord \<longleftrightarrow>
     filled_qty ord = 0 \<or> lo \<le> prev_average ord \<and> prev_average ord \<le> hi"

lemma calc_avg_price_within:
  assumes "money lo" and "money hi" and "0 \<le> filled_qty ord" and "0 < fill_quantity f"
    and "filled_qty ord + fill_quantity f \<le> 2 ^ 31" and "avg_within lo hi ord"
    and "lo \<le> fill_price f" and "fill_price f \<le> hi"
    and "calc_avg_price (filled_qty ord) (prev_average ord) f = Inr avg"
  shows "lo \<le> avg \<and> avg \<le> hi"
proof -
  let ?p = "filled_qty ord" and ?n = "fill_quantity f" and ?a = "prev_average ord" and ?x = "fill_price f"
  have i: "int32 ?p" "int32 ?n" "int32 (?p + ?n)" using assms by auto
  have avg: "avg = dec (dec (dec (?a * of_int ?p) + dec (?x * of_int ?n)) / of_int (?p + ?n))"
    using assms by (auto simp: calc_avg_price_def dec_defs Let_def split: if_splits)
  have grid: "dec (y * of_int m) = y * of_int m" if "money y" "int32 m" for y m
    using dec_mul_money [OF that] by (simp add: dec_mul_def)
  have bounds: "lo * of_int ?p \<le> ?a * of_int ?p" "?a * of_int ?p \<le> hi * of_int ?p"
      "lo * of_int ?n \<le> ?x * of_int ?n" "?x * of_int ?n \<le> hi * of_int ?n"
    using assms by (auto simp: avg_within_def mult_right_mono)
  have "lo * of_int ?p \<le> dec (?a * of_int ?p)" "dec (?a * of_int ?p) \<le> hi * of_int ?p"
      "lo * of_int ?n \<le> dec (?x * of_int ?n)" "dec (?x * of_int ?n) \<le> hi * of_int ?n"
    using dec_mono [OF bounds(1)] dec_mono [OF bounds(2)] dec_mono [OF bounds(3)]
      dec_mono [OF bounds(4)] grid assms(1,2) i by simp_all
  then have "lo * of_int (?p + ?n) \<le> dec (?a * of_int ?p) + dec (?x * of_int ?n)"
      "dec (?a * of_int ?p) + dec (?x * of_int ?n) \<le> hi * of_int (?p + ?n)"
    by (simp_all add: algebra_simps)
  from dec_mono [OF this(1)] dec_mono [OF this(2)]
  have "lo * of_int (?p + ?n) \<le> dec (dec (?a * of_int ?p) + dec (?x * of_int ?n))"
      "dec (dec (?a * of_int ?p) + dec (?x * of_int ?n)) \<le> hi * of_int (?p + ?n)"
    using grid [OF assms(1) i(3)] grid [OF assms(2) i(3)] by simp_all
  moreover have "0 < (of_int (?p + ?n) :: rat)" using assms by simp
  ultimately show ?thesis unfolding avg using assms(1,2)
    by (intro dec_between) (simp_all add: pos_le_divide_eq pos_divide_le_eq)
qed


section \<open>Persistence and lost fills\<close>

text \<open>The row of an order in the table.\<close>

definition stored :: "om \<Rightarrow> string \<Rightarrow> order_record option" where
  "stored s oid = (case get_order_record (om_orders s) oid of Inr (Some r) \<Rightarrow> Some r | _ \<Rightarrow> None)"

lemma stored_create:
  assumes "orders_ok (om_orders s)" and "order_id ord \<notin> rec_order_id ` set (om_orders s)"
  shows "\<exists>r. stored (persist_order col now ord True s) (order_id ord) = Some r
    \<and> rec_status r = status_map (ord_status ord)"
proof -
  have "filter (\<lambda>r. rec_order_id r = order_id ord) (om_orders s) = []"
    using assms(2) by (simp add: filter_empty_conv) (metis imageI)
  then show ?thesis using assms
    by (auto simp: stored_def persist_order_def create_order_def get_order_record_def
        scalar_one_or_none_def)
qed

lemma get_after_write_order:
  assumes "orders_ok tbl" and "get_order_record tbl oid = Inr (Some r)" and "rec_order_id r' = oid"
  shows "get_order_record (write_order r' tbl) oid = Inr (Some r')"
proof -
  have "filter (\<lambda>x. rec_order_id x = oid) (write_order r' tbl)
      = map (\<lambda>x. if rec_order_id x = oid then r' else x) (filter (\<lambda>x. rec_order_id x = oid) tbl)"
    unfolding write_order_def using assms(3) by (simp add: filter_map_replace)
  then show ?thesis using assms get_order_record_Some [OF assms(2)]
    by (simp add: get_order_record_def scalar_one_or_none_Some)
qed

lemma set_opt_keeps:
  "(\<And>x s. f (g x s) = f s) \<Longrightarrow> f (set_opt g v s) = f s"
  by (simp add: set_opt_def split: option.split)

lemma stored_update:
  assumes "orders_ok (om_orders s)" and "stored s (order_id ord) = Some r0"
  shows "\<exists>r. stored (persist_order col now ord False s) (order_id ord) = Some r
    \<and> rec_status r = status_map (ord_status ord)"
proof -
  have g: "get_order_record (om_orders s) (order_id ord) = Inr (Some r0)"
    using assms(2) by (auto simp: stored_def split: sum.splits option.splits)
  have id: "rec_order_id r0 = order_id ord" using get_order_record_Some [OF g] by simp
  show ?thesis using g id
    by (simp add: stored_def persist_order_def update_order_def Let_def set_opt_keeps
        get_after_write_order [OF assms(1) g]) (simp add: set_opt_def split: option.split)
qed

text \<open>Crash recovery: when the broker is called, the order is already in the table with
  status PENDING, under its internal id; after the broker answers, the stored status is
  SUBMITTED or REJECTED, and it is still PENDING if the call itself crashes. No submission
  leaves an order without a row.\<close>

theorem process_signal_persists:
  assumes "om_ok s" and "oid \<notin> rec_order_id ` set (om_orders s)"
  shows "(\<exists>r. stored (fst (prepare_order col now oid sg s)) oid = Some r \<and> rec_status r = DB_PENDING)
    \<and> (\<exists>r. stored (fst (process_signal col now oid sg reply s)) oid = Some r
        \<and> rec_status r = (case reply of Accepted _ \<Rightarrow> DB_SUBMITTED
                                      | Broker_Error _ \<Rightarrow> DB_REJECTED
                                      | Broker_Crash _ \<Rightarrow> DB_PENDING))"
proof -
  let ?ord = "from_signal sg oid now"
  let ?s1 = "persist_order col now ?ord True (put_order ?ord s)"
  have ok: "orders_ok (om_orders s)" using assms(1) by (rule om_okD)
  obtain r where r: "stored ?s1 oid = Some r" "rec_status r = DB_PENDING"
    using stored_create [of "put_order ?ord s" ?ord col now] ok assms(2) by auto
  have ok1: "orders_ok (om_orders ?s1)" using ok by (intro persist_orders_ok) simp
  have upd: "\<exists>r'. stored (persist_order col now o' False s2) oid = Some r'
      \<and> rec_status r' = st"
    if "om_orders s2 = om_orders ?s1" "order_id o' = oid" "status_map (ord_status o') = st" for s2 o' st
    using stored_update [of s2 o' r col now] ok1 r that by (auto simp: stored_def)
  show ?thesis using r
    by (cases reply) (auto simp: prepare_order_def process_signal_def finish_order_def Let_def intro!: upd)
qed

text \<open>A fill that the broker reports before the submission has returned is lost for good:
  its id is remembered although no order is known for it, so when the same fill is
  delivered again after the order is registered it is ignored as a duplicate, the order
  keeps quantity 0 and the portfolio is unchanged.\<close>

theorem early_fill_lost:
  assumes "om_ok s" and "fill_id f \<notin> processed_fills s"
    and "broker_id_map s (fill_order_id f) = None" and "oid \<noteq> []"
  shows "\<exists>s1 s2. s1 = fst (handle_fill col now f s)
    \<and> s2 = fst (process_signal col now oid sg (Accepted (fill_order_id f)) s1)
    \<and> handle_fill col now f s2 = (s2, None) \<and> om_db s2 = om_db s
    \<and> (\<exists>ord. map_of (active_orders s2) oid = Some ord \<and> filled_qty ord = 0)"
proof -
  have "handle_fill col now f s = (s\<lparr>processed_fills := insert (fill_id f) (processed_fills s)\<rparr>, None)"
    using assms(2,3) by (intro handle_fill_unknown) (simp_all add: knows_def)
  then show ?thesis
    by (simp add: process_signal_def prepare_order_def finish_order_def Let_def handle_fill_seen)
qed

section \<open>Concrete runs\<close>

definition demo_signal :: signal where
  "demo_signal = \<lparr>sig_strategy_id = ''s1'', sig_symbol = ''SPY'', sig_action = Buy, sig_quantity = 10,
     sig_order_type = Market, sig_limit_price = None, sig_reason = [], sig_timestamp = 0,
     sig_factor_scores = []\<rparr>"

definition demo_om0 :: om where
  "demo_om0 = om_init ''A'' empty_db []"

definition demo_om :: om where
  "demo_om = fst (process_signal round_scale4 0 ''o1'' demo_signal (Accepted ''b1'') demo_om0)"

definition demo_notice :: "string \<Rightarrow> int \<Rightarrow> decimal \<Rightarrow> order_fill" where
  "demo_notice i n x = \<lparr>fill_id = i, fill_order_id = ''b1'', fill_symbol = ''SPY'', fill_side = Buy,
     fill_quantity = n, fill_price = x, fill_timestamp = 0\<rparr>"

lemma demo_notice_fields [simp]:
  "fill_id (demo_notice i n x) = i" "fill_order_id (demo_notice i n x) = ''b1''"
  "fill_quantity (demo_notice i n x) = n" "fill_price (demo_notice i n x) = x"
  by (simp_all add: demo_notice_def)

lemma demo_om0_ok: "om_ok demo_om0"
  by (simp add: demo_om0_def om_init_def om_ok_def ids_ok_def db_ok_def unique_key_def orders_ok_def
      empty_db_def)

lemma demo_om_ok: "om_ok demo_om"
  unfolding demo_om_def
  by (rule process_signal_ok [OF demo_om0_ok]) (simp_all add: demo_om0_def om_init_def)

definition demo_order :: order where
  "demo_order = (from_signal demo_signal ''o1'' 0)
     \<lparr>broker_order_id := Some ''b1'', ord_status := SUBMITTED, updated_at := 0\<rparr>"

lemma demo_order_fields [simp]:
  "order_id demo_order = ''o1''" "filled_qty demo_order = 0" "ord_quantity demo_order = 10"
  "ord_symbol demo_order = ''SPY''" "ord_side demo_order = Buy"
  by (simp_all add: demo_order_def from_signal_def demo_signal_def)

lemma demo_om_fields [simp]:
  "broker_id_map demo_om = [''b1'' \<mapsto> ''o1'']" "map_of (active_orders demo_om) = [''o1'' \<mapsto> demo_order]"
  "processed_fills demo_om = {}" "om_account_id demo_om = ''A''" "om_db demo_om = empty_db"
  "published demo_om = []"
  by (simp_all add: demo_om_def demo_om0_def om_init_def process_signal_def prepare_order_def
      finish_order_def demo_order_def Let_def)



theorem process_signal_persists_witness:
  "\<exists>r. stored demo_om ''o1'' = Some r \<and> rec_status r = DB_SUBMITTED"
  using process_signal_persists [OF demo_om0_ok, of "''o1''" round_scale4 0 demo_signal "Accepted ''b1''"]
  by (simp add: demo_om0_def om_init_def demo_om_def)

theorem early_fill_lost_witness:
  "\<exists>s2 ord. handle_fill round_scale4 0 (demo_notice ''f1'' 4 100) s2 = (s2, None)
     \<and> map_of (active_orders s2) ''o1'' = Some ord \<and> filled_qty ord = 0"
  using early_fill_lost [OF demo_om0_ok, of "demo_notice ''f1'' 4 100" "''o1''" round_scale4 0 demo_signal]
  by (auto simp: demo_om0_def om_init_def)

end
