(* ===== verification/Close_Tables.thy ===== *)
theory Close_Tables
  imports Order_Repo
begin

text \<open>
  The tables behind the close-position workflow: close requests (models/close_request.py),
  outbox events (models/outbox.py), and, with them, the positions and orders of the other
  components. The repositories of db/repositories/close_request_repo.py and outbox_repo.py
  are defined here. Times are in seconds; a new request's uuid is an argument.
\<close>

section \<open>Rows\<close>

datatype close_status = CR_PENDING | CR_SUBMITTED | CR_COMPLETED | CR_RETRYABLE | CR_FAILED

record close_request =
  cr_id :: nat
  cr_position_id :: nat
  idempotency_key :: string
  cr_status :: close_status
  cr_symbol :: string
  cr_side :: side
  cr_asset_type :: asset_type
  target_qty :: int
  cr_filled_qty :: int
  cr_retry_count :: nat
  max_retries :: nat
  cr_created_at :: int
  submitted_at :: "int option"
  completed_at :: "int option"

definition remaining_qty :: "close_request \<Rightarrow> int" where
  "remaining_qty cr = target_qty cr - cr_filled_qty cr"

definition new_close_request ::
  "int \<Rightarrow> nat \<Rightarrow> nat \<Rightarrow> string \<Rightarrow> string \<Rightarrow> side \<Rightarrow> asset_type \<Rightarrow> int \<Rightarrow> close_request" where
  "new_close_request now rid pid key smb sd atype qty =
     \<lparr>cr_id = rid, cr_position_id = pid, idempotency_key = key, cr_status = CR_PENDING,
      cr_symbol = smb, cr_side = sd, cr_asset_type = atype, target_qty = qty,
      cr_filled_qty = 0, cr_retry_count = 0, max_retries = 3, cr_created_at = now,
      submitted_at = None, completed_at = None\<rparr>"

datatype event_type = Submit_Close_Order | Other_Event string

record close_payload =
  pl_request_id :: nat
  pl_position_id :: nat
  pl_symbol :: string
  pl_side :: side
  pl_qty :: int
  pl_asset_type :: asset_type

datatype outbox_status = OB_PENDING | OB_PROCESSING | OB_COMPLETED | OB_FAILED

record outbox_event =
  ev_id :: nat
  ev_type :: event_type
  ev_payload :: "close_payload option"
  ev_status :: outbox_status
  ev_created_at :: int
  ev_processed_at :: "int option"
  ev_retry_count :: nat

record close_db =
  close_positions :: "position list"
  close_requests :: "close_request list"
  outbox :: "outbox_event list"
  close_orders :: order_table
  next_event_id :: nat

section \<open>Writes\<close>

definition put_position :: "position \<Rightarrow> close_db \<Rightarrow> close_db" where
  "put_position p s = s\<lparr>close_positions := put_row pos_id p (close_positions s)\<rparr>"

definition put_request :: "close_request \<Rightarrow> close_db \<Rightarrow> close_db" where
  "put_request cr s = s\<lparr>close_requests := put_row cr_id cr (close_requests s)\<rparr>"

definition put_event :: "outbox_event \<Rightarrow> close_db \<Rightarrow> close_db" where
  "put_event ev s = s\<lparr>outbox := put_row ev_id ev (outbox s)\<rparr>"

definition put_order_row :: "order_record \<Rightarrow> close_db \<Rightarrow> close_db" where
  "put_order_row r s = s\<lparr>close_orders := write_order r (close_orders s)\<rparr>"

definition add_event :: "int \<Rightarrow> event_type \<Rightarrow> close_payload option \<Rightarrow> close_db \<Rightarrow> close_db" where
  "add_event now et pl s =
     s\<lparr>outbox := outbox s @ [\<lparr>ev_id = next_event_id s, ev_type = et, ev_payload = pl,
          ev_status = OB_PENDING, ev_created_at = now, ev_processed_at = None,
          ev_retry_count = 0\<rparr>],
       next_event_id := Suc (next_event_id s)\<rparr>"

lemma put_frames [simp]:
  "close_requests (put_position p s) = close_requests s" "outbox (put_position p s) = outbox s"
  "close_orders (put_position p s) = close_orders s"
  "close_positions (put_position p s) = put_row pos_id p (close_positions s)"
  "close_positions (put_request cr s) = close_positions s" "outbox (put_request cr s) = outbox s"
  "close_orders (put_request cr s) = close_orders s"
  "close_requests (put_request cr s) = put_row cr_id cr (close_requests s)"
  "close_positions (put_event ev s) = close_positions s"
  "close_requests (put_event ev s) = close_requests s" "close_orders (put_event ev s) = close_orders s"
  "outbox (put_event ev s) = put_row ev_id ev (outbox s)"
  "close_positions (put_order_row r s) = close_positions s"
  "close_requests (put_order_row r s) = close_requests s" "outbox (put_order_row r s) = outbox s"
  "close_orders (put_order_row r s) = write_order r (close_orders s)"
  "close_positions (add_event now et pl s) = close_positions s"
  "close_requests (add_event now et pl s) = close_requests s"
  "close_orders (add_event now et pl s) = close_orders s"
  by (simp_all add: put_position_def put_request_def put_event_def put_order_row_def add_event_def)

section \<open>Unique indexes\<close>

text \<open>The indexes \<open>uq_close_requests_position_idempotency\<close> of migration 012 and
  \<open>idx_outbox_idempotency\<close> of migration 013: one request per position and key, and one event
  per type and close request. A commit that violates one raises an IntegrityError and the
  transaction is rolled back.\<close>

definition unique_requests :: "close_request list \<Rightarrow> bool" where
  "unique_requests rows \<longleftrightarrow> distinct (map (\<lambda>cr. (cr_position_id cr, idempotency_key cr)) rows)"

definition event_keys :: "outbox_event list \<Rightarrow> (event_type \<times> nat) list" where
  "event_keys evs =
     List.map_filter (\<lambda>ev. map_option (\<lambda>pl. (ev_type ev, pl_request_id pl)) (ev_payload ev)) evs"

definition unique_outbox :: "outbox_event list \<Rightarrow> bool" where
  "unique_outbox evs \<longleftrightarrow> distinct (event_keys evs)"

definition commit :: "close_db \<Rightarrow> close_db result" where
  "commit s =
     (if unique_requests (close_requests s) \<and> unique_outbox (outbox s) then Inr s
      else Inl (ExternalError ''IntegrityError''))"

section \<open>The repositories\<close>

definition create_request ::
  "int \<Rightarrow> nat \<Rightarrow> nat \<Rightarrow> string \<Rightarrow> string \<Rightarrow> side \<Rightarrow> asset_type \<Rightarrow> int \<Rightarrow> close_db \<Rightarrow> close_db result" where
  "create_request now rid pid key smb sd atype qty s =
     commit (s\<lparr>close_requests := close_requests s
                 @ [new_close_request now rid pid key smb sd atype qty]\<rparr>)"

definition get_request :: "nat \<Rightarrow> close_db \<Rightarrow> close_request option" where
  "get_request rid s = row_at cr_id rid (close_requests s)"

definition get_by_position_and_key :: "nat \<Rightarrow> string \<Rightarrow> close_db \<Rightarrow> close_request option" where
  "get_by_position_and_key pid key s =
     row_at (\<lambda>cr. (cr_position_id cr, idempotency_key cr)) (pid, key) (close_requests s)"

definition update_request_status :: "int \<Rightarrow> nat \<Rightarrow> close_status \<Rightarrow> close_db \<Rightarrow> close_db" where
  "update_request_status now rid st s =
     (case get_request rid s of
        None \<Rightarrow> s
      | Some cr \<Rightarrow>
          (let cr1 = cr\<lparr>cr_status := st\<rparr>;
               cr2 = (if st = CR_SUBMITTED then cr1\<lparr>submitted_at := Some now\<rparr>
                      else if st \<in> {CR_COMPLETED, CR_FAILED} then cr1\<lparr>completed_at := Some now\<rparr>
                      else cr1)
           in put_request cr2 s))"

definition increment_filled_qty :: "nat \<Rightarrow> int \<Rightarrow> close_db \<Rightarrow> close_db" where
  "increment_filled_qty rid delta s =
     (case get_request rid s of
        None \<Rightarrow> s
      | Some cr \<Rightarrow> put_request (cr\<lparr>cr_filled_qty := cr_filled_qty cr + delta\<rparr>) s)"

definition create_event :: "int \<Rightarrow> event_type \<Rightarrow> close_payload option \<Rightarrow> close_db \<Rightarrow> close_db result" where
  "create_event now et pl s = commit (add_event now et pl s)"

definition get_event :: "nat \<Rightarrow> close_db \<Rightarrow> outbox_event option" where
  "get_event eid s = row_at ev_id eid (outbox s)"

definition claim_pending :: "nat \<Rightarrow> close_db \<Rightarrow> close_db \<times> outbox_event list" where
  "claim_pending limit s =
     (let picked = take limit (sort_key ev_created_at (filter (\<lambda>ev. ev_status ev = OB_PENDING) (outbox s)));
          claimed = map (\<lambda>ev. ev\<lparr>ev_status := OB_PROCESSING\<rparr>) picked
      in (foldl (\<lambda>s ev. put_event ev s) s claimed, claimed))"

definition mark_event :: "int \<Rightarrow> outbox_status \<Rightarrow> nat \<Rightarrow> close_db \<Rightarrow> close_db" where
  "mark_event now st eid s =
     (case get_event eid s of
        None \<Rightarrow> s
      | Some ev \<Rightarrow> put_event (ev\<lparr>ev_status := st, ev_processed_at := Some now\<rparr>) s)"

definition mark_completed :: "int \<Rightarrow> nat \<Rightarrow> close_db \<Rightarrow> close_db" where
  "mark_completed now = mark_event now OB_COMPLETED"

definition mark_failed :: "int \<Rightarrow> nat \<Rightarrow> close_db \<Rightarrow> close_db" where
  "mark_failed now = mark_event now OB_FAILED"

definition increment_retry :: "nat \<Rightarrow> close_db \<Rightarrow> close_db \<times> nat" where
  "increment_retry eid s =
     (case get_event eid s of
        None \<Rightarrow> (s, 0)
      | Some ev \<Rightarrow>
          (let ev1 = ev\<lparr>ev_retry_count := Suc (ev_retry_count ev), ev_status := OB_PENDING\<rparr>
           in (put_event ev1 s, ev_retry_count ev1)))"

section \<open>The invariant of the tables\<close>

definition idle_row :: "position \<Rightarrow> bool" where
  "idle_row p \<longleftrightarrow> (pos_status p \<in> {OPEN, CLOSED} \<longrightarrow> active_close_request_id p = None)"

definition close_ok :: "close_db \<Rightarrow> bool" where
  "close_ok s \<longleftrightarrow> distinct (map pos_id (close_positions s)) \<and> distinct (map cr_id (close_requests s))
     \<and> (\<forall>p \<in> set (close_positions s). idle_row p)
     \<and> (\<forall>cr \<in> set (close_requests s). cr_retry_count cr \<le> max_retries cr)"

lemma close_okD:
  assumes "close_ok s"
  shows "distinct (map pos_id (close_positions s))" "distinct (map cr_id (close_requests s))"
    and "p \<in> set (close_positions s) \<Longrightarrow> idle_row p"
    and "cr \<in> set (close_requests s) \<Longrightarrow> cr_retry_count cr \<le> max_retries cr"
  using assms by (simp_all add: close_ok_def)

lemma close_ok_put_position: "close_ok s \<Longrightarrow> idle_row p \<Longrightarrow> close_ok (put_position p s)"
  by (auto simp: close_ok_def dest: put_row_elemD)

lemma close_ok_put_request:
  "close_ok s \<Longrightarrow> cr_retry_count cr \<le> max_retries cr \<Longrightarrow> close_ok (put_request cr s)"
  by (auto simp: close_ok_def dest: put_row_elemD)

lemma close_ok_frame [simp]:
  "close_ok (put_event ev s) = close_ok s" "close_ok (put_order_row r s) = close_ok s"
  "close_ok (add_event now et pl s) = close_ok s" "close_ok (s\<lparr>close_orders := os\<rparr>) = close_ok s"
  by (simp_all add: close_ok_def)

lemma close_ok_request: "close_ok s \<Longrightarrow> get_request rid s = Some cr \<Longrightarrow> cr_retry_count cr \<le> max_retries cr"
  unfolding get_request_def using row_at_SomeD close_okD(4) by metis

lemma put_events_frame [simp]:
  "close_positions (foldl (\<lambda>s ev. put_event ev s) s evs) = close_positions s"
  "close_requests (foldl (\<lambda>s ev. put_event ev s) s evs) = close_requests s"
  "close_orders (foldl (\<lambda>s ev. put_event ev s) s evs) = close_orders s"
  by (induction evs arbitrary: s) simp_all

lemma claim_pending_frame [simp]:
  "close_positions (fst (claim_pending n s)) = close_positions s"
  "close_requests (fst (claim_pending n s)) = close_requests s"
  "close_orders (fst (claim_pending n s)) = close_orders s"
  by (simp_all add: claim_pending_def Let_def)

lemma claim_pending_ok [simp]: "close_ok (fst (claim_pending n s)) = close_ok s"
  by (simp add: close_ok_def)

end
