(* ===== verification/Order_Update.thy ===== *)
theory Order_Update
  imports Close_Tables
begin

text \<open>
  The handler of broker order updates, workers/order_handler.py: the status of an order only
  moves forward, FILLED is final, and the close request and position of the order follow
  when all orders of the request are terminal. Queries run after a flush, so they see the
  new values of the order.
\<close>

definition status_rank :: "db_order_status \<Rightarrow> nat" where
  "status_rank st =
     (case st of DB_PENDING \<Rightarrow> 0 | DB_SUBMITTED \<Rightarrow> 1 | DB_PARTIAL_FILL \<Rightarrow> 2 | DB_CANCEL_REQUESTED \<Rightarrow> 2
      | DB_CANCELLED \<Rightarrow> 3 | DB_REJECTED \<Rightarrow> 3 | DB_EXPIRED \<Rightarrow> 3 | DB_FILLED \<Rightarrow> 4)"

definition broker_status_map :: "(string \<times> db_order_status) list" where
  "broker_status_map =
     [(''NEW'', DB_PENDING), (''SUBMITTED'', DB_SUBMITTED), (''PARTIAL'', DB_PARTIAL_FILL),
      (''PARTIAL_FILL'', DB_PARTIAL_FILL), (''FILLED'', DB_FILLED), (''CANCELLED'', DB_CANCELLED),
      (''REJECTED'', DB_REJECTED), (''EXPIRED'', DB_EXPIRED)]"

text \<open>\<open>onupdate\<close> of the \<open>updated_at\<close> column: set when the row changes.\<close>

definition touch :: "int \<Rightarrow> order_record \<Rightarrow> order_record \<Rightarrow> order_record" where
  "touch now old new = (if new = old then old else new\<lparr>rec_updated_at := now\<rparr>)"

definition orders_of :: "nat \<Rightarrow> close_db \<Rightarrow> order_record list" where
  "orders_of rid s = filter (\<lambda>r. rec_close_request_id r = Some rid) (close_orders s)"

definition settle_request :: "int \<Rightarrow> order_record list \<Rightarrow> close_request \<Rightarrow> position \<Rightarrow> close_db \<Rightarrow> close_db" where
  "settle_request now ords cr p s =
     (if \<not> list_all is_terminal ords then put_request cr s
      else if list_all (\<lambda>r. rec_status r = DB_FILLED) ords \<and> remaining_qty cr = 0 then
        put_position (p\<lparr>pos_status := CLOSED, closed_at := Some now, active_close_request_id := None\<rparr>)
          (put_request (cr\<lparr>cr_status := CR_COMPLETED, completed_at := Some now\<rparr>) s)
      else if cr_filled_qty cr = 0 then
        put_position (p\<lparr>pos_status := OPEN, active_close_request_id := None\<rparr>)
          (put_request (cr\<lparr>cr_status := CR_FAILED, completed_at := Some now\<rparr>) s)
      else
        put_position (p\<lparr>pos_status := CLOSE_RETRYABLE\<rparr>)
          (put_request (cr\<lparr>cr_status := CR_RETRYABLE\<rparr>) s))"

definition update_close_request :: "int \<Rightarrow> order_record \<Rightarrow> close_db \<Rightarrow> close_db" where
  "update_close_request now r s =
     (case rec_close_request_id r of
        None \<Rightarrow> s
      | Some rid \<Rightarrow>
          (case get_request rid s of
             None \<Rightarrow> s
           | Some cr \<Rightarrow>
               (case row_at pos_id (cr_position_id cr) (close_positions s) of
                  None \<Rightarrow> s
                | Some p \<Rightarrow>
                    (let ords = orders_of rid s;
                         cr1 = cr\<lparr>cr_filled_qty := sum_list (map rec_filled_qty ords)\<rparr>
                     in settle_request now ords cr1 p s))))"

definition stale :: "int option \<Rightarrow> order_record \<Rightarrow> bool" where
  "stale seq r =
     (case (seq, rec_broker_update_seq r) of (Some n, Some m) \<Rightarrow> n \<le> m | _ \<Rightarrow> False)"

definition on_order_update ::
  "int \<Rightarrow> string \<Rightarrow> string \<Rightarrow> int \<Rightarrow> int option \<Rightarrow> close_db \<Rightarrow> close_db result" where
  "on_order_update now bid status fq seq s =
     res_bind (get_order_by_broker_id (close_orders s) bid) (\<lambda>found.
       case found of
         None \<Rightarrow> Inr s
       | Some r \<Rightarrow>
           (case map_of broker_status_map (py_upper status) of
              None \<Rightarrow> Inr s
            | Some st \<Rightarrow>
                if stale seq r then Inr s
                else if is_terminal r then
                  if rec_status r = DB_FILLED then Inr s
                  else if st = DB_FILLED \<and> fq > rec_filled_qty r then
                    (let r1 = touch now r (r\<lparr>rec_status := DB_FILLED, rec_filled_qty := fq,
                                rec_broker_update_seq := seq, rec_last_broker_update_at := Some now\<rparr>)
                     in Inr (update_close_request now r1 (put_order_row r1 s)))
                  else Inr (put_order_row (touch now r (r\<lparr>rec_filled_qty := max (rec_filled_qty r) fq,
                              rec_broker_update_seq := seq\<rparr>)) s)
                else if status_rank st < status_rank (rec_status r) then
                  Inr (put_order_row (touch now r (r\<lparr>rec_filled_qty := max (rec_filled_qty r) fq,
                         rec_broker_update_seq := seq\<rparr>)) s)
                else
                  (let r1 = touch now r (r\<lparr>rec_status := st, rec_filled_qty := max (rec_filled_qty r) fq,
                              rec_broker_update_seq := seq, rec_last_broker_update_at := Some now\<rparr>)
                   in Inr (update_close_request now r1 (put_order_row r1 s)))))"

section \<open>What an update does to an order\<close>

text \<open>The order after the update; \<open>settles\<close> tells whether the close request is updated too.\<close>

definition next_order :: "int \<Rightarrow> db_order_status \<Rightarrow> int \<Rightarrow> int option \<Rightarrow> order_record \<Rightarrow> order_record" where
  "next_order now st fq seq r =
     (if stale seq r \<or> rec_status r = DB_FILLED then r
      else if is_terminal r then
        if st = DB_FILLED \<and> fq > rec_filled_qty r
        then touch now r (r\<lparr>rec_status := DB_FILLED, rec_filled_qty := fq,
               rec_broker_update_seq := seq, rec_last_broker_update_at := Some now\<rparr>)
        else touch now r (r\<lparr>rec_filled_qty := max (rec_filled_qty r) fq, rec_broker_update_seq := seq\<rparr>)
      else if status_rank st < status_rank (rec_status r)
      then touch now r (r\<lparr>rec_filled_qty := max (rec_filled_qty r) fq, rec_broker_update_seq := seq\<rparr>)
      else touch now r (r\<lparr>rec_status := st, rec_filled_qty := max (rec_filled_qty r) fq,
             rec_broker_update_seq := seq, rec_last_broker_update_at := Some now\<rparr>))"

definition settles :: "db_order_status \<Rightarrow> int \<Rightarrow> int option \<Rightarrow> order_record \<Rightarrow> bool" where
  "settles st fq seq r \<longleftrightarrow> \<not> stale seq r \<and>
     (if is_terminal r then rec_status r \<noteq> DB_FILLED \<and> st = DB_FILLED \<and> fq > rec_filled_qty r
      else status_rank (rec_status r) \<le> status_rank st)"

lemma touch_field:
  assumes "\<And>x. g (x\<lparr>rec_updated_at := now\<rparr>) = g x"
  shows "g (touch now old new) = g new"
  using assms by (simp add: touch_def)

lemma touch_fields [simp]:
  "rec_order_id (touch now old new) = rec_order_id new"
  "rec_broker_order_id (touch now old new) = rec_broker_order_id new"
  "rec_status (touch now old new) = rec_status new"
  "rec_filled_qty (touch now old new) = rec_filled_qty new"
  "rec_broker_update_seq (touch now old new) = rec_broker_update_seq new"
  "rec_close_request_id (touch now old new) = rec_close_request_id new"
  "is_terminal (touch now old new) = is_terminal new"
  by (rule touch_field, simp add: is_terminal_def)+

lemma next_order_fields [simp]:
  "rec_order_id (next_order now st fq seq r) = rec_order_id r"
  "rec_broker_order_id (next_order now st fq seq r) = rec_broker_order_id r"
  "rec_close_request_id (next_order now st fq seq r) = rec_close_request_id r"
  by (simp_all add: next_order_def)

lemma write_order_put_row: "write_order r tbl = put_row rec_order_id r tbl"
  by (simp add: write_order_def put_row_def)

lemma put_order_row_id: "orders_ok (close_orders s) \<Longrightarrow> r \<in> set (close_orders s) \<Longrightarrow> put_order_row r s = s"
  by (simp add: put_order_row_def write_order_put_row put_row_id orders_ok_def)

lemma found_order:
  "get_order_by_broker_id tbl bid = Inr (Some r) \<Longrightarrow> r \<in> set tbl \<and> rec_broker_order_id r = Some bid"
  unfolding get_order_by_broker_id_def scalar_one_or_none_Some by (drule filter_singletonD) simp

lemma is_terminal_iff: "is_terminal r \<longleftrightarrow> 3 \<le> status_rank (rec_status r)"
  by (cases "rec_status r") (simp_all add: is_terminal_def status_rank_def)

lemma filled_terminal [simp]: "rec_status r = DB_FILLED \<Longrightarrow> is_terminal r"
  by (simp add: is_terminal_def)

lemma status_rank_le: "status_rank st \<le> 4" "status_rank DB_FILLED = 4"
  by (cases st) (simp_all add: status_rank_def)

lemma on_order_update_eq:
  assumes "get_order_by_broker_id (close_orders s) bid = Inr (Some r)"
    and "map_of broker_status_map (py_upper status) = Some st" and "orders_ok (close_orders s)"
  shows "on_order_update now bid status fq seq s =
    Inr (if settles st fq seq r
         then update_close_request now (next_order now st fq seq r)
                (put_order_row (next_order now st fq seq r) s)
         else put_order_row (next_order now st fq seq r) s)"
  using assms(1,2) put_order_row_id [OF assms(3), of r] found_order [OF assms(1)]
  by (cases "rec_status r = DB_FILLED") (auto simp: on_order_update_def next_order_def settles_def Let_def)

text \<open>An update that changes nothing: the order or the status is unknown.\<close>

lemma on_order_update_cases:
  assumes "on_order_update now bid status fq seq s = Inr t" and "orders_ok (close_orders s)"
  obtains "t = s"
  | r st where "get_order_by_broker_id (close_orders s) bid = Inr (Some r)"
      "map_of broker_status_map (py_upper status) = Some st" "\<not> settles st fq seq r"
      "t = put_order_row (next_order now st fq seq r) s"
  | r st where "get_order_by_broker_id (close_orders s) bid = Inr (Some r)"
      "map_of broker_status_map (py_upper status) = Some st" "settles st fq seq r"
      "t = update_close_request now (next_order now st fq seq r)
             (put_order_row (next_order now st fq seq r) s)"
proof (cases "get_order_by_broker_id (close_orders s) bid")
  case (Inl e)
  with assms(1) show thesis by (simp add: on_order_update_def)
next
  case (Inr found)
  show thesis
  proof (cases "found = None \<or> map_of broker_status_map (py_upper status) = None")
    case True
    with assms(1) Inr have "t = s" by (auto simp: on_order_update_def split: option.splits)
    then show thesis by (rule that(1))
  next
    case False
    then obtain r st where f: "found = Some r" "map_of broker_status_map (py_upper status) = Some st"
      by auto
    with Inr have g: "get_order_by_broker_id (close_orders s) bid = Inr (Some r)" by simp
    have "t = (if settles st fq seq r
         then update_close_request now (next_order now st fq seq r)
                (put_order_row (next_order now st fq seq r) s)
         else put_order_row (next_order now st fq seq r) s)"
      using on_order_update_eq [OF g f(2) assms(2)] assms(1) by simp
    then show thesis using that(2,3) [OF g f(2)] by (cases "settles st fq seq r") simp_all
  qed
qed

text \<open>What settling writes: the request, and with it its position.\<close>

lemma update_close_request_frame [simp]:
  "close_orders (update_close_request now r s) = close_orders s"
  "outbox (update_close_request now r s) = outbox s"
  by (simp_all add: update_close_request_def settle_request_def Let_def split: option.split)

section \<open>Monotone orders\<close>

definition row_le :: "order_record \<Rightarrow> order_record \<Rightarrow> bool" where
  "row_le r r' \<longleftrightarrow> rec_order_id r' = rec_order_id r
     \<and> status_rank (rec_status r) \<le> status_rank (rec_status r')
     \<and> rec_filled_qty r \<le> rec_filled_qty r'
     \<and> (is_terminal r \<longrightarrow> is_terminal r') \<and> (rec_status r = DB_FILLED \<longrightarrow> r' = r)"

lemma row_le_refl [simp]: "row_le r r"
  by (simp add: row_le_def)

lemma row_le_trans: "row_le a b \<Longrightarrow> row_le b c \<Longrightarrow> row_le a c"
  by (auto simp: row_le_def)

lemma row_le_next_order: "row_le r (next_order now st fq seq r)"
  using status_rank_le by (auto simp: row_le_def next_order_def is_terminal_iff)

lemma row_le_put_row:
  assumes "distinct (map rec_order_id tbl)" and "r \<in> set tbl" and "row_le r r'"
  shows "list_all2 row_le tbl (put_row rec_order_id r' tbl)"
proof -
  have "row_le x (if rec_order_id x = rec_order_id r' then r' else x)" if "x \<in> set tbl" for x
    using assms that by (auto simp: row_le_def distinct_map inj_on_def)
  then show ?thesis by (simp add: put_row_def list_all2_conv_all_nth)
qed

inductive update_step :: "close_db \<Rightarrow> close_db \<Rightarrow> bool" where
  Update: "on_order_update now bid status fq seq s = Inr t \<Longrightarrow> update_step s t"

inductive_cases update_stepE: "update_step s t"

lemma update_step_rows:
  assumes "update_step s t" and "orders_ok (close_orders s)"
  shows "list_all2 row_le (close_orders s) (close_orders t)"
  using assms(1)
proof (rule update_stepE)
  fix now bid status fq seq
  assume "on_order_update now bid status fq seq s = Inr t"
  then show ?thesis
  proof (rule on_order_update_cases [OF _ assms(2)])
    show ?thesis if "t = s" using that by (simp add: list_all2_refl)
  qed (use assms(2) row_le_next_order in
      \<open>auto simp: write_order_put_row orders_ok_def dest: found_order intro!: row_le_put_row\<close>)
qed

lemma row_le_ids: "list_all2 row_le xs ys \<Longrightarrow> map rec_order_id ys = map rec_order_id xs"
  by (induction rule: list_all2_induct) (auto simp: row_le_def)

text \<open>The rows of a fixed starting table only move forward: an instance of the step contract.\<close>

definition rows_above :: "order_table \<Rightarrow> close_db \<Rightarrow> bool" where
  "rows_above tbl s \<longleftrightarrow> orders_ok (close_orders s) \<and> list_all2 row_le tbl (close_orders s)"

interpretation updates: step_invariant update_step "rows_above tbl" for tbl
proof
  fix s t
  assume step: "update_step s t" and inv: "rows_above tbl s"
  then have le: "list_all2 row_le (close_orders s) (close_orders t)"
    using update_step_rows by (simp add: rows_above_def)
  then have "list_all2 row_le tbl (close_orders t)"
    using inv list_all2_trans [of row_le row_le row_le] row_le_trans by (metis rows_above_def)
  then show "rows_above tbl t" using inv row_le_ids [OF le] by (simp add: rows_above_def orders_ok_def)
qed

text \<open>C5. However the broker's updates are repeated, reordered or interleaved over the orders of
  the table, no order ever moves backwards: status priority and filled quantity do not
  decrease, a terminal order stays terminal, and a FILLED order never changes again.\<close>

theorem order_updates_monotone:
  assumes "update_step\<^sup>*\<^sup>* s t" and "orders_ok (close_orders s)"
  shows "list_all2 row_le (close_orders s) (close_orders t)"
  using updates.run_keeps [OF assms(1), of "close_orders s"] assms(2)
  by (simp add: rows_above_def list_all2_refl)

section \<open>Repeated updates\<close>

lemma touch_idem:
  assumes "\<And>x. h (g x) = g x" and "\<And>x. h (x\<lparr>rec_updated_at := now\<rparr>) = (h x)\<lparr>rec_updated_at := now\<rparr>"
  shows "touch now (touch now r (g r)) (h (touch now r (g r))) = touch now r (g r)"
proof (cases "g r = r")
  case True
  with assms(1) [of r] show ?thesis by (simp add: touch_def)
next
  case False
  with assms show ?thesis by (simp add: touch_def)
qed

definition keep_status :: "int \<Rightarrow> int \<Rightarrow> int option \<Rightarrow> order_record \<Rightarrow> order_record" where
  "keep_status now fq seq r =
     touch now r (r\<lparr>rec_filled_qty := max (rec_filled_qty r) fq, rec_broker_update_seq := seq\<rparr>)"

definition move_status ::
  "int \<Rightarrow> db_order_status \<Rightarrow> int \<Rightarrow> int option \<Rightarrow> order_record \<Rightarrow> order_record" where
  "move_status now st fq seq r =
     touch now r (r\<lparr>rec_status := st, rec_filled_qty := max (rec_filled_qty r) fq,
       rec_broker_update_seq := seq, rec_last_broker_update_at := Some now\<rparr>)"

lemma next_order_alt:
  "next_order now st fq seq r =
     (if stale seq r \<or> rec_status r = DB_FILLED then r
      else if settles st fq seq r then move_status now st fq seq r else keep_status now fq seq r)"
  by (simp add: next_order_def settles_def keep_status_def move_status_def max_def)

lemma move_status_fields [simp]:
  "rec_status (move_status now st fq seq r) = st"
  "rec_filled_qty (move_status now st fq seq r) = max (rec_filled_qty r) fq"
  "rec_status (keep_status now fq seq r) = rec_status r"
  "rec_filled_qty (keep_status now fq seq r) = max (rec_filled_qty r) fq"
  by (simp_all add: move_status_def keep_status_def)

lemma keep_status_idem:
  "keep_status now fq seq (keep_status now fq seq r) = keep_status now fq seq r"
  unfolding keep_status_def by (rule touch_idem) simp_all

lemma keep_move_status:
  "keep_status now fq seq (move_status now st fq seq r) = move_status now st fq seq r"
  unfolding keep_status_def move_status_def by (rule touch_idem) simp_all

lemma move_status_idem:
  "move_status now st fq seq (move_status now st fq seq r) = move_status now st fq seq r"
  unfolding move_status_def by (rule touch_idem) simp_all

lemma settles_keep: "\<not> settles st fq seq r \<Longrightarrow> \<not> stale seq r \<Longrightarrow> \<not> settles st fq seq (keep_status now fq seq r)"
  by (simp add: settles_def is_terminal_iff) (auto simp: max_def)

lemma next_order_idem [simp]:
  "next_order now st fq seq (next_order now st fq seq r) = next_order now st fq seq r"
proof (cases "stale seq r \<or> rec_status r = DB_FILLED")
  case True
  then show ?thesis by (simp add: next_order_alt)
next
  case False
  show ?thesis
  proof (cases "settles st fq seq r")
    case True
    with False show ?thesis
      using next_order_alt [of now st fq seq "move_status now st fq seq r"] next_order_alt [of now st fq seq r]
      by (simp add: keep_move_status move_status_idem)
  next
    case unsettled: False
    with False settles_keep [OF unsettled] show ?thesis
      using next_order_alt [of now st fq seq "keep_status now fq seq r"] next_order_alt [of now st fq seq r]
      by (simp add: keep_status_idem)
  qed
qed

lemma next_order_quantity:
  "rec_filled_qty (next_order now st fq seq r)
     = (if stale seq r \<or> rec_status r = DB_FILLED then rec_filled_qty r else max (rec_filled_qty r) fq)"
  by (simp add: next_order_def)

lemma next_order_status:
  "rec_status (next_order now st fq seq r) = (if settles st fq seq r then st else rec_status r)"
  by (simp add: next_order_def settles_def)

lemma next_order_stale: "stale seq r \<Longrightarrow> next_order now st fq seq r = r"
  by (simp add: next_order_def)

lemma settles_next_order:
  assumes "settles st fq seq (next_order now st fq seq r)"
  shows "settles st fq seq r" and "\<not> is_terminal (next_order now st fq seq r)"
proof -
  have fresh: "\<not> stale seq r" using assms next_order_stale by (auto simp: settles_def)
  show *: "\<not> is_terminal (next_order now st fq seq r)"
  proof
    assume "is_terminal (next_order now st fq seq r)"
    then have "fq > rec_filled_qty (next_order now st fq seq r)"
      and n: "rec_status (next_order now st fq seq r) \<noteq> DB_FILLED" and st: "st = DB_FILLED"
      using assms unfolding settles_def by (auto split: if_splits)
    then show False using fresh
      by (cases "rec_status r = DB_FILLED") (auto simp: next_order_quantity next_order_status settles_def)
  qed
  show "settles st fq seq r"
  proof (rule ccontr)
    assume "\<not> settles st fq seq r"
    with * assms fresh show False
      by (simp add: settles_def next_order_status is_terminal_iff)
  qed
qed

lemma broker_id_after_write:
  assumes "orders_ok tbl" and "get_order_by_broker_id tbl bid = Inr (Some r)"
    and "rec_order_id r' = rec_order_id r" and "rec_broker_order_id r' = Some bid"
  shows "get_order_by_broker_id (write_order r' tbl) bid = Inr (Some r')"
proof -
  have r: "r \<in> set tbl" "rec_broker_order_id r = Some bid" using found_order [OF assms(2)] by auto
  have "filter (\<lambda>x. rec_broker_order_id x = Some bid) (write_order r' tbl)
      = map (\<lambda>x. if rec_order_id x = rec_order_id r' then r' else x)
          (filter (\<lambda>x. rec_broker_order_id x = Some bid) tbl)"
    unfolding write_order_def
    by (rule filter_map_replace)
      (use r assms(1,3,4) in \<open>auto simp: orders_ok_def distinct_map inj_on_def\<close>)
  then show ?thesis using assms by (simp add: get_order_by_broker_id_def scalar_one_or_none_Some)
qed

lemma update_close_request_waits:
  assumes "r \<in> set (close_orders s)" and "\<not> is_terminal r"
  shows "update_close_request now r (update_close_request now r s) = update_close_request now r s"
proof (cases "rec_close_request_id r")
  case (Some rid)
  have open_order: "\<not> list_all is_terminal (orders_of rid s)"
    using assms Some by (auto simp: orders_of_def list_all_iff)
  have same: "orders_of rid (put_request cr s) = orders_of rid s" for cr
    by (simp add: orders_of_def)
  show ?thesis
  proof (cases "get_request rid s")
    case found: (Some cr)
    have id: "cr_id cr = rid" using found row_at_SomeD [of cr_id rid "close_requests s" cr] by (simp add: get_request_def)
    show ?thesis
    proof (cases "row_at pos_id (cr_position_id cr) (close_positions s)")
      case (Some p)
      let ?cr = "cr\<lparr>cr_filled_qty := sum_list (map rec_filled_qty (orders_of rid s))\<rparr>"
      have "get_request rid (put_request ?cr s) = Some ?cr"
        using found id by (simp add: get_request_def row_at_put_row)
      with Some found id open_order same \<open>rec_close_request_id r = Some rid\<close> show ?thesis
        by (simp add: update_close_request_def settle_request_def Let_def) (simp add: put_request_def)
    qed (use Some found in \<open>simp add: update_close_request_def\<close>)
  qed (use Some in \<open>simp add: update_close_request_def\<close>)
qed (simp add: update_close_request_def)

text \<open>A broker update is idempotent even when the broker sends no sequence numbers: delivering
  the same update a second time leaves orders, close requests and positions as after the
  first delivery.\<close>

theorem order_update_idempotent:
  assumes "on_order_update now bid status fq seq s = Inr t" and "orders_ok (close_orders s)"
  shows "on_order_update now bid status fq seq t = Inr t"
  using assms
proof (cases rule: on_order_update_cases)
  case 1
  with assms show ?thesis by simp
next
  case (2 r st)
  let ?r = "next_order now st fq seq r"
  have g: "get_order_by_broker_id (close_orders t) bid = Inr (Some ?r)"
    using 2 broker_id_after_write [OF assms(2) 2(1), of ?r] found_order [OF 2(1)] by simp
  have t: "orders_ok (close_orders t)" "?r \<in> set (close_orders t)"
    using 2 assms(2) found_order [OF g] by simp_all
  from settles_next_order have "\<not> settles st fq seq ?r" using 2 by blast
  then show ?thesis using on_order_update_eq [OF g 2(2) t(1)] put_order_row_id [OF t] by simp
next
  case (3 r st)
  let ?r = "next_order now st fq seq r" and ?s = "put_order_row (next_order now st fq seq r) s"
  have g: "get_order_by_broker_id (close_orders t) bid = Inr (Some ?r)"
    using 3 broker_id_after_write [OF assms(2) 3(1), of ?r] found_order [OF 3(1)] by simp
  have t: "orders_ok (close_orders t)" "?r \<in> set (close_orders t)" "?r \<in> set (close_orders ?s)"
    using 3 assms(2) found_order [OF g] by simp_all
  have "update_close_request now ?r t = t" if "settles st fq seq ?r"
    using update_close_request_waits [OF t(3)] settles_next_order [OF that] 3(4) by simp
  then show ?thesis using on_order_update_eq [OF g 3(2) t(1)] put_order_row_id [OF t(1,2)] by simp
qed

section \<open>When a position counts as closed\<close>

text \<open>The request and position that an update can change.\<close>

lemma update_close_request_cases:
  obtains "update_close_request now r s = s"
  | rid cr p where "rec_close_request_id r = Some rid" "get_request rid s = Some cr" "cr_id cr = rid"
      "row_at pos_id (cr_position_id cr) (close_positions s) = Some p" "pos_id p = cr_position_id cr"
      "update_close_request now r s = settle_request now (orders_of rid s)
         (cr\<lparr>cr_filled_qty := sum_list (map rec_filled_qty (orders_of rid s))\<rparr>) p s"
proof (cases "rec_close_request_id r")
  case None
  then show thesis by (intro that(1)) (simp add: update_close_request_def)
next
  case rid: (Some rid)
  show thesis
  proof (cases "get_request rid s")
    case None
    with rid show thesis by (intro that(1)) (simp add: update_close_request_def)
  next
    case cr: (Some cr)
    show thesis
    proof (cases "row_at pos_id (cr_position_id cr) (close_positions s)")
      case None
      with rid cr show thesis by (intro that(1)) (simp add: update_close_request_def)
    next
      case (Some p)
      have "cr_id cr = rid" using cr row_at_SomeD [of cr_id rid "close_requests s" cr] by (simp add: get_request_def)
      moreover have "pos_id p = cr_position_id cr" using row_at_SomeD [OF Some] by simp
      ultimately show thesis using rid cr Some
        by (intro that(2)) (simp_all add: update_close_request_def Let_def)
    qed
  qed
qed

lemma settle_request_ok:
  assumes "close_ok s" and "cr_retry_count cr \<le> max_retries cr" and "idle_row p"
  shows "close_ok (settle_request now ords cr p s)"
  using assms
  by (auto simp: settle_request_def intro!: close_ok_put_position close_ok_put_request)
    (simp_all add: idle_row_def)

lemma update_close_request_ok: "close_ok s \<Longrightarrow> close_ok (update_close_request now r s)"
proof (cases rule: update_close_request_cases [of now r s])
  case (2 rid cr p)
  assume ok: "close_ok s"
  then show ?thesis
    using close_ok_request [OF ok 2(2)] close_okD(3) [OF ok] row_at_SomeD [OF 2(4)] 2(6)
    by (simp add: settle_request_ok)
qed simp

lemma on_order_update_ok:
  assumes "on_order_update now bid status fq seq s = Inr t" and "close_ok s"
    and "orders_ok (close_orders s)"
  shows "close_ok t" and "orders_ok (close_orders t)"
proof -
  show "close_ok t" using assms(1,3)
    by (cases rule: on_order_update_cases) (use assms(2) in \<open>simp_all add: update_close_request_ok\<close>)
  show "orders_ok (close_orders t)" using assms(1,3)
    by (cases rule: on_order_update_cases) (use assms(3) in simp_all)
qed

lemma settle_request_completes:
  assumes "get_request rid (settle_request now ords cr p s) = Some cr'" and "cr_status cr' = CR_COMPLETED"
    and "cr_id cr = rid" and "\<forall>c. get_request rid s = Some c \<longrightarrow> cr_status c \<noteq> CR_COMPLETED"
    and "cr_status cr \<noteq> CR_COMPLETED"
  shows "list_all (\<lambda>r. rec_status r = DB_FILLED) ords \<and> cr_filled_qty cr = target_qty cr
    \<and> cr' = cr\<lparr>cr_status := CR_COMPLETED, completed_at := Some now\<rparr>"
  using assms
  by (auto simp: settle_request_def get_request_def row_at_put_row remaining_qty_def split: if_splits)

text \<open>C6. A close request becomes COMPLETED only by an update after which every order of the
  request is FILLED and the filled quantities of these orders add up to the quantity that
  was to be closed; the request then records that quantity and its position is CLOSED with
  no active request.\<close>

theorem completed_means_filled:
  assumes "on_order_update now bid status fq seq s = Inr t" and "orders_ok (close_orders s)"
    and "get_request rid s = Some cr" and "cr_status cr \<noteq> CR_COMPLETED"
    and "get_request rid t = Some cr'" and "cr_status cr' = CR_COMPLETED"
  shows "(\<forall>r \<in> set (orders_of rid t). rec_status r = DB_FILLED)
    \<and> sum_list (map rec_filled_qty (orders_of rid t)) = target_qty cr
    \<and> cr_filled_qty cr' = target_qty cr
    \<and> (\<exists>p. row_at pos_id (cr_position_id cr) (close_positions t) = Some p
        \<and> pos_status p = CLOSED \<and> active_close_request_id p = None)"
  using assms(1,2)
proof (cases rule: on_order_update_cases)
  case (3 r st)
  let ?r = "next_order now st fq seq r" and ?s = "put_order_row (next_order now st fq seq r) s"
  have req: "get_request rid ?s = Some cr" using assms(3) by (simp add: get_request_def)
  show ?thesis
  proof (cases rule: update_close_request_cases [of now ?r ?s])
    case 1
    with 3 req assms show ?thesis by simp
  next
    case (2 rid' c p)
    let ?c = "c\<lparr>cr_filled_qty := sum_list (map rec_filled_qty (orders_of rid' ?s))\<rparr>"
    have t: "t = settle_request now (orders_of rid' ?s) ?c p ?s" using 3(4) 2(6) by simp
    have same: "orders_of rid t = orders_of rid ?s"
      using 3(4) by (simp add: orders_of_def)
    show ?thesis
    proof (cases "rid' = rid")
      case True
      then have c: "c = cr" using 2(2) req by simp
      have fin: "list_all (\<lambda>r. rec_status r = DB_FILLED) (orders_of rid ?s)"
        "cr_filled_qty ?c = target_qty ?c" "cr' = ?c\<lparr>cr_status := CR_COMPLETED, completed_at := Some now\<rparr>"
        using settle_request_completes [of rid now "orders_of rid ?s" ?c p ?s cr'] assms 2(3) req c True t
        by simp_all
      have "row_at pos_id (cr_position_id cr) (close_positions t)
          = Some (p\<lparr>pos_status := CLOSED, closed_at := Some now, active_close_request_id := None\<rparr>)"
        using t fin 2(4,5) c True
        by (auto simp: settle_request_def remaining_qty_def row_at_put_row list_all_iff)
      with fin c True same show ?thesis by (simp add: list_all_iff)
    next
      case False
      then have "get_request rid t = get_request rid ?s"
        unfolding t get_request_def settle_request_def using 2(3)
        by (simp add: row_at_put_row)
      with req assms show ?thesis by simp
    qed
  qed
qed (use assms in \<open>simp_all add: get_request_def\<close>)

text \<open>An order of the request that ended cancelled, rejected or expired blocks its close for
  good: as long as only updates of other orders arrive, the request is never COMPLETED,
  even when a retry order has filled the whole remaining quantity.\<close>

theorem cancelled_order_blocks_completion:
  assumes "on_order_update now bid status fq seq s = Inr t" and "orders_ok (close_orders s)"
    and "dead \<in> set (orders_of rid s)" and "is_terminal dead" and "rec_status dead \<noteq> DB_FILLED"
    and "rec_broker_order_id dead \<noteq> Some bid"
    and "get_request rid s = Some cr" and "cr_status cr \<noteq> CR_COMPLETED"
  shows "dead \<in> set (orders_of rid t)
    \<and> (\<forall>cr'. get_request rid t = Some cr' \<longrightarrow> cr_status cr' \<noteq> CR_COMPLETED)"
  using assms(1,2)
proof (cases rule: on_order_update_cases)
  case 1
  with assms show ?thesis by simp
next
  case (2 r st)
  have "rec_order_id dead \<noteq> rec_order_id (next_order now st fq seq r)"
    using assms(2,3,6) found_order [OF 2(1)] by (auto simp: orders_ok_def orders_of_def distinct_map inj_on_def)
  then show ?thesis using 2 assms by (auto simp: orders_of_def get_request_def write_order_def)
next
  case (3 r st)
  let ?r = "next_order now st fq seq r" and ?s = "put_order_row (next_order now st fq seq r) s"
  have "rec_order_id dead \<noteq> rec_order_id ?r"
    using assms(2,3,6) found_order [OF 3(1)] by (auto simp: orders_ok_def orders_of_def distinct_map inj_on_def)
  then have dead: "dead \<in> set (orders_of rid ?s)" using assms(3) by (auto simp: orders_of_def write_order_def)
  have req: "get_request rid ?s = Some cr" using assms(7) by (simp add: get_request_def)
  have "cr_status cr' \<noteq> CR_COMPLETED" if c': "get_request rid t = Some cr'" for cr'
  proof (cases rule: update_close_request_cases [of now ?r ?s])
    case 1
    with 3 req c' assms show ?thesis by simp
  next
    case (2 rid' c p)
    let ?c = "c\<lparr>cr_filled_qty := sum_list (map rec_filled_qty (orders_of rid' ?s))\<rparr>"
    have t: "t = settle_request now (orders_of rid' ?s) ?c p ?s" using 3(4) 2(6) by simp
    show ?thesis
    proof (cases "rid' = rid")
      case True
      then have "c = cr" using 2(2) req by simp
      moreover have "\<not> list_all (\<lambda>r. rec_status r = DB_FILLED) (orders_of rid' ?s)"
        using dead assms(5) True by (auto simp: list_all_iff)
      ultimately show ?thesis
        using settle_request_completes [of rid now "orders_of rid ?s" ?c p ?s cr'] c' t True 2(3) req assms(8)
        by auto
    next
      case False
      then have "get_request rid t = get_request rid ?s"
        unfolding t get_request_def settle_request_def using 2(3) by (simp add: row_at_put_row)
      with req c' assms show ?thesis by simp
    qed
  qed
  with dead 3(4) show ?thesis by (simp add: orders_of_def)
qed

section \<open>Late fills\<close>

lemma orders_of_only:
  "orders_of rid s = [r] \<Longrightarrow> r \<in> set (close_orders s) \<and> rec_close_request_id r = Some rid"
  unfolding orders_of_def by (drule filter_singletonD) simp

lemma orders_of_put_only:
  assumes "orders_ok (close_orders s)" and "orders_of rid s = [r]"
    and "rec_order_id r' = rec_order_id r" and "rec_close_request_id r' = Some rid"
  shows "orders_of rid (put_order_row r' s) = [r']"
proof -
  have r: "r \<in> set (close_orders s)" "rec_close_request_id r = Some rid"
    using orders_of_only [OF assms(2)] by simp_all
  have "filter (\<lambda>x. rec_close_request_id x = Some rid) (write_order r' (close_orders s))
      = map (\<lambda>x. if rec_order_id x = rec_order_id r' then r' else x)
          (filter (\<lambda>x. rec_close_request_id x = Some rid) (close_orders s))"
    unfolding write_order_def
    by (rule filter_map_replace)
      (use r assms(1,3,4) in \<open>auto simp: orders_ok_def distinct_map inj_on_def\<close>)
  then show ?thesis using assms by (simp add: orders_of_def)
qed

text \<open>A late FILLED for the only order of an old close request, after its cancellation had
  reopened the position and a second close had been requested, marks the position CLOSED and
  clears its active request although the second request is still running: its order will
  sell the quantity a second time.\<close>

theorem late_fill_overrides_active_request:
  assumes "orders_ok (close_orders s)"
    and "get_order_by_broker_id (close_orders s) bid = Inr (Some r)" and "orders_of rid s = [r]"
    and "is_terminal r" and "rec_status r \<noteq> DB_FILLED" and "\<not> stale seq r"
    and "get_request rid s = Some cr" and "rec_filled_qty r < target_qty cr"
    and "row_at pos_id (cr_position_id cr) (close_positions s) = Some p"
    and "active_close_request_id p = Some other" and "other \<noteq> rid"
  shows "\<exists>t p'. on_order_update now bid ''filled'' (target_qty cr) seq s = Inr t
    \<and> row_at pos_id (cr_position_id cr) (close_positions t) = Some p'
    \<and> pos_status p' = CLOSED \<and> active_close_request_id p' = None
    \<and> pos_quantity p' = pos_quantity p
    \<and> get_request other t = get_request other s \<and> orders_of other t = orders_of other s"
proof -
  let ?r = "next_order now DB_FILLED (target_qty cr) seq r"
  have st: "map_of broker_status_map (py_upper ''filled'') = Some DB_FILLED" by code_simp
  have settle: "settles DB_FILLED (target_qty cr) seq r" using assms by (simp add: settles_def)
  have rid: "rec_close_request_id r = Some rid"
    using orders_of_only [OF assms(3)] by simp
  have id: "cr_id cr = rid" "pos_id p = cr_position_id cr"
    using row_at_SomeD [of cr_id rid "close_requests s" cr] row_at_SomeD [OF assms(9)] assms(7)
    by (simp_all add: get_request_def)
  let ?s = "put_order_row ?r s"
  have one: "orders_of rid ?s = [?r]" using orders_of_put_only [OF assms(1,3)] rid by simp
  have r: "is_terminal ?r" "rec_status ?r = DB_FILLED" "rec_filled_qty ?r = target_qty cr"
    using settle assms by (simp_all add: next_order_status next_order_quantity is_terminal_def)
  have "orders_of other ?s = orders_of other s"
    unfolding orders_of_def put_frames write_order_def
    by (rule filter_map_other)
      (use rid assms(1,11) found_order [OF assms(2)] in \<open>auto simp: orders_ok_def distinct_map inj_on_def\<close>)
  moreover have "on_order_update now bid ''filled'' (target_qty cr) seq s
      = Inr (update_close_request now ?r ?s)"
    using on_order_update_eq [OF assms(2) st assms(1)] settle by simp
  moreover have "update_close_request now ?r ?s =
      put_position (p\<lparr>pos_status := CLOSED, closed_at := Some now, active_close_request_id := None\<rparr>)
        (put_request (cr\<lparr>cr_filled_qty := target_qty cr, cr_status := CR_COMPLETED, completed_at := Some now\<rparr>) ?s)"
    using rid assms(7,9) one r
    by (simp add: update_close_request_def get_request_def settle_request_def remaining_qty_def)
  ultimately show ?thesis using id assms(9,11)
    by (simp add: row_at_put_row get_request_def orders_of_def)
qed

section \<open>Concrete runs\<close>

definition demo_holding :: position where
  "demo_holding = \<lparr>pos_id = 1, pos_account_id = ''A'', pos_symbol = ''SPY'', pos_asset_type = OPTION,
     pos_strategy_id = None, pos_status = CLOSING, pos_quantity = 10, avg_cost = 2, current_price = 3,
     strike = None, expiry = None, pos_put_call = None, active_close_request_id = Some 7, closed_at = None\<rparr>"

definition demo_request :: "nat \<Rightarrow> close_status \<Rightarrow> close_request" where
  "demo_request rid st = (new_close_request 0 rid 1 [] ''SPY'' Sell OPTION 10)\<lparr>cr_status := st\<rparr>"

definition demo_close_order :: "nat \<Rightarrow> string \<Rightarrow> int \<Rightarrow> db_order_status \<Rightarrow> order_record" where
  "demo_close_order rid bid n st =
     \<lparr>rec_order_id = bid, rec_broker_order_id = Some bid, rec_account_id = ''A'', rec_strategy_id = [],
      rec_symbol = ''SPY'', rec_side = Sell, rec_quantity = 10, rec_order_type = Limit,
      rec_limit_price = None, rec_status = st, rec_filled_qty = n, rec_avg_fill_price = None,
      rec_error_message = None, rec_created_at = 0, rec_updated_at = 0, rec_close_request_id = Some rid,
      rec_broker_update_seq = None, rec_last_broker_update_at = None, rec_not_found_count = 0\<rparr>"

definition demo_close :: "close_request list \<Rightarrow> order_record list \<Rightarrow> close_db" where
  "demo_close crs ords = \<lparr>close_positions = [demo_holding], close_requests = crs, outbox = [],
     close_orders = ords, next_event_id = 1\<rparr>"

lemmas demo_close_defs = demo_holding_def demo_request_def new_close_request_def demo_close_order_def
  demo_close_def

lemmas update_eval = on_order_update_def get_order_by_broker_id_def scalar_one_or_none_def
  broker_status_map_def stale_def is_terminal_def status_rank_def touch_def update_close_request_def
  get_request_def row_at_def orders_of_def settle_request_def remaining_qty_def put_request_def
  put_position_def put_row_def put_order_row_def write_order_def

lemma upper_words:
  "py_upper ''filled'' = ''FILLED''" "py_upper ''FILLED'' = ''FILLED''" "py_upper ''partial'' = ''PARTIAL''"
  by code_simp+

theorem order_updates_monotone_witness:
  "\<exists>t. update_step\<^sup>*\<^sup>* (demo_close [demo_request 7 CR_SUBMITTED] [demo_close_order 7 ''b1'' 4 DB_PARTIAL_FILL]) t
     \<and> list_all2 row_le [demo_close_order 7 ''b1'' 4 DB_PARTIAL_FILL] (close_orders t)
     \<and> map rec_status (close_orders t) = [DB_FILLED]"
proof -
  let ?s = "demo_close [demo_request 7 CR_SUBMITTED] [demo_close_order 7 ''b1'' 4 DB_PARTIAL_FILL]"
  obtain t where t: "on_order_update 5 ''b1'' ''filled'' 10 None ?s = Inr t" "map rec_status (close_orders t) = [DB_FILLED]"
    by (simp add: update_eval demo_close_defs upper_words)
  then have "update_step\<^sup>*\<^sup>* ?s t" using Update by blast
  moreover have "orders_ok (close_orders ?s)" by (simp add: demo_close_def orders_ok_def)
  ultimately show ?thesis using order_updates_monotone [of ?s t] t(2) by (auto simp: demo_close_def)
qed

theorem order_update_idempotent_witness:
  "\<exists>t. on_order_update 5 ''b1'' ''filled'' 10 None
        (demo_close [demo_request 7 CR_SUBMITTED] [demo_close_order 7 ''b1'' 4 DB_PARTIAL_FILL]) = Inr t
     \<and> on_order_update 5 ''b1'' ''filled'' 10 None t = Inr t"
proof -
  let ?s = "demo_close [demo_request 7 CR_SUBMITTED] [demo_close_order 7 ''b1'' 4 DB_PARTIAL_FILL]"
  obtain t where t: "on_order_update 5 ''b1'' ''filled'' 10 None ?s = Inr t"
    by (simp add: update_eval demo_close_defs upper_words)
  have "orders_ok (close_orders ?s)" by (simp add: demo_close_def orders_ok_def)
  with order_update_idempotent [OF t] t show ?thesis by blast
qed

theorem completed_means_filled_witness:
  "\<exists>t. on_order_update 5 ''b1'' ''filled'' 10 None
        (demo_close [demo_request 7 CR_SUBMITTED] [demo_close_order 7 ''b1'' 4 DB_PARTIAL_FILL]) = Inr t
     \<and> sum_list (map rec_filled_qty (orders_of 7 t)) = 10"
proof -
  let ?s = "demo_close [demo_request 7 CR_SUBMITTED] [demo_close_order 7 ''b1'' 4 DB_PARTIAL_FILL]"
  obtain t cr where t: "on_order_update 5 ''b1'' ''filled'' 10 None ?s = Inr t"
      "get_request 7 t = Some cr" "cr_status cr = CR_COMPLETED"
    by (simp add: update_eval demo_close_defs upper_words)
  have "orders_ok (close_orders ?s)" by (simp add: demo_close_def orders_ok_def)
  moreover have "get_request 7 ?s = Some (demo_request 7 CR_SUBMITTED)"
    by (simp add: get_request_def row_at_def demo_close_defs)
  ultimately show ?thesis
    using completed_means_filled [OF t(1) _ _ _ t(2,3)] t(1) by (simp add: demo_request_def new_close_request_def)
qed

theorem cancelled_order_blocks_completion_witness:
  "\<exists>t. on_order_update 5 ''b2'' ''filled'' 6 None
        (demo_close [demo_request 7 CR_SUBMITTED]
          [demo_close_order 7 ''b1'' 4 DB_CANCELLED, demo_close_order 7 ''b2'' 0 DB_SUBMITTED]) = Inr t
     \<and> sum_list (map rec_filled_qty (orders_of 7 t)) = 10
     \<and> map_option cr_status (get_request 7 t) \<noteq> Some CR_COMPLETED"
proof -
  let ?s = "demo_close [demo_request 7 CR_SUBMITTED]
          [demo_close_order 7 ''b1'' 4 DB_CANCELLED, demo_close_order 7 ''b2'' 0 DB_SUBMITTED]"
  obtain t where t: "on_order_update 5 ''b2'' ''filled'' 6 None ?s = Inr t"
      "sum_list (map rec_filled_qty (orders_of 7 t)) = 10"
    by (simp add: update_eval demo_close_defs upper_words)
  have "orders_ok (close_orders ?s)" by (simp add: demo_close_defs orders_ok_def)
  moreover have "get_request 7 ?s = Some (demo_request 7 CR_SUBMITTED)"
    by (simp add: get_request_def row_at_def demo_close_defs)
  moreover have "demo_close_order 7 ''b1'' 4 DB_CANCELLED \<in> set (orders_of 7 ?s)"
    by (simp add: orders_of_def demo_close_defs)
  ultimately show ?thesis
    using cancelled_order_blocks_completion [OF t(1), of "demo_close_order 7 ''b1'' 4 DB_CANCELLED" 7] t
    by (auto simp: demo_request_def new_close_request_def demo_close_order_def is_terminal_def)
qed

theorem late_fill_overrides_active_request_witness:
  "\<exists>t p'. on_order_update 5 ''b1'' ''filled'' 10 None
        (demo_close [demo_request 3 CR_FAILED, demo_request 7 CR_SUBMITTED]
          [demo_close_order 3 ''b1'' 0 DB_CANCELLED, demo_close_order 7 ''b2'' 0 DB_SUBMITTED]) = Inr t
     \<and> row_at pos_id 1 (close_positions t) = Some p' \<and> pos_status p' = CLOSED"
proof -
  let ?s = "demo_close [demo_request 3 CR_FAILED, demo_request 7 CR_SUBMITTED]
          [demo_close_order 3 ''b1'' 0 DB_CANCELLED, demo_close_order 7 ''b2'' 0 DB_SUBMITTED]"
  have "orders_ok (close_orders ?s)" by (simp add: demo_close_defs orders_ok_def)
  moreover have "get_order_by_broker_id (close_orders ?s) ''b1'' = Inr (Some (demo_close_order 3 ''b1'' 0 DB_CANCELLED))"
    "orders_of 3 ?s = [demo_close_order 3 ''b1'' 0 DB_CANCELLED]"
    "get_request 3 ?s = Some (demo_request 3 CR_FAILED)" "row_at pos_id 1 (close_positions ?s) = Some demo_holding"
    by (simp_all add: update_eval demo_close_defs)
  ultimately show ?thesis
    using late_fill_overrides_active_request [of ?s "''b1''" "demo_close_order 3 ''b1'' 0 DB_CANCELLED" 3 None
        "demo_request 3 CR_FAILED" demo_holding 7 5]
    by (auto simp: demo_request_def new_close_request_def demo_close_order_def is_terminal_def stale_def demo_holding_def)
qed

end
