(* ===== verification/Outbox_Worker.thy ===== *)
theory Outbox_Worker
  imports Order_Update
begin

text \<open>
  The outbox worker of workers/outbox_worker.py: it claims a pending event, prices the close
  order from a quote and submits it, and retries a failed event up to three times. The
  quote, the answer of the order manager and the order rows that manager writes are
  arguments. A quote's prices are decimals, so \<open>Decimal(str(x))\<close> is \<open>x\<close>.
\<close>

record quote =
  quote_bid :: decimal
  quote_ask :: decimal
  quote_last :: "decimal option"

datatype quote_reply = Quoted quote | Quote_Failed py_error

text \<open>The \<open>status\<close> attribute of the returned order, when it has one.\<close>

datatype submit_reply = Submitted "string option" "order_record list" | Submit_Failed py_error

definition runtime_error :: py_error where
  "runtime_error = ExternalError ''RuntimeError''"

section \<open>Pricing\<close>

text \<open>The spread is compared with the float 0.20.\<close>

definition close_limit_price :: "side \<Rightarrow> quote \<Rightarrow> decimal result" where
  "close_limit_price sd q =
     (if quote_bid q \<le> 0 \<or> quote_ask q \<le> 0 then Inl runtime_error
      else
        res_bind (dec_div (dec_sub (quote_ask q) (quote_bid q)) (quote_bid q)) (\<lambda>spread.
        res_bind
          (if spread > fl (1 / 5) then
             (case quote_last q of
                None \<Rightarrow> Inl runtime_error
              | Some l \<Rightarrow>
                  if l > 0 then Inr (dec_mul l (if sd = Sell then 9 / 10 else 11 / 10))
                  else Inl runtime_error)
           else if sd = Sell then Inr (dec_mul (quote_bid q) (19 / 20))
           else Inr (dec_mul (quote_ask q) (21 / 20)))
          (\<lambda>limit. Inr (max limit (1 / 100)))))"

section \<open>Submitting\<close>

definition handle_submit_close_order ::
  "int \<Rightarrow> quote_reply \<Rightarrow> submit_reply \<Rightarrow> close_payload option \<Rightarrow> close_db \<Rightarrow> close_db result" where
  "handle_submit_close_order now qr sr payload s =
     (case payload of
        None \<Rightarrow> Inl KeyError
      | Some pl \<Rightarrow>
          (case get_request (pl_request_id pl) s of
             None \<Rightarrow> Inr s
           | Some cr \<Rightarrow>
               if cr_status cr \<noteq> CR_PENDING then Inr s
               else (case qr of
                 Quote_Failed e \<Rightarrow> Inl e
               | Quoted q \<Rightarrow>
                   res_bind (close_limit_price (pl_side pl) q) (\<lambda>limit.
                   case sr of
                     Submit_Failed e \<Rightarrow> Inl e
                   | Submitted st rows \<Rightarrow>
                       (let s1 = s\<lparr>close_orders := close_orders s @ rows\<rparr>
                        in if st = Some ''REJECTED'' then
                             (let s2 = put_request (cr\<lparr>cr_status := CR_FAILED, completed_at := Some now\<rparr>) s1
                              in case row_at pos_id (cr_position_id cr) (close_positions s2) of
                                   None \<Rightarrow> Inr s2
                                 | Some p \<Rightarrow> Inr (put_position (p\<lparr>pos_status := CLOSE_FAILED,
                                               active_close_request_id := None\<rparr>) s2))
                           else Inr (put_request (cr\<lparr>cr_status := CR_SUBMITTED, submitted_at := Some now\<rparr>) s1))))))"

definition handle_failure :: "int \<Rightarrow> outbox_event \<Rightarrow> close_db \<Rightarrow> close_db" where
  "handle_failure now ev s =
     (if ev_type ev \<noteq> Submit_Close_Order then s
      else case ev_payload ev of
             None \<Rightarrow> s
           | Some pl \<Rightarrow>
               (case get_request (pl_request_id pl) s of
                  None \<Rightarrow> s
                | Some cr \<Rightarrow>
                    (let s1 = put_request (cr\<lparr>cr_status := CR_FAILED, completed_at := Some now\<rparr>) s
                     in case row_at pos_id (cr_position_id cr) (close_positions s1) of
                          None \<Rightarrow> s1
                        | Some p \<Rightarrow> put_position (p\<lparr>pos_status := CLOSE_FAILED,
                                      active_close_request_id := None\<rparr>) s1)))"

definition event_max_retries :: nat where
  "event_max_retries = 3"

definition process_event ::
  "int \<Rightarrow> quote_reply \<Rightarrow> submit_reply \<Rightarrow> outbox_event \<Rightarrow> close_db \<Rightarrow> close_db \<times> py_error option" where
  "process_event now qr sr ev s =
     (case (if ev_type ev = Submit_Close_Order
            then handle_submit_close_order now qr sr (ev_payload ev) s else Inr s) of
        Inr s1 \<Rightarrow> (put_event (ev\<lparr>ev_status := OB_COMPLETED, ev_processed_at := Some now\<rparr>) s1, None)
      | Inl e \<Rightarrow>
          (let n = Suc (ev_retry_count ev)
           in if n \<ge> event_max_retries
              then (handle_failure now ev
                      (put_event (ev\<lparr>ev_retry_count := n, ev_status := OB_FAILED\<rparr>) s), Some e)
              else (put_event (ev\<lparr>ev_retry_count := n, ev_status := OB_PENDING\<rparr>) s, Some e)))"

text \<open>One turn of the worker loop of workers/setup.py: claim one event and process it.\<close>

definition worker_turn :: "int \<Rightarrow> quote_reply \<Rightarrow> submit_reply \<Rightarrow> close_db \<Rightarrow> close_db" where
  "worker_turn now qr sr s =
     (case claim_pending 1 s of (s1, evs) \<Rightarrow> foldl (\<lambda>s ev. fst (process_event now qr sr ev s)) s1 evs)"

section \<open>Laws\<close>

lemma handle_submit_ok:
  assumes "handle_submit_close_order now qr sr pl s = Inr t" and "close_ok s"
  shows "close_ok t"
  using assms close_ok_request [OF assms(2)]
  by (auto simp: handle_submit_close_order_def res_bind_eq_Inr Let_def idle_row_def
      split: option.splits quote_reply.splits submit_reply.splits if_splits
      intro!: close_ok_put_position close_ok_put_request)

lemma handle_failure_ok: "close_ok s \<Longrightarrow> close_ok (handle_failure now ev s)"
  using close_ok_request [of s]
  by (auto simp: handle_failure_def Let_def idle_row_def split: option.splits
      intro!: close_ok_put_position close_ok_put_request)

lemma process_event_ok: "close_ok s \<Longrightarrow> close_ok (fst (process_event now qr sr ev s))"
  using handle_submit_ok
  by (auto simp: process_event_def Let_def handle_failure_ok split: sum.splits if_splits)

lemma process_events_ok: "close_ok s \<Longrightarrow> close_ok (foldl (\<lambda>s ev. fst (process_event now qr sr ev s)) s evs)"
  by (induction evs arbitrary: s) (simp_all add: process_event_ok)

lemma worker_turn_ok: "close_ok s \<Longrightarrow> close_ok (worker_turn now qr sr s)"
  using claim_pending_ok [of "Suc 0" s]
  by (cases "claim_pending (Suc 0) s") (simp add: worker_turn_def process_events_ok)

section \<open>Prices\<close>

lemma dec_money_percent:
  assumes "money x" and "\<bar>n\<bar> \<le> 10 ^ 4"
  shows "dec (x * (of_int n / 100)) = x * (of_int n / 100)"
proof -
  obtain m where m: "x = of_int m / 10 ^ 4" "\<bar>m\<bar> < 10 ^ 18" by (rule on_gridE [OF assms(1)])
  have "x * (of_int n / 100) = of_int (m * n) * 10 powi (- 6)" by (simp add: m power_int_minus)
  moreover have "\<bar>m * n\<bar> < 10 ^ 28"
    using m(2) assms(2) mult_mono [of "\<bar>m\<bar>" "10 ^ 18" "\<bar>n\<bar>" "10 ^ 4"] by (simp add: abs_mult)
  ultimately show ?thesis by (metis dec_exact)
qed

lemma spread_narrow: "dec x \<le> fl (1 / 5)" if "x \<le> 1 / 5"
proof -
  have "dec x \<le> dec (1 / 5)" using that by (rule dec_mono)
  also have "\<dots> \<le> fl (1 / 5)" by (simp add: dec_defs fl_def num_eval)
  finally show ?thesis .
qed

lemma spread_wide: "fl (1 / 5) < dec x" if "21 / 100 \<le> x"
proof -
  have "fl (1 / 5) < dec (21 / 100)" by (simp add: dec_defs fl_def num_eval)
  also have "\<dots> \<le> dec x" using that by (rule dec_mono)
  finally show ?thesis .
qed


section \<open>Giving up\<close>

lemma claim_single:
  assumes "outbox s = [ev]" and "ev_status ev = OB_PENDING"
  shows "claim_pending 1 s = (s\<lparr>outbox := [ev\<lparr>ev_status := OB_PROCESSING\<rparr>]\<rparr>, [ev\<lparr>ev_status := OB_PROCESSING\<rparr>])"
  using assms by (simp add: claim_pending_def put_event_def put_row_def Let_def)

lemma failing_turn:
  assumes "outbox s = [ev]" and "ev_status ev = OB_PENDING" and "ev_type ev = Submit_Close_Order"
    and "ev_payload ev = Some pl" and "get_request (pl_request_id pl) s = Some cr" and "cr_status cr = CR_PENDING"
  shows "worker_turn now (Quote_Failed e) sr s =
    (if Suc (ev_retry_count ev) \<ge> 3
     then handle_failure now ev (s\<lparr>outbox := [ev\<lparr>ev_retry_count := Suc (ev_retry_count ev), ev_status := OB_FAILED\<rparr>]\<rparr>)
     else s\<lparr>outbox := [ev\<lparr>ev_retry_count := Suc (ev_retry_count ev), ev_status := OB_PENDING\<rparr>]\<rparr>)"
  using assms claim_single [OF assms(1,2)]
  by (simp add: worker_turn_def process_event_def handle_submit_close_order_def get_request_def
      event_max_retries_def put_event_def put_row_def handle_failure_def)

text \<open>A close request whose event keeps failing is given up after exactly three attempts: the
  first two leave the request PENDING and the position as it was, the third marks event and
  request FAILED and the position CLOSE_FAILED without an active request, and no later turn
  of the worker does anything.\<close>

theorem failing_event_gives_up:
  assumes "outbox s = [ev]" and "ev_status ev = OB_PENDING" and "ev_retry_count ev = 0"
    and "ev_type ev = Submit_Close_Order" and "ev_payload ev = Some pl"
    and "get_request (pl_request_id pl) s = Some cr" and "cr_status cr = CR_PENDING"
    and "row_at pos_id (cr_position_id cr) (close_positions s) = Some p"
  shows "\<exists>s2 s3. s2 = worker_turn t2 (Quote_Failed e2) sr2 (worker_turn t1 (Quote_Failed e1) sr1 s)
    \<and> s3 = worker_turn t3 (Quote_Failed e3) sr3 s2
    \<and> close_requests s2 = close_requests s \<and> close_positions s2 = close_positions s
    \<and> map ev_status (outbox s3) = [OB_FAILED]
    \<and> (\<exists>cr' p'. get_request (pl_request_id pl) s3 = Some cr' \<and> cr_status cr' = CR_FAILED
        \<and> row_at pos_id (cr_position_id cr) (close_positions s3) = Some p'
        \<and> pos_status p' = CLOSE_FAILED \<and> active_close_request_id p' = None)
    \<and> worker_turn t4 qr sr4 s3 = s3"
proof -
  have id: "cr_id cr = pl_request_id pl" "pos_id p = cr_position_id cr"
    using row_at_SomeD [of cr_id "pl_request_id pl" "close_requests s" cr] row_at_SomeD [OF assms(8)] assms(6)
    by (simp_all add: get_request_def)
  let ?s1 = "s\<lparr>outbox := [ev\<lparr>ev_retry_count := 1\<rparr>]\<rparr>" and ?s2 = "s\<lparr>outbox := [ev\<lparr>ev_retry_count := 2\<rparr>]\<rparr>"
  have e: "ev\<lparr>ev_retry_count := n, ev_status := OB_PENDING\<rparr> = ev\<lparr>ev_retry_count := n\<rparr>" for n
    using assms(2) by simp
  have 1: "worker_turn t1 (Quote_Failed e1) sr1 s = ?s1"
    using failing_turn [OF assms(1,2,4-7)] assms(3) e by simp
  have 2: "worker_turn t2 (Quote_Failed e2) sr2 ?s1 = ?s2"
    using failing_turn [of ?s1 "ev\<lparr>ev_retry_count := 1\<rparr>" pl cr] assms e by (simp add: get_request_def)
  have 3: "worker_turn t3 (Quote_Failed e3) sr3 ?s2
      = handle_failure t3 ev (s\<lparr>outbox := [ev\<lparr>ev_retry_count := 3, ev_status := OB_FAILED\<rparr>]\<rparr>)"
    using failing_turn [of ?s2 "ev\<lparr>ev_retry_count := 2\<rparr>" pl cr] assms
    by (simp add: get_request_def handle_failure_def)
  have idle: "worker_turn t4 qr sr4 s' = s'" if "outbox s' = [ev\<lparr>ev_retry_count := 3, ev_status := OB_FAILED\<rparr>]" for s'
    using that by (simp add: worker_turn_def claim_pending_def)
  show ?thesis
    unfolding 1 2 using assms id
    by (simp add: 3 handle_failure_def get_request_def row_at_put_row idle)
qed

section \<open>Concrete runs\<close>

definition demo_quote :: "decimal \<Rightarrow> decimal \<Rightarrow> quote" where
  "demo_quote b a = \<lparr>quote_bid = b, quote_ask = a, quote_last = None\<rparr>"

definition demo_payload :: close_payload where
  "demo_payload = \<lparr>pl_request_id = 7, pl_position_id = 1, pl_symbol = ''SPY'', pl_side = Sell, pl_qty = 10,
     pl_asset_type = OPTION\<rparr>"

definition demo_event :: outbox_event where
  "demo_event = \<lparr>ev_id = 1, ev_type = Submit_Close_Order, ev_payload = Some demo_payload,
     ev_status = OB_PENDING, ev_created_at = 0, ev_processed_at = None, ev_retry_count = 0\<rparr>"

definition demo_pending :: close_db where
  "demo_pending = (demo_close [demo_request 7 CR_PENDING] [])\<lparr>outbox := [demo_event]\<rparr>"


theorem failing_event_gives_up_witness:
  "map ev_status (outbox (worker_turn 3 (Quote_Failed TypeError) (Submit_Failed TypeError)
     (worker_turn 2 (Quote_Failed TypeError) (Submit_Failed TypeError)
       (worker_turn 1 (Quote_Failed TypeError) (Submit_Failed TypeError) demo_pending)))) = [OB_FAILED]"
  using failing_event_gives_up [of demo_pending demo_event demo_payload "demo_request 7 CR_PENDING" demo_holding
      2 TypeError "Submit_Failed TypeError" 1 TypeError "Submit_Failed TypeError" 3 TypeError "Submit_Failed TypeError"]
  by (simp add: demo_pending_def demo_event_def demo_payload_def demo_close_defs get_request_def row_at_def)

end
