(* ===== verification/Close_Recovery.thy ===== *)
theory Close_Recovery
  imports Outbox_Worker
begin

text \<open>
  The recovery jobs of workers/reconciler.py and the cleaner of workers/outbox_cleaner.py.
  A job selects its rows first and then walks them; it commits at the end. What the broker
  answers to an order query is an argument.
\<close>

definition zombie_threshold :: int where
  "zombie_threshold = 2 * 60"

definition stuck_threshold :: int where
  "stuck_threshold = 10 * 60"

definition max_not_found_retries :: int where
  "max_not_found_retries = 3"

section \<open>Zombies\<close>

definition has_pending_event :: "nat \<Rightarrow> close_db \<Rightarrow> bool" where
  "has_pending_event rid s \<longleftrightarrow>
     (\<exists>ev \<in> set (outbox s). ev_type ev = Submit_Close_Order \<and> ev_status ev = OB_PENDING
        \<and> (case ev_payload ev of None \<Rightarrow> False | Some pl \<Rightarrow> pl_request_id pl = rid))"

definition roll_back_request :: "int \<Rightarrow> close_request \<Rightarrow> close_db \<Rightarrow> close_db" where
  "roll_back_request now cr s =
     (let s1 = put_request (cr\<lparr>cr_status := CR_FAILED, completed_at := Some now\<rparr>) s
      in case row_at pos_id (cr_position_id cr) (close_positions s1) of
           None \<Rightarrow> s1
         | Some p \<Rightarrow> put_position (p\<lparr>pos_status := OPEN, active_close_request_id := None\<rparr>) s1)"

definition zombies :: "int \<Rightarrow> close_db \<Rightarrow> close_request list" where
  "zombies now s =
     filter (\<lambda>cr. cr_status cr = CR_PENDING \<and> cr_created_at cr < now - zombie_threshold) (close_requests s)"

definition detect_zombies :: "int \<Rightarrow> close_db \<Rightarrow> close_db" where
  "detect_zombies now s =
     foldl (\<lambda>s cr. if has_pending_event (cr_id cr) s then s else roll_back_request now cr s)
       s (zombies now s)"

section \<open>Stuck orders\<close>

datatype broker_query = Order_Found | Order_Not_Found | Query_Error

definition recover_order ::
  "int \<Rightarrow> (string \<Rightarrow> broker_query) \<Rightarrow> nat \<Rightarrow> close_db \<Rightarrow> order_record \<Rightarrow> close_db" where
  "recover_order now broker rid s r =
     (case rec_broker_order_id r of
        None \<Rightarrow> s
      | Some bid \<Rightarrow>
          if bid = [] then s
          else (case broker bid of
            Order_Found \<Rightarrow> s
          | Query_Error \<Rightarrow> s
          | Order_Not_Found \<Rightarrow>
              (let r1 = r\<lparr>rec_not_found_count := rec_not_found_count r + 1, rec_updated_at := now\<rparr>;
                   s1 = put_order_row r1 s
               in if rec_not_found_count r1 \<ge> max_not_found_retries then
                    (case get_request rid s1 of
                       None \<Rightarrow> s1
                     | Some cr \<Rightarrow>
                         (let s2 = put_request (cr\<lparr>cr_status := CR_FAILED, completed_at := Some now\<rparr>) s1
                          in case row_at pos_id (cr_position_id cr) (close_positions s2) of
                               None \<Rightarrow> s2
                             | Some p \<Rightarrow> put_position (p\<lparr>pos_status := CLOSE_FAILED\<rparr>) s2))
                  else s1)))"

definition stuck_requests :: "int \<Rightarrow> close_db \<Rightarrow> close_request list" where
  "stuck_requests now s =
     filter (\<lambda>cr. cr_status cr = CR_SUBMITTED
        \<and> (case submitted_at cr of None \<Rightarrow> False | Some t \<Rightarrow> t < now - stuck_threshold)) (close_requests s)"

definition recover_stuck_orders :: "int \<Rightarrow> (string \<Rightarrow> broker_query) \<Rightarrow> close_db \<Rightarrow> close_db" where
  "recover_stuck_orders now broker s =
     foldl (\<lambda>s cr. foldl (recover_order now broker (cr_id cr)) s (orders_of (cr_id cr) s))
       s (stuck_requests now s)"

section \<open>Retries\<close>

definition retry_request :: "int \<Rightarrow> close_db \<Rightarrow> close_request \<Rightarrow> close_db" where
  "retry_request now s cr =
     (let remaining = target_qty cr - cr_filled_qty cr
      in if remaining \<le> 0 then s
         else
           (let s1 = add_event now Submit_Close_Order
                  (Some \<lparr>pl_request_id = cr_id cr, pl_position_id = cr_position_id cr, pl_symbol = cr_symbol cr,
                     pl_side = cr_side cr, pl_qty = remaining, pl_asset_type = cr_asset_type cr\<rparr>) s;
                s2 = put_request (cr\<lparr>cr_status := CR_PENDING, cr_retry_count := Suc (cr_retry_count cr)\<rparr>) s1
            in case row_at pos_id (cr_position_id cr) (close_positions s2) of
                 None \<Rightarrow> s2
               | Some p \<Rightarrow> put_position (p\<lparr>pos_status := CLOSING\<rparr>) s2))"

definition retryable_requests :: "close_db \<Rightarrow> close_request list" where
  "retryable_requests s =
     filter (\<lambda>cr. cr_status cr = CR_RETRYABLE \<and> cr_retry_count cr < max_retries cr) (close_requests s)"

definition retry_partial_fills :: "int \<Rightarrow> close_db \<Rightarrow> close_db result" where
  "retry_partial_fills now s = commit (foldl (retry_request now) s (retryable_requests s))"

section \<open>Invariant check and clean-up\<close>

definition check_invariants :: "close_db \<Rightarrow> close_db" where
  "check_invariants s =
     s\<lparr>close_positions := map (\<lambda>p. if pos_status p = CLOSING \<and> active_close_request_id p = None
                                   then p\<lparr>pos_status := CLOSE_FAILED\<rparr> else p) (close_positions s)\<rparr>"

definition cleanup :: "int \<Rightarrow> int option \<Rightarrow> close_db \<Rightarrow> close_db \<times> nat" where
  "cleanup now retention s =
     (let days = (case retention of None \<Rightarrow> 3 | Some d \<Rightarrow> d);
          cutoff = now - days * 86400;
          old = (\<lambda>ev. ev_status ev \<in> {OB_COMPLETED, OB_FAILED} \<and> ev_created_at ev < cutoff)
      in (s\<lparr>outbox := filter (\<lambda>ev. \<not> old ev) (outbox s)\<rparr>, length (filter old (outbox s))))"

section \<open>The jobs keep the tables consistent\<close>

lemma foldl_close_ok:
  "(\<And>s x. x \<in> set xs \<Longrightarrow> close_ok s \<Longrightarrow> close_ok (f s x)) \<Longrightarrow> close_ok s \<Longrightarrow> close_ok (foldl f s xs)"
  by (induction xs arbitrary: s) simp_all

lemma roll_back_ok: "close_ok s \<Longrightarrow> cr_retry_count cr \<le> max_retries cr \<Longrightarrow> close_ok (roll_back_request now cr s)"
  by (auto simp: roll_back_request_def Let_def idle_row_def split: option.split
      intro!: close_ok_put_position close_ok_put_request)

lemma detect_zombies_ok: "close_ok s \<Longrightarrow> close_ok (detect_zombies now s)"
  unfolding detect_zombies_def
  by (rule foldl_close_ok) (auto simp: zombies_def dest: close_okD(4) intro!: roll_back_ok)

lemma recover_order_ok: "close_ok s \<Longrightarrow> close_ok (recover_order now broker rid s r)"
  using close_ok_request [of "put_order_row (r\<lparr>rec_not_found_count := rec_not_found_count r + 1, rec_updated_at := now\<rparr>) s" rid]
  by (auto simp: recover_order_def Let_def idle_row_def split: option.split broker_query.split
      intro!: close_ok_put_position close_ok_put_request)

lemma recover_stuck_orders_ok: "close_ok s \<Longrightarrow> close_ok (recover_stuck_orders now broker s)"
  unfolding recover_stuck_orders_def by (intro foldl_close_ok recover_order_ok) simp_all

lemma retry_request_ok:
  "close_ok s \<Longrightarrow> cr_retry_count cr < max_retries cr \<Longrightarrow> close_ok (retry_request now s cr)"
  by (auto simp: retry_request_def Let_def idle_row_def split: option.split
      intro!: close_ok_put_position close_ok_put_request)

lemma retry_partial_fills_ok:
  assumes "close_ok s" and "retry_partial_fills now s = Inr t"
  shows "close_ok t"
proof -
  have "close_ok (foldl (retry_request now) s (retryable_requests s))"
    using assms(1) by (intro foldl_close_ok retry_request_ok) (auto simp: retryable_requests_def)
  then show ?thesis using assms(2) by (simp add: retry_partial_fills_def commit_def split: if_splits)
qed

lemma check_invariants_ok: "close_ok s \<Longrightarrow> close_ok (check_invariants s)"
  by (auto simp: close_ok_def check_invariants_def idle_row_def comp_def if_distrib
      intro!: arg_cong [where f = distinct] cong: map_cong if_cong)

lemma cleanup_ok: "close_ok s \<Longrightarrow> close_ok (fst (cleanup now d s))"
  by (simp add: cleanup_def close_ok_def Let_def)

section \<open>What zombie detection achieves\<close>

lemma roll_back_frame [simp]:
  "outbox (roll_back_request now cr s) = outbox s"
  "close_requests (roll_back_request now cr s)
     = put_row cr_id (cr\<lparr>cr_status := CR_FAILED, completed_at := Some now\<rparr>) (close_requests s)"
  by (simp_all add: roll_back_request_def Let_def split: option.split)

definition sweep :: "int \<Rightarrow> close_db \<Rightarrow> close_request \<Rightarrow> close_db" where
  "sweep now s cr = (if has_pending_event (cr_id cr) s then s else roll_back_request now cr s)"

lemma sweep_outbox [simp]: "outbox (foldl (sweep now) s crs) = outbox s"
  by (induction crs arbitrary: s) (simp_all add: sweep_def)

lemma has_pending_event_outbox: "outbox s = outbox t \<Longrightarrow> has_pending_event rid s = has_pending_event rid t"
  by (simp add: has_pending_event_def)

lemma sweep_requests:
  assumes "distinct (map cr_id (close_requests s))" and "set crs \<subseteq> set (close_requests s)"
    and "x \<in> set (close_requests (foldl (sweep now) s crs))"
  shows "cr_status x = CR_FAILED \<or> x \<in> set (close_requests s) \<and> (x \<in> set crs \<longrightarrow> has_pending_event (cr_id x) s)"
  using assms(2,3)
proof (induction crs arbitrary: x rule: rev_induct)
  case (snoc cr crs)
  let ?t = "foldl (sweep now) s crs"
  have "has_pending_event (cr_id cr) ?t = has_pending_event (cr_id cr) s"
    by (rule has_pending_event_outbox) simp
  then have step: "foldl (sweep now) s (crs @ [cr])
      = (if has_pending_event (cr_id cr) s then ?t else roll_back_request now cr ?t)"
    by (simp only: foldl_append foldl.simps) (simp only: sweep_def)
  have sub: "set crs \<subseteq> set (close_requests s)" and cr: "cr \<in> set (close_requests s)"
    using snoc.prems(1) by auto
  show ?case
  proof (cases "has_pending_event (cr_id cr) s")
    case True
    then show ?thesis using snoc.IH [OF sub, of x] snoc.prems(2) step by auto
  next
    case False
    then have "x \<in> set (put_row cr_id (cr\<lparr>cr_status := CR_FAILED, completed_at := Some now\<rparr>) (close_requests ?t))"
      using snoc.prems(2) step by simp
    then consider "cr_status x = CR_FAILED" | "x \<in> set (close_requests ?t)" "cr_id x \<noteq> cr_id cr"
      by (auto simp: put_row_def split: if_splits)
    then show ?thesis
    proof cases
      case 2
      with snoc.IH [OF sub, of x] cr show ?thesis by auto
    qed simp
  qed
qed simp

lemma detect_zombies_sweep: "detect_zombies now s = foldl (sweep now) s (zombies now s)"
  by (simp add: detect_zombies_def sweep_def [abs_def])

text \<open>After a run of zombie detection no close request has been PENDING for more than two
  minutes without a pending event that will submit it, no request changed except to FAILED,
  and the events are untouched.\<close>

theorem no_zombie_left:
  assumes "distinct (map cr_id (close_requests s))"
    and "cr \<in> set (close_requests (detect_zombies now s))"
  shows "(cr_status cr = CR_PENDING \<and> cr_created_at cr < now - zombie_threshold \<longrightarrow>
       has_pending_event (cr_id cr) (detect_zombies now s))
    \<and> (cr_status cr \<noteq> CR_FAILED \<longrightarrow> cr \<in> set (close_requests s))
    \<and> outbox (detect_zombies now s) = outbox s"
proof -
  have "set (zombies now s) \<subseteq> set (close_requests s)" by (auto simp: zombies_def)
  from sweep_requests [OF assms(1) this, of cr now] assms(2)
  have "cr_status cr = CR_FAILED \<or>
      cr \<in> set (close_requests s) \<and> (cr \<in> set (zombies now s) \<longrightarrow> has_pending_event (cr_id cr) s)"
    by (simp add: detect_zombies_sweep)
  moreover have "outbox (detect_zombies now s) = outbox s" by (simp add: detect_zombies_sweep)
  moreover from has_pending_event_outbox [OF this]
  have "has_pending_event (cr_id cr) (detect_zombies now s) = has_pending_event (cr_id cr) s" .
  ultimately show ?thesis by (auto simp: zombies_def)
qed

section \<open>Retries and the unique index\<close>

definition wants_retry :: "close_request \<Rightarrow> bool" where
  "wants_retry cr \<longleftrightarrow> 0 < target_qty cr - cr_filled_qty cr"

lemma event_keys_append [simp]: "event_keys (xs @ ys) = event_keys xs @ event_keys ys"
  by (simp add: event_keys_def map_filter_def)

lemma retry_request_outbox:
  "event_keys (outbox (retry_request now s cr))
     = event_keys (outbox s) @ (if wants_retry cr then [(Submit_Close_Order, cr_id cr)] else [])"
  by (simp add: retry_request_def Let_def wants_retry_def add_event_def split: option.split)
    (simp add: event_keys_def map_filter_def)

lemma retry_requests_outbox:
  "event_keys (outbox (foldl (retry_request now) s crs))
     = event_keys (outbox s) @ map (\<lambda>cr. (Submit_Close_Order, cr_id cr)) (filter wants_retry crs)"
  by (induction crs arbitrary: s) (simp_all add: retry_request_outbox)

lemma retry_request_requests:
  "close_requests (retry_request now s cr)
     = (if wants_retry cr
        then put_row cr_id (cr\<lparr>cr_status := CR_PENDING, cr_retry_count := Suc (cr_retry_count cr)\<rparr>) (close_requests s)
        else close_requests s)"
  by (simp add: retry_request_def Let_def wants_retry_def split: option.split)

lemma retry_request_map:
  assumes "cr \<in> set (close_requests s)" and "distinct (map cr_id (close_requests s))"
    and "\<And>x n. f (x\<lparr>cr_status := CR_PENDING, cr_retry_count := n\<rparr>) = f x"
  shows "map f (close_requests (retry_request now s cr)) = map f (close_requests s)"
proof -
  have "x = cr" if "x \<in> set (close_requests s)" "cr_id x = cr_id cr" for x
    using assms that by (auto simp: distinct_map inj_on_def)
  then have "f x = f cr" if "x \<in> set (close_requests s)" "cr_id x = cr_id cr" for x
    using that by metis
  then show ?thesis using assms(3)
    by (auto simp: retry_request_requests intro!: put_row_map)
qed

lemma retry_requests_keys:
  assumes "set crs \<subseteq> set (close_requests s)" and "distinct (map cr_id (close_requests s))"
    and "distinct (map cr_id crs)"
  shows "map (\<lambda>cr. (cr_position_id cr, idempotency_key cr)) (close_requests (foldl (retry_request now) s crs))
     = map (\<lambda>cr. (cr_position_id cr, idempotency_key cr)) (close_requests s)"
  using assms
proof (induction crs arbitrary: s)
  case (Cons cr crs)
  let ?s = "retry_request now s cr"
  have cr: "cr \<in> set (close_requests s)" using Cons.prems(1) by simp
  have ids: "map cr_id (close_requests ?s) = map cr_id (close_requests s)"
    by (rule retry_request_map [OF cr Cons.prems(2)]) simp
  have keys: "map (\<lambda>cr. (cr_position_id cr, idempotency_key cr)) (close_requests ?s)
     = map (\<lambda>cr. (cr_position_id cr, idempotency_key cr)) (close_requests s)"
    by (rule retry_request_map [OF cr Cons.prems(2)]) simp
  have "x \<in> set (close_requests ?s)" if "x \<in> set crs" for x
  proof -
    have "cr_id x \<noteq> cr_id cr" "x \<in> set (close_requests s)"
      using that Cons.prems(1,3) by (auto simp: image_iff)
    then show ?thesis by (simp add: retry_request_requests put_row_other)
  qed
  then show ?case using Cons.IH [of ?s] Cons.prems ids keys by (simp add: subset_iff)
qed simp

text \<open>The retry of partially filled closes is all or nothing and depends on the cleaner: on
  consistent tables the job fails with an IntegrityError, retrying no request at all, if and
  only if some request that has quantity left to retry still has its earlier
  SUBMIT_CLOSE_ORDER event in the outbox, because the unique index admits one such event per
  close request.\<close>

theorem retry_needs_cleaned_outbox:
  assumes "distinct (map cr_id (close_requests s))" and "unique_requests (close_requests s)"
    and "unique_outbox (outbox s)"
  shows "retry_partial_fills now s = Inl (ExternalError ''IntegrityError'') \<longleftrightarrow>
    (\<exists>cr ev pl. cr \<in> set (retryable_requests s) \<and> wants_retry cr \<and> ev \<in> set (outbox s)
       \<and> ev_type ev = Submit_Close_Order \<and> ev_payload ev = Some pl \<and> pl_request_id pl = cr_id cr)"
proof -
  let ?crs = "retryable_requests s"
  have sub: "set ?crs \<subseteq> set (close_requests s)" "distinct (map cr_id ?crs)"
    using assms(1) by (auto simp: retryable_requests_def distinct_map_filter)
  have keys: "unique_requests (close_requests (foldl (retry_request now) s ?crs))"
    using retry_requests_keys [OF sub(1) assms(1) sub(2), of now] assms(2) by (simp add: unique_requests_def)
  have dist: "distinct (map (\<lambda>cr. (Submit_Close_Order, cr_id cr)) (filter wants_retry ?crs))"
    using sub(2) by (auto simp: distinct_map inj_on_def)
  have mem: "(Submit_Close_Order, k) \<in> set (event_keys (outbox s)) \<longleftrightarrow>
      (\<exists>ev pl. ev \<in> set (outbox s) \<and> ev_type ev = Submit_Close_Order \<and> ev_payload ev = Some pl \<and> pl_request_id pl = k)" for k
    by (force simp: event_keys_def map_filter_def)
  have "unique_outbox (outbox (foldl (retry_request now) s ?crs)) \<longleftrightarrow>
      (\<forall>cr \<in> set ?crs. wants_retry cr \<longrightarrow> (Submit_Close_Order, cr_id cr) \<notin> set (event_keys (outbox s)))"
    using assms(3) dist by (auto simp: unique_outbox_def retry_requests_outbox)
  with keys show ?thesis unfolding mem by (auto simp: retry_partial_fills_def commit_def)
qed

section \<open>Concrete runs\<close>

theorem no_zombie_left_witness:
  "has_pending_event 7 (detect_zombies 500 demo_pending)"
proof -
  have "demo_request 7 CR_PENDING \<in> set (close_requests (detect_zombies 500 demo_pending))"
    by (simp add: detect_zombies_def zombies_def demo_pending_def demo_event_def demo_payload_def demo_close_defs
        zombie_threshold_def has_pending_event_def)
  then show ?thesis
    using no_zombie_left [of demo_pending "demo_request 7 CR_PENDING" 500]
    by (simp add: demo_pending_def demo_close_defs zombie_threshold_def)
qed

theorem retry_needs_cleaned_outbox_witness:
  "retry_partial_fills 500 (demo_pending\<lparr>close_requests := [(demo_request 7 CR_RETRYABLE)\<lparr>cr_filled_qty := 4\<rparr>]\<rparr>)
     = Inl (ExternalError ''IntegrityError'')"
  using retry_needs_cleaned_outbox
    [of "demo_pending\<lparr>close_requests := [(demo_request 7 CR_RETRYABLE)\<lparr>cr_filled_qty := 4\<rparr>]\<rparr>" 500]
  by (simp add: demo_pending_def demo_event_def demo_payload_def demo_close_defs retryable_requests_def
      wants_retry_def unique_requests_def unique_outbox_def event_keys_def map_filter_def)

end
