(* ===== verification/Close_Workflow.thy ===== *)
theory Close_Workflow
  imports Close_Recovery
begin

text \<open>
  The close endpoint of api/options.py and the whole workflow around it: requests from
  clients, turns of the outbox worker, broker updates and the recovery jobs, interleaved in
  any order. The session of the endpoint commits once at its end.
\<close>

section \<open>The endpoint\<close>

datatype close_reply =
    Http_Error nat
  | Replayed nat "position_status option" close_status int int
  | Created nat position_status close_status int int

definition accept_close ::
  "int \<Rightarrow> nat \<Rightarrow> nat \<Rightarrow> string \<Rightarrow> position \<Rightarrow> close_db \<Rightarrow> close_db" where
  "accept_close now rid pid key p s =
     (let sd = (if pos_quantity p > 0 then Sell else Buy);
          qty = \<bar>pos_quantity p\<bar>;
          cr = new_close_request now rid pid key (pos_symbol p) sd (pos_asset_type p) qty;
          s1 = s\<lparr>close_requests := close_requests s @ [cr]\<rparr>;
          s2 = put_position (p\<lparr>pos_status := CLOSING, active_close_request_id := Some rid\<rparr>) s1
      in add_event now Submit_Close_Order
           (Some \<lparr>pl_request_id = rid, pl_position_id = pid, pl_symbol = pos_symbol p,
              pl_side = sd, pl_qty = qty, pl_asset_type = pos_asset_type p\<rparr>) s2)"

definition close_endpoint ::
  "int \<Rightarrow> nat \<Rightarrow> nat \<Rightarrow> string option \<Rightarrow> close_db \<Rightarrow> close_db \<times> close_reply result" where
  "close_endpoint now rid pid key s =
     (if key \<in> {None, Some []} then (s, Inr (Http_Error 400))
      else case get_by_position_and_key pid (the key) s of
        Some cr \<Rightarrow>
          (s, Inr (Replayed (cr_id cr) (map_option pos_status (row_at pos_id pid (close_positions s)))
                     (cr_status cr) (target_qty cr) (cr_filled_qty cr)))
      | None \<Rightarrow>
          (case row_at pos_id pid (close_positions s) of
             None \<Rightarrow> (s, Inr (Http_Error 404))
           | Some p \<Rightarrow>
               if pos_status p = CLOSING then (s, Inr (Http_Error 409))
               else if pos_status p \<noteq> OPEN then (s, Inr (Http_Error 400))
               else if pos_quantity p = 0 then (s, Inr (Http_Error 400))
               else (case commit (accept_close now rid pid (the key) p s) of
                       Inl e \<Rightarrow> (s, Inl e)
                     | Inr s1 \<Rightarrow> (s1, Inr (Created rid CLOSING CR_PENDING \<bar>pos_quantity p\<bar> 0)))))"

lemma accept_close_fields [simp]:
  "close_requests (accept_close now rid pid k p s) = close_requests s @
     [new_close_request now rid pid k (pos_symbol p) (if pos_quantity p > 0 then Sell else Buy)
        (pos_asset_type p) \<bar>pos_quantity p\<bar>]"
  "close_positions (accept_close now rid pid k p s)
     = put_row pos_id (p\<lparr>pos_status := CLOSING, active_close_request_id := Some rid\<rparr>) (close_positions s)"
  "close_orders (accept_close now rid pid k p s) = close_orders s"
  by (simp_all add: accept_close_def Let_def)

definition created :: "close_reply result \<Rightarrow> bool" where
  "created reply = (case reply of Inr (Created _ _ _ _ _) \<Rightarrow> True | _ \<Rightarrow> False)"

lemma created_simps [simp]:
  "created (Inr (Created a b c d e))" "\<not> created (Inl err)" "\<not> created (Inr (Http_Error n))"
  "\<not> created (Inr (Replayed a b' c d e))"
  by (simp_all add: created_def)

lemma close_endpoint_created:
  assumes "created (snd (close_endpoint now rid pid key s))"
  obtains p k where "key = Some k" "k \<noteq> []" "get_by_position_and_key pid k s = None"
      "row_at pos_id pid (close_positions s) = Some p" "pos_status p = OPEN" "pos_quantity p \<noteq> 0"
      "close_endpoint now rid pid key s
         = (accept_close now rid pid k p s, Inr (Created rid CLOSING CR_PENDING \<bar>pos_quantity p\<bar> 0))"
      "unique_requests (close_requests (accept_close now rid pid k p s))"
proof -
  obtain k where k: "key = Some k" "k \<noteq> []"
    using assms by (cases key) (auto simp: close_endpoint_def split: if_splits)
  have g: "get_by_position_and_key pid k s = None"
    using assms k by (cases "get_by_position_and_key pid k s") (simp_all add: close_endpoint_def)
  obtain p where p: "row_at pos_id pid (close_positions s) = Some p"
    using assms k g by (cases "row_at pos_id pid (close_positions s)") (simp_all add: close_endpoint_def)
  have st: "pos_status p = OPEN" "pos_quantity p \<noteq> 0"
    using assms k g p by (simp_all add: close_endpoint_def split: if_splits)
  have c: "unique_requests (close_requests (accept_close now rid pid k p s))
      \<and> unique_outbox (outbox (accept_close now rid pid k p s))"
    using assms k g p st by (simp add: close_endpoint_def commit_def split: if_splits)
  then have "close_endpoint now rid pid key s
      = (accept_close now rid pid k p s, Inr (Created rid CLOSING CR_PENDING \<bar>pos_quantity p\<bar> 0))"
    using k g p st by (simp add: close_endpoint_def commit_def)
  with c show thesis using that k g p st by blast
qed

lemma close_endpoint_refused:
  "\<not> created (snd (close_endpoint now rid pid key s)) \<Longrightarrow> fst (close_endpoint now rid pid key s) = s"
  unfolding close_endpoint_def by (auto simp del: accept_close_fields split: option.splits if_splits sum.splits)

lemma close_endpoint_ok:
  assumes "close_ok s" and "rid \<notin> cr_id ` set (close_requests s)"
  shows "close_ok (fst (close_endpoint now rid pid key s))"
proof (cases "created (snd (close_endpoint now rid pid key s))")
  case True
  then obtain p k where eq: "fst (close_endpoint now rid pid key s) = accept_close now rid pid k p s"
    by (elim close_endpoint_created) simp
  show ?thesis unfolding eq using assms
    by (auto simp: close_ok_def new_close_request_def idle_row_def dest: put_row_elemD)
next
  case False
  with assms(1) show ?thesis by (simp add: close_endpoint_refused)
qed

text \<open>The close endpoint is idempotent per position and key and exclusive per position:
  after a close has been accepted, repeating the request with the same key changes nothing
  and answers with the same request id, and any request with another key, as long as the
  position is still closing, is refused with 409 and changes nothing.\<close>

theorem close_endpoint_idempotent:
  assumes "created (snd (close_endpoint now rid pid key s))"
  shows "\<exists>t. fst (close_endpoint now rid pid key s) = t
    \<and> (\<exists>st q f. close_endpoint now' rid' pid key t = (t, Inr (Replayed rid (Some CLOSING) st q f)))
    \<and> (\<forall>key'. key' \<notin> {None, Some []} \<and> get_by_position_and_key pid (the key') t = None \<longrightarrow>
         close_endpoint now' rid' pid key' t = (t, Inr (Http_Error 409)))"
proof -
  obtain p k where 2: "key = Some k" "k \<noteq> []" "row_at pos_id pid (close_positions s) = Some p"
      "fst (close_endpoint now rid pid key s) = accept_close now rid pid k p s"
      "unique_requests (close_requests (accept_close now rid pid k p s))"
    using assms by (elim close_endpoint_created) simp
  let ?t = "accept_close now rid pid k p s"
  have id: "pos_id p = pid" using row_at_SomeD [OF 2(3)] by simp
  have pos: "row_at pos_id pid (close_positions ?t)
      = Some (p\<lparr>pos_status := CLOSING, active_close_request_id := Some rid\<rparr>)"
    using 2(3) id by (simp add: row_at_put_row)
  have "get_by_position_and_key pid k ?t = Some
      (new_close_request now rid pid k (pos_symbol p) (if pos_quantity p > 0 then Sell else Buy)
            (pos_asset_type p) \<bar>pos_quantity p\<bar>)"
    unfolding get_by_position_and_key_def
    using 2(5) by (subst row_at_distinct) (simp_all add: unique_requests_def new_close_request_def)
  then show ?thesis using pos 2(1,2,4)
    by (simp add: close_endpoint_def new_close_request_def)
qed

section \<open>The workflow\<close>

text \<open>A step of the system. A new request gets a fresh id.\<close>

inductive close_step :: "close_db \<Rightarrow> close_db \<Rightarrow> bool" where
  Close: "rid \<notin> cr_id ` set (close_requests s) \<Longrightarrow>
          close_step s (fst (close_endpoint now rid pid key s))"
| Work: "close_step s (worker_turn now qr sr s)"
| Broker_Update: "orders_ok (close_orders s) \<Longrightarrow>
          on_order_update now bid status fq seq s = Inr t \<Longrightarrow> close_step s t"
| Zombies: "close_step s (detect_zombies now s)"
| Stuck: "close_step s (recover_stuck_orders now broker s)"
| Retry: "retry_partial_fills now s = Inr t \<Longrightarrow> close_step s t"
| Check: "close_step s (check_invariants s)"
| Clean: "close_step s (fst (cleanup now d s))"

inductive_cases close_stepE: "close_step s t"

interpretation closing: step_invariant close_step close_ok
proof
  fix s t
  assume "close_step s t" and ok: "close_ok s"
  then show "close_ok t"
  proof (cases rule: close_step.cases)
    case (Close rid now pid key)
    with ok show ?thesis by (simp add: close_endpoint_ok)
  next
    case Broker_Update
    show ?thesis by (rule on_order_update_ok(1) [OF Broker_Update(2) ok Broker_Update(1)])
  qed (use ok in \<open>simp_all add: worker_turn_ok detect_zombies_ok recover_stuck_orders_ok
         retry_partial_fills_ok check_invariants_ok cleanup_ok\<close>)
qed


section \<open>Concrete runs\<close>

definition demo_free :: close_db where
  "demo_free = (demo_close [] [])\<lparr>close_positions :=
     [demo_holding\<lparr>pos_status := OPEN, active_close_request_id := None\<rparr>]\<rparr>"

lemma demo_free_created: "created (snd (close_endpoint 1 7 1 (Some ''k'') demo_free))"
  by code_simp

theorem close_endpoint_idempotent_witness:
  "\<exists>t st q f. fst (close_endpoint 1 7 1 (Some ''k'') demo_free) = t
    \<and> close_endpoint 2 8 1 (Some ''k'') t = (t, Inr (Replayed 7 (Some CLOSING) st q f))"
  using close_endpoint_idempotent [OF demo_free_created, of 2 8] by blast


end
