(* ===== verification/Risk_Manager.thy ===== *)
theory Risk_Manager
  imports Portfolio_Manager
begin

text \<open>
  The risk manager of risk/manager.py with the configuration and result of risk/models.py:
  seven checks in a fixed order, the kill switch that a loss limit trips, and the risk bias
  that an agent writes to Redis. The tables of the portfolio are an argument; the Greeks gate
  is a parameter. The manager's price lookup is the constant 100 of the source.
\<close>

section \<open>Configuration and state\<close>

record risk_config =
  cfg_account_id :: string
  max_position_value :: decimal
  max_position_pct :: decimal
  max_quantity_per_order :: int
  max_positions :: int
  max_exposure_pct :: decimal
  daily_loss_limit :: decimal
  max_drawdown_pct :: decimal
  blocked_symbols :: "string list"
  allowed_symbols :: "string list"

datatype kill_reason = Operator string | Daily_Loss | Drawdown decimal

record risk_state =
  killed :: bool
  kill_reason :: "kill_reason option"
  paused_strategies :: "string set"
  daily_pnl :: decimal
  peak_equity :: decimal
  last_greeks_check :: "bool option"

definition risk_init :: risk_state where
  "risk_init = \<lparr>killed = False, kill_reason = None, paused_strategies = {}, daily_pnl = 0,
     peak_equity = 0, last_greeks_check = None\<rparr>"

datatype risk_result = Approved | Rejected string

text \<open>What is passed to the Greeks gate; the contract type is always a call.\<close>

record order_intent =
  oi_account_id :: string
  oi_strategy_id :: string
  oi_symbol :: string
  oi_side :: side
  oi_quantity :: int
  oi_contract_type :: put_call

definition activate_kill_switch :: "kill_reason \<Rightarrow> risk_state \<Rightarrow> risk_state" where
  "activate_kill_switch why s = s\<lparr>killed := True, kill_reason := Some why\<rparr>"

definition deactivate_kill_switch :: "risk_state \<Rightarrow> risk_state" where
  "deactivate_kill_switch s = s\<lparr>killed := False, kill_reason := None\<rparr>"

definition pause_strategy :: "string \<Rightarrow> risk_state \<Rightarrow> risk_state" where
  "pause_strategy strat s = s\<lparr>paused_strategies := insert strat (paused_strategies s)\<rparr>"

definition resume_strategy :: "string \<Rightarrow> risk_state \<Rightarrow> risk_state" where
  "resume_strategy strat s = s\<lparr>paused_strategies := paused_strategies s - {strat}\<rparr>"

definition update_daily_pnl :: "decimal \<Rightarrow> risk_state \<Rightarrow> risk_state" where
  "update_daily_pnl change s = s\<lparr>daily_pnl := dec_add (daily_pnl s) change\<rparr>"

definition reset_daily_stats :: "risk_state \<Rightarrow> risk_state" where
  "reset_daily_stats s = s\<lparr>daily_pnl := 0\<rparr>"

section \<open>The risk bias\<close>

text \<open>What Redis answers: not configured, an exception, no key, or a text with the float that
  \<open>float()\<close> reads from it, if it reads one.\<close>

datatype bias_source = No_Redis | Redis_Fails | Redis_Missing | Redis_Text "py_float option"

fun get_risk_bias :: "bias_source \<Rightarrow> py_float" where
  "get_risk_bias (Redis_Text (Some x)) = x"
| "get_risk_bias _ = Finite 1"

text \<open>\<open>int(n * bias)\<close>: the product of an int and a float.\<close>

fun scaled_quantity :: "int \<Rightarrow> py_float \<Rightarrow> int result" where
  "scaled_quantity n (Finite b) = Inr (trunc_int (fl (fl (of_int n) * b)))"
| "scaled_quantity n (Infinite _) = (if n = 0 then Inl ValueError else Inl OverflowError)"
| "scaled_quantity n NaN = Inl ValueError"

section \<open>The checks\<close>

definition current_price_of :: "string \<Rightarrow> decimal" where
  "current_price_of smb = 100"

definition check_symbol_allowed :: "risk_config \<Rightarrow> signal \<Rightarrow> bool" where
  "check_symbol_allowed cfg sg =
     (if sig_symbol sg \<in> set (blocked_symbols cfg) then False
      else if allowed_symbols cfg \<noteq> [] then sig_symbol sg \<in> set (allowed_symbols cfg)
      else True)"

definition check_position_limits :: "risk_config \<Rightarrow> bias_source \<Rightarrow> db \<Rightarrow> signal \<Rightarrow> bool result" where
  "check_position_limits cfg src d sg =
     (if sig_action sg = Sell then Inr True
      else
        res_bind (scaled_quantity (max_quantity_per_order cfg) (get_risk_bias src)) (\<lambda>max_qty.
        if sig_quantity sg > max_qty then Inr False
        else
          (let bias = (case get_risk_bias src of Finite b \<Rightarrow> float_repr b | _ \<Rightarrow> 0);
               position_value = dec_mul (of_int (sig_quantity sg)) (current_price_of (sig_symbol sg))
           in if position_value > dec_mul (max_position_value cfg) bias then Inr False
              else (case get_account d (cfg_account_id cfg) of
                      None \<Rightarrow> Inl AttributeError
                    | Some a \<Rightarrow>
                        res_bind (dec_div position_value (total_equity a)) (\<lambda>r.
                          Inr (\<not> dec_mul r 100 > dec_mul (max_position_pct cfg) bias))))))"

definition check_portfolio_limits :: "risk_config \<Rightarrow> db \<Rightarrow> signal \<Rightarrow> bool result" where
  "check_portfolio_limits cfg d sg =
     (case get_account d (cfg_account_id cfg) of
        None \<Rightarrow> Inr False
      | Some a \<Rightarrow>
          (let ps = get_positions d (cfg_account_id cfg) None None None
           in res_bind
                (if sig_action sg = Buy
                 then res_bind (get_position d (cfg_account_id cfg) (sig_symbol sg) (Some (sig_strategy_id sg)))
                        (\<lambda>existing. Inr (existing = None \<and> int (length ps) \<ge> max_positions cfg))
                 else Inr False)
                (\<lambda>full.
                if full then Inr False
                else
                  (let total_exposure = dec_sum (map market_value ps);
                       order_value = dec_mul (of_int (sig_quantity sg)) (current_price_of (sig_symbol sg));
                       new_exposure = (if sig_action sg = Buy then order_value else 0)
                   in res_bind (dec_div (dec_add total_exposure new_exposure) (total_equity a)) (\<lambda>r.
                      if dec_mul r 100 > max_exposure_pct cfg then Inr False
                      else if sig_action sg = Buy \<and> order_value > buying_power a then Inr False
                      else Inr True)))))"

definition check_loss_limits :: "risk_config \<Rightarrow> db \<Rightarrow> risk_state \<Rightarrow> risk_state \<times> bool result" where
  "check_loss_limits cfg d s =
     (if daily_pnl s < - daily_loss_limit cfg then (activate_kill_switch Daily_Loss s, Inr False)
      else case get_account d (cfg_account_id cfg) of
        None \<Rightarrow> (s, Inl AttributeError)
      | Some a \<Rightarrow>
          (let s1 = (if total_equity a > peak_equity s then s\<lparr>peak_equity := total_equity a\<rparr> else s)
           in if peak_equity s1 > 0 then
                (case dec_div (dec_sub (peak_equity s1) (total_equity a)) (peak_equity s1) of
                   Inl e \<Rightarrow> (s1, Inl e)
                 | Inr r \<Rightarrow>
                     (let drawdown_pct = dec_mul r 100
                      in if drawdown_pct > max_drawdown_pct cfg
                         then (activate_kill_switch (Drawdown drawdown_pct) s1, Inr False)
                         else (s1, Inr True)))
              else (s1, Inr True)))"

definition signal_intent :: "risk_config \<Rightarrow> signal \<Rightarrow> order_intent" where
  "signal_intent cfg sg =
     \<lparr>oi_account_id = cfg_account_id cfg, oi_strategy_id = sig_strategy_id sg, oi_symbol = sig_symbol sg,
      oi_side = sig_action sg, oi_quantity = sig_quantity sg, oi_contract_type = CALL\<rparr>"

definition check_greeks_limits ::
  "(order_intent \<Rightarrow> bool result) option \<Rightarrow> risk_config \<Rightarrow> signal \<Rightarrow> risk_state \<Rightarrow> risk_state \<times> bool result" where
  "check_greeks_limits gate cfg sg s =
     (case gate of
        None \<Rightarrow> (s, Inr True)
      | Some g \<Rightarrow>
          (case g (signal_intent cfg sg) of
             Inl e \<Rightarrow> (s, Inl e)
           | Inr ok \<Rightarrow> (s\<lparr>last_greeks_check := Some ok\<rparr>, Inr ok)))"

definition evaluate ::
  "(order_intent \<Rightarrow> bool result) option \<Rightarrow> risk_config \<Rightarrow> bias_source \<Rightarrow> db \<Rightarrow> signal \<Rightarrow> risk_state
   \<Rightarrow> risk_state \<times> risk_result result" where
  "evaluate gate cfg src d sg s0 =
     (let s = s0\<lparr>last_greeks_check := None\<rparr>
      in if killed s then (s, Inr (Rejected ''kill_switch''))
         else if sig_strategy_id sg \<in> paused_strategies s then (s, Inr (Rejected ''strategy_paused''))
         else if \<not> check_symbol_allowed cfg sg then (s, Inr (Rejected ''symbol_allowed''))
         else case check_position_limits cfg src d sg of
           Inl e \<Rightarrow> (s, Inl e)
         | Inr False \<Rightarrow> (s, Inr (Rejected ''position_limits''))
         | Inr True \<Rightarrow>
         (case check_portfolio_limits cfg d sg of
           Inl e \<Rightarrow> (s, Inl e)
         | Inr False \<Rightarrow> (s, Inr (Rejected ''portfolio_limits''))
         | Inr True \<Rightarrow>
         (case check_loss_limits cfg d s of
           (s1, Inl e) \<Rightarrow> (s1, Inl e)
         | (s1, Inr False) \<Rightarrow> (s1, Inr (Rejected ''loss_limits''))
         | (s1, Inr True) \<Rightarrow>
         (case check_greeks_limits gate cfg sg s1 of
           (s2, Inl e) \<Rightarrow> (s2, Inl e)
         | (s2, Inr False) \<Rightarrow> (s2, Inr (Rejected ''greeks_limits''))
         | (s2, Inr True) \<Rightarrow> (s2, Inr Approved)))))"

section \<open>Approval\<close>

lemma evaluate_Approved:
  assumes "evaluate gate cfg src d sg s = (t, Inr Approved)"
  obtains s1 where "\<not> killed s" "sig_strategy_id sg \<notin> paused_strategies s" "check_symbol_allowed cfg sg"
    "check_position_limits cfg src d sg = Inr True" "check_portfolio_limits cfg d sg = Inr True"
    "check_loss_limits cfg d (s\<lparr>last_greeks_check := None\<rparr>) = (s1, Inr True)"
    "check_greeks_limits gate cfg sg s1 = (t, Inr True)"
  using assms
  by (auto simp: evaluate_def Let_def split: if_splits sum.splits prod.splits bool.splits)

lemma loss_passed:
  assumes "check_loss_limits cfg d s = (t, Inr True)"
  shows "killed t = killed s \<and> - daily_loss_limit cfg \<le> daily_pnl s \<and> daily_pnl t = daily_pnl s"
  using assms
  by (auto simp: check_loss_limits_def Let_def split: if_splits option.splits sum.splits)

lemma greeks_frame:
  "check_greeks_limits gate cfg sg s = (t, r) \<Longrightarrow> killed t = killed s"
  by (auto simp: check_greeks_limits_def split: option.splits sum.splits)

lemma portfolio_passed:
  assumes "check_portfolio_limits cfg d sg = Inr True" and "sig_action sg = Buy"
  obtains a where "get_account d (cfg_account_id cfg) = Some a" "total_equity a \<noteq> 0"
    "dec_mul (of_int (sig_quantity sg)) (current_price_of (sig_symbol sg)) \<le> buying_power a"
    "get_position d (cfg_account_id cfg) (sig_symbol sg) (Some (sig_strategy_id sg)) \<noteq> Inr None
     \<or> int (length (get_positions d (cfg_account_id cfg) None None None)) < max_positions cfg"
proof -
  obtain a where a: "get_account d (cfg_account_id cfg) = Some a"
    using assms(1) by (cases "get_account d (cfg_account_id cfg)") (simp_all add: check_portfolio_limits_def)
  obtain x where x: "get_position d (cfg_account_id cfg) (sig_symbol sg) (Some (sig_strategy_id sg)) = Inr x"
    using assms a by (auto simp: check_portfolio_limits_def Let_def res_bind_eq_Inr)
  have "\<not> (x = None \<and> int (length (get_positions d (cfg_account_id cfg) None None None)) \<ge> max_positions cfg)"
    using assms a x by (auto simp: check_portfolio_limits_def Let_def)
  moreover have "total_equity a \<noteq> 0"
    "dec_mul (of_int (sig_quantity sg)) (current_price_of (sig_symbol sg)) \<le> buying_power a"
    using assms a x
    by (auto simp: check_portfolio_limits_def Let_def res_bind_eq_Inr dec_div_def split: if_splits)
  ultimately show thesis using that a x by auto
qed

lemma float_repr_1: "float_repr 1 = 1"
proof -
  have "sig_round 10 1 1 = (1 :: rat)" "fl 1 = 1" by (simp_all add: num_eval)
  then show ?thesis using float_repr_short [of 1] by simp
qed

lemma order_value_exact:
  assumes "int32 n"
  shows "dec_mul (of_int n) (current_price_of smb) = 100 * of_int n"
proof -
  have "money 100" by (simp add: on_grid_def)
  from dec_mul_money [OF this assms] show ?thesis
    by (simp add: dec_mul_def current_price_of_def mult.commute)
qed

lemma dec_mul_1: "money x \<Longrightarrow> dec_mul x 1 = x"
  using dec_grid [of "10 ^ 18" x] by (simp add: dec_mul_def)


section \<open>The kill switch\<close>

text \<open>Everything that can happen except an operator's release.\<close>

inductive guarded_step :: "risk_state \<Rightarrow> risk_state \<Rightarrow> bool" where
  Evaluated: "guarded_step s (fst (evaluate gate cfg src d sg s))"
| Killed: "guarded_step s (activate_kill_switch why s)"
| Strategy_Paused: "guarded_step s (pause_strategy strat s)"
| Strategy_Resumed: "guarded_step s (resume_strategy strat s)"
| Pnl_Updated: "guarded_step s (update_daily_pnl x s)"
| Daily_Reset: "guarded_step s (reset_daily_stats s)"

inductive_cases guarded_stepE: "guarded_step s t"

lemma evaluate_killed:
  "killed s \<Longrightarrow> evaluate gate cfg src d sg s = (s\<lparr>last_greeks_check := None\<rparr>, Inr (Rejected ''kill_switch''))"
  by (simp add: evaluate_def Let_def)

interpretation kill_switch: step_invariant guarded_step killed
proof
  fix s t
  assume "guarded_step s t" and "killed s"
  then show "killed t"
    by (elim guarded_stepE) (simp_all add: evaluate_killed activate_kill_switch_def pause_strategy_def
        resume_strategy_def update_daily_pnl_def reset_daily_stats_def)
qed

lemma loss_limit_trips:
  assumes "\<not> killed s" and "sig_strategy_id sg \<notin> paused_strategies s" and "check_symbol_allowed cfg sg"
    and "check_position_limits cfg src d sg = Inr True" and "check_portfolio_limits cfg d sg = Inr True"
    and "daily_pnl s < - daily_loss_limit cfg"
  shows "evaluate gate cfg src d sg s
    = (activate_kill_switch Daily_Loss (s\<lparr>last_greeks_check := None\<rparr>), Inr (Rejected ''loss_limits''))"
  using assms by (simp add: evaluate_def check_loss_limits_def Let_def)

text \<open>C10. A loss beyond the daily limit latches the kill switch: the signal that finds it (having
  passed the earlier checks) is rejected, and from then on every signal is rejected for the
  kill switch, through any number of evaluations, strategy pauses and resumes, profit
  updates and daily resets, until an operator releases it.\<close>

theorem daily_loss_latches:
  assumes "\<not> killed s" and "sig_strategy_id sg \<notin> paused_strategies s" and "check_symbol_allowed cfg sg"
    and "check_position_limits cfg src d sg = Inr True" and "check_portfolio_limits cfg d sg = Inr True"
    and "daily_pnl s < - daily_loss_limit cfg"
    and "guarded_step\<^sup>*\<^sup>* (fst (evaluate gate cfg src d sg s)) t"
  shows "snd (evaluate gate cfg src d sg s) = Inr (Rejected ''loss_limits'')
    \<and> snd (evaluate gate' cfg' src' d' sg' t) = Inr (Rejected ''kill_switch'')
    \<and> \<not> killed (deactivate_kill_switch t)"
proof -
  note trip = loss_limit_trips [OF assms(1-6), of gate]
  have "killed t"
    using kill_switch.run_keeps [OF assms(7)] by (simp add: trip activate_kill_switch_def)
  then show ?thesis by (simp add: trip evaluate_killed deactivate_kill_switch_def)
qed

section \<open>The bias\<close>

text \<open>Degradation of the risk bias: when Redis fails, has no key or holds text that is not a
  number, a signal is evaluated exactly as without Redis. But a text that reads as a float
  and is not finite (nan, inf) escapes this: the evaluation of every buy that reaches the
  position check raises an exception instead of deciding.\<close>

theorem risk_bias_degradation:
  assumes "\<not> killed s" and "sig_strategy_id sg \<notin> paused_strategies s" and "check_symbol_allowed cfg sg"
    and "sig_action sg = Buy"
  shows "(src \<in> {Redis_Fails, Redis_Missing, Redis_Text None} \<longrightarrow>
       evaluate gate cfg src d sg s = evaluate gate cfg No_Redis d sg s)
    \<and> (x \<in> {NaN, Infinite True, Infinite False} \<longrightarrow>
       (\<exists>e. evaluate gate cfg (Redis_Text (Some x)) d sg s = (s\<lparr>last_greeks_check := None\<rparr>, Inl e)))"
proof (intro conjI impI)
  assume "src \<in> {Redis_Fails, Redis_Missing, Redis_Text None}"
  then have "check_position_limits cfg src d sg = check_position_limits cfg No_Redis d sg"
    by (auto simp: check_position_limits_def)
  then show "evaluate gate cfg src d sg s = evaluate gate cfg No_Redis d sg s"
    by (simp only: evaluate_def)
next
  assume "x \<in> {NaN, Infinite True, Infinite False}"
  then obtain e where "scaled_quantity (max_quantity_per_order cfg) x = Inl e"
    by (cases "max_quantity_per_order cfg = 0") auto
  then have "check_position_limits cfg (Redis_Text (Some x)) d sg = Inl e"
    using assms(4) by (simp add: check_position_limits_def)
  then show "\<exists>e. evaluate gate cfg (Redis_Text (Some x)) d sg s = (s\<lparr>last_greeks_check := None\<rparr>, Inl e)"
    using assms(1-3) by (simp add: evaluate_def Let_def)
qed

lemma trunc_int_mono: "0 \<le> x \<Longrightarrow> x \<le> y \<Longrightarrow> trunc_int x \<le> trunc_int y"
  by (simp add: trunc_int_def floor_mono)

text \<open>\<open>str\<close> and \<open>float\<close> are inverse on the bias, so its decimal keeps the order.\<close>

lemma float_repr_mono:
  assumes "fl (float_repr b) = b" and "fl (float_repr c) = c" and "b \<le> c"
  shows "float_repr b \<le> float_repr c"
proof (cases "b = c")
  case False
  show ?thesis
  proof (rule ccontr)
    assume "\<not> float_repr b \<le> float_repr c"
    then have "fl (float_repr c) \<le> fl (float_repr b)" by (intro fl_mono) simp
    with assms False show False by simp
  qed
qed simp

lemma scaled_limit_mono: "0 \<le> x \<Longrightarrow> b \<le> c \<Longrightarrow> dec_mul x b \<le> dec_mul x c"
  unfolding dec_mul_def by (intro dec_mono mult_left_mono)

text \<open>The bias only tightens: when the limits are not negative and a signal passes the
  position limits under some bias between 0 and 1, it passes them under every larger bias
  as well, through the float product, the truncation and the decimal rounding.\<close>

theorem position_limits_mono:
  assumes "check_position_limits cfg (Redis_Text (Some (Finite b))) d sg = Inr True"
    and "0 \<le> b" and "b \<le> c" and "fl (float_repr b) = b" and "fl (float_repr c) = c"
    and "0 \<le> max_quantity_per_order cfg" and "0 \<le> max_position_value cfg" and "0 \<le> max_position_pct cfg"
  shows "check_position_limits cfg (Redis_Text (Some (Finite c))) d sg = Inr True"
proof (cases "sig_action sg")
  case Buy
  have nonneg: "0 \<le> fl (of_int (max_quantity_per_order cfg))"
    using fl_mono [of 0 "of_int (max_quantity_per_order cfg)"] assms(6) fl_of_int [of 0] by simp
  have "0 \<le> fl (fl (of_int (max_quantity_per_order cfg)) * b)"
    using fl_mono [of 0 "fl (of_int (max_quantity_per_order cfg)) * b"] nonneg assms(2) fl_of_int [of 0] by simp
  then have qty: "trunc_int (fl (fl (of_int (max_quantity_per_order cfg)) * b))
      \<le> trunc_int (fl (fl (of_int (max_quantity_per_order cfg)) * c))"
    using nonneg assms(3) by (intro trunc_int_mono fl_mono mult_left_mono)
  note repr = float_repr_mono [OF assms(4,5,3)]
  from scaled_limit_mono [OF assms(7) repr] scaled_limit_mono [OF assms(8) repr] qty assms(1) Buy
  show ?thesis
    by (auto simp: check_position_limits_def Let_def res_bind_eq_Inr split: if_splits option.splits)
qed (simp add: check_position_limits_def)

section \<open>Concrete runs\<close>

definition demo_config :: risk_config where
  "demo_config = \<lparr>cfg_account_id = ''A'', max_position_value = 10000, max_position_pct = 5,
     max_quantity_per_order = 500, max_positions = 20, max_exposure_pct = 80, daily_loss_limit = 1000,
     max_drawdown_pct = 10, blocked_symbols = [], allowed_symbols = []\<rparr>"

definition demo_tables :: db where
  "demo_tables = empty_db\<lparr>accounts := [''A'' \<mapsto> (new_account ''A'' ''paper'' ''USD'')
     \<lparr>total_equity := 100000, buying_power := 50000\<rparr>]\<rparr>"

definition demo_buy :: signal where
  "demo_buy = \<lparr>sig_strategy_id = ''s1'', sig_symbol = ''SPY'', sig_action = Buy, sig_quantity = 10,
     sig_order_type = Market, sig_limit_price = None, sig_reason = [], sig_timestamp = 0,
     sig_factor_scores = []\<rparr>"

lemmas demo_risk = demo_config_def demo_tables_def demo_buy_def empty_db_def new_account_def risk_init_def

lemma demo_position: "check_position_limits demo_config No_Redis demo_tables demo_buy = Inr True"
proof -
  have "fl 500 = 500" using fl_of_int [of 500] by simp
  then show ?thesis
    by (simp add: check_position_limits_def demo_risk get_account_def float_repr_1 trunc_int_def
        current_price_of_def dec_defs num_eval)
qed

lemma demo_position_half:
  "check_position_limits demo_config (Redis_Text (Some (Finite (1 / 2)))) demo_tables demo_buy = Inr True
   \<and> float_repr (1 / 2) = 1 / 2"
proof -
  have h: "fl 500 = 500" "fl 250 = 250" using fl_of_int [of 500] fl_of_int [of 250] by simp_all
  have sr: "sig_round 10 1 (1 / 2) = (1 / 2 :: rat)" "fl (1 / 2) = 1 / 2" by (simp_all add: num_eval)
  have "float_repr (1 / 2) = sig_round 10 1 (1 / 2)" by (rule float_repr_short) (simp only: sr)
  then have r: "float_repr (1 / 2) = 1 / 2" by (simp only: sr)
  show ?thesis using h
    by (simp add: check_position_limits_def demo_risk get_account_def r trunc_int_def
        current_price_of_def dec_defs num_eval)
qed

lemma demo_portfolio: "check_portfolio_limits demo_config demo_tables demo_buy = Inr True"
  by (simp add: check_portfolio_limits_def demo_risk get_account_def get_position_def get_positions_def
      scalar_one_or_none_def current_price_of_def dec_defs num_eval)

lemma demo_loss:
  "check_loss_limits demo_config demo_tables (risk_init\<lparr>last_greeks_check := None\<rparr>)
     = (risk_init\<lparr>peak_equity := 100000\<rparr>, Inr True)"
  by (simp add: check_loss_limits_def demo_risk get_account_def dec_defs num_eval)

lemma demo_approved:
  "evaluate None demo_config No_Redis demo_tables demo_buy risk_init
     = (risk_init\<lparr>peak_equity := 100000\<rparr>, Inr Approved)"
  using demo_position demo_portfolio demo_loss
  by (simp add: evaluate_def Let_def check_greeks_limits_def)
    (simp add: check_symbol_allowed_def demo_risk)

lemma demo_allowed: "check_symbol_allowed demo_config demo_buy"
  by (simp add: check_symbol_allowed_def demo_risk)


theorem daily_loss_latches_witness:
  "snd (evaluate None demo_config No_Redis demo_tables demo_buy
     (reset_daily_stats (fst (evaluate None demo_config No_Redis demo_tables demo_buy
        (risk_init\<lparr>daily_pnl := - 1001\<rparr>))))) = Inr (Rejected ''kill_switch'')"
proof -
  let ?s = "risk_init\<lparr>daily_pnl := - 1001\<rparr>"
  have "guarded_step\<^sup>*\<^sup>* (fst (evaluate None demo_config No_Redis demo_tables demo_buy ?s))
      (reset_daily_stats (fst (evaluate None demo_config No_Redis demo_tables demo_buy ?s)))"
    by (rule r_into_rtranclp) (rule Daily_Reset)
  moreover have "\<not> killed ?s" "sig_strategy_id demo_buy \<notin> paused_strategies ?s"
      "daily_pnl ?s < - daily_loss_limit demo_config" by (simp_all add: demo_risk)
  ultimately show ?thesis
    using daily_loss_latches [OF _ _ demo_allowed demo_position demo_portfolio, of ?s None] by simp
qed

theorem risk_bias_degradation_witness:
  "\<exists>e. snd (evaluate None demo_config (Redis_Text (Some NaN)) demo_tables demo_buy risk_init) = Inl e"
proof -
  have "\<not> killed risk_init" "sig_strategy_id demo_buy \<notin> paused_strategies risk_init" "sig_action demo_buy = Buy"
    by (simp_all add: demo_risk)
  from risk_bias_degradation [OF this(1,2) demo_allowed this(3), of Redis_Fails None demo_tables NaN]
  show ?thesis by auto
qed

theorem position_limits_mono_witness:
  "check_position_limits demo_config (Redis_Text (Some (Finite 1))) demo_tables demo_buy = Inr True"
proof -
  have "fl (1 / 2) = 1 / 2" "fl 1 = 1" by (simp_all add: num_eval)
  then show ?thesis
    using position_limits_mono [OF conjunct1 [OF demo_position_half], of 1] demo_position_half float_repr_1
    by (simp add: demo_config_def)
qed

end
