(* ===== verification/Trading_State.thy ===== *)
theory Trading_State
  imports Prelude
begin

text \<open>
  The trading state machine of risk/state.py: RUNNING, PAUSED and HALTED with a flag that
  allows or forbids resuming. The time of a transition is an argument.
\<close>

datatype state_value = RUNNING | PAUSED | HALTED

record trading_state =
  ts_state :: state_value
  ts_since :: int
  ts_changed_by :: string
  ts_reason :: "string option"
  can_resume :: bool

definition trading_init :: "int \<Rightarrow> trading_state" where
  "trading_init now =
     \<lparr>ts_state = RUNNING, ts_since = now, ts_changed_by = ''system'', ts_reason = None, can_resume = True\<rparr>"

definition halt :: "int \<Rightarrow> string \<Rightarrow> string \<Rightarrow> trading_state \<Rightarrow> trading_state" where
  "halt now who why s =
     \<lparr>ts_state = HALTED, ts_since = now, ts_changed_by = who, ts_reason = Some why, can_resume = False\<rparr>"

definition pause :: "int \<Rightarrow> string \<Rightarrow> string option \<Rightarrow> trading_state \<Rightarrow> trading_state" where
  "pause now who why s =
     \<lparr>ts_state = PAUSED, ts_since = now, ts_changed_by = who, ts_reason = why, can_resume = True\<rparr>"

definition enable_resume :: "string \<Rightarrow> trading_state \<Rightarrow> trading_state" where
  "enable_resume who s =
     (if ts_state s \<noteq> HALTED then s
      else \<lparr>ts_state = HALTED, ts_since = ts_since s, ts_changed_by = who, ts_reason = ts_reason s,
            can_resume = True\<rparr>)"

definition resume :: "int \<Rightarrow> string \<Rightarrow> trading_state \<Rightarrow> trading_state \<times> bool" where
  "resume now who s =
     (if \<not> can_resume s then (s, False)
      else (\<lparr>ts_state = RUNNING, ts_since = now, ts_changed_by = who, ts_reason = None,
             can_resume = True\<rparr>, True))"

definition is_trading_allowed :: "trading_state \<Rightarrow> bool" where
  "is_trading_allowed s \<longleftrightarrow> ts_state s = RUNNING"

definition is_close_allowed :: "trading_state \<Rightarrow> bool" where
  "is_close_allowed s \<longleftrightarrow> ts_state s \<in> {RUNNING, PAUSED}"

section \<open>Commands\<close>

datatype state_command =
    Halt int string string
  | Pause int string "string option"
  | Enable_Resume string
  | Resume int string

fun apply_command :: "state_command \<Rightarrow> trading_state \<Rightarrow> trading_state" where
  "apply_command (Halt now who why) s = halt now who why s"
| "apply_command (Pause now who why) s = pause now who why s"
| "apply_command (Enable_Resume who) s = enable_resume who s"
| "apply_command (Resume now who) s = fst (resume now who s)"

definition apply_commands :: "state_command list \<Rightarrow> trading_state \<Rightarrow> trading_state" where
  "apply_commands cs s = fold apply_command cs s"

text \<open>Only a halted system can refuse to resume.\<close>

definition state_ok :: "trading_state \<Rightarrow> bool" where
  "state_ok s \<longleftrightarrow> (\<not> can_resume s \<longrightarrow> ts_state s = HALTED)"

inductive command_step :: "trading_state \<Rightarrow> trading_state \<Rightarrow> bool" where
  Command: "command_step s (apply_command c s)"

lemma command_keeps: "state_ok s \<Longrightarrow> state_ok (apply_command c s)"
  by (cases c) (simp_all add: state_ok_def halt_def pause_def enable_resume_def resume_def)

interpretation commands: step_invariant command_step state_ok
  by standard (auto elim: command_step.cases intro: command_keeps)

lemma commands_run: "command_step\<^sup>*\<^sup>* s (apply_commands cs s)"
  unfolding apply_commands_def
  by (induction cs arbitrary: s) (auto intro: converse_rtranclp_into_rtranclp Command)

definition unlocks :: "state_command \<Rightarrow> bool" where
  "unlocks c \<longleftrightarrow> (case c of Pause _ _ _ \<Rightarrow> True | Enable_Resume _ \<Rightarrow> True | _ \<Rightarrow> False)"

lemma halted_locked:
  assumes "ts_state s = HALTED" and "\<not> can_resume s" and "\<not> unlocks c"
  shows "ts_state (apply_command c s) = HALTED \<and> \<not> can_resume (apply_command c s)"
  using assms by (cases c) (simp_all add: unlocks_def halt_def resume_def)

lemma halted_run:
  "ts_state s = HALTED \<Longrightarrow> \<not> can_resume s \<Longrightarrow> \<forall>c \<in> set cs. \<not> unlocks c \<Longrightarrow>
   ts_state (apply_commands cs s) = HALTED \<and> \<not> can_resume (apply_commands cs s)"
  unfolding apply_commands_def
  by (induction cs arbitrary: s) (simp_all add: halted_locked)

text \<open>A halt locks the system from any state: until somebody enables resuming
  or pauses, no sequence of resume and halt commands leaves HALTED, trading and closing stay
  forbidden and resume reports failure. Pausing a halted system, however, unlocks it without
  enable-resume: the next resume succeeds and trading runs again.\<close>

theorem halt_locks_unless_paused:
  assumes "\<forall>c \<in> set cs. \<not> unlocks c"
  shows "\<not> is_trading_allowed (apply_commands cs (halt t1 who why s))
    \<and> \<not> is_close_allowed (apply_commands cs (halt t1 who why s))
    \<and> \<not> snd (resume t2 who2 (apply_commands cs (halt t1 who why s)))
    \<and> snd (resume t3 who3 (pause t2 who2 why2 (apply_commands cs (halt t1 who why s))))
    \<and> is_trading_allowed (fst (resume t3 who3 (pause t2 who2 why2 (apply_commands cs (halt t1 who why s)))))"
  using halted_run [OF _ _ assms, of "halt t1 who why s"]
  by (simp add: is_trading_allowed_def is_close_allowed_def resume_def pause_def)
    (simp add: halt_def)

text \<open>In every reachable state the system that refuses to resume is a halted one, so from
  RUNNING and PAUSED resume always succeeds, and from HALTED enabling makes it succeed.\<close>

theorem resume_succeeds:
  assumes "s = apply_commands history (trading_init t0)"
  shows "(ts_state s \<noteq> HALTED \<longrightarrow> snd (resume t who s) \<and> is_trading_allowed (fst (resume t who s)))
    \<and> snd (resume t who (enable_resume who' s))
    \<and> is_trading_allowed (fst (resume t who (enable_resume who' s)))"
proof -
  have "state_ok (trading_init t0)" by (simp add: state_ok_def trading_init_def)
  then have "state_ok s" using commands.run_keeps [OF commands_run] assms by blast
  then show ?thesis
    by (auto simp: state_ok_def resume_def enable_resume_def is_trading_allowed_def)
qed

theorem halt_locks_unless_paused_witness:
  "\<not> is_close_allowed (apply_commands [Resume 2 ''b'', Halt 3 ''c'' ''x''] (halt 1 ''a'' ''loss'' (trading_init 0)))"
  using halt_locks_unless_paused [of "[Resume 2 ''b'', Halt 3 ''c'' ''x'']" 1 "''a''" "''loss''" "trading_init 0"]
  by (simp add: unlocks_def)

theorem resume_succeeds_witness:
  "snd (resume 3 ''b'' (enable_resume ''b'' (apply_commands [Halt 1 ''a'' ''x''] (trading_init 0))))"
  using resume_succeeds [of "apply_commands [Halt 1 ''a'' ''x''] (trading_init 0)" "[Halt 1 ''a'' ''x'']" 0] by simp

end
