(* ===== verification/Broker_Interface.thy ===== *)
theory Broker_Interface
  imports Trading_Types
begin

text \<open>
  The broker interface of broker/base.py as a contract: what a client may rely on when it
  submits and cancels orders. The simulated broker provides it; the live broker and the
  order manager are its clients. A submission returns the broker's id or raises.
\<close>

locale order_broker =
  fixes submit :: "order \<Rightarrow> 's \<Rightarrow> 's \<times> string result"
    and cancel :: "string \<Rightarrow> 's \<Rightarrow> 's \<times> bool result"
    and status :: "string \<Rightarrow> 's \<Rightarrow> order_status"
    and known :: "'s \<Rightarrow> string set"
    and ok :: "'s \<Rightarrow> bool"
  assumes submit_fresh: "ok s \<Longrightarrow> submit ord s = (t, Inr bid) \<Longrightarrow>
        bid \<notin> known s \<and> known t = insert bid (known s) \<and> ok t"
    and submit_status: "ok s \<Longrightarrow> submit ord s = (t, Inr bid) \<Longrightarrow> status bid t = SUBMITTED"
    and submit_error: "submit ord s = (t, Inl e) \<Longrightarrow> t = s"
    and cancel_unknown: "bid \<notin> known s \<Longrightarrow> \<exists>e. cancel bid s = (s, Inl e)"
    and cancel_filled: "status bid s = FILLED \<Longrightarrow> \<exists>e. cancel bid s = (s, Inl e)"
    and cancel_open: "bid \<in> known s \<Longrightarrow> status bid s \<noteq> FILLED \<Longrightarrow> \<exists>t. cancel bid s = (t, Inr True)"
    and cancel_result: "cancel bid s = (t, Inr b) \<Longrightarrow> ok s \<Longrightarrow>
        status bid t = CANCELLED \<and> known t = known s \<and> ok t"
begin

text \<open>Ids are never reused, and a fresh order can be cancelled, twice even.\<close>

lemma submit_twice:
  assumes "ok s" and "submit o1 s = (t, Inr b1)" and "submit o2 t = (u, Inr b2)"
  shows "b1 \<noteq> b2"
  using submit_fresh [OF assms(1,2)] submit_fresh [of t o2 u b2] assms(3) by auto

lemma submit_then_cancel:
  assumes "ok s" and "submit ord s = (t, Inr bid)"
  shows "\<exists>u v. cancel bid t = (u, Inr True) \<and> status bid u = CANCELLED \<and> cancel bid u = (v, Inr True)"
proof -
  from submit_fresh [OF assms] have t: "bid \<in> known t" "ok t" by auto
  obtain u where u: "cancel bid t = (u, Inr True)"
    using cancel_open [OF t(1)] submit_status [OF assms] by auto
  from cancel_result [OF u t(2)] have "status bid u = CANCELLED" "bid \<in> known u" using t by auto
  then show ?thesis using u cancel_open [of bid u] by auto
qed

end

end
