(* ===== verification/Paper_Broker.thy ===== *)
theory Paper_Broker
  imports Broker_Interface Numerics
begin

text \<open>
  The simulated broker of broker/paper_broker.py. A submission starts a coroutine that fills
  the order; it runs in slices between its awaits, so the state holds the coroutine's local
  \<open>remaining_qty\<close> and a step of the system is one slice of one coroutine. The random draws of
  a slice are an argument. \<open>notified\<close> is the list of fills passed to the callback.
\<close>

section \<open>State\<close>

record broker_position =
  bp_symbol :: string
  bp_quantity :: int
  bp_avg_cost :: decimal
  bp_market_value :: decimal
  bp_asset_type :: asset_type

record broker_account =
  ba_account_id :: string
  ba_cash :: decimal
  ba_buying_power :: decimal
  ba_total_equity :: decimal
  ba_margin_used :: decimal

record paper_config =
  default_price :: decimal
  partial_fill_probability :: double

text \<open>A coroutine before its first slice, and between two iterations of its loop.\<close>

datatype fill_task = Waiting | Looping int

record paper_broker =
  order_counter :: nat
  fill_counter :: nat
  pb_orders :: "string \<rightharpoonup> order"
  order_statuses :: "string \<rightharpoonup> order_status"
  pb_filled_qty :: "string \<rightharpoonup> int"
  pb_cancelled :: "string set"
  tasks :: "string \<rightharpoonup> fill_task"
  has_callback :: bool
  notified :: "order_fill list"
  pb_positions :: "string \<rightharpoonup> (string \<times> broker_position) list"
  pb_accounts :: "string \<rightharpoonup> broker_account"

definition paper_init :: paper_broker where
  "paper_init = \<lparr>order_counter = 0, fill_counter = 0, pb_orders = Map.empty, order_statuses = Map.empty,
     pb_filled_qty = Map.empty, pb_cancelled = {}, tasks = Map.empty, has_callback = False, notified = [],
     pb_positions = Map.empty, pb_accounts = Map.empty\<rparr>"

section \<open>Orders\<close>

definition paper_id :: "nat \<Rightarrow> string" where
  "paper_id n = ''PAPER-'' @ zfill 6 (show_nat n)"

definition paper_fill_id :: "nat \<Rightarrow> string" where
  "paper_fill_id n = ''FILL-'' @ zfill 8 (show_nat n)"

definition paper_submit_order :: "order \<Rightarrow> paper_broker \<Rightarrow> paper_broker \<times> string result" where
  "paper_submit_order ord s =
     (let n = Suc (order_counter s);
          bid = paper_id n
      in (s\<lparr>order_counter := n, pb_orders := (pb_orders s)(bid \<mapsto> ord),
            order_statuses := (order_statuses s)(bid \<mapsto> SUBMITTED),
            pb_filled_qty := (pb_filled_qty s)(bid \<mapsto> 0),
            tasks := (tasks s)(bid \<mapsto> Waiting)\<rparr>, Inr bid))"

definition paper_cancel_order :: "string \<Rightarrow> paper_broker \<Rightarrow> paper_broker \<times> bool result" where
  "paper_cancel_order bid s =
     (if bid \<notin> dom (pb_orders s) then (s, Inl (ExternalError ''OrderCancelError''))
      else if order_statuses s bid = Some FILLED then (s, Inl (ExternalError ''OrderCancelError''))
      else (s\<lparr>pb_cancelled := insert bid (pb_cancelled s),
              order_statuses := (order_statuses s)(bid \<mapsto> CANCELLED)\<rparr>, Inr True))"

definition paper_order_status :: "string \<Rightarrow> paper_broker \<Rightarrow> order_status" where
  "paper_order_status bid s = (case order_statuses s bid of None \<Rightarrow> PENDING | Some st \<Rightarrow> st)"

definition paper_subscribe_fills :: "paper_broker \<Rightarrow> paper_broker" where
  "paper_subscribe_fills s = s\<lparr>has_callback := True\<rparr>"

section \<open>Fills\<close>

text \<open>The draws of one iteration: \<open>random()\<close>, \<open>randint\<close> and \<open>uniform\<close>; \<open>Decimal(x)\<close> of a float
  is exact.\<close>

record draws =
  roll :: double
  randint :: "int \<Rightarrow> int \<Rightarrow> int"
  variation :: double

definition calculate_fill_price :: "paper_config \<Rightarrow> order \<Rightarrow> double \<Rightarrow> decimal" where
  "calculate_fill_price cfg ord v =
     (if ord_type ord = Limit \<and> ord_limit_price ord \<notin> {None, Some 0} then
        (if ord_side ord = Buy then dec_mul (the (ord_limit_price ord)) (dec_sub 1 v)
         else dec_mul (the (ord_limit_price ord)) (dec_add 1 v))
      else
        (let slippage_pct = dec (v / 10000)
         in if ord_side ord = Buy then dec_mul (default_price cfg) (dec_add 1 (dec_abs slippage_pct))
            else dec_mul (default_price cfg) (dec_sub 1 (dec_abs slippage_pct))))"

definition fill_quantity_of :: "paper_config \<Rightarrow> draws \<Rightarrow> int \<Rightarrow> int" where
  "fill_quantity_of cfg dr remaining =
     (if partial_fill_probability cfg > 0 \<and> roll dr < partial_fill_probability cfg \<and> remaining > 1
      then randint dr 1 (remaining - 1) else remaining)"

definition filled_of :: "string \<Rightarrow> paper_broker \<Rightarrow> int" where
  "filled_of bid s = (case pb_filled_qty s bid of None \<Rightarrow> 0 | Some q \<Rightarrow> q)"

text \<open>One iteration of the loop, up to its await or its end.\<close>

definition fill_iteration ::
  "paper_config \<Rightarrow> int \<Rightarrow> draws \<Rightarrow> order \<Rightarrow> string \<Rightarrow> int \<Rightarrow> paper_broker \<Rightarrow> paper_broker" where
  "fill_iteration cfg now dr ord bid remaining s =
     (if remaining \<le> 0 \<or> bid \<in> pb_cancelled s then s\<lparr>tasks := (tasks s)(bid := None)\<rparr>
      else
        (let qty = fill_quantity_of cfg dr remaining;
             n = Suc (fill_counter s);
             fill = \<lparr>fill_id = paper_fill_id n, fill_order_id = bid, fill_symbol = ord_symbol ord,
                     fill_side = ord_side ord, fill_quantity = qty,
                     fill_price = calculate_fill_price cfg ord (variation dr), fill_timestamp = now\<rparr>;
             rest = remaining - qty
         in s\<lparr>fill_counter := n,
              pb_filled_qty := (pb_filled_qty s)(bid \<mapsto> filled_of bid s + qty),
              order_statuses := (order_statuses s)(bid \<mapsto> (if rest > 0 then PARTIAL_FILL else FILLED)),
              notified := (if has_callback s then notified s @ [fill] else notified s),
              tasks := (if rest > 0 then (tasks s)(bid \<mapsto> Looping rest) else (tasks s)(bid := None))\<rparr>))"

definition simulate_fill :: "paper_config \<Rightarrow> int \<Rightarrow> draws \<Rightarrow> string \<Rightarrow> paper_broker \<Rightarrow> paper_broker" where
  "simulate_fill cfg now dr bid s =
     (case (tasks s bid, pb_orders s bid) of
        (Some Waiting, Some ord) \<Rightarrow>
          if bid \<in> pb_cancelled s then s\<lparr>tasks := (tasks s)(bid := None)\<rparr>
          else fill_iteration cfg now dr ord bid (ord_quantity ord - filled_of bid s) s
      | (Some (Looping remaining), Some ord) \<Rightarrow> fill_iteration cfg now dr ord bid remaining s
      | _ \<Rightarrow> s)"

section \<open>Broker queries\<close>

definition add_position :: "string \<Rightarrow> broker_position \<Rightarrow> paper_broker \<Rightarrow> paper_broker" where
  "add_position acct p s =
     (let old = (case pb_positions s acct of None \<Rightarrow> [] | Some ps \<Rightarrow> ps)
      in s\<lparr>pb_positions := (pb_positions s)(acct \<mapsto> AList.update (bp_symbol p) p old)\<rparr>)"

definition set_account :: "broker_account \<Rightarrow> paper_broker \<Rightarrow> paper_broker" where
  "set_account a s = s\<lparr>pb_accounts := (pb_accounts s)(ba_account_id a \<mapsto> a)\<rparr>"

definition paper_get_positions :: "string \<Rightarrow> paper_broker \<Rightarrow> broker_position list" where
  "paper_get_positions acct s = (case pb_positions s acct of None \<Rightarrow> [] | Some ps \<Rightarrow> map snd ps)"

definition paper_get_account :: "string \<Rightarrow> paper_broker \<Rightarrow> broker_account" where
  "paper_get_account acct s =
     (case pb_accounts s acct of
        Some a \<Rightarrow> a
      | None \<Rightarrow> \<lparr>ba_account_id = acct, ba_cash = 100000, ba_buying_power = 200000,
                  ba_total_equity = 100000, ba_margin_used = 0\<rparr>)"

section \<open>The invariant\<close>

definition ids_issued :: "paper_broker \<Rightarrow> bool" where
  "ids_issued s \<longleftrightarrow> (\<forall>bid ord. pb_orders s bid = Some ord \<longrightarrow> (\<exists>n \<le> order_counter s. bid = paper_id n))"

lemma paper_id_inj [simp]: "paper_id m = paper_id n \<longleftrightarrow> m = n"
  by (simp add: paper_id_def padded_inj)

lemma paper_fill_id_inj [simp]: "paper_fill_id m = paper_fill_id n \<longleftrightarrow> m = n"
  by (simp add: paper_fill_id_def padded_inj)

lemma ids_issuedD: "ids_issued s \<Longrightarrow> pb_orders s bid = Some ord \<Longrightarrow> \<exists>n\<le>order_counter s. bid = paper_id n"
  by (auto simp: ids_issued_def)

lemma next_id_fresh: "ids_issued s \<Longrightarrow> pb_orders s (paper_id (Suc (order_counter s))) = None"
  using ids_issuedD [of s "paper_id (Suc (order_counter s))"]
  by (cases "pb_orders s (paper_id (Suc (order_counter s)))") auto

lemma submit_ids_issued: "ids_issued s \<Longrightarrow> ids_issued (fst (paper_submit_order ord s))"
  by (auto simp: paper_submit_order_def Let_def ids_issued_def)

interpretation paper: order_broker paper_submit_order paper_cancel_order paper_order_status
  "\<lambda>s. dom (pb_orders s)" ids_issued
proof
  fix s t ord bid
  assume ok: "ids_issued s" and sub: "paper_submit_order ord s = (t, Inr bid)"
  show "bid \<notin> dom (pb_orders s) \<and> dom (pb_orders t) = insert bid (dom (pb_orders s)) \<and> ids_issued t"
    using sub next_id_fresh [OF ok] submit_ids_issued [OF ok, of ord]
    by (auto simp: paper_submit_order_def Let_def)
  show "paper_order_status bid t = SUBMITTED"
    using sub by (auto simp: paper_submit_order_def Let_def paper_order_status_def)
next
  fix s t bid b
  assume "paper_cancel_order bid s = (t, Inr b)" and "ids_issued s"
  then show "paper_order_status bid t = CANCELLED \<and> dom (pb_orders t) = dom (pb_orders s) \<and> ids_issued t"
    by (auto simp: paper_cancel_order_def paper_order_status_def ids_issued_def split: if_splits)
qed (auto simp: paper_submit_order_def Let_def paper_cancel_order_def paper_order_status_def
       split: option.splits)

section \<open>Runs\<close>

text \<open>\<open>randint(a, b)\<close> lies between its bounds.\<close>

definition draws_ok :: "draws \<Rightarrow> bool" where
  "draws_ok dr \<longleftrightarrow> (\<forall>lo hi. lo \<le> hi \<longrightarrow> lo \<le> randint dr lo hi \<and> randint dr lo hi \<le> hi)"

inductive paper_step :: "paper_config \<Rightarrow> paper_broker \<Rightarrow> paper_broker \<Rightarrow> bool" for cfg where
  Submit: "paper_step cfg s (fst (paper_submit_order ord s))"
| Cancel: "paper_step cfg s (fst (paper_cancel_order bid s))"
| Slice: "draws_ok dr \<Longrightarrow> paper_step cfg s (simulate_fill cfg now dr bid s)"

inductive_cases paper_stepE: "paper_step cfg s t"

definition fills_for :: "string \<Rightarrow> paper_broker \<Rightarrow> order_fill list" where
  "fills_for bid s = filter (\<lambda>f. fill_order_id f = bid) (notified s)"

definition notified_qty :: "string \<Rightarrow> paper_broker \<Rightarrow> int" where
  "notified_qty bid s = sum_list (map fill_quantity (fills_for bid s))"

text \<open>What holds of one order between two slices.\<close>

definition order_state_ok :: "string \<Rightarrow> order option \<Rightarrow> paper_broker \<Rightarrow> bool" where
  "order_state_ok bid ord s \<longleftrightarrow>
     (case ord of
        None \<Rightarrow> tasks s bid = None \<and> notified_qty bid s = 0
      | Some ord \<Rightarrow>
          notified_qty bid s = filled_of bid s \<and> 0 \<le> filled_of bid s
          \<and> filled_of bid s \<le> max 0 (ord_quantity ord)
          \<and> (tasks s bid = Some Waiting \<longrightarrow> filled_of bid s = 0)
          \<and> (\<forall>r. tasks s bid = Some (Looping r) \<longrightarrow> r = ord_quantity ord - filled_of bid s \<and> 0 < r)
          \<and> (order_statuses s bid = Some FILLED \<longrightarrow> filled_of bid s = ord_quantity ord))"

definition paper_ok :: "paper_broker \<Rightarrow> bool" where
  "paper_ok s \<longleftrightarrow> ids_issued s \<and> has_callback s
     \<and> (\<forall>bid. order_state_ok bid (pb_orders s bid) s)
     \<and> distinct (map fill_id (notified s))
     \<and> (\<forall>f \<in> set (notified s). 0 < fill_quantity f \<and> (\<exists>n \<le> fill_counter s. fill_id f = paper_fill_id n))"

lemma paper_okD:
  assumes "paper_ok s"
  shows "ids_issued s" "has_callback s" "order_state_ok bid (pb_orders s bid) s"
    "distinct (map fill_id (notified s))"
    "f \<in> set (notified s) \<Longrightarrow> 0 < fill_quantity f \<and> (\<exists>n \<le> fill_counter s. fill_id f = paper_fill_id n)"
  using assms by (simp_all add: paper_ok_def)

lemma fill_quantity_of_bounds:
  assumes "draws_ok dr" and "0 < rem"
  shows "0 < fill_quantity_of cfg dr rem \<and> fill_quantity_of cfg dr rem \<le> rem"
proof (cases "1 < rem")
  case True
  then have "1 \<le> randint dr 1 (rem - 1) \<and> randint dr 1 (rem - 1) \<le> rem - 1"
    using assms(1) [unfolded draws_ok_def, rule_format, of 1 "rem - 1"] by simp
  then show ?thesis using assms(2) by (auto simp: fill_quantity_of_def)
qed (use assms(2) in \<open>simp add: fill_quantity_of_def\<close>)

lemma task_end_ok:
  assumes "paper_ok s"
  shows "paper_ok (s\<lparr>tasks := (tasks s)(bid := None)\<rparr>)"
proof -
  have "order_state_ok b ord (s\<lparr>tasks := (tasks s)(bid := None)\<rparr>)" if "order_state_ok b ord s" for b ord
    using that by (auto simp: order_state_ok_def filled_of_def notified_qty_def fills_for_def split: option.splits)
  then show ?thesis using assms by (simp add: paper_ok_def ids_issued_def)
qed

lemma iteration_ok:
  assumes ok: "paper_ok s" and ord: "pb_orders s bid = Some ord" and dr: "draws_ok dr"
    and rem: "rem = ord_quantity ord - filled_of bid s" and q: "0 < ord_quantity ord"
  shows "paper_ok (fill_iteration cfg now dr ord bid rem s)"
proof (cases "rem \<le> 0 \<or> bid \<in> pb_cancelled s")
  case True
  then show ?thesis using task_end_ok [OF ok] by (simp add: fill_iteration_def)
next
  case False
  let ?q = "fill_quantity_of cfg dr rem" and ?t = "fill_iteration cfg now dr ord bid rem s"
  have qty: "0 < ?q" "?q \<le> rem" using fill_quantity_of_bounds [OF dr, of rem cfg] False by auto
  have new: "paper_fill_id (Suc (fill_counter s)) \<notin> fill_id ` set (notified s)"
    using paper_okD(5) [OF ok] by fastforce
  have cb: "has_callback s" using paper_okD(2) [OF ok] .
  have t: "pb_orders ?t = pb_orders s" "order_counter ?t = order_counter s" "has_callback ?t"
    "fill_counter ?t = Suc (fill_counter s)"
    using False cb by (simp_all add: fill_iteration_def Let_def)
  have state: "order_state_ok b (pb_orders s b) ?t" for b
    using paper_okD(3) [OF ok, of b] ord rem qty False cb
    by (cases "b = bid")
      (auto simp: fill_iteration_def Let_def order_state_ok_def filled_of_def notified_qty_def fills_for_def
        split: option.splits)
  have "distinct (map fill_id (notified ?t))"
    using paper_okD(4) [OF ok] new False cb by (auto simp: fill_iteration_def Let_def)
  moreover have "0 < fill_quantity f \<and> (\<exists>n \<le> fill_counter ?t. fill_id f = paper_fill_id n)"
    if "f \<in> set (notified ?t)" for f
    using that paper_okD(5) [OF ok, of f] qty False cb
    by (auto simp: fill_iteration_def Let_def intro: le_SucI)
  ultimately show ?thesis using state t paper_okD(1) [OF ok] by (simp add: paper_ok_def ids_issued_def)
qed

lemma simulate_fill_ok:
  assumes ok: "paper_ok s" and dr: "draws_ok dr"
  shows "paper_ok (simulate_fill cfg now dr bid s)"
proof (cases "pb_orders s bid")
  case (Some ord)
  note st = paper_okD(3) [OF ok, of bid]
  show ?thesis
  proof (cases "tasks s bid")
    case task: (Some task)
    show ?thesis
    proof (cases "0 < ord_quantity ord")
      case True
      show ?thesis
      proof (cases task)
        case Waiting
        then show ?thesis
          using iteration_ok [OF ok Some dr refl True, of cfg now] task_end_ok [OF ok, of bid] task Some
          by (simp add: simulate_fill_def)
      next
        case (Looping r)
        then have "r = ord_quantity ord - filled_of bid s" using st task Some by (simp add: order_state_ok_def)
        then show ?thesis
          using iteration_ok [OF ok Some dr _ True, of r cfg now] task Some Looping
          by (simp add: simulate_fill_def)
      qed
    next
      case False
      then have "filled_of bid s = 0" "task = Waiting"
        using st task Some by (auto simp: order_state_ok_def intro: fill_task.exhaust [of task])
      then show ?thesis using False task_end_ok [OF ok, of bid] task Some
        by (simp add: simulate_fill_def fill_iteration_def)
    qed
  qed (simp add: simulate_fill_def ok)
qed (use ok in \<open>auto simp: simulate_fill_def split: option.split fill_task.split\<close>)

lemma submit_paper_ok: "paper_ok s \<Longrightarrow> paper_ok (fst (paper_submit_order ord s))"
proof -
  assume ok: "paper_ok s"
  let ?bid = "paper_id (Suc (order_counter s))" and ?t = "fst (paper_submit_order ord s)"
  have new: "order_state_ok ?bid None s"
    using paper_okD(3) [OF ok, of ?bid] next_id_fresh [OF paper_okD(1) [OF ok]] by simp
  have "order_state_ok b (pb_orders ?t b) ?t" for b
    using paper_okD(3) [OF ok, of b] new
    by (cases "b = ?bid")
      (auto simp: paper_submit_order_def Let_def order_state_ok_def filled_of_def notified_qty_def
        fills_for_def split: option.splits)
  moreover have "notified ?t = notified s" "fill_counter ?t = fill_counter s" "has_callback ?t = has_callback s"
    by (simp_all add: paper_submit_order_def Let_def)
  ultimately show ?thesis using submit_ids_issued [OF paper_okD(1) [OF ok]] ok
    by (simp add: paper_ok_def)
qed

lemma cancel_paper_ok: "paper_ok s \<Longrightarrow> paper_ok (fst (paper_cancel_order bid s))"
proof -
  assume ok: "paper_ok s"
  let ?t = "fst (paper_cancel_order bid s)"
  have "order_state_ok b (pb_orders ?t b) ?t" for b
    using paper_okD(3) [OF ok, of b]
    by (auto simp: paper_cancel_order_def order_state_ok_def filled_of_def notified_qty_def
        fills_for_def split: option.splits)
  moreover have "notified ?t = notified s" "fill_counter ?t = fill_counter s" "has_callback ?t = has_callback s"
    "pb_orders ?t = pb_orders s" "order_counter ?t = order_counter s"
    by (simp_all add: paper_cancel_order_def)
  ultimately show ?thesis using ok by (simp add: paper_ok_def ids_issued_def)
qed

interpretation paper_run: step_invariant "paper_step cfg" paper_ok for cfg
  by standard (elim paper_stepE, auto simp: submit_paper_ok cancel_paper_ok simulate_fill_ok)

lemma paper_start_ok: "paper_ok (paper_subscribe_fills paper_init)"
  by (simp add: paper_ok_def paper_init_def paper_subscribe_fills_def ids_issued_def order_state_ok_def
      notified_qty_def fills_for_def)

text \<open>C11. However submissions, cancellations and the slices of the fill coroutines interleave,
  the simulated broker never reports a fill id twice, every reported fill has a positive
  quantity, the fills reported for an order add up to what the broker counts as filled and
  never exceed the order's quantity, and an order it calls FILLED has been reported in full.\<close>

theorem paper_fills_conserve:
  assumes "(paper_step cfg)\<^sup>*\<^sup>* (paper_subscribe_fills paper_init) s" and "pb_orders s bid = Some ord"
  shows "distinct (map fill_id (notified s)) \<and> (\<forall>f \<in> set (notified s). 0 < fill_quantity f)
    \<and> notified_qty bid s = filled_of bid s \<and> 0 \<le> filled_of bid s
    \<and> filled_of bid s \<le> max 0 (ord_quantity ord)
    \<and> (paper_order_status bid s = FILLED \<longrightarrow> notified_qty bid s = ord_quantity ord)"
proof -
  have ok: "paper_ok s" using paper_run.run_keeps [OF assms(1) paper_start_ok] .
  from paper_okD(3) [OF ok, of bid] assms(2) show ?thesis
    using paper_okD(4,5) [OF ok]
    by (auto simp: order_state_ok_def paper_order_status_def split: option.splits)
qed

section \<open>Cancellation\<close>

definition frozen :: "string \<Rightarrow> order_fill list \<Rightarrow> paper_broker \<Rightarrow> bool" where
  "frozen bid fs s \<longleftrightarrow> bid \<in> pb_cancelled s \<and> fills_for bid s = fs \<and> bid \<in> dom (pb_orders s)
     \<and> order_statuses s bid = Some CANCELLED \<and> ids_issued s"

lemma iteration_other:
  assumes "frozen bid fs s"
  shows "frozen bid fs (fill_iteration cfg now dr ord b rem s)"
  using assms by (auto simp: frozen_def fill_iteration_def Let_def fills_for_def ids_issued_def)

lemma simulate_other: "frozen bid fs s \<Longrightarrow> frozen bid fs (simulate_fill cfg now dr b s)"
  by (auto simp: simulate_fill_def iteration_other split: option.split fill_task.split)
    (auto simp: frozen_def fills_for_def ids_issued_def)

interpretation cancelled_run: step_invariant "paper_step cfg" "frozen bid fs" for cfg bid fs
proof
  fix s t
  assume "paper_step cfg s t" and fr: "frozen bid fs s"
  then show "frozen bid fs t"
  proof (cases rule: paper_step.cases)
    case (Submit ord)
    have "bid \<noteq> paper_id (Suc (order_counter s))"
      using fr next_id_fresh [of s] by (auto simp: frozen_def)
    then show ?thesis using fr Submit submit_ids_issued [of s ord]
      by (auto simp: frozen_def paper_submit_order_def Let_def fills_for_def)
  next
    case (Cancel b)
    with fr show ?thesis by (auto simp: frozen_def paper_cancel_order_def fills_for_def ids_issued_def)
  next
    case (Slice dr now b)
    with fr simulate_other show ?thesis by blast
  qed
qed

text \<open>A cancellation that the simulated broker accepts is final: whatever it does afterwards, it
  reports no further fill of that order, the order stays CANCELLED, and cancelling it again
  succeeds.\<close>

theorem paper_cancel_final:
  assumes "(paper_step cfg)\<^sup>*\<^sup>* (paper_subscribe_fills paper_init) s"
    and "paper_cancel_order bid s = (t, Inr True)" and "(paper_step cfg)\<^sup>*\<^sup>* t u"
  shows "fills_for bid u = fills_for bid s \<and> paper_order_status bid u = CANCELLED
    \<and> snd (paper_cancel_order bid u) = Inr True"
proof -
  have "ids_issued s" using paper_run.run_keeps [OF assms(1) paper_start_ok] by (rule paper_okD)
  then have "frozen bid (fills_for bid s) t"
    using assms(2) by (auto simp: frozen_def paper_cancel_order_def fills_for_def ids_issued_def split: if_splits)
  from cancelled_run.run_keeps [OF assms(3) this]
  show ?thesis by (auto simp: frozen_def paper_order_status_def paper_cancel_order_def)
qed

section \<open>Fills come to an end\<close>

definition run_slices :: "paper_config \<Rightarrow> int \<Rightarrow> draws list \<Rightarrow> string \<Rightarrow> paper_broker \<Rightarrow> paper_broker" where
  "run_slices cfg now drs bid s = foldl (\<lambda>s dr. simulate_fill cfg now dr bid s) s drs"

lemma slices_finish:
  assumes "tasks s bid = Some (Looping r)" and "pb_orders s bid = Some ord" and "bid \<notin> pb_cancelled s"
    and "0 < r" and "r \<le> int (length drs)" and "\<forall>dr \<in> set drs. draws_ok dr"
    and "filled_of bid s + r = ord_quantity ord"
  shows "order_statuses (run_slices cfg now drs bid s) bid = Some FILLED
    \<and> filled_of bid (run_slices cfg now drs bid s) = ord_quantity ord
    \<and> tasks (run_slices cfg now drs bid s) bid = None"
  using assms
proof (induction drs arbitrary: s r)
  case (Cons dr drs)
  let ?q = "fill_quantity_of cfg dr r" and ?t = "simulate_fill cfg now dr bid s"
  have q: "0 < ?q" "?q \<le> r" using fill_quantity_of_bounds [of dr r cfg] Cons.prems by auto
  have t: "filled_of bid ?t = filled_of bid s + ?q" "pb_orders ?t = pb_orders s" "pb_cancelled ?t = pb_cancelled s"
    "tasks ?t bid = (if r - ?q > 0 then Some (Looping (r - ?q)) else None)"
    "order_statuses ?t bid = Some (if r - ?q > 0 then PARTIAL_FILL else FILLED)"
    using Cons.prems by (auto simp: simulate_fill_def fill_iteration_def Let_def filled_of_def)
  have idle: "run_slices cfg now ds bid u = u" if "tasks u bid = None" for u ds
    using that by (induction ds) (simp_all add: run_slices_def simulate_fill_def)
  have step: "run_slices cfg now (dr # drs) bid s = run_slices cfg now drs bid ?t"
    by (simp add: run_slices_def)
  show ?case
  proof (cases "?q < r")
    case True
    then show ?thesis unfolding step using Cons.IH [of ?t "r - ?q"] Cons.prems q t by simp
  next
    case False
    then show ?thesis unfolding step using idle [of ?t] Cons.prems q t by simp
  qed
qed simp

text \<open>The fill simulation of an order terminates and fills it completely: for an order with
  positive quantity that is not cancelled, at most as many slices of its coroutine as the
  quantity says end with the order FILLED at exactly its quantity, whatever the random
  draws.\<close>

theorem paper_fill_terminates:
  assumes "paper_submit_order ord s = (t, Inr bid)" and "0 < ord_quantity ord" and "bid \<notin> pb_cancelled t"
    and "\<forall>dr \<in> set drs. draws_ok dr" and "ord_quantity ord \<le> int (length drs)"
  shows "paper_order_status bid (run_slices cfg now drs bid t) = FILLED
    \<and> filled_of bid (run_slices cfg now drs bid t) = ord_quantity ord
    \<and> tasks (run_slices cfg now drs bid t) bid = None"
proof -
  have t: "tasks t bid = Some Waiting" "pb_orders t bid = Some ord" "filled_of bid t = 0"
    using assms(1) by (auto simp: paper_submit_order_def Let_def filled_of_def)
  let ?u = "t\<lparr>tasks := (tasks t)(bid \<mapsto> Looping (ord_quantity ord))\<rparr>"
  obtain dr rest where drs: "drs = dr # rest" using assms(2,5) by (cases drs) auto
  have "simulate_fill cfg now dr bid ?u = simulate_fill cfg now dr bid t"
    using t assms(2,3) by (simp add: simulate_fill_def fill_iteration_def Let_def filled_of_def)
  then have "run_slices cfg now drs bid ?u = run_slices cfg now drs bid t"
    by (simp add: run_slices_def drs)
  moreover have "filled_of bid ?u = 0" using t(3) by (simp add: filled_of_def)
  ultimately show ?thesis
    using slices_finish [of ?u bid "ord_quantity ord" ord drs cfg now] t assms
    by (simp add: paper_order_status_def)
qed

section \<open>Prices\<close>

lemma dec_1: "dec 1 = 1"
  by (rule dec_exact [of _ 1 0]) simp_all

lemma dec_scale_up: "money l \<Longrightarrow> 0 \<le> l \<Longrightarrow> 0 \<le> x \<Longrightarrow> l \<le> dec_mul l (dec_add 1 x)"
proof -
  assume l: "money l" "0 \<le> l" and "0 \<le> x"
  then have "1 \<le> dec (1 + x)" using dec_mono [of 1 "1 + x"] dec_1 by simp
  then have "l * 1 \<le> l * dec (1 + x)" using l by (intro mult_left_mono)
  then show ?thesis using dec_mono [of l "l * dec (1 + x)"] dec_grid [OF l(1)]
    by (simp add: dec_mul_def dec_add_def)
qed

lemma dec_scale_down: "money l \<Longrightarrow> 0 \<le> l \<Longrightarrow> 0 \<le> x \<Longrightarrow> dec_mul l (dec_sub 1 x) \<le> l"
proof -
  assume l: "money l" "0 \<le> l" and "0 \<le> x"
  then have "dec (1 - x) \<le> 1" using dec_mono [of "1 - x" 1] dec_1 by simp
  then have "l * dec (1 - x) \<le> l * 1" using l by (intro mult_left_mono)
  then show ?thesis using dec_mono [of "l * dec (1 - x)" l] dec_grid [OF l(1)]
    by (simp add: dec_mul_def dec_sub_def)
qed

text \<open>Simulated prices are never better than the rules allow: a limit order with a positive
  limit on the price grid fills at the limit or better, and a market order fills at the
  default price or worse, through all decimal rounding.\<close>

theorem paper_price_bounds:
  assumes "money (default_price cfg)" and "0 \<le> default_price cfg" and "0 \<le> v"
    and "ord_type ord = Limit \<longrightarrow> (\<exists>l. ord_limit_price ord = Some l \<and> money l \<and> 0 < l)"
  shows "(ord_type ord = Limit \<and> ord_side ord = Buy \<longrightarrow>
       calculate_fill_price cfg ord v \<le> the (ord_limit_price ord))
    \<and> (ord_type ord = Limit \<and> ord_side ord = Sell \<longrightarrow>
       the (ord_limit_price ord) \<le> calculate_fill_price cfg ord v)
    \<and> (ord_type ord = Market \<and> ord_side ord = Buy \<longrightarrow> default_price cfg \<le> calculate_fill_price cfg ord w)
    \<and> (ord_type ord = Market \<and> ord_side ord = Sell \<longrightarrow> calculate_fill_price cfg ord w \<le> default_price cfg)"
  using assms dec_scale_up dec_scale_down dec_nonneg [of "\<bar>dec (w / 10000)\<bar>"]
  by (auto simp: calculate_fill_price_def dec_abs_def Let_def)

section \<open>Concrete runs\<close>

definition demo_paper_order :: order where
  "demo_paper_order = \<lparr>order_id = ''o1'', broker_order_id = None, ord_strategy_id = ''s1'', ord_symbol = ''SPY'',
     ord_side = Buy, ord_quantity = 3, ord_type = Limit, ord_limit_price = Some 50, ord_status = PENDING,
     filled_qty = 0, avg_fill_price = None, created_at = 0, updated_at = 0, error_message = None\<rparr>"

definition demo_draws :: draws where
  "demo_draws = \<lparr>roll = 0, randint = (\<lambda>lo hi. lo), variation = 0\<rparr>"

definition demo_paper_config :: paper_config where
  "demo_paper_config = \<lparr>default_price = 100, partial_fill_probability = 1\<rparr>"

definition demo_submitted :: paper_broker where
  "demo_submitted = fst (paper_submit_order demo_paper_order (paper_subscribe_fills paper_init))"

lemma demo_draws_ok: "draws_ok demo_draws"
  by (simp add: draws_ok_def demo_draws_def)

lemma demo_submit:
  "paper_submit_order demo_paper_order (paper_subscribe_fills paper_init) = (demo_submitted, Inr (paper_id 1))"
  by (simp add: demo_submitted_def paper_submit_order_def Let_def paper_subscribe_fills_def paper_init_def)

lemma demo_submitted_reachable: "(paper_step cfg)\<^sup>*\<^sup>* (paper_subscribe_fills paper_init) demo_submitted"
  unfolding demo_submitted_def by (rule r_into_rtranclp) (rule Submit)

lemma demo_submitted_fields [simp]:
  "pb_orders demo_submitted = [paper_id 1 \<mapsto> demo_paper_order]" "pb_cancelled demo_submitted = {}"
  "order_statuses demo_submitted = [paper_id 1 \<mapsto> SUBMITTED]"
  by (simp_all add: demo_submitted_def paper_submit_order_def Let_def paper_subscribe_fills_def paper_init_def)

theorem paper_fills_conserve_witness:
  "notified_qty (paper_id 1) (simulate_fill demo_paper_config 0 demo_draws (paper_id 1) demo_submitted)
     = filled_of (paper_id 1) (simulate_fill demo_paper_config 0 demo_draws (paper_id 1) demo_submitted)"
proof -
  let ?s = "simulate_fill demo_paper_config 0 demo_draws (paper_id 1) demo_submitted"
  have "(paper_step demo_paper_config)\<^sup>*\<^sup>* (paper_subscribe_fills paper_init) ?s"
    using demo_submitted_reachable Slice [OF demo_draws_ok] by (rule rtranclp.rtrancl_into_rtrancl)
  moreover have "pb_orders ?s (paper_id 1) = Some demo_paper_order"
    by (auto simp: simulate_fill_def fill_iteration_def Let_def split: option.split fill_task.split)
  ultimately show ?thesis using paper_fills_conserve by blast
qed

theorem paper_cancel_final_witness:
  "\<exists>t. paper_cancel_order (paper_id 1) demo_submitted = (t, Inr True)
     \<and> fills_for (paper_id 1) (simulate_fill demo_paper_config 0 demo_draws (paper_id 1) t)
       = fills_for (paper_id 1) demo_submitted"
proof -
  obtain t where t: "paper_cancel_order (paper_id 1) demo_submitted = (t, Inr True)"
    by (simp add: paper_cancel_order_def)
  have "(paper_step demo_paper_config)\<^sup>*\<^sup>* t (simulate_fill demo_paper_config 0 demo_draws (paper_id 1) t)"
    by (rule r_into_rtranclp) (rule Slice [OF demo_draws_ok])
  with paper_cancel_final [OF demo_submitted_reachable t] t show ?thesis by blast
qed

theorem paper_fill_terminates_witness:
  "paper_order_status (paper_id 1)
     (run_slices demo_paper_config 0 [demo_draws, demo_draws, demo_draws] (paper_id 1) demo_submitted) = FILLED"
  using paper_fill_terminates [OF demo_submit, of "[demo_draws, demo_draws, demo_draws]" demo_paper_config 0]
  by (simp add: demo_draws_ok demo_paper_order_def)

theorem paper_price_bounds_witness:
  "calculate_fill_price demo_paper_config demo_paper_order (1 / 1024) \<le> 50"
  using paper_price_bounds [of demo_paper_config "1 / 1024" demo_paper_order]
  by (simp add: demo_paper_config_def demo_paper_order_def on_grid_def)

end
