(* ===== verification/Live_Broker.thy ===== *)
theory Live_Broker
  imports Paper_Broker
begin

text \<open>
  The live broker of broker/live_broker.py: a decorator that checks an order against limits
  before it hands it to an inner broker. The inner broker's operations are arguments; what
  is proved from the broker contract is instantiated with the simulated broker.
\<close>

section \<open>State\<close>

record risk_limits =
  max_position_size :: int
  max_order_value :: decimal
  max_daily_loss :: decimal
  max_open_orders :: int

definition default_limits :: risk_limits where
  "default_limits = \<lparr>max_position_size = 1000, max_order_value = 50000, max_daily_loss = 5000,
     max_open_orders = 10\<rparr>"

record 's live_broker =
  inner :: 's
  lb_account_id :: "string option"
  lb_limits :: risk_limits
  require_confirmation :: bool
  connected :: bool
  connection_verified :: bool
  open_order_count :: int
  lb_daily_pnl :: decimal
  confirmed :: bool

definition live_init :: "'s \<Rightarrow> string option \<Rightarrow> risk_limits option \<Rightarrow> bool \<Rightarrow> 's live_broker" where
  "live_init inn acct limits req =
     \<lparr>inner = inn, lb_account_id = acct,
      lb_limits = (case limits of None \<Rightarrow> default_limits | Some l \<Rightarrow> l), require_confirmation = req,
      connected = False, connection_verified = False, open_order_count = 0, lb_daily_pnl = 0,
      confirmed = False\<rparr>"

datatype live_error =
    Not_Connected
  | Not_Confirmed
  | Limit_Exceeded string
  | Submission_Failed
  | Inner_Error py_error

section \<open>Connection and confirmation\<close>

text \<open>The inner broker's own \<open>connect\<close>, when it has one, may raise.\<close>

definition live_connect :: "('s \<Rightarrow> 's \<times> unit result) \<Rightarrow> 's live_broker \<Rightarrow> 's live_broker \<times> unit result" where
  "live_connect conn s =
     (case conn (inner s) of
        (i, Inl e) \<Rightarrow> (s\<lparr>inner := i\<rparr>, Inl e)
      | (i, Inr _) \<Rightarrow> (s\<lparr>inner := i, connected := True, connection_verified := True\<rparr>, Inr ()))"

definition live_disconnect :: "('s \<Rightarrow> 's) \<Rightarrow> 's live_broker \<Rightarrow> 's live_broker" where
  "live_disconnect disc s = s\<lparr>inner := disc (inner s), connected := False, connection_verified := False\<rparr>"

definition verify_connection :: "'s live_broker \<Rightarrow> 's live_broker \<times> bool" where
  "verify_connection s =
     (let passed = (connected s \<and> lb_account_id s \<noteq> None)
      in (s\<lparr>connection_verified := passed\<rparr>, passed))"

definition confirm_live_trading :: "'s live_broker \<Rightarrow> 's live_broker \<times> live_error option" where
  "confirm_live_trading s =
     (if \<not> connected s then (s, Some Not_Connected) else (s\<lparr>confirmed := True\<rparr>, None))"

definition revoke_confirmation :: "'s live_broker \<Rightarrow> 's live_broker" where
  "revoke_confirmation s = s\<lparr>confirmed := False\<rparr>"

section \<open>Validation and submission\<close>

definition validate_order :: "order \<Rightarrow> decimal option \<Rightarrow> 's live_broker \<Rightarrow> (string \<times> bool) list" where
  "validate_order ord price s =
     [(''broker_connected'', connected s),
      (''live_confirmed'', if require_confirmation s then confirmed s else True),
      (''position_size_ok'', ord_quantity ord \<le> max_position_size (lb_limits s)),
      (''order_value_ok'', case price of
         Some p \<Rightarrow> dec_mul p (of_int (ord_quantity ord)) \<le> max_order_value (lb_limits s) | None \<Rightarrow> True),
      (''open_orders_ok'', open_order_count s < max_open_orders (lb_limits s)),
      (''daily_loss_ok'', dec_abs (lb_daily_pnl s) < max_daily_loss (lb_limits s))]"

definition validation_error :: "(string \<times> bool) list \<Rightarrow> live_error" where
  "validation_error checks =
     (let failed = (\<lambda>c. map_of checks c \<noteq> Some True)
      in if failed ''broker_connected'' then Not_Connected
         else if failed ''live_confirmed'' then Not_Confirmed
         else if failed ''position_size_ok'' then Limit_Exceeded ''max_position_size''
         else if failed ''order_value_ok'' then Limit_Exceeded ''max_order_value''
         else if failed ''open_orders_ok'' then Limit_Exceeded ''max_open_orders''
         else if failed ''daily_loss_ok'' then Limit_Exceeded ''max_daily_loss''
         else Submission_Failed)"

definition live_submit_order ::
  "(order \<Rightarrow> 's \<Rightarrow> 's \<times> string result) \<Rightarrow> order \<Rightarrow> 's live_broker \<Rightarrow> 's live_broker \<times> (live_error + string)" where
  "live_submit_order submit ord s =
     (let checks = validate_order ord None s
      in if \<not> list_all snd checks then (s, Inl (validation_error checks))
         else case submit ord (inner s) of
                (i, Inl e) \<Rightarrow> (s\<lparr>inner := i\<rparr>, Inl (Inner_Error e))
              | (i, Inr bid) \<Rightarrow>
                  (s\<lparr>inner := i, open_order_count := open_order_count s + 1\<rparr>, Inr bid))"

definition live_cancel_order ::
  "(string \<Rightarrow> 's \<Rightarrow> 's \<times> bool result) \<Rightarrow> string \<Rightarrow> 's live_broker \<Rightarrow> 's live_broker \<times> bool result" where
  "live_cancel_order cancel bid s =
     (case cancel bid (inner s) of
        (i, Inl e) \<Rightarrow> (s\<lparr>inner := i\<rparr>, Inl e)
      | (i, Inr b) \<Rightarrow> (s\<lparr>inner := i, open_order_count := max 0 (open_order_count s - 1)\<rparr>, Inr b))"

definition live_order_status :: "(string \<Rightarrow> 's \<Rightarrow> order_status) \<Rightarrow> string \<Rightarrow> 's live_broker \<Rightarrow> order_status" where
  "live_order_status status bid s = status bid (inner s)"

text \<open>The wrapper around the fill callback, called for every fill the inner broker reports.\<close>

definition wrapped_callback :: "order_fill \<Rightarrow> 's live_broker \<Rightarrow> 's live_broker" where
  "wrapped_callback fill s = s\<lparr>open_order_count := max 0 (open_order_count s - 1)\<rparr>"

definition live_update_daily_pnl :: "decimal \<Rightarrow> 's live_broker \<Rightarrow> 's live_broker" where
  "live_update_daily_pnl pnl s = s\<lparr>lb_daily_pnl := pnl\<rparr>"

definition reset_daily_limits :: "'s live_broker \<Rightarrow> 's live_broker" where
  "reset_daily_limits s = s\<lparr>lb_daily_pnl := 0\<rparr>"

section \<open>What a client of the contract gets\<close>

context order_broker begin

lemma live_submit_fresh:
  assumes "ok (inner s)" and "live_submit_order submit ord s = (t, Inr bid)"
  shows "bid \<notin> known (inner s) \<and> known (inner t) = insert bid (known (inner s)) \<and> ok (inner t)
    \<and> open_order_count t = open_order_count s + 1"
proof (cases "submit ord (inner s)")
  case (Pair i r)
  show ?thesis
  proof (cases r)
    case (Inr b)
    with Pair assms(2) have t: "t = s\<lparr>inner := i, open_order_count := open_order_count s + 1\<rparr>" and b: "bid = b"
      by (simp_all add: live_submit_order_def Let_def split: if_split_asm)
    from Pair Inr have "submit ord (inner s) = (i, Inr b)" by simp
    note fresh = submit_fresh [OF assms(1) this]
    from fresh show ?thesis unfolding t b by simp
  qed (use assms(2) Pair in \<open>simp add: live_submit_order_def Let_def split: if_splits\<close>)
qed

lemma live_submit_refused:
  assumes "live_submit_order submit ord s = (t, Inl e)"
  shows "inner t = inner s \<and> open_order_count t = open_order_count s"
proof (cases "submit ord (inner s)")
  case (Pair i r)
  have same: "i = inner s" if "r = Inl err" for err
    by (rule submit_error [of ord "inner s" i err]) (simp add: Pair that)
  from assms Pair same show ?thesis
    by (cases r) (simp_all add: live_submit_order_def Let_def split: if_splits)
qed

end

section \<open>Properties\<close>


text \<open>Two limits are not what their names say. The order value limit never decides a
  submission: it can be changed to any value without changing what happens. And the daily
  loss limit also stops a day of profit: with a profit of at least the limit, every
  otherwise acceptable order is refused with the loss limit as its reason.\<close>

theorem live_limits_as_coded:
  assumes "connected s" and "require_confirmation s \<longrightarrow> confirmed s"
    and "ord_quantity ord \<le> max_position_size (lb_limits s)"
    and "open_order_count s < max_open_orders (lb_limits s)"
    and "money (lb_daily_pnl s)" and "0 \<le> max_daily_loss (lb_limits s)"
  shows "snd (live_submit_order submit ord (s\<lparr>lb_limits := (lb_limits s)\<lparr>max_order_value := v\<rparr>\<rparr>))
      = snd (live_submit_order submit ord s)
    \<and> (max_daily_loss (lb_limits s) \<le> lb_daily_pnl s \<longrightarrow>
         live_submit_order submit ord s = (s, Inl (Limit_Exceeded ''max_daily_loss'')))"
proof (intro conjI impI)
  show "snd (live_submit_order submit ord (s\<lparr>lb_limits := (lb_limits s)\<lparr>max_order_value := v\<rparr>\<rparr>))
      = snd (live_submit_order submit ord s)"
    by (auto simp: live_submit_order_def validate_order_def Let_def split: prod.split sum.split)
next
  assume "max_daily_loss (lb_limits s) \<le> lb_daily_pnl s"
  moreover from this assms(6) have "0 \<le> lb_daily_pnl s" by simp
  then have "dec_abs (lb_daily_pnl s) = lb_daily_pnl s" using dec_grid [OF assms(5)] by (simp add: dec_abs_def)
  ultimately show "live_submit_order submit ord s = (s, Inl (Limit_Exceeded ''max_daily_loss''))"
    using assms(1-4) by (auto simp: live_submit_order_def validate_order_def validation_error_def Let_def)
qed

lemma wrapped_callbacks:
  "0 \<le> open_order_count s \<Longrightarrow>
   fold wrapped_callback fills s = s\<lparr>open_order_count := max 0 (open_order_count s - int (length fills))\<rparr>"
  by (induction fills arbitrary: s) (auto simp: wrapped_callback_def)

text \<open>The open order count is not the number of open orders: every fill, partial ones too,
  releases a slot. As many fills of a single order as there are open orders bring the count
  to zero while the inner broker's orders are untouched, so the limit on open orders admits
  new ones.\<close>

theorem partial_fills_release_slots:
  assumes "0 \<le> open_order_count s" and "open_order_count s \<le> int (length fills)"
    and "\<forall>f \<in> set fills. fill_order_id f = bid" and "0 < max_open_orders (lb_limits s)"
  shows "\<exists>t. t = fold wrapped_callback fills s \<and> inner t = inner s \<and> open_order_count t = 0
    \<and> map_of (validate_order ord price t) ''open_orders_ok'' = Some True"
  using wrapped_callbacks [OF assms(1), of fills] assms(2,4) by (simp add: validate_order_def)

section \<open>Concrete runs\<close>

definition demo_live :: "paper_broker live_broker" where
  "demo_live = (live_init (paper_subscribe_fills paper_init) (Some ''A'') None True)
     \<lparr>connected := True, confirmed := True\<rparr>"


theorem live_limits_as_coded_witness:
  "snd (live_submit_order paper_submit_order demo_paper_order (demo_live\<lparr>lb_daily_pnl := 6000\<rparr>))
     = Inl (Limit_Exceeded ''max_daily_loss'')"
  using live_limits_as_coded [of "demo_live\<lparr>lb_daily_pnl := 6000\<rparr>" demo_paper_order paper_submit_order 0]
  by (simp add: demo_live_def live_init_def default_limits_def demo_paper_order_def on_grid_def)

definition demo_partial :: "nat \<Rightarrow> order_fill" where
  "demo_partial n = \<lparr>fill_id = paper_fill_id n, fill_order_id = ''b1'', fill_symbol = ''SPY'', fill_side = Buy,
     fill_quantity = 1, fill_price = 50, fill_timestamp = 0\<rparr>"

theorem partial_fills_release_slots_witness:
  "open_order_count (fold wrapped_callback [demo_partial 1, demo_partial 2] (demo_live\<lparr>open_order_count := 2\<rparr>)) = 0"
  using partial_fills_release_slots [of "demo_live\<lparr>open_order_count := 2\<rparr>" "[demo_partial 1, demo_partial 2]" "''b1''"]
  by (simp add: demo_partial_def demo_live_def live_init_def default_limits_def)

end
