(* ===== verification/Json.thy ===== *)
theory Json
  imports Prelude "HOL-Library.List_Lexorder" "HOL-Library.Char_ord"
begin

text \<open>
  The part of Python's \<open>json\<close> module that the code relies on: \<open>json.dumps\<close> with its defaults
  (ASCII output, \<open>", "\<close> and \<open>": "\<close> as separators) and \<open>json.loads\<close>, on values without
  floats and on characters below 256. The parser skips white space where Python does, keeps
  the last value of a repeated key and returns None where Python raises JSONDecodeError.
  Its fuel is the length of the text: every nested call starts after at least one character.
  The main fact is \<open>loads_dumps\<close>: what is written is what is read.
\<close>

section \<open>Values and their text\<close>

datatype json =
    JNull
  | JBool bool
  | JInt int
  | JStr string
  | JList "json list"
  | JObj "(string \<times> json) list"

definition hex_digit :: "nat \<Rightarrow> char" where
  "hex_digit n = (if n < 10 then char_of (48 + n) else char_of (87 + n))"

definition escape_char :: "char \<Rightarrow> string" where
  "escape_char c =
     (if c = CHR 0x22 then [CHR 0x5C, CHR 0x22]
      else if c = CHR 0x5C then [CHR 0x5C, CHR 0x5C]
      else if c = CHR 0x0A then [CHR 0x5C, CHR ''n'']
      else if c = CHR 0x0D then [CHR 0x5C, CHR ''r'']
      else if c = CHR 0x09 then [CHR 0x5C, CHR ''t'']
      else if c = CHR 0x0C then [CHR 0x5C, CHR ''f'']
      else if c = CHR 0x08 then [CHR 0x5C, CHR ''b'']
      else if 32 \<le> (of_char c :: nat) \<and> (of_char c :: nat) \<le> 126 then [c]
      else [CHR 0x5C, CHR ''u'', CHR ''0'', CHR ''0'',
            hex_digit (of_char c div 16), hex_digit (of_char c mod 16)])"

definition dump_str :: "string \<Rightarrow> string" where
  "dump_str s = CHR 0x22 # concat (map escape_char s) @ [CHR 0x22]"

definition show_int :: "int \<Rightarrow> string" where
  "show_int n = (if n < 0 then CHR ''-'' # show_nat (nat (- n)) else show_nat (nat n))"

fun join :: "string \<Rightarrow> string list \<Rightarrow> string" where
  "join sep [] = []"
| "join sep [x] = x"
| "join sep (x # y # xs) = x @ sep @ join sep (y # xs)"

primrec dumps :: "json \<Rightarrow> string" where
  "dumps JNull = ''null''"
| "dumps (JBool b) = (if b then ''true'' else ''false'')"
| "dumps (JInt n) = show_int n"
| "dumps (JStr s) = dump_str s"
| "dumps (JList xs) = ''['' @ join '', '' (map dumps xs) @ '']''"
| "dumps (JObj kvs) =
     ''{'' @ join '', '' (map (\<lambda>(k, t). dump_str k @ '': '' @ t) (map (map_prod id dumps) kvs)) @ ''}''"

section \<open>Reading\<close>

definition is_space :: "char \<Rightarrow> bool" where
  "is_space c \<longleftrightarrow> c = CHR '' '' \<or> c = CHR 0x09 \<or> c = CHR 0x0A \<or> c = CHR 0x0D"

definition skip :: "string \<Rightarrow> string" where
  "skip s = dropWhile is_space s"

definition is_digit :: "char \<Rightarrow> bool" where
  "is_digit c \<longleftrightarrow> 48 \<le> (of_char c :: nat) \<and> (of_char c :: nat) \<le> 57"

definition hex_value :: "char \<Rightarrow> nat option" where
  "hex_value c =
     (let n = of_char c
      in if 48 \<le> n \<and> n \<le> 57 then Some (n - 48)
         else if 97 \<le> n \<and> n \<le> 102 then Some (n - 87)
         else if 65 \<le> n \<and> n \<le> 70 then Some (n - 55) else None)"

text \<open>What follows a backslash; code points above 255 are outside the model.\<close>

fun unescape :: "string \<Rightarrow> (char \<times> string) option" where
  "unescape [] = None"
| "unescape (e # cs) =
     (if e = CHR ''u'' then
        (case cs of
           a # b # c # d # rest \<Rightarrow>
             (case (hex_value a, hex_value b, hex_value c, hex_value d) of
                (Some 0, Some 0, Some x, Some y) \<Rightarrow> Some (char_of (16 * x + y), rest)
              | _ \<Rightarrow> None)
         | _ \<Rightarrow> None)
      else if e = CHR ''n'' then Some (CHR 0x0A, cs)
      else if e = CHR ''r'' then Some (CHR 0x0D, cs)
      else if e = CHR ''t'' then Some (CHR 0x09, cs)
      else if e = CHR ''f'' then Some (CHR 0x0C, cs)
      else if e = CHR ''b'' then Some (CHR 0x08, cs)
      else if e = CHR 0x22 \<or> e = CHR 0x5C \<or> e = CHR ''/'' then Some (e, cs)
      else None)"

lemma unescape_shorter: "unescape s = Some (c, rest) \<Longrightarrow> length rest < length s"
  by (cases s) (auto split: if_splits list.splits option.splits nat.splits)

function parse_chars :: "string \<Rightarrow> (string \<times> string) option" where
  "parse_chars [] = None"
| "parse_chars (c # cs) =
     (if c = CHR 0x22 then Some ([], cs)
      else if c = CHR 0x5C then
        (case unescape cs of
           None \<Rightarrow> None
         | Some (d, rest) \<Rightarrow> map_option (apfst (Cons d)) (parse_chars rest))
      else if (of_char c :: nat) < 32 then None
      else map_option (apfst (Cons c)) (parse_chars cs))"
  by pat_completeness auto
termination by (relation "measure length") (auto dest: unescape_shorter)

definition parse_digits :: "string \<Rightarrow> (nat \<times> string) option" where
  "parse_digits s =
     (case s of
        [] \<Rightarrow> None
      | c # cs \<Rightarrow>
          if \<not> is_digit c then None
          else let ds = (if c = CHR ''0'' then [c] else takeWhile is_digit s);
                   rest = drop (length ds) s
               in if rest \<noteq> [] \<and> hd rest \<in> {CHR ''.'', CHR ''e'', CHR ''E''} then None
                  else Some (read_nat ds, rest))"

definition parse_number :: "string \<Rightarrow> (json \<times> string) option" where
  "parse_number s =
     (if s \<noteq> [] \<and> hd s = CHR ''-''
      then map_option (apfst (\<lambda>n. JInt (- int n))) (parse_digits (tl s))
      else map_option (apfst (\<lambda>n. JInt (int n))) (parse_digits s))"

definition after :: "string \<Rightarrow> string \<Rightarrow> string option" where
  "after p s = (if take (length p) s = p then Some (drop (length p) s) else None)"

definition dict_of :: "(string \<times> json) list \<Rightarrow> (string \<times> json) list" where
  "dict_of kvs = foldl (\<lambda>d (k, v). AList.update k v d) [] kvs"

fun parse_value :: "nat \<Rightarrow> string \<Rightarrow> (json \<times> string) option"
  and parse_items :: "nat \<Rightarrow> string \<Rightarrow> (json list \<times> string) option"
  and parse_members :: "nat \<Rightarrow> string \<Rightarrow> ((string \<times> json) list \<times> string) option" where
  "parse_value 0 s = None"
| "parse_value (Suc f) s =
     (case skip s of
        [] \<Rightarrow> None
      | c # cs \<Rightarrow>
          if c = CHR 0x22 then map_option (apfst JStr) (parse_chars cs)
          else if c = CHR ''['' then
            (if skip cs \<noteq> [] \<and> hd (skip cs) = CHR '']'' then Some (JList [], tl (skip cs))
             else map_option (apfst JList) (parse_items f cs))
          else if c = CHR ''{'' then
            (if skip cs \<noteq> [] \<and> hd (skip cs) = CHR ''}'' then Some (JObj [], tl (skip cs))
             else map_option (apfst (\<lambda>kvs. JObj (dict_of kvs))) (parse_members f cs))
          else if c = CHR ''n'' then map_option (\<lambda>r. (JNull, r)) (after ''ull'' cs)
          else if c = CHR ''t'' then map_option (\<lambda>r. (JBool True, r)) (after ''rue'' cs)
          else if c = CHR ''f'' then map_option (\<lambda>r. (JBool False, r)) (after ''alse'' cs)
          else parse_number (c # cs))"
| "parse_items 0 s = None"
| "parse_items (Suc f) s =
     (case parse_value f s of
        None \<Rightarrow> None
      | Some (v, r) \<Rightarrow>
          (case skip r of
             [] \<Rightarrow> None
           | c # q \<Rightarrow>
               if c = CHR '','' then map_option (apfst (Cons v)) (parse_items f q)
               else if c = CHR '']'' then Some ([v], q) else None))"
| "parse_members 0 s = None"
| "parse_members (Suc f) s =
     (case skip s of
        [] \<Rightarrow> None
      | c # cs \<Rightarrow>
          if c \<noteq> CHR 0x22 then None
          else (case parse_chars cs of
             None \<Rightarrow> None
           | Some (k, r) \<Rightarrow>
               if skip r = [] \<or> hd (skip r) \<noteq> CHR '':'' then None
               else (case parse_value f (tl (skip r)) of
                  None \<Rightarrow> None
                | Some (v, r') \<Rightarrow>
                    (case skip r' of
                       [] \<Rightarrow> None
                     | d # q \<Rightarrow>
                         if d = CHR '','' then map_option (apfst (Cons (k, v))) (parse_members f q)
                         else if d = CHR ''}'' then Some ([(k, v)], q) else None))))"

definition loads :: "string \<Rightarrow> json option" where
  "loads s =
     (case parse_value (Suc (length s)) s of
        None \<Rightarrow> None
      | Some (v, rest) \<Rightarrow> if skip rest = [] then Some v else None)"

section \<open>Strings and numbers read back\<close>

lemma of_char_less [simp]: "(of_char c :: nat) < 256"
  by (cases c) (simp add: of_char_def horner_sum_simps of_bool_def)

lemma of_char_div_less: "(of_char c :: nat) div 16 < 16"
  by (rule less_mult_imp_div_less) simp

lemma hex_value_digit [simp]: "n < 16 \<Longrightarrow> hex_value (hex_digit n) = Some n"
  by (auto simp: hex_value_def hex_digit_def Let_def)

lemma hex_value_zero [simp]: "hex_value (CHR ''0'') = Some 0"
  by (simp add: hex_value_def)

lemma parse_chars_escape: "parse_chars (escape_char c @ s) = map_option (apfst (Cons c)) (parse_chars s)"
proof -
  have again: "char_of (16 * (of_char c div 16) + of_char c mod 16 :: nat) = c"
    by (simp only: mult_div_mod_eq char_of_char)
  show ?thesis by (simp add: escape_char_def again of_char_div_less)
qed

lemma parse_chars_dump: "parse_chars (concat (map escape_char s) @ CHR 0x22 # rest) = Some (s, rest)"
  by (induction s) (simp_all add: parse_chars_escape)

lemma is_digit_digit_char: "n < 10 \<Longrightarrow> is_digit (digit_char n)"
  by (simp add: is_digit_def of_digit_char)

lemma show_nat_digits: "list_all is_digit (show_nat n)"
proof (induction n rule: show_nat.induct)
  case (1 n)
  then show ?case by (subst show_nat.simps) (simp add: is_digit_digit_char)
qed

lemma show_nat_nonempty [simp]: "show_nat n \<noteq> []"
  by (subst show_nat.simps) simp

lemma digit_char_zero: "n < 10 \<Longrightarrow> digit_char n = CHR ''0'' \<longleftrightarrow> n = 0"
proof -
  assume n: "n < 10"
  have "digit_char n = CHR ''0'' \<longleftrightarrow> (of_char (digit_char n) :: nat) = of_char (CHR ''0'')"
    by (simp only: of_char_eq_iff)
  then show ?thesis by (simp add: of_digit_char [OF n])
qed

lemma show_nat_hd: "hd (show_nat n) = CHR ''0'' \<longleftrightarrow> n = 0"
proof (induction n rule: show_nat.induct)
  case (1 n)
  then show ?case by (subst show_nat.simps) (auto simp: digit_char_zero hd_append)
qed

lemma show_nat_zero: "show_nat 0 = ''0''"
  by code_simp

text \<open>A number may be followed by anything that cannot continue it.\<close>

definition number_end :: "string \<Rightarrow> bool" where
  "number_end s \<longleftrightarrow> s = [] \<or> (\<not> is_digit (hd s) \<and> hd s \<notin> {CHR ''.'', CHR ''e'', CHR ''E''})"

lemma number_end_simps [simp]:
  "number_end []" "number_end (CHR '','' # s)" "number_end (CHR '']'' # s)" "number_end (CHR ''}'' # s)"
  by (simp_all add: number_end_def is_digit_def)

lemma takeWhile_digits: "list_all is_digit s \<Longrightarrow> number_end rest \<Longrightarrow> takeWhile is_digit (s @ rest) = s"
  by (induction s) (auto simp: number_end_def takeWhile_eq_Nil_iff)

lemma parse_digits_show: "number_end rest \<Longrightarrow> parse_digits (show_nat n @ rest) = Some (n, rest)"
proof -
  assume rest: "number_end rest"
  obtain c cs where s: "show_nat n = c # cs" by (cases "show_nat n") auto
  have digits: "is_digit c" "list_all is_digit cs" using show_nat_digits [of n] by (simp_all add: s)
  have zero: "c = CHR ''0'' \<longleftrightarrow> n = 0" using show_nat_hd [of n] by (simp add: s)
  have one: "cs = []" if "n = 0" using show_nat_zero s that by simp
  have read: "read_nat (c # cs) = n" using read_show_nat [of n] by (simp add: s)
  show ?thesis
    using digits zero one read takeWhile_digits [OF digits(2) rest] rest
    by (auto simp: parse_digits_def s number_end_def)
qed

lemma parse_number_show: "number_end rest \<Longrightarrow> parse_number (show_int n @ rest) = Some (JInt n, rest)"
proof -
  assume rest: "number_end rest"
  obtain c cs where s: "show_nat (nat n) = c # cs" by (cases "show_nat (nat n)") auto
  have "is_digit c" using show_nat_digits [of "nat n"] by (simp add: s)
  then have "c \<noteq> CHR ''-''" by (auto simp: is_digit_def)
  then show ?thesis
    using parse_digits_show [OF rest, of "nat n"] parse_digits_show [OF rest, of "nat (- n)"] s
    by (auto simp: parse_number_def show_int_def)
qed

section \<open>What is written is what is read\<close>

text \<open>A value as Python holds it: the keys of a dictionary are distinct.\<close>

primrec json_ok :: "json \<Rightarrow> bool" where
  "json_ok JNull = True"
| "json_ok (JBool b) = True"
| "json_ok (JInt n) = True"
| "json_ok (JStr s) = True"
| "json_ok (JList xs) = list_all id (map json_ok xs)"
| "json_ok (JObj kvs) = (distinct (map fst kvs) \<and> list_all snd (map (map_prod id json_ok) kvs))"

lemma update_new: "k \<notin> fst ` set al \<Longrightarrow> AList.update k v al = al @ [(k, v)]"
  by (induction al) auto

lemma dict_of_distinct: "distinct (map fst kvs) \<Longrightarrow> dict_of kvs = kvs"
proof (induction kvs rule: rev_induct)
  case (snoc kv kvs)
  obtain k v where "kv = (k, v)" by (cases kv)
  with snoc show ?case by (simp add: dict_of_def update_new)
qed (simp add: dict_of_def)

definition dump_member :: "string \<times> json \<Rightarrow> string" where
  "dump_member kv = dump_str (fst kv) @ '': '' @ dumps (snd kv)"

lemma dumps_obj: "dumps (JObj kvs) = ''{'' @ join '', '' (map dump_member kvs) @ ''}''"
  by (simp add: dump_member_def [abs_def] comp_def case_prod_unfold)

text \<open>The first character of a value selects the branch of the parser.\<close>

definition value_start :: "char \<Rightarrow> bool" where
  "value_start c \<longleftrightarrow> \<not> is_space c \<and> c \<noteq> CHR '']'' \<and> c \<noteq> CHR ''}''"

lemma value_start_simps [simp]:
  "value_start CHR 0x22" "value_start (CHR ''['')" "value_start (CHR ''{'')" "value_start (CHR ''n'')"
  "value_start (CHR ''t'')" "value_start (CHR ''f'')" "value_start (CHR ''-'')"
  by (simp_all add: value_start_def is_space_def)

lemma digit_start: "is_digit c \<Longrightarrow> value_start c \<and> c \<notin> {CHR 0x22, CHR ''['', CHR ''{'', CHR ''n'', CHR ''t'', CHR ''f''}"
  by (auto simp: value_start_def is_digit_def is_space_def)

lemma show_nat_start: "\<exists>c cs. show_nat n = c # cs \<and> is_digit c"
  using show_nat_digits [of n] by (cases "show_nat n") auto

lemma dumps_start: "\<exists>c cs. dumps v = c # cs \<and> value_start c"
proof (cases v)
  case (JInt n)
  then show ?thesis using show_nat_start [of "nat n"] digit_start by (fastforce simp: show_int_def)
qed (auto simp: dump_str_def)

lemma skip_start: "value_start c \<Longrightarrow> skip (c # cs) = c # cs"
  by (simp add: skip_def value_start_def)

lemma skip_dumps: "skip (dumps v @ rest) = dumps v @ rest"
proof -
  obtain c cs where "dumps v = c # cs" "value_start c" using dumps_start [of v] by blast
  then show ?thesis using skip_start [of c "cs @ rest"] by simp
qed

lemma skip_space [simp]: "skip (CHR '' '' # s) = skip s"
  by (simp add: skip_def is_space_def)

lemma skip_marks [simp]:
  "skip (CHR '','' # s) = CHR '','' # s" "skip (CHR '']'' # s) = CHR '']'' # s"
  "skip (CHR ''}'' # s) = CHR ''}'' # s" "skip (CHR '':'' # s) = CHR '':'' # s"
  "skip (CHR 0x22 # s) = CHR 0x22 # s" "skip (CHR ''['' # s) = CHR ''['' # s"
  "skip (CHR ''{'' # s) = CHR ''{'' # s" "skip [] = []"
  by (simp_all add: skip_def is_space_def)

text \<open>A value may be preceded by white space.\<close>

lemma parse_value_skip: "parse_value f (CHR '' '' # s) = parse_value f s"
  by (cases f) simp_all

lemma parse_items_skip: "parse_items f (CHR '' '' # s) = parse_items f s"
  by (cases f) (simp_all add: parse_value_skip)

lemma parse_members_skip: "parse_members f (CHR '' '' # s) = parse_members f s"
  by (cases f) simp_all

definition reads :: "json \<Rightarrow> bool" where
  "reads v \<longleftrightarrow> (\<forall>f rest. length (dumps v) \<le> f \<longrightarrow> number_end rest \<longrightarrow> parse_value f (dumps v @ rest) = Some (v, rest))"

lemma readsD:
  "reads v \<Longrightarrow> length (dumps v) \<le> f \<Longrightarrow> number_end rest \<Longrightarrow> parse_value f (dumps v @ rest) = Some (v, rest)"
  by (simp add: reads_def)

lemma parse_items_join:
  assumes "xs \<noteq> []" and "\<And>x. x \<in> set xs \<Longrightarrow> reads x" and "length (join '', '' (map dumps xs)) < f"
  shows "parse_items f (join '', '' (map dumps xs) @ CHR '']'' # rest) = Some (xs, rest)"
  using assms
proof (induction "'', ''" "map dumps xs" arbitrary: xs f rule: join.induct)
  case (2 t)
  then obtain x where xs: "xs = [x]" by (cases xs) auto
  obtain g where f: "f = Suc g" using 2(4) by (cases f) auto
  have "parse_value g (dumps x @ CHR '']'' # rest) = Some (x, CHR '']'' # rest)"
    using 2(3,4) by (intro readsD) (simp_all add: xs f)
  then show ?case by (simp add: xs f)
next
  case (3 t u ts)
  then obtain x y ys where xs: "xs = x # y # ys" by (metis map_eq_Cons_conv)
  let ?r = "join '', '' (map dumps (y # ys)) @ CHR '']'' # rest"
  obtain g where f: "f = Suc g" using 3(5) by (cases f) auto
  have "parse_value g (dumps x @ CHR '','' # CHR '' '' # ?r) = Some (x, CHR '','' # CHR '' '' # ?r)"
    using 3(4,5) by (intro readsD) (simp_all add: xs f)
  moreover have "parse_items g ?r = Some (y # ys, rest)"
    using 3(2-5) by (intro 3(1)) (auto simp: xs f)
  ultimately show ?case by (simp add: xs f parse_items_skip)
qed simp

lemma parse_members_join:
  assumes "kvs \<noteq> []" and "\<And>kv. kv \<in> set kvs \<Longrightarrow> reads (snd kv)" and "length (join '', '' (map dump_member kvs)) < f"
  shows "parse_members f (join '', '' (map dump_member kvs) @ CHR ''}'' # rest) = Some (kvs, rest)"
  using assms
proof (induction "'', ''" "map dump_member kvs" arbitrary: kvs f rule: join.induct)
  case (2 t)
  then obtain k v where kvs: "kvs = [(k, v)]" by (cases kvs) auto
  obtain g where f: "f = Suc g" using 2(4) by (cases f) auto
  have "parse_value g (dumps v @ CHR ''}'' # rest) = Some (v, CHR ''}'' # rest)"
    using 2(3,4) by (intro readsD) (simp_all add: kvs f dump_member_def)
  then show ?case by (simp add: kvs f dump_member_def dump_str_def parse_chars_dump parse_value_skip)
next
  case (3 t u ts)
  then obtain k v y ys where kvs: "kvs = (k, v) # y # ys" by (metis map_eq_Cons_conv surj_pair)
  let ?r = "join '', '' (map dump_member (y # ys)) @ CHR ''}'' # rest"
  obtain g where f: "f = Suc g" using 3(5) by (cases f) auto
  have "parse_value g (dumps v @ CHR '','' # CHR '' '' # ?r) = Some (v, CHR '','' # CHR '' '' # ?r)"
    using 3(4) [of "(k, v)"] 3(5) by (intro readsD) (simp_all add: kvs f dump_member_def)
  moreover have "parse_members g ?r = Some (y # ys, rest)"
    using 3(2-5) by (intro 3(1)) (auto simp: kvs f)
  ultimately show ?case
    by (simp add: kvs f dump_member_def dump_str_def parse_chars_dump parse_value_skip parse_members_skip)
qed simp

lemma reads_all: "json_ok v \<Longrightarrow> reads v"
proof (induction v)
  case (JStr s)
  show ?case by (auto simp: reads_def dump_str_def parse_chars_dump dest!: Suc_le_D)
next
  case (JInt n)
  show ?case unfolding reads_def
  proof (intro allI impI)
    fix f rest assume f: "length (dumps (JInt n)) \<le> f" and rest: "number_end rest"
    obtain c cs where s: "show_int n = c # cs" "c = CHR ''-'' \<or> is_digit c"
      using show_nat_start [of "nat n"] by (cases "n < 0") (auto simp: show_int_def)
    then have c: "value_start c" "c \<notin> {CHR 0x22, CHR ''['', CHR ''{'', CHR ''n'', CHR ''t'', CHR ''f''}"
      using digit_start [of c] by auto
    obtain g where "f = Suc g" using f s by (cases f) auto
    then show "parse_value f (dumps (JInt n) @ rest) = Some (JInt n, rest)"
      using parse_number_show [OF rest, of n] c by (simp add: s skip_start)
  qed
next
  case (JList xs)
  then have xs: "reads x" if "x \<in> set xs" for x using that by (auto simp: list_all_iff)
  show ?case unfolding reads_def
  proof (intro allI impI)
    fix f rest assume f: "length (dumps (JList xs)) \<le> f" and "number_end rest"
    obtain g where g: "f = Suc g" using f by (cases f) auto
    show "parse_value f (dumps (JList xs) @ rest) = Some (JList xs, rest)"
    proof (cases xs)
      case (Cons x ys)
      obtain c cs where start: "join '', '' (map dumps xs) = c # cs" "value_start c"
        using dumps_start [of x] Cons by (cases ys) auto
      have "parse_items g (join '', '' (map dumps xs) @ CHR '']'' # rest) = Some (xs, rest)"
        using f Cons by (intro parse_items_join xs) (auto simp: g)
      moreover have "c \<noteq> CHR '']''" using start(2) by (simp add: value_start_def)
      ultimately show ?thesis using start by (simp add: g skip_start)
    qed (simp add: g)
  qed
next
  case (JObj kvs)
  then have vs: "reads (snd kv)" if "kv \<in> set kvs" for kv using that by (cases kv) (fastforce simp: list_all_iff)
  have same: "dict_of kvs = kvs" using JObj by (intro dict_of_distinct) simp
  show ?case unfolding reads_def
  proof (intro allI impI)
    fix f rest assume f: "length (dumps (JObj kvs)) \<le> f" and "number_end rest"
    obtain g where g: "f = Suc g" using f by (cases f) (auto simp: dumps_obj)
    show "parse_value f (dumps (JObj kvs) @ rest) = Some (JObj kvs, rest)"
    proof (cases kvs)
      case (Cons kv ys)
      obtain cs where start: "join '', '' (map dump_member kvs) = CHR 0x22 # cs"
        using Cons by (cases ys) (auto simp: dump_member_def dump_str_def)
      have "parse_members g (join '', '' (map dump_member kvs) @ CHR ''}'' # rest) = Some (kvs, rest)"
        using f Cons by (intro parse_members_join vs) (auto simp: g dumps_obj simp del: dumps.simps)
      with start same show ?thesis by (simp add: g dumps_obj skip_start del: dumps.simps)
    qed (simp add: g dict_of_def)
  qed
qed (auto simp: reads_def skip_start after_def dest!: Suc_le_D)

lemma loads_dumps:
  assumes "json_ok v"
  shows "loads (dumps v) = Some v"
  using readsD [OF reads_all [OF assms], of "Suc (length (dumps v))" "[]"] by (simp add: loads_def)

section \<open>The text is plain ASCII\<close>

definition plain :: "string \<Rightarrow> bool" where
  "plain s \<longleftrightarrow> list_all (\<lambda>c. 32 \<le> (of_char c :: nat) \<and> (of_char c :: nat) \<le> 126) s"

lemma plain_simps [simp]:
  "plain []" "plain (c # s) \<longleftrightarrow> 32 \<le> (of_char c :: nat) \<and> (of_char c :: nat) \<le> 126 \<and> plain s"
  "plain (s @ t) \<longleftrightarrow> plain s \<and> plain t"
  by (auto simp: plain_def)

lemma plain_join: "plain sep \<Longrightarrow> list_all plain ss \<Longrightarrow> plain (join sep ss)"
  by (induction sep ss rule: join.induct) auto

lemma hex_digit_plain: "n < 16 \<Longrightarrow> 32 \<le> (of_char (hex_digit n) :: nat) \<and> (of_char (hex_digit n) :: nat) \<le> 126"
  by (auto simp: hex_digit_def)

lemma escape_plain: "plain (escape_char c)"
  using hex_digit_plain [OF of_char_div_less [of c]] hex_digit_plain [of "of_char c mod 16"]
  by (auto simp: escape_char_def)

lemma dump_str_plain [simp]: "plain (dump_str s)"
proof -
  have "plain (concat (map escape_char s))" by (induction s) (auto simp: escape_plain)
  then show ?thesis by (simp add: dump_str_def)
qed

lemma show_nat_plain [simp]: "plain (show_nat n)"
  using show_nat_digits [of n] by (auto simp: plain_def list_all_iff is_digit_def)

lemma dumps_plain: "plain (dumps v)"
proof (induction v)
  case (JObj kvs)
  then have "list_all plain (map dump_member kvs)"
    by (auto simp: list_all_iff dump_member_def)
  then show ?case by (simp add: dumps_obj plain_join del: dumps.simps)
next
  case (JList xs)
  then show ?case by (simp add: plain_join list_all_iff)
qed (simp_all add: show_int_def)

section \<open>Sorted keys\<close>

text \<open>\<open>json.dumps(v, sort_keys=True)\<close> sorts the keys of every dictionary by code point.\<close>

primrec sort_keys :: "json \<Rightarrow> json" where
  "sort_keys JNull = JNull"
| "sort_keys (JBool b) = JBool b"
| "sort_keys (JInt n) = JInt n"
| "sort_keys (JStr s) = JStr s"
| "sort_keys (JList xs) = JList (map sort_keys xs)"
| "sort_keys (JObj kvs) = JObj (sort_key fst (map (map_prod id sort_keys) kvs))"

definition dumps_sorted :: "json \<Rightarrow> string" where
  "dumps_sorted v = dumps (sort_keys v)"

lemma distinct_map_sort: "distinct (map f (sort_key g xs)) \<longleftrightarrow> distinct (map f xs)"
  by (simp only: distinct_map distinct_sort set_sort)

lemma json_ok_sort_keys: "json_ok v \<Longrightarrow> json_ok (sort_keys v)"
proof (induction v)
  case (JObj kvs)
  have keys: "map fst (map (map_prod id sort_keys) kvs) = map fst kvs" by (auto simp: comp_def)
  have "distinct (map fst (sort_key fst (map (map_prod id sort_keys) kvs)))"
    using JObj.prems by (simp only: distinct_map_sort keys json_ok.simps)
  then show ?case using JObj by (fastforce simp: list_all_iff)
qed (auto simp: list_all_iff)

text \<open>The text determines the value up to the order of the keys.\<close>

lemma dumps_inj: "json_ok v \<Longrightarrow> json_ok w \<Longrightarrow> dumps v = dumps w \<Longrightarrow> v = w"
  using loads_dumps by (metis option.inject)

lemma dumps_sorted_inj:
  "json_ok v \<Longrightarrow> json_ok w \<Longrightarrow> dumps_sorted v = dumps_sorted w \<Longrightarrow> sort_keys v = sort_keys w"
  unfolding dumps_sorted_def by (rule dumps_inj [OF json_ok_sort_keys json_ok_sort_keys])

lemma same_keys_eq:
  assumes "map fst xs = map fst ys" and "distinct (map fst xs)" and "set xs = set ys"
  shows "xs = ys"
  using assms
proof (induction xs ys rule: list_induct2')
  case (4 x xs y ys)
  have xy: "x = y"
  proof -
    have "x \<in> set (y # ys)" using 4(4) by auto
    moreover have "fst x \<notin> fst ` set ys"
      using 4(2,3) by (metis distinct.simps(2) list.set_map list.simps(9) list.inject)
    ultimately show ?thesis by auto
  qed
  have "x \<notin> set xs" "y \<notin> set ys" using 4(2,3) by (auto simp: rev_image_eqI) (metis image_eqI list.set_map)
  then have "set xs = set ys" using 4(4) xy by auto
  then show ?case using 4 xy by simp
qed auto

lemma sort_key_same_keys:
  "map fst xs = map fst ys \<Longrightarrow> distinct (map fst xs) \<Longrightarrow> sort_key fst xs = sort_key fst ys \<Longrightarrow> xs = ys"
  by (rule same_keys_eq) (simp_all, metis set_sort)

end
