(* ===== verification/Iso_Time.thy ===== *)
theory Iso_Time
  imports Json "HOL-Library.Monad_Syntax"
begin

text \<open>
  Python's \<open>datetime\<close> as its calendar fields and an optional offset from UTC in minutes, with
  \<open>isoformat\<close> and, for the texts that \<open>isoformat\<close> writes, \<open>datetime.fromisoformat\<close> (None where
  Python raises ValueError). \<open>fromisoformat_isoformat\<close> is their round trip.
\<close>

record datetime =
  dt_year :: nat
  dt_month :: nat
  dt_day :: nat
  dt_hour :: nat
  dt_minute :: nat
  dt_second :: nat
  dt_micro :: nat
  dt_offset :: "int option"

definition leap_year :: "nat \<Rightarrow> bool" where
  "leap_year y \<longleftrightarrow> y mod 4 = 0 \<and> (y mod 100 \<noteq> 0 \<or> y mod 400 = 0)"

definition days_in_month :: "nat \<Rightarrow> nat \<Rightarrow> nat" where
  "days_in_month y m =
     (if m = 2 then (if leap_year y then 29 else 28) else if m \<in> {4, 6, 9, 11} then 30 else 31)"

definition datetime_ok :: "datetime \<Rightarrow> bool" where
  "datetime_ok d \<longleftrightarrow>
     1 \<le> dt_year d \<and> dt_year d \<le> 9999 \<and> 1 \<le> dt_month d \<and> dt_month d \<le> 12
     \<and> 1 \<le> dt_day d \<and> dt_day d \<le> days_in_month (dt_year d) (dt_month d)
     \<and> dt_hour d < 24 \<and> dt_minute d < 60 \<and> dt_second d < 60 \<and> dt_micro d < 1000000
     \<and> (case dt_offset d of None \<Rightarrow> True | Some m \<Rightarrow> \<bar>m\<bar> < 1440)"

definition pad :: "nat \<Rightarrow> nat \<Rightarrow> string" where
  "pad w n = zfill w (show_nat n)"

definition show_offset :: "int option \<Rightarrow> string" where
  "show_offset off =
     (case off of
        None \<Rightarrow> ''''
      | Some m \<Rightarrow> (if m < 0 then ''-'' else ''+'')
          @ pad 2 (nat \<bar>m\<bar> div 60) @ '':'' @ pad 2 (nat \<bar>m\<bar> mod 60))"

definition isoformat :: "datetime \<Rightarrow> string" where
  "isoformat d =
     pad 4 (dt_year d) @ ''-'' @ pad 2 (dt_month d) @ ''-'' @ pad 2 (dt_day d) @ ''T''
     @ pad 2 (dt_hour d) @ '':'' @ pad 2 (dt_minute d) @ '':'' @ pad 2 (dt_second d)
     @ (if dt_micro d = 0 then '''' else ''.'' @ pad 6 (dt_micro d)) @ show_offset (dt_offset d)"

definition read_fixed :: "nat \<Rightarrow> string \<Rightarrow> (nat \<times> string) option" where
  "read_fixed w s =
     (if w \<le> length s \<and> list_all is_digit (take w s) then Some (read_nat (take w s), drop w s) else None)"

definition read_offset :: "string \<Rightarrow> int option option" where
  "read_offset s =
     (case s of
        [] \<Rightarrow> Some None
      | c # cs \<Rightarrow>
          if c \<noteq> CHR ''+'' \<and> c \<noteq> CHR ''-'' then None
          else do {
            (h, r) \<leftarrow> read_fixed 2 cs;
            r \<leftarrow> after '':'' r;
            (m, r) \<leftarrow> read_fixed 2 r;
            if r = [] then Some (Some ((if c = CHR ''-'' then - 1 else 1) * int (60 * h + m))) else None
          })"

definition fromisoformat :: "string \<Rightarrow> datetime option" where
  "fromisoformat s = do {
     (y, s) \<leftarrow> read_fixed 4 s;
     s \<leftarrow> after ''-'' s;
     (mo, s) \<leftarrow> read_fixed 2 s;
     s \<leftarrow> after ''-'' s;
     (d, s) \<leftarrow> read_fixed 2 s;
     s \<leftarrow> after ''T'' s;
     (h, s) \<leftarrow> read_fixed 2 s;
     s \<leftarrow> after '':'' s;
     (mi, s) \<leftarrow> read_fixed 2 s;
     s \<leftarrow> after '':'' s;
     (sec, s) \<leftarrow> read_fixed 2 s;
     (us, s) \<leftarrow> (case after ''.'' s of Some r \<Rightarrow> read_fixed 6 r | None \<Rightarrow> Some (0, s));
     off \<leftarrow> read_offset s;
     let t = \<lparr>dt_year = y, dt_month = mo, dt_day = d, dt_hour = h, dt_minute = mi, dt_second = sec,
              dt_micro = us, dt_offset = off\<rparr>;
     if datetime_ok t then Some t else None
   }"

text \<open>Aware datetimes compare as instants: microseconds since 0001-01-01 in UTC (a naive one as if
  it were UTC).\<close>

definition ordinal_day :: "datetime \<Rightarrow> nat" where
  "ordinal_day d =
     (let y = dt_year d - 1
      in 365 * y + y div 4 - y div 100 + y div 400
         + sum_list (map (days_in_month (dt_year d)) [1..<dt_month d]) + dt_day d)"

definition utc_micros :: "datetime \<Rightarrow> int" where
  "utc_micros d =
     (((int (ordinal_day d) * 24 + int (dt_hour d)) * 60 + int (dt_minute d)
        - (case dt_offset d of None \<Rightarrow> 0 | Some m \<Rightarrow> m)) * 60 + int (dt_second d)) * 1000000
     + int (dt_micro d)"

section \<open>Round trip\<close>

lemma length_show_nat: "n < 10 ^ Suc w \<Longrightarrow> length (show_nat n) \<le> Suc w"
proof (induction w arbitrary: n)
  case 0
  then show ?case by (simp add: show_nat.simps [of n])
next
  case (Suc w)
  then have "n div 10 < 10 ^ Suc w" by (simp add: div_less_iff_less_mult)
  from Suc.IH [OF this] show ?case by (subst show_nat.simps) simp
qed

lemma pad_length: "n < 10 ^ Suc w \<Longrightarrow> length (pad (Suc w) n) = Suc w"
  using length_show_nat [of n w] by (simp add: pad_def zfill_def)

lemma pad_digits: "list_all is_digit (pad w n)"
  using show_nat_digits [of n] by (auto simp: pad_def zfill_def list_all_iff is_digit_def)

lemma read_pad: "0 < w \<Longrightarrow> n < 10 ^ w \<Longrightarrow> read_fixed w (pad w n @ rest) = Some (n, rest)"
proof -
  assume "0 < w" and "n < 10 ^ w"
  then have "length (pad w n) = w" using pad_length [of n "w - 1"] by simp
  moreover have "read_nat (pad w n) = n" by (simp add: pad_def)
  ultimately show ?thesis using pad_digits [of w n] by (simp add: read_fixed_def)
qed

lemma read_pad2: "n < 100 \<Longrightarrow> read_fixed 2 (pad 2 n @ rest) = Some (n, rest)"
  by (rule read_pad) simp_all

lemma read_pad4: "n < 10000 \<Longrightarrow> read_fixed 4 (pad 4 n @ rest) = Some (n, rest)"
  by (rule read_pad) simp_all

lemma read_pad6: "n < 1000000 \<Longrightarrow> read_fixed 6 (pad 6 n @ rest) = Some (n, rest)"
  by (rule read_pad) simp_all

lemma after_same [simp]: "after p (p @ s) = Some s"
  by (simp add: after_def)

lemma after_Cons [simp]: "after [c] (d # s) = (if c = d then Some s else None)"
  by (simp add: after_def)

lemma read_show_offset:
  assumes "case off of None \<Rightarrow> True | Some m \<Rightarrow> \<bar>m\<bar> < 1440"
  shows "read_offset (show_offset off) = Some off"
proof (cases off)
  case (Some m)
  define a where "a = nat \<bar>m\<bar>"
  have "a < 1440" using assms Some by (simp add: a_def)
  then have "a div 60 < 100" "a mod 60 < 100" by simp_all
  then have "read_fixed 2 (pad 2 (a div 60) @ CHR '':'' # pad 2 (a mod 60)) = Some (a div 60, CHR '':'' # pad 2 (a mod 60))"
    "read_fixed 2 (pad 2 (a mod 60)) = Some (a mod 60, [])"
    using read_pad2 [of _ "[]"] by (simp_all add: read_pad2)
  moreover have "60 * (a div 60) + a mod 60 = a" by simp
  ultimately have "read_offset (c # pad 2 (a div 60) @ CHR '':'' # pad 2 (a mod 60))
      = Some (Some ((if c = CHR ''-'' then - 1 else 1) * int a))" if "c = CHR ''+'' \<or> c = CHR ''-''" for c
    using that by (auto simp: read_offset_def)
  from this [of "if m < 0 then CHR ''-'' else CHR ''+''"] show ?thesis
    by (auto simp: Some show_offset_def simp flip: a_def) (simp_all add: a_def)
qed (simp add: read_offset_def show_offset_def)

lemma after_dot_offset: "after ''.'' (show_offset off) = None"
  by (cases off) (simp_all add: show_offset_def after_def)

lemma days_le: "days_in_month y m \<le> 31"
  by (simp add: days_in_month_def)

lemma fromisoformat_isoformat:
  assumes "datetime_ok d"
  shows "fromisoformat (isoformat d) = Some d"
proof -
  have b: "dt_year d < 10000" "dt_month d < 100" "dt_day d < 100" "dt_hour d < 100" "dt_minute d < 100"
    "dt_second d < 100" "dt_micro d < 1000000"
    using assms days_le [of "dt_year d" "dt_month d"] by (auto simp: datetime_ok_def)
  have off: "read_offset (show_offset (dt_offset d)) = Some (dt_offset d)"
    using assms by (intro read_show_offset) (simp add: datetime_ok_def)
  show ?thesis
    using b off assms
    by (cases d) (auto simp: fromisoformat_def isoformat_def read_pad2 read_pad4 read_pad6 after_dot_offset)
qed

lemma isoformat_plain: "c \<in> set (isoformat d) \<Longrightarrow> 32 \<le> (of_char c :: nat) \<and> (of_char c :: nat) \<le> 126"
proof -
  have "32 \<le> (of_char c :: nat) \<and> (of_char c :: nat) \<le> 126" if "c \<in> set (pad w n)" for c w n
    using that pad_digits [of w n] by (auto simp: list_all_iff is_digit_def)
  then show "c \<in> set (isoformat d) \<Longrightarrow> ?thesis"
    by (auto simp: isoformat_def show_offset_def split: option.splits if_splits)
qed

end
