(* ===== verification/Degradation_Types.thy ===== *)
theory Degradation_Types
  imports Numerics Iso_Time
begin

text \<open>
  The data of src/backend/src/degradation: the enumerations of models.py with their string
  values, the severity orders on modes and levels, the critical reason codes, system events
  with their two clocks, and the thresholds of config.py. Monotonic times are doubles.
\<close>

section \<open>Enumerations\<close>

datatype system_mode = NORMAL | DEGRADED | SAFE_MODE | SAFE_MODE_DISCONNECTED | HALT | RECOVERING

fun mode_value :: "system_mode \<Rightarrow> string" where
  "mode_value NORMAL = ''normal''"
| "mode_value DEGRADED = ''degraded''"
| "mode_value SAFE_MODE = ''safe_mode''"
| "mode_value SAFE_MODE_DISCONNECTED = ''safe_mode_disconnected''"
| "mode_value HALT = ''halt''"
| "mode_value RECOVERING = ''recovering''"

definition all_modes :: "system_mode list" where
  "all_modes = [NORMAL, DEGRADED, SAFE_MODE, SAFE_MODE_DISCONNECTED, HALT, RECOVERING]"

fun mode_priority :: "system_mode \<Rightarrow> nat" where
  "mode_priority NORMAL = 0"
| "mode_priority RECOVERING = 1"
| "mode_priority DEGRADED = 2"
| "mode_priority SAFE_MODE = 3"
| "mode_priority SAFE_MODE_DISCONNECTED = 4"
| "mode_priority HALT = 5"

datatype system_level = HEALTHY | UNSTABLE | TRIPPED

fun level_value :: "system_level \<Rightarrow> string" where
  "level_value HEALTHY = ''healthy''"
| "level_value UNSTABLE = ''unstable''"
| "level_value TRIPPED = ''tripped''"

fun level_priority :: "system_level \<Rightarrow> nat" where
  "level_priority HEALTHY = 0"
| "level_priority UNSTABLE = 1"
| "level_priority TRIPPED = 2"

datatype recovery_stage = CONNECT_BROKER | CATCHUP_MARKETDATA | VERIFY_RISK | READY

fun stage_value :: "recovery_stage \<Rightarrow> string" where
  "stage_value CONNECT_BROKER = ''connect_broker''"
| "stage_value CATCHUP_MARKETDATA = ''catchup_marketdata''"
| "stage_value VERIFY_RISK = ''verify_risk''"
| "stage_value READY = ''ready''"

datatype recovery_trigger = TRIGGER_AUTO | TRIGGER_MANUAL | TRIGGER_COLD_START

datatype system_event_type = FAIL_CRIT | FAIL_SUPP | RECOVERED | HEARTBEAT | QUALITY_DEGRADED

datatype component_source = BROKER | MARKET_DATA | RISK | DB | ALERTS | SYSTEM

datatype severity = INFO | WARNING | CRITICAL

datatype reason_code =
    BROKER_DISCONNECT | BROKER_RECONNECTED | BROKER_REPORT_MISMATCH
  | MD_STALE | MD_QUALITY_DEGRADED
  | RISK_TIMEOUT | RISK_BREACH_HARD
  | POSITION_TRUTH_UNKNOWN
  | DB_WRITE_FAIL | DB_BUFFER_OVERFLOW
  | ALERTS_CHANNEL_DOWN
  | COLD_START | RECOVERY_FAILED | ALL_HEALTHY

datatype action_type = ACT_OPEN | ACT_SEND | ACT_AMEND | ACT_CANCEL | ACT_REDUCE_ONLY | ACT_QUERY

text \<open>The values are distinct, so a value sent over the API reads back as the same member.\<close>

interpretation modes: str_enum all_modes mode_value
proof
  show "e \<in> set all_modes" for e by (cases e) (simp_all add: all_modes_def)
  show "mode_value e = mode_value f \<Longrightarrow> e = f" for e f by (cases e; cases f) simp_all
qed

interpretation stages: str_enum "[CONNECT_BROKER, CATCHUP_MARKETDATA, VERIFY_RISK, READY]" stage_value
proof
  show "e \<in> set [CONNECT_BROKER, CATCHUP_MARKETDATA, VERIFY_RISK, READY]" for e by (cases e) simp_all
  show "stage_value e = stage_value f \<Longrightarrow> e = f" for e f by (cases e; cases f) simp_all
qed

section \<open>Severity orders\<close>

text \<open>\<open>MODE_PRIORITY\<close> and \<open>_LEVEL_PRIORITY\<close> are injective, so both types are linear orders, with
  the more severe member the greater one.\<close>

lemma mode_priority_inj: "mode_priority m = mode_priority n \<Longrightarrow> m = n"
  by (cases m; cases n) simp_all

lemma level_priority_inj: "level_priority m = level_priority n \<Longrightarrow> m = n"
  by (cases m; cases n) simp_all

instantiation system_mode :: linorder
begin

definition less_eq_system_mode :: "system_mode \<Rightarrow> system_mode \<Rightarrow> bool" where
  "less_eq_system_mode m n \<longleftrightarrow> mode_priority m \<le> mode_priority n"

definition less_system_mode :: "system_mode \<Rightarrow> system_mode \<Rightarrow> bool" where
  "less_system_mode m n \<longleftrightarrow> mode_priority m < mode_priority n"

instance
  by standard (auto simp: less_eq_system_mode_def less_system_mode_def intro: mode_priority_inj)

end

instantiation system_level :: linorder
begin

definition less_eq_system_level :: "system_level \<Rightarrow> system_level \<Rightarrow> bool" where
  "less_eq_system_level m n \<longleftrightarrow> level_priority m \<le> level_priority n"

definition less_system_level :: "system_level \<Rightarrow> system_level \<Rightarrow> bool" where
  "less_system_level m n \<longleftrightarrow> level_priority m < level_priority n"

instance
  by standard (auto simp: less_eq_system_level_def less_system_level_def intro: level_priority_inj)

end

section \<open>Events\<close>

definition must_deliver_events :: "reason_code list" where
  "must_deliver_events =
     [BROKER_DISCONNECT, POSITION_TRUTH_UNKNOWN, BROKER_REPORT_MISMATCH, RISK_BREACH_HARD]"

record system_event =
  ev_type :: system_event_type
  ev_source :: component_source
  ev_severity :: severity
  ev_reason :: reason_code
  ev_wall :: datetime
  ev_mono :: double
  ev_details :: "(string \<times> json) list option"
  ev_ttl :: "int option"

definition is_critical :: "system_event \<Rightarrow> bool" where
  "is_critical ev \<longleftrightarrow> ev_reason ev \<in> set must_deliver_events"

definition is_expired :: "double \<Rightarrow> system_event \<Rightarrow> bool" where
  "is_expired now ev = (case ev_ttl ev of None \<Rightarrow> False | Some ttl \<Rightarrow> fl (now - ev_mono ev) > of_int ttl)"

text \<open>The two clocks are read when the event is created.\<close>

record clock =
  wall :: datetime
  mono :: double

definition create_system_event ::
  "clock \<Rightarrow> system_event_type \<Rightarrow> component_source \<Rightarrow> severity \<Rightarrow> reason_code
   \<Rightarrow> (string \<times> json) list option \<Rightarrow> int option \<Rightarrow> system_event" where
  "create_system_event now t src sev reason details ttl =
     \<lparr>ev_type = t, ev_source = src, ev_severity = sev, ev_reason = reason, ev_wall = wall now,
      ev_mono = mono now, ev_details = details, ev_ttl = ttl\<rparr>"

record mode_transition =
  tr_from :: system_mode
  tr_to :: system_mode
  tr_reason :: reason_code
  tr_source :: component_source
  tr_wall :: datetime
  tr_mono :: double
  tr_operator :: "string option"
  tr_ttl :: "int option"

section \<open>Configuration\<close>

record degradation_config =
  fail_threshold_count :: int
  fail_threshold_seconds :: double
  recovery_stable_seconds :: double
  min_safe_mode_seconds :: double
  unknown_on_ttl_expiry :: bool
  alert_on_unstable :: bool
  broker_timeout_ms :: int
  market_data_stale_ms :: int
  risk_timeout_ms :: int
  risk_timeout_consecutive_count :: int
  db_timeout_ms :: int
  max_recovery_attempts :: int
  recovery_backoff_base_ms :: int
  auto_recovery_to_normal :: bool
  db_buffer_max_entries :: int
  db_buffer_max_bytes :: int
  db_buffer_max_seconds :: double
  db_wal_enabled :: bool
  event_bus_queue_size :: int
  event_bus_publish_timeout_ms :: int
  event_bus_drop_on_full :: bool
  position_cache_stale_ms :: int
  market_data_cache_stale_ms :: int
  component_status_ttl_seconds :: int

definition default_degradation_config :: degradation_config where
  "default_degradation_config =
     \<lparr>fail_threshold_count = 3, fail_threshold_seconds = 5, recovery_stable_seconds = 10,
      min_safe_mode_seconds = 30, unknown_on_ttl_expiry = True, alert_on_unstable = True,
      broker_timeout_ms = 5000, market_data_stale_ms = 10000, risk_timeout_ms = 2000,
      risk_timeout_consecutive_count = 3, db_timeout_ms = 3000, max_recovery_attempts = 3,
      recovery_backoff_base_ms = 1000, auto_recovery_to_normal = True, db_buffer_max_entries = 1000,
      db_buffer_max_bytes = 10000000, db_buffer_max_seconds = 60, db_wal_enabled = True,
      event_bus_queue_size = 10000, event_bus_publish_timeout_ms = 100, event_bus_drop_on_full = True,
      position_cache_stale_ms = 30000, market_data_cache_stale_ms = 10000,
      component_status_ttl_seconds = 30\<rparr>"

end
