(* ===== verification/Trading_Gate.thy ===== *)
theory Trading_Gate
  imports Degradation_Types
begin

text \<open>
  The gate of degradation/trading_gate.py that every trading call asks for permission: its
  two permission tables, the mode and stage it was last told, and the lookup. The tables are
  association lists, as the dictionaries of the code.
\<close>

section \<open>Permission tables\<close>

record permission_result =
  allowed :: bool
  warning :: "string option"
  restricted :: bool
  local_only :: bool

definition deny :: permission_result where
  "deny = \<lparr>allowed = False, warning = None, restricted = False, local_only = False\<rparr>"

definition grant :: permission_result where
  "grant = \<lparr>allowed = True, warning = None, restricted = False, local_only = False\<rparr>"

definition best_effort :: string where
  "best_effort = ''Cancel is best-effort; broker connection may be unstable''"

fun mode_permissions :: "system_mode \<Rightarrow> (action_type \<times> permission_result) list option" where
  "mode_permissions NORMAL = Some
     [(ACT_OPEN, grant), (ACT_SEND, grant), (ACT_AMEND, grant), (ACT_CANCEL, grant),
      (ACT_REDUCE_ONLY, grant), (ACT_QUERY, grant)]"
| "mode_permissions DEGRADED = Some
     [(ACT_OPEN, grant\<lparr>restricted := True\<rparr>), (ACT_SEND, grant), (ACT_AMEND, grant), (ACT_CANCEL, grant),
      (ACT_REDUCE_ONLY, grant), (ACT_QUERY, grant)]"
| "mode_permissions SAFE_MODE = Some
     [(ACT_OPEN, deny), (ACT_SEND, deny), (ACT_AMEND, deny), (ACT_CANCEL, grant\<lparr>warning := Some best_effort\<rparr>),
      (ACT_REDUCE_ONLY, grant), (ACT_QUERY, grant)]"
| "mode_permissions SAFE_MODE_DISCONNECTED = Some
     [(ACT_OPEN, deny), (ACT_SEND, deny), (ACT_AMEND, deny), (ACT_CANCEL, deny),
      (ACT_REDUCE_ONLY, deny), (ACT_QUERY, grant\<lparr>local_only := True\<rparr>)]"
| "mode_permissions HALT = Some
     [(ACT_OPEN, deny), (ACT_SEND, deny), (ACT_AMEND, deny), (ACT_CANCEL, deny),
      (ACT_REDUCE_ONLY, deny), (ACT_QUERY, grant)]"
| "mode_permissions RECOVERING = None"

fun stage_permissions :: "recovery_stage \<Rightarrow> action_type list" where
  "stage_permissions CONNECT_BROKER = [ACT_QUERY]"
| "stage_permissions CATCHUP_MARKETDATA = [ACT_QUERY]"
| "stage_permissions VERIFY_RISK = [ACT_QUERY, ACT_CANCEL]"
| "stage_permissions READY = [ACT_QUERY, ACT_CANCEL, ACT_REDUCE_ONLY]"

section \<open>The gate\<close>

record trading_gate =
  tg_mode :: system_mode
  tg_stage :: "recovery_stage option"

definition gate_init :: trading_gate where
  "gate_init = \<lparr>tg_mode = RECOVERING, tg_stage = Some CONNECT_BROKER\<rparr>"

definition update_mode ::
  "system_mode \<Rightarrow> recovery_stage option \<Rightarrow> trading_gate \<Rightarrow> trading_gate \<times> unit result" where
  "update_mode m st g =
     (if m = RECOVERING \<and> st = None then (g, Inl ValueError)
      else (g\<lparr>tg_mode := m, tg_stage := (if m \<noteq> RECOVERING then None else st)\<rparr>, Inr ()))"

definition check_permission :: "trading_gate \<Rightarrow> action_type \<Rightarrow> permission_result" where
  "check_permission g a =
     (if tg_mode g = RECOVERING then
        (case tg_stage g of
           None \<Rightarrow> deny
         | Some st \<Rightarrow> deny\<lparr>allowed := a \<in> set (stage_permissions st)\<rparr>)
      else (case mode_permissions (tg_mode g) of
              None \<Rightarrow> deny
            | Some perms \<Rightarrow> (case map_of perms a of None \<Rightarrow> deny | Some p \<Rightarrow> p)))"

definition allows :: "trading_gate \<Rightarrow> action_type \<Rightarrow> bool" where
  "allows g a = allowed (check_permission g a)"

definition allows_with_warning :: "trading_gate \<Rightarrow> action_type \<Rightarrow> bool \<times> string option" where
  "allows_with_warning g a = (let r = check_permission g a in (allowed r, warning r))"

section \<open>What the gate lets through\<close>

text \<open>The tables of the module's documentation, as a specification.\<close>

fun documented :: "system_mode \<Rightarrow> recovery_stage option \<Rightarrow> action_type set" where
  "documented NORMAL st = UNIV"
| "documented DEGRADED st = UNIV"
| "documented SAFE_MODE st = {ACT_CANCEL, ACT_REDUCE_ONLY, ACT_QUERY}"
| "documented SAFE_MODE_DISCONNECTED st = {ACT_QUERY}"
| "documented HALT st = {ACT_QUERY}"
| "documented RECOVERING None = {}"
| "documented RECOVERING (Some CONNECT_BROKER) = {ACT_QUERY}"
| "documented RECOVERING (Some CATCHUP_MARKETDATA) = {ACT_QUERY}"
| "documented RECOVERING (Some VERIFY_RISK) = {ACT_QUERY, ACT_CANCEL}"
| "documented RECOVERING (Some READY) = {ACT_QUERY, ACT_CANCEL, ACT_REDUCE_ONLY}"

lemma allows_documented: "allows g a \<longleftrightarrow> a \<in> documented (tg_mode g) (tg_stage g)"
proof (cases "tg_mode g")
  case RECOVERING
  show ?thesis
  proof (cases "tg_stage g")
    case (Some st)
    then show ?thesis by (cases st) (simp_all add: RECOVERING allows_def check_permission_def deny_def)
  qed (simp add: RECOVERING allows_def check_permission_def deny_def)
qed (cases a; simp add: allows_def check_permission_def deny_def grant_def)+

text \<open>A more severe mode never permits more; the modes of a recovery are ordered by their
  stages instead.\<close>

lemma documented_antimono:
  "m \<le> n \<Longrightarrow> m \<noteq> RECOVERING \<Longrightarrow> n \<noteq> RECOVERING \<Longrightarrow> documented n st \<subseteq> documented m st'"
  by (cases m; cases n) (auto simp: less_eq_system_mode_def)

lemma allows_open: "allows g ACT_OPEN \<longleftrightarrow> tg_mode g \<in> {NORMAL, DEGRADED}"
proof -
  have "ACT_OPEN \<in> documented m st \<longleftrightarrow> m \<in> {NORMAL, DEGRADED}" for m st
    by (cases "(m, st)" rule: documented.cases) simp_all
  then show ?thesis by (simp add: allows_documented)
qed


section \<open>Concrete runs\<close>


end
