(* ===== verification/Event_Bus.thy ===== *)
theory Event_Bus
  imports Degradation_Types
begin

text \<open>
  The event bus of degradation/event_bus.py: a bounded queue that never blocks the publisher,
  drops events when it is full, writes them to the fallback log and reports the critical ones
  to the emergency callback; and the dispatch loop that hands every queued event to all
  subscribers. Handlers and callback are opaque: what they are called with is recorded. An
  exception of a handler or of the callback is logged and has no effect on the bus. The
  specification is an unbounded channel (\<open>channel\<close>) that keeps what was accepted.
\<close>

section \<open>State and operations\<close>

record 'h event_bus =
  bus_queue :: "system_event list"
  bus_subscribers :: "'h list"
  bus_drop_count :: nat
  bus_has_log :: bool
  bus_fallback_log :: "system_event list"
  bus_has_callback :: bool
  bus_emergencies :: "system_event list"
  bus_running :: bool
  bus_calls :: "('h \<times> system_event) list"

definition bus_init :: "bool \<Rightarrow> 'h event_bus" where
  "bus_init has_log =
     \<lparr>bus_queue = [], bus_subscribers = [], bus_drop_count = 0, bus_has_log = has_log, bus_fallback_log = [],
      bus_has_callback = False, bus_emergencies = [], bus_running = False, bus_calls = []\<rparr>"

text \<open>An \<open>asyncio.Queue\<close> with a maximal size of zero or less is never full.\<close>

definition queue_full :: "degradation_config \<Rightarrow> 'h event_bus \<Rightarrow> bool" where
  "queue_full cfg b \<longleftrightarrow>
     0 < event_bus_queue_size cfg \<and> event_bus_queue_size cfg \<le> int (length (bus_queue b))"

definition write_fallback_log :: "system_event \<Rightarrow> 'h event_bus \<Rightarrow> 'h event_bus" where
  "write_fallback_log ev b =
     (if bus_has_log b then b\<lparr>bus_fallback_log := bus_fallback_log b @ [ev]\<rparr> else b)"

definition local_emergency_degrade :: "system_event \<Rightarrow> 'h event_bus \<Rightarrow> 'h event_bus" where
  "local_emergency_degrade ev b =
     (if bus_has_callback b then b\<lparr>bus_emergencies := bus_emergencies b @ [ev]\<rparr> else b)"

definition publish :: "degradation_config \<Rightarrow> system_event \<Rightarrow> 'h event_bus \<Rightarrow> 'h event_bus \<times> bool" where
  "publish cfg ev b =
     (if queue_full cfg b then
        (let dropped = write_fallback_log ev (b\<lparr>bus_drop_count := Suc (bus_drop_count b)\<rparr>)
         in (if is_critical ev then local_emergency_degrade ev dropped else dropped, False))
      else (b\<lparr>bus_queue := bus_queue b @ [ev]\<rparr>, True))"

definition bus_subscribe :: "'h \<Rightarrow> 'h event_bus \<Rightarrow> 'h event_bus" where
  "bus_subscribe h b = b\<lparr>bus_subscribers := bus_subscribers b @ [h]\<rparr>"

definition set_emergency_callback :: "'h event_bus \<Rightarrow> 'h event_bus" where
  "set_emergency_callback b = b\<lparr>bus_has_callback := True\<rparr>"

definition bus_start :: "'h event_bus \<Rightarrow> 'h event_bus" where
  "bus_start b = (if bus_running b then b else b\<lparr>bus_running := True\<rparr>)"

definition bus_stop :: "'h event_bus \<Rightarrow> 'h event_bus" where
  "bus_stop b = (if \<not> bus_running b then b else b\<lparr>bus_running := False\<rparr>)"

definition notify_subscribers :: "system_event \<Rightarrow> 'h event_bus \<Rightarrow> 'h event_bus" where
  "notify_subscribers ev b = b\<lparr>bus_calls := bus_calls b @ map (\<lambda>h. (h, ev)) (bus_subscribers b)\<rparr>"

text \<open>One turn of the dispatch loop.\<close>

definition dispatch :: "'h event_bus \<Rightarrow> 'h event_bus" where
  "dispatch b =
     (if \<not> bus_running b then b
      else case bus_queue b of [] \<Rightarrow> b | ev # rest \<Rightarrow> notify_subscribers ev (b\<lparr>bus_queue := rest\<rparr>))"

section \<open>Refinement of an unbounded channel\<close>

datatype bus_command = Publish system_event | Dispatch | Start | Stop

text \<open>The run of the bus over a sequence of commands, with the events it accepted and dropped.\<close>

fun bus_run :: "degradation_config \<Rightarrow> bus_command list \<Rightarrow> 'h event_bus
  \<Rightarrow> 'h event_bus \<times> system_event list \<times> system_event list" where
  "bus_run cfg [] b = (b, [], [])"
| "bus_run cfg (Publish ev # cs) b =
     (case publish cfg ev b of
        (b', ok) \<Rightarrow> (case bus_run cfg cs b' of
          (c, acc, drp) \<Rightarrow> if ok then (c, ev # acc, drp) else (c, acc, ev # drp)))"
| "bus_run cfg (Dispatch # cs) b = bus_run cfg cs (dispatch b)"
| "bus_run cfg (Start # cs) b = bus_run cfg cs (bus_start b)"
| "bus_run cfg (Stop # cs) b = bus_run cfg cs (bus_stop b)"

text \<open>What a subscriber has received, and the channel that it shares with the queue.\<close>

definition received :: "'h \<Rightarrow> 'h event_bus \<Rightarrow> system_event list" where
  "received h b = map snd (filter (\<lambda>c. fst c = h) (bus_calls b))"

definition channel :: "'h \<Rightarrow> 'h event_bus \<Rightarrow> system_event list" where
  "channel h b = received h b @ bus_queue b"

lemma publish_frame [simp]:
  "bus_subscribers (fst (publish cfg ev b)) = bus_subscribers b"
  "bus_calls (fst (publish cfg ev b)) = bus_calls b"
  "bus_running (fst (publish cfg ev b)) = bus_running b"
  "bus_has_log (fst (publish cfg ev b)) = bus_has_log b"
  "bus_has_callback (fst (publish cfg ev b)) = bus_has_callback b"
  by (simp_all add: publish_def write_fallback_log_def local_emergency_degrade_def Let_def)

lemma dispatch_frame [simp]:
  "bus_subscribers (dispatch b) = bus_subscribers b" "bus_drop_count (dispatch b) = bus_drop_count b"
  "bus_fallback_log (dispatch b) = bus_fallback_log b" "bus_emergencies (dispatch b) = bus_emergencies b"
  "bus_has_log (dispatch b) = bus_has_log b" "bus_has_callback (dispatch b) = bus_has_callback b"
  by (simp_all add: dispatch_def notify_subscribers_def split: list.split)

lemma switch_frame [simp]:
  "bus_subscribers (bus_start b) = bus_subscribers b" "bus_subscribers (bus_stop b) = bus_subscribers b"
  "bus_queue (bus_start b) = bus_queue b" "bus_queue (bus_stop b) = bus_queue b"
  "bus_calls (bus_start b) = bus_calls b" "bus_calls (bus_stop b) = bus_calls b"
  "bus_drop_count (bus_start b) = bus_drop_count b" "bus_drop_count (bus_stop b) = bus_drop_count b"
  "bus_fallback_log (bus_start b) = bus_fallback_log b" "bus_fallback_log (bus_stop b) = bus_fallback_log b"
  "bus_emergencies (bus_start b) = bus_emergencies b" "bus_emergencies (bus_stop b) = bus_emergencies b"
  "bus_has_log (bus_start b) = bus_has_log b" "bus_has_log (bus_stop b) = bus_has_log b"
  "bus_has_callback (bus_start b) = bus_has_callback b" "bus_has_callback (bus_stop b) = bus_has_callback b"
  by (simp_all add: bus_start_def bus_stop_def)

lemma notified_once:
  "distinct hs \<Longrightarrow> h \<in> set hs \<Longrightarrow> map snd (filter (\<lambda>c. fst c = h) (map (\<lambda>h. (h, ev)) hs)) = [ev]"
  by (induction hs) (auto simp: filter_empty_conv)

lemma channel_dispatch:
  "distinct (bus_subscribers b) \<Longrightarrow> h \<in> set (bus_subscribers b) \<Longrightarrow> channel h (dispatch b) = channel h b"
  by (cases "bus_queue b")
    (simp_all add: channel_def received_def dispatch_def notify_subscribers_def notified_once del: filter_map map_map)

lemma channel_publish:
  "channel h (fst (publish cfg ev b)) = channel h b @ (if snd (publish cfg ev b) then [ev] else [])"
  by (simp add: channel_def received_def publish_def write_fallback_log_def local_emergency_degrade_def Let_def)

lemma channel_switch [simp]: "channel h (bus_start b) = channel h b" "channel h (bus_stop b) = channel h b"
  by (simp_all add: channel_def received_def)

definition within_size :: "degradation_config \<Rightarrow> 'h event_bus \<Rightarrow> bool" where
  "within_size cfg b \<longleftrightarrow> 0 < event_bus_queue_size cfg \<longrightarrow> int (length (bus_queue b)) \<le> event_bus_queue_size cfg"

lemma within_size_publish: "within_size cfg b \<Longrightarrow> within_size cfg (fst (publish cfg ev b))"
  by (auto simp: within_size_def publish_def queue_full_def write_fallback_log_def
      local_emergency_degrade_def Let_def)

lemma within_size_dispatch: "within_size cfg b \<Longrightarrow> within_size cfg (dispatch b)"
  by (auto simp: within_size_def dispatch_def notify_subscribers_def split: list.split)

lemma within_size_switch [simp]:
  "within_size cfg (bus_start b) = within_size cfg b" "within_size cfg (bus_stop b) = within_size cfg b"
  by (simp_all add: within_size_def)

lemma publish_dropped:
  assumes "publish cfg ev b = (c, ok)"
  shows "bus_drop_count c = bus_drop_count b + (if ok then 0 else 1)"
    and "bus_has_log b \<Longrightarrow> bus_fallback_log c = bus_fallback_log b @ (if ok then [] else [ev])"
    and "bus_has_callback b \<Longrightarrow>
      bus_emergencies c = bus_emergencies b @ (if \<not> ok \<and> is_critical ev then [ev] else [])"
  using assms
  by (auto simp: publish_def write_fallback_log_def local_emergency_degrade_def Let_def split: if_splits)


section \<open>Concrete runs\<close>

definition demo_event :: "reason_code \<Rightarrow> system_event" where
  "demo_event reason =
     create_system_event
       \<lparr>wall = \<lparr>dt_year = 2026, dt_month = 1, dt_day = 5, dt_hour = 9, dt_minute = 30, dt_second = 0,
                dt_micro = 0, dt_offset = Some 0\<rparr>, mono = 100\<rparr>
       FAIL_CRIT BROKER CRITICAL reason None None"

definition demo_bus :: "string event_bus" where
  "demo_bus = bus_start (set_emergency_callback (bus_subscribe ''audit'' (bus_init True)))"

definition tiny_bus_config :: degradation_config where
  "tiny_bus_config = default_degradation_config\<lparr>event_bus_queue_size := 1\<rparr>"


end
