(* ===== verification/Breakers.thy ===== *)
theory Breakers
  imports Degradation_Types
begin

text \<open>
  The circuit breakers of degradation/breakers.py: HEALTHY, UNSTABLE and TRIPPED with a
  failure count and the time of the first failure. \<open>time.monotonic()\<close> is read once for the
  decision (the argument \<open>now\<close>) and again when an event is created (the clock \<open>at_event\<close>).
  \<open>outage_level\<close> gives the level after any run of failures in closed form.
\<close>

section \<open>State and operations\<close>

record breaker =
  br_level :: system_level
  br_failures :: int
  br_first_failure :: "double option"
  br_last_success :: "double option"

definition breaker_init :: breaker where
  "breaker_init = \<lparr>br_level = HEALTHY, br_failures = 0, br_first_failure = None, br_last_success = None\<rparr>"

record breaker_kind =
  bk_source :: component_source
  bk_trip_reason :: reason_code
  bk_recovery_reason :: reason_code

definition broker_breaker :: breaker_kind where
  "broker_breaker = \<lparr>bk_source = BROKER, bk_trip_reason = BROKER_DISCONNECT, bk_recovery_reason = BROKER_RECONNECTED\<rparr>"

definition market_data_breaker :: breaker_kind where
  "market_data_breaker = \<lparr>bk_source = MARKET_DATA, bk_trip_reason = MD_STALE, bk_recovery_reason = ALL_HEALTHY\<rparr>"

definition risk_breaker :: breaker_kind where
  "risk_breaker = \<lparr>bk_source = RISK, bk_trip_reason = RISK_TIMEOUT, bk_recovery_reason = ALL_HEALTHY\<rparr>"

definition db_breaker :: breaker_kind where
  "db_breaker = \<lparr>bk_source = DB, bk_trip_reason = DB_WRITE_FAIL, bk_recovery_reason = ALL_HEALTHY\<rparr>"

definition check_trip_conditions :: "degradation_config \<Rightarrow> double \<Rightarrow> breaker \<Rightarrow> bool" where
  "check_trip_conditions cfg now b \<longleftrightarrow>
     br_failures b \<ge> fail_threshold_count cfg
     \<or> (case br_first_failure b of
          None \<Rightarrow> False
        | Some first \<Rightarrow> fl (now - first) \<ge> fail_threshold_seconds cfg)"

definition level_details :: "system_level \<Rightarrow> int \<Rightarrow> (string \<times> json) list" where
  "level_details lvl n = [(''level'', JStr (level_value lvl)), (''failure_count'', JInt n)]"

definition degraded_event :: "breaker_kind \<Rightarrow> clock \<Rightarrow> breaker \<Rightarrow> system_event" where
  "degraded_event k at_event b =
     create_system_event at_event QUALITY_DEGRADED (bk_source k) WARNING (bk_trip_reason k)
       (Some (level_details UNSTABLE (br_failures b))) None"

definition trip_event :: "breaker_kind \<Rightarrow> clock \<Rightarrow> breaker \<Rightarrow> system_event" where
  "trip_event k at_event b =
     create_system_event at_event FAIL_CRIT (bk_source k) CRITICAL (bk_trip_reason k)
       (Some (level_details TRIPPED (br_failures b))) None"

definition recovery_event :: "breaker_kind \<Rightarrow> clock \<Rightarrow> system_event" where
  "recovery_event k at_event =
     create_system_event at_event RECOVERED (bk_source k) INFO (bk_recovery_reason k)
       (Some [(''level'', JStr (level_value HEALTHY))]) None"

definition record_failure ::
  "degradation_config \<Rightarrow> breaker_kind \<Rightarrow> double \<Rightarrow> clock \<Rightarrow> breaker \<Rightarrow> breaker \<times> system_event option" where
  "record_failure cfg k now at_event b =
     (let counted = b\<lparr>br_failures := br_failures b + 1,
                      br_first_failure := (case br_first_failure b of None \<Rightarrow> Some now | Some t \<Rightarrow> Some t)\<rparr>
      in case br_level b of
           HEALTHY \<Rightarrow> (let b' = counted\<lparr>br_level := UNSTABLE\<rparr> in (b', Some (degraded_event k at_event b')))
         | UNSTABLE \<Rightarrow>
             if check_trip_conditions cfg now counted
             then (let b' = counted\<lparr>br_level := TRIPPED\<rparr> in (b', Some (trip_event k at_event b')))
             else (counted, None)
         | TRIPPED \<Rightarrow> (counted, None))"

definition record_success :: "breaker_kind \<Rightarrow> double \<Rightarrow> clock \<Rightarrow> breaker \<Rightarrow> breaker \<times> system_event option" where
  "record_success k now at_event b =
     (\<lparr>br_level = HEALTHY, br_failures = 0, br_first_failure = None, br_last_success = Some now\<rparr>,
      if br_level b \<noteq> HEALTHY then Some (recovery_event k at_event) else None)"

definition effective_level :: "system_level \<Rightarrow> breaker \<Rightarrow> system_level" where
  "effective_level central b =
     (if level_priority (br_level b) \<ge> level_priority central then br_level b else central)"

section \<open>Runs of a breaker\<close>

inductive breaker_step :: "degradation_config \<Rightarrow> breaker_kind \<Rightarrow> breaker \<Rightarrow> breaker \<Rightarrow> bool" for cfg k where
  Failure: "breaker_step cfg k b (fst (record_failure cfg k now at_event b))"
| Success: "breaker_step cfg k b (fst (record_success k now at_event b))"

inductive_cases breaker_stepE: "breaker_step cfg k b c"

text \<open>The level, the count and the first failure always tell the same story.\<close>

definition breaker_ok :: "breaker \<Rightarrow> bool" where
  "breaker_ok b \<longleftrightarrow>
     0 \<le> br_failures b \<and> (br_level b = HEALTHY \<longleftrightarrow> br_failures b = 0)
     \<and> (br_first_failure b = None \<longleftrightarrow> br_failures b = 0) \<and> (br_level b = TRIPPED \<longrightarrow> 2 \<le> br_failures b)"

lemma record_failure_level:
  "br_level (fst (record_failure cfg k now at_event b))
     = (if br_level b = HEALTHY then UNSTABLE
        else if br_level b = TRIPPED \<or> check_trip_conditions cfg now
               (b\<lparr>br_failures := br_failures b + 1,
                  br_first_failure := (case br_first_failure b of None \<Rightarrow> Some now | Some t \<Rightarrow> Some t)\<rparr>)
             then TRIPPED else UNSTABLE)"
  by (cases "br_level b") (simp_all add: record_failure_def Let_def)

lemma record_failure_count [simp]:
  "br_failures (fst (record_failure cfg k now at_event b)) = br_failures b + 1"
  "br_first_failure (fst (record_failure cfg k now at_event b))
     = (case br_first_failure b of None \<Rightarrow> Some now | Some t \<Rightarrow> Some t)"
  by (auto simp: record_failure_def Let_def split: system_level.split)

lemma breaker_init_ok: "breaker_ok breaker_init"
  by (simp add: breaker_ok_def breaker_init_def)

lemma breaker_step_ok: "breaker_step cfg k b c \<Longrightarrow> breaker_ok b \<Longrightarrow> breaker_ok c"
proof (induction rule: breaker_step.induct)
  case (Failure b now at_event)
  then show ?case
    by (cases "br_level b") (auto simp: breaker_ok_def record_failure_level split: option.split)
qed (simp add: breaker_ok_def record_success_def)

interpretation breaker_run: step_invariant "breaker_step cfg k" breaker_ok for cfg k
  by unfold_locales (rule breaker_step_ok)

text \<open>During an outage, when only failures arrive, the level never improves.\<close>

inductive failure_step :: "degradation_config \<Rightarrow> breaker_kind \<Rightarrow> breaker \<Rightarrow> breaker \<Rightarrow> bool" for cfg k where
  "failure_step cfg k b (fst (record_failure cfg k now at_event b))"

inductive_cases failure_stepE: "failure_step cfg k b c"

interpretation outage: step_progress "failure_step cfg k" breaker_ok "\<lambda>b. level_priority (br_level b)" for cfg k
proof
  show "failure_step cfg k s t \<Longrightarrow> breaker_ok s \<Longrightarrow> breaker_ok t" for s t
    by (erule failure_stepE) (auto intro: breaker_step_ok [OF Failure])
  show "failure_step cfg k s t \<Longrightarrow> breaker_ok s \<Longrightarrow> level_priority (br_level s) \<le> level_priority (br_level t)" for s t
    by (erule failure_stepE) (cases "br_level s"; simp add: record_failure_level)
qed

section \<open>Properties\<close>

lemma effective_level_max: "effective_level central b = max (br_level b) central"
  by (auto simp: effective_level_def max_def less_eq_system_level_def intro: level_priority_inj)

definition failures_at :: "degradation_config \<Rightarrow> breaker_kind \<Rightarrow> (double \<times> clock) list \<Rightarrow> breaker \<Rightarrow> breaker" where
  "failures_at cfg k stamps b = fold (\<lambda>(now, c) b. fst (record_failure cfg k now c b)) stamps b"

definition outage_level :: "degradation_config \<Rightarrow> double list \<Rightarrow> system_level" where
  "outage_level cfg ts =
     (if ts = [] then HEALTHY
      else if 2 \<le> length ts
              \<and> (fail_threshold_count cfg \<le> int (length ts)
                 \<or> fail_threshold_seconds cfg \<le> fl (last ts - hd ts))
           then TRIPPED else UNSTABLE)"

lemma failures_at_snoc [simp]:
  "failures_at cfg k (stamps @ [(now, c)]) b = fst (record_failure cfg k now c (failures_at cfg k stamps b))"
  by (simp add: failures_at_def)

lemma outage_level_mono:
  assumes "ts \<noteq> []" and "outage_level cfg ts = TRIPPED" and "last ts \<le> now"
  shows "outage_level cfg (ts @ [now]) = TRIPPED"
proof -
  have "fl (last ts - hd ts) \<le> fl (now - hd ts)" using assms(3) by (intro fl_mono) simp
  then show ?thesis using assms by (auto simp: outage_level_def hd_append split: if_splits)
qed

text \<open>Hysteresis of a circuit breaker in closed form. After any run of failures that starts from
  a healthy breaker the failure count is the length of the run, the first failure is
  remembered, and the level is UNSTABLE after one failure and TRIPPED exactly when at least
  two failures were seen and either the count threshold or the time threshold is met; and the
  level that applies is the more severe of this one and the central one.\<close>

theorem outage_level_closed_form:
  assumes "breaker_ok b" and "br_level b = HEALTHY" and "sorted (map fst stamps)" and "stamps \<noteq> []"
  shows "br_level (failures_at cfg k stamps b) = outage_level cfg (map fst stamps)
    \<and> br_failures (failures_at cfg k stamps b) = int (length stamps)
    \<and> br_first_failure (failures_at cfg k stamps b) = Some (fst (hd stamps))
    \<and> effective_level central (failures_at cfg k stamps b) = max (outage_level cfg (map fst stamps)) central"
  using assms(3,4)
proof (induction stamps rule: rev_induct)
  case (snoc x xs)
  obtain now c where x: "x = (now, c)" by (cases x)
  show ?case
  proof (cases "xs = []")
    case True
    then show ?thesis using assms(1,2)
      by (auto simp: x failures_at_def record_failure_level effective_level_max outage_level_def breaker_ok_def)
  next
    case False
    from snoc have IH: "br_level (failures_at cfg k xs b) = outage_level cfg (map fst xs)"
      "br_failures (failures_at cfg k xs b) = int (length xs)"
      "br_first_failure (failures_at cfg k xs b) = Some (fst (hd xs))"
      using False by (auto simp: sorted_append)
    have last: "last (map fst xs) \<le> now" using snoc.prems(1) False by (simp add: sorted_append x last_map)
    have two: "2 \<le> length (map fst xs @ [now])" using False by (cases xs) simp_all
    have "outage_level cfg (map fst xs) \<noteq> HEALTHY" using False by (simp add: outage_level_def)
    then have "br_level (failures_at cfg k (xs @ [(now, c)]) b) = outage_level cfg (map fst xs @ [now])"
      using outage_level_mono [OF _ _ last, of cfg] two IH False
      by (cases "outage_level cfg (map fst xs) = TRIPPED")
        (auto simp: record_failure_level check_trip_conditions_def outage_level_def hd_append hd_map)
    then show ?thesis using IH False by (simp add: x effective_level_max)
  qed
qed simp

text \<open>A breaker reports every change of its level and nothing else: recording a failure or a
  success returns an event exactly when the level changes, and the event carries the
  breaker's component, the new level and the severity of that level.\<close>

theorem breaker_reports_changes:
  "(case record_failure cfg k now c b of (b', ev) \<Rightarrow>
      (ev = None \<longleftrightarrow> br_level b' = br_level b)
      \<and> (\<forall>e. ev = Some e \<longrightarrow> ev_source e = bk_source k \<and> ev_reason e = bk_trip_reason k
           \<and> ev_severity e = (if br_level b' = TRIPPED then CRITICAL else WARNING)
           \<and> ev_details e = Some (level_details (br_level b') (br_failures b'))))
   \<and> (case record_success k now c b of (b', ev) \<Rightarrow>
      (ev = None \<longleftrightarrow> br_level b' = br_level b)
      \<and> (\<forall>e. ev = Some e \<longrightarrow> ev_source e = bk_source k \<and> ev_reason e = bk_recovery_reason k))"
  by (cases "br_level b")
    (auto simp: record_failure_def record_success_def Let_def degraded_event_def trip_event_def
      recovery_event_def create_system_event_def)

section \<open>Concrete runs\<close>

definition demo_clock :: clock where
  "demo_clock = \<lparr>wall = \<lparr>dt_year = 2026, dt_month = 1, dt_day = 5, dt_hour = 9, dt_minute = 30, dt_second = 0,
                          dt_micro = 0, dt_offset = Some 0\<rparr>, mono = 100\<rparr>"

theorem outage_level_closed_form_witness:
  "br_level (failures_at default_degradation_config broker_breaker
      [(100, demo_clock), (101, demo_clock), (102, demo_clock)] breaker_init) = TRIPPED"
proof -
  have "br_level breaker_init = HEALTHY" by (simp add: breaker_init_def)
  from outage_level_closed_form [OF breaker_init_ok this,
      of "[(100, demo_clock), (101, demo_clock), (102, demo_clock)]" default_degradation_config broker_breaker]
  have "br_level (failures_at default_degradation_config broker_breaker
      [(100, demo_clock), (101, demo_clock), (102, demo_clock)] breaker_init)
    = outage_level default_degradation_config [100, 101, 102]" by simp
  then show ?thesis by (simp add: outage_level_def default_degradation_config_def)
qed

end
