(* ===== verification/State_Service.thy ===== *)
theory State_Service
  imports Trading_Gate Event_Bus Breakers
begin

text \<open>
  The system state service of degradation/state_service.py, the single owner of the system
  mode, with the gate it updates and the bus it publishes on as parts of its state. The clock
  readings of a call are arguments: one for the expiry of a forced mode, one for the
  transition, one for the published event. Lemmas: the gate and the history follow the mode
  in every run, automatic events take the maximum of the severities, and where the code
  departs from that (forcing RECOVERING, recovery events of any component).
\<close>

section \<open>State\<close>

record force_override =
  fo_mode :: system_mode
  fo_ttl :: int
  fo_operator :: string
  fo_reason :: string
  fo_start_mono :: double
  fo_start_wall :: datetime

record 'h state_service =
  ss_mode :: system_mode
  ss_stage :: "recovery_stage option"
  ss_override :: "force_override option"
  ss_history :: "mode_transition list"
  ss_gate :: trading_gate
  ss_bus :: "'h event_bus"

definition service_init :: "trading_gate \<Rightarrow> 'h event_bus \<Rightarrow> 'h state_service" where
  "service_init gate bus =
     \<lparr>ss_mode = RECOVERING, ss_stage = Some CONNECT_BROKER, ss_override = None, ss_history = [],
      ss_gate = fst (update_mode RECOVERING (Some CONNECT_BROKER) gate), ss_bus = bus\<rparr>"

section \<open>Transitions\<close>

fun decision_matrix :: "reason_code \<Rightarrow> system_mode option" where
  "decision_matrix BROKER_DISCONNECT = Some SAFE_MODE_DISCONNECTED"
| "decision_matrix BROKER_RECONNECTED = Some RECOVERING"
| "decision_matrix BROKER_REPORT_MISMATCH = Some HALT"
| "decision_matrix MD_STALE = Some SAFE_MODE"
| "decision_matrix MD_QUALITY_DEGRADED = Some DEGRADED"
| "decision_matrix RISK_TIMEOUT = Some SAFE_MODE"
| "decision_matrix RISK_BREACH_HARD = Some HALT"
| "decision_matrix POSITION_TRUTH_UNKNOWN = Some HALT"
| "decision_matrix DB_WRITE_FAIL = Some DEGRADED"
| "decision_matrix DB_BUFFER_OVERFLOW = Some SAFE_MODE"
| "decision_matrix ALERTS_CHANNEL_DOWN = Some DEGRADED"
| "decision_matrix COLD_START = Some RECOVERING"
| "decision_matrix RECOVERY_FAILED = Some HALT"
| "decision_matrix ALL_HEALTHY = Some NORMAL"

definition can_transition :: "system_mode \<Rightarrow> system_mode \<Rightarrow> bool" where
  "can_transition current target \<longleftrightarrow>
     mode_priority target \<ge> mode_priority current \<or> target \<in> {NORMAL, RECOVERING}"

definition is_force_override :: "double \<Rightarrow> 'h state_service \<Rightarrow> 'h state_service \<times> bool" where
  "is_force_override now s =
     (case ss_override s of
        None \<Rightarrow> (s, False)
      | Some fo \<Rightarrow>
          if fl (now - fo_start_mono fo) > of_int (fo_ttl fo) then (s\<lparr>ss_override := None\<rparr>, False)
          else (s, True))"

definition publish_mode_change ::
  "degradation_config \<Rightarrow> system_mode \<Rightarrow> system_mode \<Rightarrow> reason_code \<Rightarrow> component_source \<Rightarrow> clock
   \<Rightarrow> 'h state_service \<Rightarrow> 'h state_service" where
  "publish_mode_change cfg old new reason src c s =
     (let sev = (if new = HALT then CRITICAL
                 else if new \<in> {SAFE_MODE, SAFE_MODE_DISCONNECTED} then WARNING else INFO);
          ev = create_system_event c (if new \<noteq> NORMAL then QUALITY_DEGRADED else RECOVERED) src sev reason
                 (Some [(''old_mode'', JStr (mode_value old)), (''new_mode'', JStr (mode_value new))]) None
      in s\<lparr>ss_bus := fst (publish cfg ev (ss_bus s))\<rparr>)"

definition stage_for :: "system_mode \<Rightarrow> recovery_stage option \<Rightarrow> recovery_stage option" where
  "stage_for target st =
     (if target = RECOVERING then (if st = None then Some CONNECT_BROKER else st) else None)"

definition transition_to ::
  "degradation_config \<Rightarrow> system_mode \<Rightarrow> reason_code \<Rightarrow> component_source \<Rightarrow> clock \<Rightarrow> clock
   \<Rightarrow> 'h state_service \<Rightarrow> 'h state_service \<times> unit result" where
  "transition_to cfg target reason src c_now c_pub s =
     (let old = ss_mode s;
          s1 = s\<lparr>ss_mode := target, ss_stage := stage_for target (ss_stage s)\<rparr>
      in case update_mode target (ss_stage s1) (ss_gate s1) of
           (_, Inl e) \<Rightarrow> (s1, Inl e)
         | (g, Inr _) \<Rightarrow>
             (publish_mode_change cfg old target reason src c_pub
                (s1\<lparr>ss_gate := g,
                    ss_history := ss_history s1 @
                      [\<lparr>tr_from = old, tr_to = target, tr_reason = reason, tr_source = src, tr_wall = wall c_now,
                        tr_mono = mono c_now, tr_operator = None, tr_ttl = None\<rparr>]\<rparr>), Inr ()))"

definition handle_event ::
  "degradation_config \<Rightarrow> double \<Rightarrow> clock \<Rightarrow> clock \<Rightarrow> system_event
   \<Rightarrow> 'h state_service \<Rightarrow> 'h state_service \<times> unit result" where
  "handle_event cfg now c_now c_pub ev s =
     (case is_force_override now s of
        (s', True) \<Rightarrow> (s', Inr ())
      | (s', False) \<Rightarrow>
          (case decision_matrix (ev_reason ev) of
             None \<Rightarrow> (s', Inr ())
           | Some target \<Rightarrow>
               if \<not> can_transition (ss_mode s') target then (s', Inr ())
               else transition_to cfg target (ev_reason ev) (ev_source ev) c_now c_pub s'))"

text \<open>\<open>not s.strip()\<close>: the characters that \<open>str.strip\<close> removes.\<close>

definition py_blank :: "string \<Rightarrow> bool" where
  "py_blank s \<longleftrightarrow>
     list_all (\<lambda>c. (of_char c :: nat) \<in> {9, 10, 11, 12, 13, 28, 29, 30, 31, 32, 133, 160}) s"

definition force_mode ::
  "system_mode \<Rightarrow> int \<Rightarrow> string \<Rightarrow> string \<Rightarrow> clock \<Rightarrow> 'h state_service \<Rightarrow> 'h state_service \<times> unit result" where
  "force_mode m ttl operator reason c s =
     (if py_blank operator \<or> py_blank reason \<or> ttl \<le> 0 then (s, Inl ValueError)
      else
        (let old = ss_mode s;
             s1 = s\<lparr>ss_override := Some \<lparr>fo_mode = m, fo_ttl = ttl, fo_operator = operator, fo_reason = reason,
                                          fo_start_mono = mono c, fo_start_wall = wall c\<rparr>,
                    ss_mode := m,
                    ss_stage := (if m \<noteq> RECOVERING then None else ss_stage s)\<rparr>
         in case update_mode m (ss_stage s1) (ss_gate s1) of
              (_, Inl e) \<Rightarrow> (s1, Inl e)
            | (g, Inr _) \<Rightarrow>
                (s1\<lparr>ss_gate := g,
                    ss_history := ss_history s1 @
                      [\<lparr>tr_from = old, tr_to = m, tr_reason = COLD_START, tr_source = SYSTEM, tr_wall = wall c,
                        tr_mono = mono c, tr_operator = Some operator, tr_ttl = Some ttl\<rparr>]\<rparr>, Inr ())))"

definition update_recovery_stage :: "recovery_stage \<Rightarrow> 'h state_service \<Rightarrow> 'h state_service \<times> unit result" where
  "update_recovery_stage st s =
     (if ss_mode s \<noteq> RECOVERING then (s, Inl ValueError)
      else (let s1 = s\<lparr>ss_stage := Some st\<rparr>
            in case update_mode (ss_mode s1) (ss_stage s1) (ss_gate s1) of
                 (_, Inl e) \<Rightarrow> (s1, Inl e)
               | (g, Inr _) \<Rightarrow> (s1\<lparr>ss_gate := g\<rparr>, Inr ())))"

section \<open>The gate and the history follow the mode\<close>

fun linked :: "system_mode \<Rightarrow> mode_transition list \<Rightarrow> system_mode \<Rightarrow> bool" where
  "linked m [] n \<longleftrightarrow> m = n"
| "linked m (t # ts) n \<longleftrightarrow> tr_from t = m \<and> linked (tr_to t) ts n"

lemma linked_append: "linked m (xs @ [t]) n \<longleftrightarrow> linked m xs (tr_from t) \<and> tr_to t = n"
  by (induction m xs "tr_from t" rule: linked.induct) auto

definition service_ok :: "'h state_service \<Rightarrow> bool" where
  "service_ok s \<longleftrightarrow>
     tg_mode (ss_gate s) = ss_mode s \<and> tg_stage (ss_gate s) = ss_stage s
     \<and> (ss_mode s = RECOVERING \<longleftrightarrow> ss_stage s \<noteq> None)
     \<and> linked RECOVERING (ss_history s) (ss_mode s)"

inductive service_step :: "degradation_config \<Rightarrow> 'h state_service \<Rightarrow> 'h state_service \<Rightarrow> bool" for cfg where
  Event: "service_step cfg s (fst (handle_event cfg now c_now c_pub ev s))"
| Force: "m \<noteq> RECOVERING \<or> ss_mode s = RECOVERING \<Longrightarrow> service_step cfg s (fst (force_mode m ttl operator reason c s))"
| Stage: "service_step cfg s (fst (update_recovery_stage st s))"
| Query: "service_step cfg s (fst (is_force_override now s))"

inductive_cases service_stepE: "service_step cfg s t"

lemma service_init_ok: "service_ok (service_init gate bus)"
  by (simp add: service_ok_def service_init_def update_mode_def)

lemma is_force_override_cases:
  "is_force_override now s = (s, False) \<and> ss_override s = None
   \<or> is_force_override now s = (s\<lparr>ss_override := None\<rparr>, False) \<or> is_force_override now s = (s, True)"
  by (auto simp: is_force_override_def split: option.split)

lemma service_ok_override [simp]: "service_ok (s\<lparr>ss_override := fo\<rparr>) = service_ok s"
  by (simp add: service_ok_def)

lemma publish_mode_change_frame [simp]:
  "ss_mode (publish_mode_change cfg old new reason src c s) = ss_mode s"
  "ss_stage (publish_mode_change cfg old new reason src c s) = ss_stage s"
  "ss_gate (publish_mode_change cfg old new reason src c s) = ss_gate s"
  "ss_history (publish_mode_change cfg old new reason src c s) = ss_history s"
  "ss_override (publish_mode_change cfg old new reason src c s) = ss_override s"
  by (simp_all add: publish_mode_change_def Let_def)

lemma update_mode_stage_for: "update_mode m (stage_for m st) g = (\<lparr>tg_mode = m, tg_stage = stage_for m st\<rparr>, Inr ())"
  by (cases g) (simp add: update_mode_def stage_for_def)

lemma transition_to_fields [simp]:
  "snd (transition_to cfg target reason src c_now c_pub s) = Inr ()"
  "ss_mode (fst (transition_to cfg target reason src c_now c_pub s)) = target"
  "ss_stage (fst (transition_to cfg target reason src c_now c_pub s)) = stage_for target (ss_stage s)"
  "ss_override (fst (transition_to cfg target reason src c_now c_pub s)) = ss_override s"
  "ss_gate (fst (transition_to cfg target reason src c_now c_pub s))
     = \<lparr>tg_mode = target, tg_stage = stage_for target (ss_stage s)\<rparr>"
  "ss_history (fst (transition_to cfg target reason src c_now c_pub s))
     = ss_history s @ [\<lparr>tr_from = ss_mode s, tr_to = target, tr_reason = reason, tr_source = src,
         tr_wall = wall c_now, tr_mono = mono c_now, tr_operator = None, tr_ttl = None\<rparr>]"
  by (simp_all add: transition_to_def update_mode_stage_for Let_def)

lemma transition_to_ok: "service_ok s \<Longrightarrow> service_ok (fst (transition_to cfg target reason src c_now c_pub s))"
  by (simp add: service_ok_def linked_append) (simp add: stage_for_def)

lemma handle_event_ok: "service_ok s \<Longrightarrow> service_ok (fst (handle_event cfg now c_now c_pub ev s))"
  using is_force_override_cases [of now s]
  by (auto simp: handle_event_def split: option.split intro!: transition_to_ok)

lemma force_mode_ok:
  "service_ok s \<Longrightarrow> m \<noteq> RECOVERING \<or> ss_mode s = RECOVERING \<Longrightarrow>
   service_ok (fst (force_mode m ttl operator reason c s))"
  by (auto simp: force_mode_def update_mode_def service_ok_def linked_append Let_def)

lemma update_recovery_stage_ok: "service_ok s \<Longrightarrow> service_ok (fst (update_recovery_stage st s))"
  by (auto simp: update_recovery_stage_def update_mode_def service_ok_def Let_def)

lemma service_step_ok: "service_step cfg s t \<Longrightarrow> service_ok s \<Longrightarrow> service_ok t"
proof (induction rule: service_step.induct)
  case (Query s now)
  then show ?case using is_force_override_cases [of now s] by auto
qed (simp_all add: handle_event_ok force_mode_ok update_recovery_stage_ok)

interpretation service: step_invariant "service_step cfg" service_ok for cfg
  by unfold_locales (rule service_step_ok)


section \<open>Automatic events take the maximum\<close>

definition target_of :: "system_event \<Rightarrow> system_mode" where
  "target_of ev = the (decision_matrix (ev_reason ev))"

lemma decision_total: "decision_matrix r = Some (the (decision_matrix r))"
  by (cases r) simp_all

definition events_at ::
  "degradation_config \<Rightarrow> (double \<times> clock \<times> clock \<times> system_event) list \<Rightarrow> 'h state_service \<Rightarrow> 'h state_service" where
  "events_at cfg evs s = fold (\<lambda>(now, c1, c2, ev) s. fst (handle_event cfg now c1 c2 ev s)) evs s"

lemma handle_event_free:
  assumes "ss_override s = None"
  shows "handle_event cfg now c1 c2 ev s =
    (if can_transition (ss_mode s) (target_of ev)
     then transition_to cfg (target_of ev) (ev_reason ev) (ev_source ev) c1 c2 s else (s, Inr ()))"
proof -
  obtain m where "decision_matrix (ev_reason ev) = Some m" using decision_total by blast
  then show ?thesis using assms by (simp add: handle_event_def is_force_override_def target_of_def)
qed

lemma handle_event_mode:
  "ss_override s = None \<Longrightarrow> ss_mode (fst (handle_event cfg now c1 c2 ev s))
     = (if target_of ev \<in> {NORMAL, RECOVERING} then target_of ev else max (ss_mode s) (target_of ev))"
  by (auto simp: handle_event_free can_transition_def max_def less_eq_system_mode_def intro: mode_priority_inj)

lemma handle_event_override: "ss_override s = None \<Longrightarrow> ss_override (fst (handle_event cfg now c1 c2 ev s)) = None"
  by (simp add: handle_event_free)

text \<open>Conflict resolution: without a forced mode, any sequence of degradation events leaves the
  service in the most severe of its mode and the events' target modes, so the order of the
  events does not matter; and while a forced mode has not expired, an event changes nothing
  at all.\<close>

theorem events_take_maximum:
  assumes "\<forall>(now, c1, c2, ev) \<in> set evs. target_of ev \<notin> {NORMAL, RECOVERING}"
  shows "(ss_override s = None \<longrightarrow>
      ss_mode (events_at cfg evs s) = fold max (map (\<lambda>(now, c1, c2, ev). target_of ev) evs) (ss_mode s))
    \<and> (\<forall>now c1 c2 ev fo. ss_override s = Some fo \<and> fl (now - fo_start_mono fo) \<le> of_int (fo_ttl fo) \<longrightarrow>
        handle_event cfg now c1 c2 ev s = (s, Inr ()))"
proof (intro conjI impI allI)
  assume "ss_override s = None"
  with assms show "ss_mode (events_at cfg evs s) = fold max (map (\<lambda>(now, c1, c2, ev). target_of ev) evs) (ss_mode s)"
  proof (induction evs arbitrary: s)
    case (Cons x evs)
    obtain now c1 c2 ev where x: "x = (now, c1, c2, ev)" by (cases x) auto
    let ?t = "fst (handle_event cfg now c1 c2 ev s)"
    have t: "ss_mode ?t = max (target_of ev) (ss_mode s)" "ss_override ?t = None"
      using Cons.prems handle_event_mode [of s cfg now c1 c2 ev] handle_event_override [of s cfg now c1 c2 ev]
      by (auto simp: x max.commute)
    have "events_at cfg (x # evs) s = events_at cfg evs ?t" by (simp add: events_at_def x)
    then show ?case using Cons.IH [of ?t] Cons.prems(1) t by (simp add: x)
  qed (simp add: events_at_def)
next
  fix now c1 c2 ev fo
  assume "ss_override s = Some fo \<and> fl (now - fo_start_mono fo) \<le> of_int (fo_ttl fo)"
  then show "handle_event cfg now c1 c2 ev s = (s, Inr ())"
    by (simp add: handle_event_def is_force_override_def)
qed

section \<open>Departures\<close>

text \<open>Forcing RECOVERING from another mode raises after the mode and the override are already
  set: the service then says RECOVERING, without a stage and without a history entry, while
  the gate still grants what the old mode granted, and all events are ignored until the
  override expires.\<close>

theorem force_recovering_desync:
  assumes "service_ok s" and "ss_mode s \<noteq> RECOVERING"
    and "\<not> py_blank operator" and "\<not> py_blank reason" and "0 < ttl"
  shows "\<exists>t. force_mode RECOVERING ttl operator reason c s = (t, Inl ValueError)
    \<and> ss_mode t = RECOVERING \<and> ss_stage t = None \<and> ss_history t = ss_history s
    \<and> (\<forall>a. allows (ss_gate t) a \<longleftrightarrow> a \<in> documented (ss_mode s) None)
    \<and> (\<forall>now c1 c2 ev. fl (now - mono c) \<le> of_int ttl \<longrightarrow> handle_event cfg now c1 c2 ev t = (t, Inr ()))"
  using assms
  by (auto simp: force_mode_def update_mode_def Let_def service_ok_def allows_documented
      handle_event_def is_force_override_def)

text \<open>The service acts on the reason of an event and not on its type. So the first failure a
  healthy broker breaker sees, which only makes the breaker UNSTABLE, already moves the
  system out of NORMAL and stops opening, sending and reducing; and the recovery of a market
  data, risk or database breaker alone takes the system from HALT, or from a disconnected
  broker, straight to NORMAL with everything permitted.\<close>

theorem breaker_events_drive_mode:
  assumes "service_ok s" and "ss_override s = None"
  shows "(br_level b = HEALTHY \<and> ss_mode s = NORMAL \<longrightarrow>
      (case record_failure bcfg broker_breaker t0 c0 b of
         (b', Some ev) \<Rightarrow> br_level b' = UNSTABLE
           \<and> (let s' = fst (handle_event cfg now c1 c2 ev s)
              in ss_mode s' = SAFE_MODE_DISCONNECTED \<and> (\<forall>a. allows (ss_gate s') a \<longleftrightarrow> a = ACT_QUERY))
       | (b', None) \<Rightarrow> False))
    \<and> (br_level b \<noteq> HEALTHY \<and> k \<in> {market_data_breaker, risk_breaker, db_breaker} \<longrightarrow>
      (case record_success k t0 c0 b of
         (b', Some ev) \<Rightarrow>
           (let s' = fst (handle_event cfg now c1 c2 ev s)
            in ss_mode s' = NORMAL \<and> (\<forall>a. allows (ss_gate s') a))
       | (b', None) \<Rightarrow> False))"
proof (intro conjI impI)
  assume "br_level b = HEALTHY \<and> ss_mode s = NORMAL"
  then show "case record_failure bcfg broker_breaker t0 c0 b of
         (b', Some ev) \<Rightarrow> br_level b' = UNSTABLE
           \<and> (let s' = fst (handle_event cfg now c1 c2 ev s)
              in ss_mode s' = SAFE_MODE_DISCONNECTED \<and> (\<forall>a. allows (ss_gate s') a \<longleftrightarrow> a = ACT_QUERY))
       | (b', None) \<Rightarrow> False"
    by (simp add: record_failure_def Let_def degraded_event_def create_system_event_def broker_breaker_def
        handle_event_free [OF assms(2)] target_of_def can_transition_def allows_documented)
next
  assume k: "br_level b \<noteq> HEALTHY \<and> k \<in> {market_data_breaker, risk_breaker, db_breaker}"
  then have "bk_recovery_reason k = ALL_HEALTHY"
    by (auto simp: market_data_breaker_def risk_breaker_def db_breaker_def)
  with k show "case record_success k t0 c0 b of
         (b', Some ev) \<Rightarrow>
           (let s' = fst (handle_event cfg now c1 c2 ev s)
            in ss_mode s' = NORMAL \<and> (\<forall>a. allows (ss_gate s') a))
       | (b', None) \<Rightarrow> False"
    by (auto simp: record_success_def Let_def recovery_event_def create_system_event_def
        handle_event_free [OF assms(2)] target_of_def can_transition_def allows_documented)
qed

section \<open>Concrete runs\<close>

definition demo_service :: "string state_service" where
  "demo_service = service_init gate_init demo_bus"

definition demo_normal :: "string state_service" where
  "demo_normal = fst (handle_event default_degradation_config 100 demo_clock demo_clock (demo_event ALL_HEALTHY) demo_service)"

lemma demo_normal_ok: "service_ok demo_normal"
  unfolding demo_normal_def demo_service_def by (intro handle_event_ok service_init_ok)

lemma demo_service_free [simp]: "ss_override demo_service = None" "ss_mode demo_service = RECOVERING"
  by (simp_all add: demo_service_def service_init_def)

lemma demo_normal_mode [simp]: "ss_mode demo_normal = NORMAL" "ss_override demo_normal = None"
  by (simp_all add: demo_normal_def handle_event_free target_of_def demo_event_def create_system_event_def can_transition_def)


theorem events_take_maximum_witness:
  "ss_mode (events_at default_degradation_config
      [(100, demo_clock, demo_clock, demo_event RISK_BREACH_HARD), (101, demo_clock, demo_clock, demo_event MD_STALE)]
      demo_normal) = HALT"
  using events_take_maximum [of "[(100, demo_clock, demo_clock, demo_event RISK_BREACH_HARD),
      (101, demo_clock, demo_clock, demo_event MD_STALE)]" demo_normal default_degradation_config]
  by (simp add: target_of_def demo_event_def create_system_event_def max_def less_eq_system_mode_def)

theorem force_recovering_desync_witness:
  "\<exists>t. force_mode RECOVERING 60 ''ops'' ''drill'' demo_clock demo_normal = (t, Inl ValueError)
     \<and> ss_mode t = RECOVERING \<and> allows (ss_gate t) ACT_OPEN"
  using force_recovering_desync [OF demo_normal_ok, of "''ops''" "''drill''" 60 demo_clock]
  by (force simp: py_blank_def)

theorem breaker_events_drive_mode_witness:
  "case record_failure default_degradation_config broker_breaker 100 demo_clock breaker_init of
     (b', Some ev) \<Rightarrow> br_level b' = UNSTABLE
       \<and> ss_mode (fst (handle_event default_degradation_config 100 demo_clock demo_clock ev demo_normal)) = SAFE_MODE_DISCONNECTED
   | (b', None) \<Rightarrow> False"
  using breaker_events_drive_mode [OF demo_normal_ok demo_normal_mode(2), where b = breaker_init
      and bcfg = default_degradation_config and ?t0.0 = 100 and ?c0.0 = demo_clock and cfg = default_degradation_config
      and now = 100 and ?c1.0 = demo_clock and ?c2.0 = demo_clock and k = db_breaker]
  by (auto simp: breaker_init_def Let_def split: prod.splits option.splits)

end
