(* ===== verification/Recovery.thy ===== *)
theory Recovery
  imports State_Service
begin

text \<open>
  The recovery orchestrator of degradation/recovery.py over the state service: a run id, a
  stage that is advanced when its check passes, abort and completion. The uuid of a run and
  the clock readings are arguments. The stage checks of the code are simulated and pass; the
  stage READY checks only that the stage start time is set, as the code does.
\<close>

section \<open>State\<close>

record orchestrator =
  ro_run_id :: "string option"
  ro_stage :: "recovery_stage option"
  ro_trigger :: "recovery_trigger option"
  ro_operator :: "string option"
  ro_stage_start :: "double option"

definition orchestrator_init :: orchestrator where
  "orchestrator_init = \<lparr>ro_run_id = None, ro_stage = None, ro_trigger = None, ro_operator = None, ro_stage_start = None\<rparr>"

definition clear_state :: "orchestrator \<Rightarrow> orchestrator" where
  "clear_state r =
     r\<lparr>ro_run_id := None, ro_stage := None, ro_trigger := None, ro_operator := None, ro_stage_start := None\<rparr>"

definition stage_order :: "recovery_stage list" where
  "stage_order = [CONNECT_BROKER, CATCHUP_MARKETDATA, VERIFY_RISK, READY]"

fun trigger_value :: "recovery_trigger \<Rightarrow> string" where
  "trigger_value TRIGGER_AUTO = ''auto''"
| "trigger_value TRIGGER_MANUAL = ''manual''"
| "trigger_value TRIGGER_COLD_START = ''cold_start''"

section \<open>Operations\<close>

definition start_recovery ::
  "degradation_config \<Rightarrow> recovery_trigger \<Rightarrow> string option \<Rightarrow> string \<Rightarrow> double \<Rightarrow> clock
   \<Rightarrow> orchestrator \<times> 'h state_service \<Rightarrow> (orchestrator \<times> 'h state_service) \<times> string result" where
  "start_recovery cfg trig operator hex now c rs =
     (case rs of (r0, s) \<Rightarrow>
       let r1 = (if ro_run_id r0 \<noteq> None then clear_state r0 else r0);
           run = ''recovery-'' @ hex;
           r = r1\<lparr>ro_run_id := Some run, ro_trigger := Some trig, ro_operator := operator,
                  ro_stage := Some CONNECT_BROKER, ro_stage_start := Some now\<rparr>;
           details = [(''run_id'', JStr run), (''trigger'', JStr (trigger_value trig)),
                      (''operator_id'', case operator of None \<Rightarrow> JNull | Some w \<Rightarrow> JStr w)];
           ev = create_system_event c RECOVERED SYSTEM INFO BROKER_RECONNECTED (Some details) None
       in case (if ss_mode s \<noteq> RECOVERING then handle_event cfg now c c ev s else (s, Inr ())) of
            (s1, Inl e) \<Rightarrow> ((r, s1), Inl e)
          | (s1, Inr _) \<Rightarrow>
              (case update_recovery_stage CONNECT_BROKER s1 of
                 (s2, Inl e) \<Rightarrow> ((r, s2), Inl e)
               | (s2, Inr _) \<Rightarrow> ((r, s2), Inr run)))"

definition validate_run_id :: "string \<Rightarrow> orchestrator \<Rightarrow> bool" where
  "validate_run_id run r \<longleftrightarrow> (case ro_run_id r of None \<Rightarrow> False | Some cur \<Rightarrow> run = cur)"

definition check_ready_stable :: "orchestrator \<Rightarrow> bool" where
  "check_ready_stable r \<longleftrightarrow> ro_stage_start r \<noteq> None"

definition check_stage :: "recovery_stage option \<Rightarrow> orchestrator \<Rightarrow> bool" where
  "check_stage st r =
     (case st of
        None \<Rightarrow> False
      | Some CONNECT_BROKER \<Rightarrow> True
      | Some CATCHUP_MARKETDATA \<Rightarrow> True
      | Some VERIFY_RISK \<Rightarrow> True
      | Some READY \<Rightarrow> check_ready_stable r)"

definition complete_recovery ::
  "degradation_config \<Rightarrow> double \<Rightarrow> clock \<Rightarrow> orchestrator \<times> 'h state_service
   \<Rightarrow> (orchestrator \<times> 'h state_service) \<times> unit result" where
  "complete_recovery cfg now c rs =
     (case rs of (r, s) \<Rightarrow>
       (case handle_event cfg now c c
               (create_system_event c RECOVERED SYSTEM INFO ALL_HEALTHY (Some [(''recovery_completed'', JBool True)]) None) s of
          (s', e) \<Rightarrow> ((clear_state r, s'), e)))"

text \<open>\<open>list.index\<close> of the stage; the stage is always one of the list.\<close>

fun index_of :: "'a list \<Rightarrow> 'a \<Rightarrow> nat" where
  "index_of [] x = 0"
| "index_of (y # ys) x = (if y = x then 0 else Suc (index_of ys x))"

definition advance_stage ::
  "degradation_config \<Rightarrow> string \<Rightarrow> double \<Rightarrow> clock \<Rightarrow> orchestrator \<times> 'h state_service
   \<Rightarrow> (orchestrator \<times> 'h state_service) \<times> bool result" where
  "advance_stage cfg run now c rs =
     (case rs of (r, s) \<Rightarrow>
       if \<not> validate_run_id run r then (rs, Inr False)
       else if \<not> check_stage (ro_stage r) r then (rs, Inr False)
       else
         (let i = index_of stage_order (the (ro_stage r))
          in if i \<ge> length stage_order - 1 then
               (case complete_recovery cfg now c rs of
                  (rs', Inl e) \<Rightarrow> (rs', Inl e) | (rs', Inr _) \<Rightarrow> (rs', Inr True))
             else
               (let next_stage = stage_order ! (i + 1);
                    r' = r\<lparr>ro_stage := Some next_stage, ro_stage_start := Some now\<rparr>
                in case update_recovery_stage next_stage s of
                     (s', Inl e) \<Rightarrow> ((r', s'), Inl e) | (s', Inr _) \<Rightarrow> ((r', s'), Inr True))))"

text \<open>The state is cleared first, so the operator that \<open>force_mode\<close> is given is always the
  default: \<open>self._operator_id or "system"\<close> with no operator left.\<close>

definition abort_recovery ::
  "degradation_config \<Rightarrow> string \<Rightarrow> string \<Rightarrow> clock \<Rightarrow> orchestrator \<times> 'h state_service
   \<Rightarrow> (orchestrator \<times> 'h state_service) \<times> unit result" where
  "abort_recovery cfg run reason c rs =
     (case rs of (r, s) \<Rightarrow>
       if \<not> validate_run_id run r then (rs, Inr ())
       else
         (let r' = clear_state r;
              operator = (case ro_operator r' of None \<Rightarrow> ''system'' | Some w \<Rightarrow> if w = [] then ''system'' else w)
          in case force_mode SAFE_MODE (trunc_int (min_safe_mode_seconds cfg)) operator
                    (''Recovery aborted: '' @ reason) c s of
               (s', e) \<Rightarrow> ((r', s'), e)))"

section \<open>Stale runs, aborts and the way to NORMAL\<close>

lemma stale_run:
  "ro_run_id r \<noteq> Some run \<Longrightarrow>
   advance_stage cfg run now c (r, s) = ((r, s), Inr False) \<and> abort_recovery cfg run reason c (r, s) = ((r, s), Inr ())"
  by (auto simp: advance_stage_def abort_recovery_def validate_run_id_def split: option.split)

text \<open>The orchestrator and the service agree on a running recovery at stage \<open>st\<close>.\<close>

definition recovering_at :: "string \<Rightarrow> recovery_stage \<Rightarrow> orchestrator \<times> 'h state_service \<Rightarrow> bool" where
  "recovering_at run st rs \<longleftrightarrow>
     (case rs of (r, s) \<Rightarrow>
        ro_run_id r = Some run \<and> ro_stage r = Some st \<and> ro_stage_start r \<noteq> None
        \<and> ss_mode s = RECOVERING \<and> ss_stage s = Some st \<and> ss_override s = None \<and> service_ok s)"

lemma advance_middle:
  assumes "recovering_at run st rs" and "index_of stage_order st = i" and "i < 3"
  shows "\<exists>rs'. advance_stage cfg run now c rs = (rs', Inr True) \<and> recovering_at run (stage_order ! Suc i) rs'"
proof -
  obtain r s where rs: "rs = (r, s)" by (cases rs)
  let ?n = "stage_order ! Suc i"
  have check: "check_stage (Some st) r" using assms(1) by (cases st) (auto simp: rs recovering_at_def check_stage_def check_ready_stable_def)
  have ok: "service_ok (fst (update_recovery_stage ?n s))"
    using assms(1) update_recovery_stage_ok by (auto simp: rs recovering_at_def)
  show ?thesis
    using assms check ok
    by (auto simp: rs recovering_at_def advance_stage_def validate_run_id_def stage_order_def
        update_recovery_stage_def update_mode_def Let_def)
qed

lemma advance_ready:
  assumes "recovering_at run READY rs"
  shows "\<exists>r s. advance_stage cfg run now c rs = ((r, s), Inr True)
    \<and> ro_run_id r = None \<and> ss_mode s = NORMAL \<and> (\<forall>a. allows (ss_gate s) a)"
proof -
  obtain r s where rs: "rs = (r, s)" by (cases rs)
  have ready: "ro_run_id r = Some run" "ro_stage r = Some READY" "ro_stage_start r \<noteq> None" "ss_override s = None"
    "ss_mode s = RECOVERING"
    using assms by (simp_all add: rs recovering_at_def)
  obtain t where t: "transition_to cfg NORMAL ALL_HEALTHY SYSTEM c c s = (t, Inr ())"
    by (metis surjective_pairing transition_to_fields(1))
  then have "ss_mode t = NORMAL" "\<forall>a. allows (ss_gate t) a"
    using transition_to_fields(2,5) [of cfg NORMAL ALL_HEALTHY SYSTEM c c s] by (simp_all add: allows_documented)
  moreover have "advance_stage cfg run now c rs = ((clear_state r, t), Inr True)"
    using ready by (simp add: rs advance_stage_def validate_run_id_def check_stage_def check_ready_stable_def
        stage_order_def complete_recovery_def handle_event_free target_of_def create_system_event_def
        can_transition_def t)
  ultimately show ?thesis by (simp add: clear_state_def)
qed

lemma start_recovering:
  assumes "service_ok s" and "ss_override s = None"
  shows "\<exists>rs. start_recovery cfg trig operator hex now c (r, s) = (rs, Inr (''recovery-'' @ hex))
    \<and> recovering_at (''recovery-'' @ hex) CONNECT_BROKER rs"
proof -
  let ?ev = "create_system_event c RECOVERED SYSTEM INFO BROKER_RECONNECTED
    (Some [(''run_id'', JStr (''recovery-'' @ hex)), (''trigger'', JStr (trigger_value trig)),
      (''operator_id'', case operator of None \<Rightarrow> JNull | Some w \<Rightarrow> JStr w)]) None"
  let ?s1 = "if ss_mode s \<noteq> RECOVERING then fst (handle_event cfg now c c ?ev s) else s"
  have s1: "service_ok ?s1" "ss_override ?s1 = None" "ss_mode ?s1 = RECOVERING"
    using assms handle_event_mode [OF assms(2), of cfg now c c ?ev]
    by (auto simp: handle_event_ok handle_event_override target_of_def create_system_event_def)
  have res: "snd (handle_event cfg now c c ?ev s) = Inr ()" by (simp add: handle_event_free [OF assms(2)])
  have ok: "service_ok (fst (update_recovery_stage CONNECT_BROKER ?s1))"
    using s1(1) by (rule update_recovery_stage_ok)
  show ?thesis
    using s1 res ok
    by (cases "handle_event cfg now c c ?ev s")
      (auto simp: start_recovery_def recovering_at_def update_recovery_stage_def update_mode_def Let_def
        clear_state_def split: if_splits)
qed


text \<open>While a forced mode other than RECOVERING is active, starting a recovery raises, and the
  orchestrator stays behind with a run that can never advance; an aborted recovery is always
  recorded under the default operator, whoever started it.\<close>

lemma start_under_override:
  assumes "ss_override s = Some fo" and "fl (now - fo_start_mono fo) \<le> of_int (fo_ttl fo)" and "ss_mode s \<noteq> RECOVERING"
  shows "\<exists>r. start_recovery cfg trig operator hex now c (r0, s) = ((r, s), Inl ValueError)
    \<and> ro_run_id r = Some (''recovery-'' @ hex)"
  using assms
  by (auto simp: start_recovery_def handle_event_def is_force_override_def update_recovery_stage_def Let_def clear_state_def)

lemma abort_forgets_operator:
  assumes "ro_run_id r = Some run" and "1 \<le> trunc_int (min_safe_mode_seconds cfg)"
  shows "\<exists>t. abort_recovery cfg run reason c (r, s) = ((clear_state r, t), Inr ())
    \<and> ss_mode t = SAFE_MODE \<and> map_option fo_operator (ss_override t) = Some ''system''"
proof -
  have "\<not> py_blank ''system''" "\<not> py_blank (''Recovery aborted: '' @ reason)" by (simp_all add: py_blank_def)
  then show ?thesis
    using assms
    by (simp add: abort_recovery_def validate_run_id_def clear_state_def Let_def force_mode_def update_mode_def)
qed

section \<open>Concrete runs\<close>


end
