(* ===== verification/Db_Buffer.thy ===== *)
theory Db_Buffer
  imports Degradation_Types
begin

text \<open>
  The buffer of degradation/db_buffer.py for database writes that failed: entries with
  idempotent keys, limits on their number and their serialised size, and a write-ahead log
  with one JSON line per entry from which the buffer is restored. Whether a file operation
  succeeds is an argument; a failing one is only logged, as in the code. The entry fields
  have the types their class declares. Lemmas: the limits hold in every run, the keys stay
  unique, and what the log restores is what the buffer held.
\<close>

section \<open>Entries and their log lines\<close>

record buffer_entry =
  be_resource_type :: string
  be_resource_id :: string
  be_data :: "(string \<times> json) list"
  be_timestamp :: datetime
  be_key :: string

definition entry_to_dict :: "buffer_entry \<Rightarrow> json" where
  "entry_to_dict e = JObj
     [(''resource_type'', JStr (be_resource_type e)),
      (''resource_id'', JStr (be_resource_id e)),
      (''data'', JObj (be_data e)),
      (''timestamp'', JStr (isoformat (be_timestamp e))),
      (''idempotent_key'', JStr (be_key e))]"

definition dict_get :: "(string \<times> json) list \<Rightarrow> string \<Rightarrow> json result" where
  "dict_get kvs k = (case map_of kvs k of None \<Rightarrow> Inl KeyError | Some v \<Rightarrow> Inr v)"

fun as_str :: "json \<Rightarrow> string result" where
  "as_str (JStr s) = Inr s"
| "as_str _ = Inl TypeError"

fun as_dict :: "json \<Rightarrow> (string \<times> json) list result" where
  "as_dict (JObj kvs) = Inr kvs"
| "as_dict _ = Inl TypeError"

definition parse_time :: "json \<Rightarrow> datetime result" where
  "parse_time v =
     res_bind (as_str v) (\<lambda>s. case fromisoformat s of None \<Rightarrow> Inl ValueError | Some d \<Rightarrow> Inr d)"

definition entry_from_dict :: "json \<Rightarrow> buffer_entry result" where
  "entry_from_dict v =
     res_bind (as_dict v) (\<lambda>kvs.
     res_bind (res_bind (dict_get kvs ''resource_type'') as_str) (\<lambda>rt.
     res_bind (res_bind (dict_get kvs ''resource_id'') as_str) (\<lambda>rid.
     res_bind (res_bind (dict_get kvs ''data'') as_dict) (\<lambda>dat.
     res_bind (res_bind (dict_get kvs ''timestamp'') parse_time) (\<lambda>t.
     res_bind (res_bind (dict_get kvs ''idempotent_key'') as_str) (\<lambda>k.
       Inr \<lparr>be_resource_type = rt, be_resource_id = rid, be_data = dat, be_timestamp = t, be_key = k\<rparr>))))))"

text \<open>\<open>len(json.dumps(data).encode("utf-8"))\<close>: the text is ASCII.\<close>

definition entry_bytes :: "buffer_entry \<Rightarrow> int" where
  "entry_bytes e = int (length (dumps (JObj (be_data e))))"

definition wal_line :: "buffer_entry \<Rightarrow> string" where
  "wal_line e = dumps (entry_to_dict e) @ [CHR 0x0A]"

section \<open>The buffer\<close>

record db_buffer =
  db_entries :: "buffer_entry list"
  db_keys :: "string set"
  db_bytes :: int
  wal_enabled :: bool
  wal_file :: "string option"

definition is_full :: "degradation_config \<Rightarrow> db_buffer \<Rightarrow> bool" where
  "is_full cfg b \<longleftrightarrow> int (length (db_entries b)) \<ge> db_buffer_max_entries cfg"

definition write_wal :: "bool \<Rightarrow> buffer_entry \<Rightarrow> db_buffer \<Rightarrow> db_buffer" where
  "write_wal io_ok e b =
     (if \<not> wal_enabled b \<or> \<not> io_ok then b
      else b\<lparr>wal_file := Some ((case wal_file b of None \<Rightarrow> '''' | Some t \<Rightarrow> t) @ wal_line e)\<rparr>)"

definition clear_wal :: "bool \<Rightarrow> db_buffer \<Rightarrow> db_buffer" where
  "clear_wal io_ok b = (if \<not> wal_enabled b \<or> \<not> io_ok then b else b\<lparr>wal_file := Some ''''\<rparr>)"

definition put_entry :: "buffer_entry \<Rightarrow> db_buffer \<Rightarrow> db_buffer" where
  "put_entry e b =
     b\<lparr>db_entries := db_entries b @ [e], db_keys := insert (be_key e) (db_keys b), db_bytes := db_bytes b + entry_bytes e\<rparr>"

definition add_entry :: "degradation_config \<Rightarrow> bool \<Rightarrow> buffer_entry \<Rightarrow> db_buffer \<Rightarrow> db_buffer \<times> bool" where
  "add_entry cfg io_ok e b =
     (if be_key e \<in> db_keys b then (b, True)
      else if int (length (db_entries b)) \<ge> db_buffer_max_entries cfg then (b, False)
      else if db_bytes b + entry_bytes e \<ge> db_buffer_max_bytes cfg then (b, False)
      else (write_wal io_ok e (put_entry e b), True))"

definition flush_to_db :: "bool \<Rightarrow> db_buffer \<Rightarrow> db_buffer \<times> nat" where
  "flush_to_db io_ok b =
     (if db_entries b = [] then (b, 0)
      else (clear_wal io_ok (b\<lparr>db_entries := [], db_keys := {}, db_bytes := 0\<rparr>), length (db_entries b)))"

section \<open>Restoring from the log\<close>

fun lines_of :: "string \<Rightarrow> string list" where
  "lines_of [] = []"
| "lines_of (c # cs) =
     (if c = CHR 0x0A then [] # lines_of cs
      else case lines_of cs of [] \<Rightarrow> [[c]] | l # ls \<Rightarrow> (c # l) # ls)"

definition strip :: "string \<Rightarrow> string" where
  "strip s =
     (let ws = (\<lambda>c. (of_char c :: nat) \<in> {9, 10, 11, 12, 13, 28, 29, 30, 31, 32, 133, 160})
      in rev (dropWhile ws (rev (dropWhile ws s))))"

text \<open>A line that is no JSON or lacks a key is skipped; other errors end the constructor.\<close>

fun read_lines :: "string list \<Rightarrow> buffer_entry list result" where
  "read_lines [] = Inr []"
| "read_lines (l # ls) =
     (if strip l = [] then read_lines ls
      else case loads (strip l) of
             None \<Rightarrow> read_lines ls
           | Some v \<Rightarrow>
               (case entry_from_dict v of
                  Inr e \<Rightarrow> res_bind (read_lines ls) (\<lambda>es. Inr (e # es))
                | Inl KeyError \<Rightarrow> read_lines ls
                | Inl err \<Rightarrow> Inl err))"

definition read_wal :: "db_buffer \<Rightarrow> buffer_entry list result" where
  "read_wal b =
     (if \<not> wal_enabled b then Inr []
      else case wal_file b of None \<Rightarrow> Inr [] | Some t \<Rightarrow> read_lines (lines_of t))"

definition restore_from_wal :: "db_buffer \<Rightarrow> db_buffer result" where
  "restore_from_wal b =
     res_bind (read_wal b)
       (\<lambda>es. Inr (fold (\<lambda>e b. if be_key e \<in> db_keys b then b else put_entry e b) es b))"

definition buffer_init :: "string option option \<Rightarrow> db_buffer result" where
  "buffer_init wal_path =
     (let b = \<lparr>db_entries = [], db_keys = {}, db_bytes = 0, wal_enabled = (wal_path \<noteq> None),
               wal_file = (case wal_path of None \<Rightarrow> None | Some f \<Rightarrow> f)\<rparr>
      in if wal_path \<noteq> None then restore_from_wal b else Inr b)"

section \<open>Lines read back\<close>

definition entry_ok :: "buffer_entry \<Rightarrow> bool" where
  "entry_ok e \<longleftrightarrow> json_ok (JObj (be_data e)) \<and> datetime_ok (be_timestamp e)"

lemma entry_round_trip: "entry_ok e \<Longrightarrow> entry_from_dict (entry_to_dict e) = Inr e"
  by (simp add: entry_ok_def entry_to_dict_def entry_from_dict_def dict_get_def parse_time_def fromisoformat_isoformat)

lemma entry_json_ok: "entry_ok e \<Longrightarrow> json_ok (entry_to_dict e)"
  by (simp add: entry_ok_def entry_to_dict_def)

lemma lines_of_append: "CHR 0x0A \<notin> set l \<Longrightarrow> lines_of (l @ CHR 0x0A # s) = l # lines_of s"
  by (induction l) auto

lemma plain_no_newline: "plain s \<Longrightarrow> CHR 0x0A \<notin> set s"
  by (auto simp: plain_def list_all_iff)

lemma strip_braces: "strip (CHR ''{'' # s @ ''}'') = CHR ''{'' # s @ ''}''"
  by (simp add: strip_def Let_def)

lemma strip_line: "strip (dumps (entry_to_dict e)) = dumps (entry_to_dict e)"
proof -
  obtain s where "dumps (entry_to_dict e) = CHR ''{'' # s @ ''}''" by (auto simp: entry_to_dict_def)
  then show ?thesis by (simp only: strip_braces)
qed

lemma lines_of_wal: "lines_of (concat (map wal_line es)) = map (\<lambda>e. dumps (entry_to_dict e)) es"
  by (induction es) (simp_all add: wal_line_def lines_of_append plain_no_newline dumps_plain del: dumps.simps)

lemma read_lines_wal:
  assumes "list_all entry_ok es"
  shows "read_lines (map (\<lambda>e. dumps (entry_to_dict e)) es) = Inr es"
  using assms
proof (induction es)
  case (Cons e es)
  have "dumps (entry_to_dict e) \<noteq> []" by (simp add: entry_to_dict_def)
  with Cons show ?case
    by (simp add: strip_line loads_dumps entry_json_ok entry_round_trip del: dumps.simps)
qed simp

section \<open>Invariant of the buffer\<close>

definition total_bytes :: "buffer_entry list \<Rightarrow> int" where
  "total_bytes es = sum_list (map entry_bytes es)"

definition buffer_ok :: "degradation_config \<Rightarrow> db_buffer \<Rightarrow> bool" where
  "buffer_ok cfg b \<longleftrightarrow>
     distinct (map be_key (db_entries b)) \<and> db_keys b = be_key ` set (db_entries b)
     \<and> db_bytes b = total_bytes (db_entries b) \<and> list_all entry_ok (db_entries b)
     \<and> int (length (db_entries b)) \<le> max 0 (db_buffer_max_entries cfg)
     \<and> (db_entries b = [] \<or> db_bytes b < db_buffer_max_bytes cfg)"

definition wal_complete :: "db_buffer \<Rightarrow> bool" where
  "wal_complete b \<longleftrightarrow>
     wal_enabled b \<and> (case wal_file b of None \<Rightarrow> '''' | Some t \<Rightarrow> t) = concat (map wal_line (db_entries b))"

datatype buffer_command = Add bool buffer_entry | Flush bool

fun buffer_apply :: "degradation_config \<Rightarrow> buffer_command \<Rightarrow> db_buffer \<Rightarrow> db_buffer" where
  "buffer_apply cfg (Add io_ok e) b = fst (add_entry cfg io_ok e b)"
| "buffer_apply cfg (Flush io_ok) b = fst (flush_to_db io_ok b)"

fun command_ok :: "buffer_command \<Rightarrow> bool" where
  "command_ok (Add _ e) = entry_ok e"
| "command_ok (Flush _) = True"

inductive buffer_step :: "degradation_config \<Rightarrow> db_buffer \<Rightarrow> db_buffer \<Rightarrow> bool" for cfg where
  "command_ok c \<Longrightarrow> buffer_step cfg b (buffer_apply cfg c b)"

inductive_cases buffer_stepE: "buffer_step cfg b c"

lemma write_wal_frame [simp]:
  "db_entries (write_wal io_ok e b) = db_entries b" "db_keys (write_wal io_ok e b) = db_keys b"
  "db_bytes (write_wal io_ok e b) = db_bytes b" "wal_enabled (write_wal io_ok e b) = wal_enabled b"
  by (simp_all add: write_wal_def)

lemma clear_wal_frame [simp]:
  "db_entries (clear_wal io_ok b) = db_entries b" "db_keys (clear_wal io_ok b) = db_keys b"
  "db_bytes (clear_wal io_ok b) = db_bytes b" "wal_enabled (clear_wal io_ok b) = wal_enabled b"
  by (simp_all add: clear_wal_def)

lemma add_entry_ok: "buffer_ok cfg b \<Longrightarrow> entry_ok e \<Longrightarrow> buffer_ok cfg (fst (add_entry cfg io_ok e b))"
  by (auto simp: buffer_ok_def add_entry_def put_entry_def total_bytes_def)

lemma flush_ok: "buffer_ok cfg b \<Longrightarrow> buffer_ok cfg (fst (flush_to_db io_ok b))"
  by (auto simp: buffer_ok_def flush_to_db_def total_bytes_def)

interpretation buffer_run: step_invariant "buffer_step cfg" "buffer_ok cfg" for cfg
proof
  fix s t assume "buffer_step cfg s t" and "buffer_ok cfg s"
  then show "buffer_ok cfg t"
    by (elim buffer_stepE) (metis add_entry_ok buffer_apply.simps buffer_command.exhaust command_ok.simps(1) flush_ok)
qed

lemma add_entry_wal: "wal_complete b \<Longrightarrow> wal_complete (fst (add_entry cfg True e b))"
  by (auto simp: wal_complete_def add_entry_def put_entry_def write_wal_def split: option.splits)

lemma flush_wal: "wal_complete b \<Longrightarrow> wal_complete (fst (flush_to_db True b))"
  by (simp add: wal_complete_def flush_to_db_def clear_wal_def)

text \<open>Replaying entries with distinct keys into an empty buffer.\<close>

lemma replay:
  assumes "distinct (map be_key (xs @ es))" and "db_keys b = be_key ` set xs"
  shows "fold (\<lambda>e b. if be_key e \<in> db_keys b then b else put_entry e b) es b
    = b\<lparr>db_entries := db_entries b @ es, db_keys := be_key ` set (xs @ es), db_bytes := db_bytes b + total_bytes es\<rparr>"
  using assms
proof (induction es arbitrary: xs b)
  case Nil
  then show ?case by (simp add: total_bytes_def)
next
  case (Cons e es)
  have "be_key e \<notin> db_keys b" using Cons.prems by auto
  moreover have "db_keys (put_entry e b) = be_key ` set (xs @ [e])" using Cons.prems(2) by (simp add: put_entry_def)
  moreover have "distinct (map be_key ((xs @ [e]) @ es))" using Cons.prems(1) by simp
  ultimately show ?case
    using Cons.IH [of "xs @ [e]" "put_entry e b"] by (simp add: put_entry_def total_bytes_def insert_commute)
qed

lemma restore_complete:
  assumes "buffer_ok cfg b" and "wal_complete b"
  shows "\<exists>b'. buffer_init (Some (wal_file b)) = Inr b' \<and> db_entries b' = db_entries b
    \<and> db_keys b' = db_keys b \<and> db_bytes b' = db_bytes b"
proof -
  let ?es = "db_entries b"
  have es: "distinct (map be_key ([] @ ?es))" "list_all entry_ok ?es" "db_keys b = be_key ` set ?es"
    "db_bytes b = total_bytes ?es"
    using assms(1) by (simp_all add: buffer_ok_def)
  have "read_wal \<lparr>db_entries = [], db_keys = {}, db_bytes = 0, wal_enabled = True, wal_file = wal_file b\<rparr> = Inr ?es"
    using assms(2) lines_of_wal [of ?es] read_lines_wal [OF es(2)]
    by (auto simp: read_wal_def wal_complete_def split: option.splits)
  then show ?thesis
    using replay [OF es(1)] es(3,4) by (simp add: buffer_init_def restore_from_wal_def Let_def)
qed

section \<open>Properties\<close>

definition fresh_buffer :: db_buffer where
  "fresh_buffer = \<lparr>db_entries = [], db_keys = {}, db_bytes = 0, wal_enabled = True, wal_file = None\<rparr>"

lemma fresh_buffer_init: "buffer_init (Some None) = Inr fresh_buffer"
  by (simp add: buffer_init_def restore_from_wal_def read_wal_def fresh_buffer_def Let_def)

lemma fresh_buffer_ok: "buffer_ok cfg fresh_buffer \<and> wal_complete fresh_buffer"
  by (simp add: fresh_buffer_def buffer_ok_def wal_complete_def total_bytes_def)

fun logged :: "buffer_command \<Rightarrow> bool" where
  "logged (Add io_ok e) \<longleftrightarrow> io_ok \<and> entry_ok e"
| "logged (Flush io_ok) \<longleftrightarrow> io_ok"

lemma run_complete:
  assumes "list_all logged cs" and "buffer_ok cfg b" and "wal_complete b"
  shows "buffer_ok cfg (fold (buffer_apply cfg) cs b) \<and> wal_complete (fold (buffer_apply cfg) cs b)"
  using assms
proof (induction cs arbitrary: b)
  case (Cons c cs)
  then have "buffer_ok cfg (buffer_apply cfg c b) \<and> wal_complete (buffer_apply cfg c b)"
    by (cases c) (auto simp: add_entry_ok add_entry_wal flush_ok flush_wal)
  then show ?case using Cons by simp
qed simp

text \<open>C17. Crash recovery: after any sequence of additions and flushes whose file operations succeed,
  a buffer opened on the log file that is left behind holds the same entries in the same
  order, the same keys and the same byte count as the buffer that was lost.\<close>

theorem wal_recovers_buffer:
  assumes "list_all logged cs"
  shows "\<exists>b'. buffer_init (Some (wal_file (fold (buffer_apply cfg) cs fresh_buffer))) = Inr b'
    \<and> db_entries b' = db_entries (fold (buffer_apply cfg) cs fresh_buffer)
    \<and> db_keys b' = db_keys (fold (buffer_apply cfg) cs fresh_buffer)
    \<and> db_bytes b' = db_bytes (fold (buffer_apply cfg) cs fresh_buffer)"
  using run_complete [OF assms] fresh_buffer_ok restore_complete by blast

text \<open>The buffer is bounded and deduplicates, whatever the file system does: in every reachable
  state the number of entries and their total size respect the limits and no key occurs
  twice; an addition is refused only when a limit would be exceeded and then changes nothing;
  and adding an entry whose key is present succeeds without any effect.\<close>

theorem buffer_bounded:
  assumes "(buffer_step cfg)\<^sup>*\<^sup>* fresh_buffer b"
  shows "int (length (db_entries b)) \<le> max 0 (db_buffer_max_entries cfg)
    \<and> (db_entries b = [] \<or> total_bytes (db_entries b) < db_buffer_max_bytes cfg)
    \<and> distinct (map be_key (db_entries b))
    \<and> (case add_entry cfg io_ok e b of
         (b', False) \<Rightarrow> b' = b \<and> (is_full cfg b \<or> db_buffer_max_bytes cfg \<le> total_bytes (db_entries b) + entry_bytes e)
       | (b', True) \<Rightarrow> db_entries b' =
           (if be_key e \<in> be_key ` set (db_entries b) then db_entries b else db_entries b @ [e]))
    \<and> (be_key e \<in> be_key ` set (db_entries b) \<longrightarrow> add_entry cfg io_ok e b = (b, True))"
proof -
  have "buffer_ok cfg b" using buffer_run.run_keeps [OF assms] fresh_buffer_ok by blast
  then show ?thesis
    by (auto simp: buffer_ok_def add_entry_def put_entry_def is_full_def)
qed

text \<open>A log line that is JSON with all keys but with a timestamp that does not parse is not
  skipped: \<open>fromisoformat\<close> raises a plain ValueError, which \<open>_read_wal\<close> does not catch.\<close>

lemma bad_timestamp_raises:
  "buffer_init (Some (Some (dumps (JObj [(''resource_type'', JStr ''order''), (''resource_id'', JStr ''1''),
      (''data'', JObj []), (''timestamp'', JStr ''yesterday''), (''idempotent_key'', JStr ''k'')]) @ [CHR 0x0A])))
    = Inl ValueError"
  (is "buffer_init (Some (Some (dumps ?v @ [CHR 0x0A]))) = _")
proof -
  have "entry_from_dict ?v = Inl ValueError"
    by (simp add: entry_from_dict_def dict_get_def parse_time_def fromisoformat_def read_fixed_def is_digit_def)
  moreover have "strip (dumps ?v) = dumps ?v"
  proof -
    obtain s where "dumps ?v = CHR ''{'' # s @ ''}''" by simp
    then show ?thesis by (simp only: strip_braces)
  qed
  moreover have "dumps ?v \<noteq> []" by simp
  moreover have "loads (dumps ?v) = Some ?v" by (rule loads_dumps) simp
  moreover have "lines_of (dumps ?v @ [CHR 0x0A]) = [dumps ?v]"
    using lines_of_append [OF plain_no_newline [OF dumps_plain], of ?v "[]"] by simp
  ultimately show ?thesis
    by (simp add: buffer_init_def restore_from_wal_def read_wal_def Let_def del: dumps.simps)
qed

section \<open>Concrete runs\<close>

definition demo_entry :: "string \<Rightarrow> buffer_entry" where
  "demo_entry k =
     \<lparr>be_resource_type = ''order'', be_resource_id = ''12345'', be_data = [(''symbol'', JStr ''AAPL''), (''qty'', JInt 100)],
      be_timestamp = \<lparr>dt_year = 2026, dt_month = 1, dt_day = 5, dt_hour = 9, dt_minute = 30, dt_second = 0,
                      dt_micro = 0, dt_offset = Some 0\<rparr>,
      be_key = k\<rparr>"

lemma demo_entry_ok: "entry_ok (demo_entry k)"
  by (simp add: entry_ok_def demo_entry_def datetime_ok_def days_in_month_def)

theorem wal_recovers_buffer_witness:
  "\<exists>b'. buffer_init (Some (wal_file (fold (buffer_apply default_degradation_config)
      [Add True (demo_entry ''a''), Add True (demo_entry ''b''), Add True (demo_entry ''a'')] fresh_buffer))) = Inr b'
    \<and> map be_key (db_entries b') = [''a'', ''b'']"
proof -
  let ?b = "fold (buffer_apply default_degradation_config)
      [Add True (demo_entry ''a''), Add True (demo_entry ''b''), Add True (demo_entry ''a'')] fresh_buffer"
  have "length (dumps (JObj [(''symbol'', JStr ''AAPL''), (''qty'', JInt 100)])) = 30" by code_simp
  then have size: "entry_bytes (demo_entry k) = 30" for k by (simp add: entry_bytes_def demo_entry_def)
  have "map be_key (db_entries ?b) = [''a'', ''b'']"
    using size
    by (simp add: add_entry_def fresh_buffer_def default_degradation_config_def put_entry_def write_wal_def)
      (simp add: demo_entry_def)
  moreover obtain b' where "buffer_init (Some (wal_file ?b)) = Inr b'" "db_entries b' = db_entries ?b"
    using wal_recovers_buffer [of "[Add True (demo_entry ''a''), Add True (demo_entry ''b''), Add True (demo_entry ''a'')]"
        default_degradation_config] by (auto simp: demo_entry_ok)
  ultimately show ?thesis by (metis (no_types))
qed

theorem buffer_bounded_witness:
  "int (length (db_entries (buffer_apply default_degradation_config (Add False (demo_entry ''a'')) fresh_buffer))) \<le> 1000"
proof -
  have "(buffer_step default_degradation_config)\<^sup>*\<^sup>* fresh_buffer
      (buffer_apply default_degradation_config (Add False (demo_entry ''a'')) fresh_buffer)"
    by (intro r_into_rtranclp buffer_step.intros) (simp add: demo_entry_ok)
  note bounded = buffer_bounded [OF this, THEN conjunct1]
  have "db_buffer_max_entries default_degradation_config = 1000" by (simp add: default_degradation_config_def)
  with bounded show ?thesis by simp
qed

end
