(* ===== verification/Audit_Values.thy ===== *)
theory Audit_Values
  imports Iso_Time
begin

text \<open>
  The data of src/backend/src/audit: models.py with the string values of its enumerations,
  the tiers and rules of config.py, and the treatment of recorded values in diff.py
  (redaction and the size limit). SHA-256 (a C library behind \<open>hashlib\<close>) and the jsonpatch
  package are parameters. The lemmas say what redaction leaves of a value.
\<close>

section \<open>Models\<close>

datatype audit_event_type =
    ORDER_PLACED | ORDER_ACKNOWLEDGED | ORDER_FILLED | ORDER_CANCELLED | ORDER_REJECTED
  | CONFIG_CREATED | CONFIG_UPDATED | CONFIG_DELETED
  | ALERT_EMITTED | ALERT_ACKNOWLEDGED | ALERT_RESOLVED
  | SYSTEM_STARTED | SYSTEM_STOPPED | HEALTH_CHANGED
  | AUTH_LOGIN | AUTH_LOGOUT | AUTH_FAILED | PERMISSION_CHANGED

fun audit_event_value :: "audit_event_type \<Rightarrow> string" where
  "audit_event_value ORDER_PLACED = ''order_placed''"
| "audit_event_value ORDER_ACKNOWLEDGED = ''order_acknowledged''"
| "audit_event_value ORDER_FILLED = ''order_filled''"
| "audit_event_value ORDER_CANCELLED = ''order_cancelled''"
| "audit_event_value ORDER_REJECTED = ''order_rejected''"
| "audit_event_value CONFIG_CREATED = ''config_created''"
| "audit_event_value CONFIG_UPDATED = ''config_updated''"
| "audit_event_value CONFIG_DELETED = ''config_deleted''"
| "audit_event_value ALERT_EMITTED = ''alert_emitted''"
| "audit_event_value ALERT_ACKNOWLEDGED = ''alert_acknowledged''"
| "audit_event_value ALERT_RESOLVED = ''alert_resolved''"
| "audit_event_value SYSTEM_STARTED = ''system_started''"
| "audit_event_value SYSTEM_STOPPED = ''system_stopped''"
| "audit_event_value HEALTH_CHANGED = ''health_changed''"
| "audit_event_value AUTH_LOGIN = ''auth_login''"
| "audit_event_value AUTH_LOGOUT = ''auth_logout''"
| "audit_event_value AUTH_FAILED = ''auth_failed''"
| "audit_event_value PERMISSION_CHANGED = ''permission_changed''"

datatype actor_type = ACTOR_USER | ACTOR_SYSTEM | ACTOR_API | ACTOR_SCHEDULER

fun actor_value :: "actor_type \<Rightarrow> string" where
  "actor_value ACTOR_USER = ''user''"
| "actor_value ACTOR_SYSTEM = ''system''"
| "actor_value ACTOR_API = ''api''"
| "actor_value ACTOR_SCHEDULER = ''scheduler''"

datatype audit_severity = AUDIT_INFO | AUDIT_WARNING | AUDIT_CRITICAL

fun audit_severity_value :: "audit_severity \<Rightarrow> string" where
  "audit_severity_value AUDIT_INFO = ''info''"
| "audit_severity_value AUDIT_WARNING = ''warning''"
| "audit_severity_value AUDIT_CRITICAL = ''critical''"

datatype resource_type =
  RES_ORDER | RES_POSITION | RES_CONFIG | RES_ALERT | RES_STRATEGY | RES_ACCOUNT | RES_PERMISSION | RES_SESSION

fun resource_value :: "resource_type \<Rightarrow> string" where
  "resource_value RES_ORDER = ''order''"
| "resource_value RES_POSITION = ''position''"
| "resource_value RES_CONFIG = ''config''"
| "resource_value RES_ALERT = ''alert''"
| "resource_value RES_STRATEGY = ''strategy''"
| "resource_value RES_ACCOUNT = ''account''"
| "resource_value RES_PERMISSION = ''permission''"
| "resource_value RES_SESSION = ''session''"

datatype event_source = SRC_WEB | SRC_API | SRC_WORKER | SRC_SCHEDULER | SRC_SYSTEM | SRC_CLI

fun source_value :: "event_source \<Rightarrow> string" where
  "source_value SRC_WEB = ''web''"
| "source_value SRC_API = ''api''"
| "source_value SRC_WORKER = ''worker''"
| "source_value SRC_SCHEDULER = ''scheduler''"
| "source_value SRC_SYSTEM = ''system''"
| "source_value SRC_CLI = ''cli''"

datatype value_mode = MODE_DIFF | MODE_SNAPSHOT | MODE_REFERENCE

fun value_mode_value :: "value_mode \<Rightarrow> string" where
  "value_mode_value MODE_DIFF = ''diff''"
| "value_mode_value MODE_SNAPSHOT = ''snapshot''"
| "value_mode_value MODE_REFERENCE = ''reference''"

type_synonym dict = "(string \<times> json) list"

record audit_event =
  ae_event_id :: string
  ae_timestamp :: datetime
  ae_event_type :: audit_event_type
  ae_severity :: audit_severity
  ae_actor_id :: string
  ae_actor_type :: actor_type
  ae_resource_type :: resource_type
  ae_resource_id :: string
  ae_request_id :: string
  ae_source :: event_source
  ae_environment :: string
  ae_service :: string
  ae_version :: string
  ae_actor_display :: "string option"
  ae_impersonator_id :: "string option"
  ae_value_mode :: value_mode
  ae_old_value :: "dict option"
  ae_new_value :: "dict option"
  ae_value_hash :: "string option"
  ae_trace_id :: "string option"
  ae_correlation_id :: "string option"
  ae_client_ip :: "string option"
  ae_user_agent :: "string option"
  ae_schema_version :: int
  ae_metadata :: "dict option"

section \<open>Configuration\<close>

definition tier_0_events :: "audit_event_type list" where
  "tier_0_events =
     [ORDER_PLACED, ORDER_FILLED, ORDER_CANCELLED, ORDER_REJECTED, CONFIG_CREATED, CONFIG_UPDATED, CONFIG_DELETED,
      PERMISSION_CHANGED, AUTH_LOGIN, AUTH_FAILED]"

definition tier_1_events :: "audit_event_type list" where
  "tier_1_events =
     [ALERT_EMITTED, ALERT_ACKNOWLEDGED, ALERT_RESOLVED, HEALTH_CHANGED, SYSTEM_STARTED, SYSTEM_STOPPED]"

definition value_mode_config :: "audit_event_type \<Rightarrow> value_mode option" where
  "value_mode_config = map_of
     [(CONFIG_UPDATED, MODE_DIFF), (PERMISSION_CHANGED, MODE_DIFF), (ORDER_PLACED, MODE_SNAPSHOT),
      (ORDER_FILLED, MODE_SNAPSHOT), (ORDER_CANCELLED, MODE_SNAPSHOT)]"

definition checksum_fields :: "string list" where
  "checksum_fields =
     [''event_id'', ''timestamp'', ''event_type'', ''actor_id'', ''resource_type'', ''resource_id'',
      ''old_value'', ''new_value'']"

definition redaction_rules :: "string \<Rightarrow> string list option" where
  "redaction_rules = map_of
     [(''account'', [''api_key'', ''api_secret'', ''password'', ''token'']),
      (''config'', [''credentials'', ''secret'', ''password'', ''key'']),
      (''*'', [''email'', ''phone'', ''id_card'', ''ssn''])]"

definition max_value_size_bytes :: int where
  "max_value_size_bytes = 32768"

definition get_tier :: "audit_event_type \<Rightarrow> nat" where
  "get_tier t = (if t \<in> set tier_0_events then 0 else 1)"

definition get_value_mode :: "audit_event_type \<Rightarrow> value_mode" where
  "get_value_mode t = (case value_mode_config t of None \<Rightarrow> MODE_DIFF | Some m \<Rightarrow> m)"

definition is_sync_required :: "audit_event_type \<Rightarrow> bool" where
  "is_sync_required t \<longleftrightarrow> t \<in> set tier_0_events"

section \<open>Redaction and size\<close>

definition compute_diff_jsonpatch :: "(json \<Rightarrow> json \<Rightarrow> json list) \<Rightarrow> dict option \<Rightarrow> dict option \<Rightarrow> dict option" where
  "compute_diff_jsonpatch make_patch old new =
     (if old = None \<and> new = None then None
      else
        (let old_val = (case old of None \<Rightarrow> [] | Some d \<Rightarrow> d);
             new_val = (case new of None \<Rightarrow> [] | Some d \<Rightarrow> d);
             patch = make_patch (JObj old_val) (JObj new_val)
         in if patch = [] then None else Some [(''patch'', JList patch)]))"

definition mask_value :: "string \<Rightarrow> string" where
  "mask_value s =
     (if length s < 4 then ''****'' else take 2 s @ ''****'' @ drop (length s - 2) s)"

text \<open>The branch of \<open>_redact_value\<close> for values that are neither dictionaries nor lists.\<close>

fun redact_leaf :: "string set \<Rightarrow> string \<Rightarrow> json \<Rightarrow> json" where
  "redact_leaf sens key (JStr s) = (if key \<in> sens then JStr (mask_value s) else JStr s)"
| "redact_leaf sens key v = (if key \<in> sens then JStr ''****'' else v)"

primrec redact_value :: "string set \<Rightarrow> json \<Rightarrow> string \<Rightarrow> json" where
  "redact_value sens JNull = (\<lambda>key. redact_leaf sens key JNull)"
| "redact_value sens (JBool b) = (\<lambda>key. redact_leaf sens key (JBool b))"
| "redact_value sens (JInt n) = (\<lambda>key. redact_leaf sens key (JInt n))"
| "redact_value sens (JStr s) = (\<lambda>key. redact_leaf sens key (JStr s))"
| "redact_value sens (JList xs) = (\<lambda>key. JList (map (\<lambda>f. f key) (map (redact_value sens) xs)))"
| "redact_value sens (JObj kvs) =
     (\<lambda>key. JObj (map (\<lambda>(k, f). (k, f k)) (map (map_prod id (redact_value sens)) kvs)))"

definition sensitive_fields :: "string \<Rightarrow> string set" where
  "sensitive_fields rt =
     (case redaction_rules rt of None \<Rightarrow> {} | Some fs \<Rightarrow> set fs)
     \<union> (case redaction_rules ''*'' of None \<Rightarrow> {} | Some fs \<Rightarrow> set fs)"

definition redact_sensitive_fields :: "dict option \<Rightarrow> string \<Rightarrow> dict option" where
  "redact_sensitive_fields data rt =
     map_option (map (\<lambda>(k, v). (k, redact_value (sensitive_fields rt) v k))) data"

definition enforce_size_limit :: "(string \<Rightarrow> string) \<Rightarrow> dict option \<Rightarrow> dict option \<times> string option \<times> value_mode" where
  "enforce_size_limit digest v =
     (case v of
        None \<Rightarrow> (None, None, MODE_DIFF)
      | Some d \<Rightarrow>
          (let serialized = dumps_sorted (JObj d)
           in if int (length serialized) \<le> max_value_size_bytes then (Some d, None, MODE_DIFF)
              else (None, Some (digest serialized), MODE_REFERENCE)))"

section \<open>What redaction leaves\<close>

text \<open>The leaves of a value, each under the nearest key above it.\<close>

primrec leaves :: "json \<Rightarrow> string \<Rightarrow> (string \<times> json) list" where
  "leaves JNull = (\<lambda>key. [(key, JNull)])"
| "leaves (JBool b) = (\<lambda>key. [(key, JBool b)])"
| "leaves (JInt n) = (\<lambda>key. [(key, JInt n)])"
| "leaves (JStr s) = (\<lambda>key. [(key, JStr s)])"
| "leaves (JList xs) = (\<lambda>key. concat (map (\<lambda>f. f key) (map leaves xs)))"
| "leaves (JObj kvs) = (\<lambda>key. concat (map (\<lambda>(k, f). f k) (map (map_prod id leaves) kvs)))"

definition dict_leaves :: "dict \<Rightarrow> (string \<times> json) list" where
  "dict_leaves d = concat (map (\<lambda>(k, v). leaves v k) d)"

lemma leaves_redact: "leaves (redact_value sens v key) key = map (\<lambda>(k, l). (k, redact_leaf sens k l)) (leaves v key)"
proof (induction v arbitrary: key)
  case (JList xs)
  then show ?case by (induction xs) auto
next
  case (JObj kvs)
  have "leaves (redact_value sens v k) k = map (\<lambda>(k, l). (k, redact_leaf sens k l)) (leaves v k)"
    if "(k, v) \<in> set kvs" for k v
    using JObj [of "(k, v)" v] that by simp
  then show ?case by (auto simp: map_concat comp_def case_prod_unfold intro!: arg_cong [of _ _ concat])
qed auto

lemma redact_dict_leaves:
  "redact_sensitive_fields (Some d) rt = Some d' \<Longrightarrow>
   dict_leaves d' = map (\<lambda>(k, l). (k, redact_leaf (sensitive_fields rt) k l)) (dict_leaves d)"
proof -
  assume "redact_sensitive_fields (Some d) rt = Some d'"
  then have d': "d' = map (\<lambda>(k, v). (k, redact_value (sensitive_fields rt) v k)) d"
    by (simp add: redact_sensitive_fields_def)
  show ?thesis unfolding d' by (induction d) (auto simp: dict_leaves_def leaves_redact)
qed

lemma mask_length: "length (mask_value s) = (if length s < 4 then 4 else 8)"
  by (simp add: mask_value_def)

end
