(* ===== verification/Audit_Chain.thy ===== *)
theory Audit_Chain
  imports Audit_Values
begin

text \<open>
  The hash chain of audit/integrity.py and the tables of audit/repository.py: checksums over
  the canonical JSON of an event and its predecessor's checksum, persistence with a chain
  head, and the verification of a chain. The digest is a parameter, so tamper evidence is
  stated as: two chains that verify and end in the same checksum agree, or they exhibit two
  texts with the same digest. A row is what the driver returns: a dictionary whose values
  are JSON values, datetimes or UUIDs.
\<close>

section \<open>Checksums\<close>

datatype py_value = Json json | Time datetime | Uuid string

type_synonym row = "(string \<times> py_value) list"

fun serialize_opt_dict :: "dict option \<Rightarrow> json" where
  "serialize_opt_dict None = JNull"
| "serialize_opt_dict (Some d) = JStr (dumps_sorted (JObj d))"

definition opt_str :: "string option \<Rightarrow> json" where
  "opt_str v = (case v of None \<Rightarrow> JNull | Some s \<Rightarrow> JStr s)"

text \<open>The serialised checksum fields of an event, in the order of \<open>CHECKSUM_FIELDS\<close>.\<close>

definition event_content :: "audit_event \<Rightarrow> dict" where
  "event_content e = zip checksum_fields
     [JStr (ae_event_id e), JStr (isoformat (ae_timestamp e)), JStr (audit_event_value (ae_event_type e)),
      JStr (ae_actor_id e), JStr (resource_value (ae_resource_type e)), JStr (ae_resource_id e),
      serialize_opt_dict (ae_old_value e), serialize_opt_dict (ae_new_value e)]"

definition chain_content :: "dict \<Rightarrow> json \<Rightarrow> json \<Rightarrow> json" where
  "chain_content content seq prev =
     JObj (content @ [(''sequence_id'', seq), (''prev_checksum'', prev)])"

definition compute_checksum :: "(string \<Rightarrow> string) \<Rightarrow> audit_event \<Rightarrow> int \<Rightarrow> string option \<Rightarrow> string" where
  "compute_checksum digest e seq prev =
     digest (dumps_sorted (chain_content (event_content e) (JInt seq) (opt_str prev)))"

definition row_get :: "row \<Rightarrow> string \<Rightarrow> py_value" where
  "row_get r f = (case map_of r f of None \<Rightarrow> Json JNull | Some v \<Rightarrow> v)"

text \<open>A dictionary is stored as its JSON text; \<open>json.dumps\<close> raises TypeError on what is not JSON.\<close>

fun row_field :: "py_value \<Rightarrow> json result" where
  "row_field (Json (JObj d)) = Inr (JStr (dumps_sorted (JObj d)))"
| "row_field (Json v) = Inr v"
| "row_field (Time t) = Inl TypeError"
| "row_field (Uuid u) = Inl TypeError"

fun as_json :: "py_value \<Rightarrow> json result" where
  "as_json (Json v) = Inr v"
| "as_json (Time t) = Inl TypeError"
| "as_json (Uuid u) = Inl TypeError"

fun collect :: "'a result list \<Rightarrow> 'a list result" where
  "collect [] = Inr []"
| "collect (r # rs) = res_bind r (\<lambda>x. res_bind (collect rs) (\<lambda>xs. Inr (x # xs)))"

definition row_content :: "row \<Rightarrow> dict result" where
  "row_content r =
     res_bind (collect (map (\<lambda>f. row_field (row_get r f)) checksum_fields)) (\<lambda>vs. Inr (zip checksum_fields vs))"

definition checksum_from_row :: "(string \<Rightarrow> string) \<Rightarrow> row \<Rightarrow> py_value \<Rightarrow> py_value \<Rightarrow> string result" where
  "checksum_from_row digest r seq prev =
     res_bind (row_content r) (\<lambda>content.
     res_bind (as_json seq) (\<lambda>s.
     res_bind (as_json prev) (\<lambda>p.
       Inr (digest (dumps_sorted (chain_content content s p))))))"

definition verify_checksum :: "(string \<Rightarrow> string) \<Rightarrow> row \<Rightarrow> py_value \<Rightarrow> py_value \<Rightarrow> bool result" where
  "verify_checksum digest r seq prev =
     res_bind (checksum_from_row digest r seq prev) (\<lambda>c. Inr (row_get r ''checksum'' = Json (JStr c)))"

section \<open>Verification of a chain\<close>

datatype chain_error =
    First_Has_Prev py_value
  | Not_Increasing py_value py_value
  | Chain_Broken py_value
  | Invalid_Checksum py_value

text \<open>\<open>sequence_id <= prev_sequence_id\<close>: comparing anything but two integers raises.\<close>

fun seq_le :: "py_value \<Rightarrow> py_value \<Rightarrow> bool result" where
  "seq_le (Json (JInt m)) (Json (JInt n)) = Inr (m \<le> n)"
| "seq_le _ _ = Inl TypeError"

definition step_errors ::
  "(string \<Rightarrow> string) \<Rightarrow> bool \<Rightarrow> py_value \<Rightarrow> py_value \<Rightarrow> row \<Rightarrow> chain_error list result" where
  "step_errors digest first prev_seq prev_sum r =
     (let seq = row_get r ''sequence_id''; stored = row_get r ''checksum''; stored_prev = row_get r ''prev_checksum'';
          e1 = (if first \<and> stored_prev \<noteq> Json JNull then [First_Has_Prev seq] else [])
      in res_bind (if prev_seq \<noteq> Json JNull then seq_le seq prev_seq else Inr False) (\<lambda>le.
         let e2 = (if le then [Not_Increasing seq prev_seq] else []);
             e3 = (if \<not> first \<and> stored_prev \<noteq> prev_sum then [Chain_Broken seq] else [])
         in res_bind (checksum_from_row digest r seq stored_prev) (\<lambda>computed.
              Inr (e1 @ e2 @ e3 @ (if stored \<noteq> Json (JStr computed) then [Invalid_Checksum seq] else [])))))"

fun verify_loop ::
  "(string \<Rightarrow> string) \<Rightarrow> bool \<Rightarrow> py_value \<Rightarrow> py_value \<Rightarrow> row list \<Rightarrow> chain_error list result" where
  "verify_loop digest first prev_seq prev_sum [] = Inr []"
| "verify_loop digest first prev_seq prev_sum (r # rs) =
     res_bind (step_errors digest first prev_seq prev_sum r) (\<lambda>es.
     res_bind (verify_loop digest False (row_get r ''sequence_id'') (row_get r ''checksum'') rs) (\<lambda>rest.
       Inr (es @ rest)))"

definition verify_chain :: "(string \<Rightarrow> string) \<Rightarrow> row list \<Rightarrow> (bool \<times> chain_error list) result" where
  "verify_chain digest events =
     res_bind (verify_loop digest True (Json JNull) (Json JNull) events) (\<lambda>errors. Inr (errors = [], errors))"

section \<open>The repository\<close>

record audit_db =
  audit_logs :: "row list"
  chain_heads :: "string \<rightharpoonup> string \<times> int"
  audit_sequence :: int

fun opt_json :: "dict option \<Rightarrow> json" where
  "opt_json None = JNull"
| "opt_json (Some d) = JObj d"

definition audit_row :: "audit_event \<Rightarrow> int \<Rightarrow> string \<Rightarrow> string option \<Rightarrow> string \<Rightarrow> row" where
  "audit_row e seq checksum prev chain_key =
     [(''id'', Uuid (ae_event_id e)), (''sequence_id'', Json (JInt seq)), (''timestamp'', Time (ae_timestamp e)),
      (''event_type'', Json (JStr (audit_event_value (ae_event_type e)))),
      (''severity'', Json (JStr (audit_severity_value (ae_severity e)))),
      (''actor_id'', Json (JStr (ae_actor_id e))), (''actor_type'', Json (JStr (actor_value (ae_actor_type e)))),
      (''resource_type'', Json (JStr (resource_value (ae_resource_type e)))),
      (''resource_id'', Json (JStr (ae_resource_id e))), (''request_id'', Json (JStr (ae_request_id e))),
      (''source'', Json (JStr (source_value (ae_source e)))), (''environment'', Json (JStr (ae_environment e))),
      (''service'', Json (JStr (ae_service e))), (''version'', Json (JStr (ae_version e))),
      (''correlation_id'', Json (opt_str (ae_correlation_id e))),
      (''value_mode'', Json (JStr (value_mode_value (ae_value_mode e)))),
      (''old_value'', Json (opt_json (ae_old_value e))), (''new_value'', Json (opt_json (ae_new_value e))),
      (''metadata'', Json (opt_json (ae_metadata e))), (''checksum'', Json (JStr checksum)),
      (''prev_checksum'', Json (opt_str prev)), (''chain_key'', Json (JStr chain_key))]"

text \<open>One transaction: the head is locked, the sequence is advanced, the event is inserted and the
  head is replaced.\<close>

definition persist_audit_event ::
  "(string \<Rightarrow> string) \<Rightarrow> audit_event \<Rightarrow> string \<Rightarrow> audit_db \<Rightarrow> audit_db \<times> int \<times> string" where
  "persist_audit_event digest e chain_key db =
     (let prev = map_option fst (chain_heads db chain_key);
          seq = audit_sequence db + 1;
          checksum = compute_checksum digest e seq prev
      in (db\<lparr>audit_sequence := seq,
             audit_logs := audit_logs db @ [audit_row e seq checksum prev chain_key],
             chain_heads := (chain_heads db)(chain_key \<mapsto> (checksum, seq))\<rparr>, seq, checksum))"

definition get_audit_event :: "string \<Rightarrow> audit_db \<Rightarrow> row option" where
  "get_audit_event uid db = find (\<lambda>r. row_get r ''id'' = Uuid uid) (audit_logs db)"

definition get_chain_head :: "string \<Rightarrow> audit_db \<Rightarrow> (string \<times> int) option" where
  "get_chain_head chain_key db = chain_heads db chain_key"

record audit_filters =
  af_event_type :: "audit_event_type option"
  af_resource_type :: "resource_type option"
  af_resource_id :: "string option"
  af_actor_id :: "string option"
  af_start_time :: "datetime option"
  af_end_time :: "datetime option"
  af_offset :: nat
  af_limit :: nat

definition row_time :: "row \<Rightarrow> int" where
  "row_time r = (case row_get r ''timestamp'' of Time t \<Rightarrow> utc_micros t | _ \<Rightarrow> 0)"

definition filter_match :: "audit_filters \<Rightarrow> row \<Rightarrow> bool" where
  "filter_match f r \<longleftrightarrow>
     (case af_event_type f of None \<Rightarrow> True | Some t \<Rightarrow> row_get r ''event_type'' = Json (JStr (audit_event_value t)))
     \<and> (case af_resource_type f of None \<Rightarrow> True | Some t \<Rightarrow> row_get r ''resource_type'' = Json (JStr (resource_value t)))
     \<and> (case af_resource_id f of None \<Rightarrow> True | Some v \<Rightarrow> row_get r ''resource_id'' = Json (JStr v))
     \<and> (case af_actor_id f of None \<Rightarrow> True | Some v \<Rightarrow> row_get r ''actor_id'' = Json (JStr v))
     \<and> (case af_start_time f of None \<Rightarrow> True | Some t \<Rightarrow> utc_micros t \<le> row_time r)
     \<and> (case af_end_time f of None \<Rightarrow> True | Some t \<Rightarrow> row_time r \<le> utc_micros t)"

text \<open>\<open>ORDER BY timestamp DESC\<close>, rows of the same instant in insertion order.\<close>

definition query_audit_logs :: "audit_filters \<Rightarrow> audit_db \<Rightarrow> row list" where
  "query_audit_logs f db =
     take (af_limit f) (drop (af_offset f) (sort_key (\<lambda>r. - row_time r) (filter (filter_match f) (audit_logs db))))"

definition row_seq :: "row \<Rightarrow> int" where
  "row_seq r = (case row_get r ''sequence_id'' of Json (JInt n) \<Rightarrow> n | _ \<Rightarrow> 0)"

definition chain_rows :: "string \<Rightarrow> audit_db \<Rightarrow> row list" where
  "chain_rows chain_key db =
     sort_key row_seq (filter (\<lambda>r. row_get r ''chain_key'' = Json (JStr chain_key)) (audit_logs db))"

definition verify_chain_integrity ::
  "(string \<Rightarrow> string) \<Rightarrow> string \<Rightarrow> nat \<Rightarrow> audit_db \<Rightarrow> (bool \<times> chain_error list) result" where
  "verify_chain_integrity digest chain_key limit db =
     (let rows = take limit (chain_rows chain_key db)
      in if rows = [] then Inr (True, []) else verify_chain digest rows)"

section \<open>Links between persisted rows\<close>

fun linked_rows :: "string option \<Rightarrow> row list \<Rightarrow> string option \<Rightarrow> bool" where
  "linked_rows prev [] head \<longleftrightarrow> prev = head"
| "linked_rows prev (r # rs) head \<longleftrightarrow>
     row_get r ''prev_checksum'' = Json (opt_str prev)
     \<and> (\<exists>c. row_get r ''checksum'' = Json (JStr c) \<and> linked_rows (Some c) rs head)"

lemma linked_rows_snoc:
  "linked_rows prev rs mid \<Longrightarrow> row_get r ''prev_checksum'' = Json (opt_str mid) \<Longrightarrow>
   row_get r ''checksum'' = Json (JStr c) \<Longrightarrow> linked_rows prev (rs @ [r]) (Some c)"
  by (induction prev rs mid rule: linked_rows.induct) auto

definition of_chain :: "string \<Rightarrow> audit_db \<Rightarrow> row list" where
  "of_chain chain_key db = filter (\<lambda>r. row_get r ''chain_key'' = Json (JStr chain_key)) (audit_logs db)"

definition is_audit_row :: "row \<Rightarrow> bool" where
  "is_audit_row r \<longleftrightarrow> (\<exists>e n c p k. r = audit_row e n c p k)"

lemma audit_row_is [simp]: "is_audit_row (audit_row e n c p k)"
  unfolding is_audit_row_def by blast

definition audit_ok :: "audit_db \<Rightarrow> bool" where
  "audit_ok db \<longleftrightarrow>
     (\<forall>k. linked_rows None (of_chain k db) (map_option fst (chain_heads db k)))
     \<and> sorted_wrt (<) (map row_seq (audit_logs db)) \<and> (\<forall>r \<in> set (audit_logs db). row_seq r \<le> audit_sequence db)
     \<and> (\<forall>r \<in> set (audit_logs db). is_audit_row r)"

lemma audit_row_get [simp]:
  "row_get (audit_row e seq c prev k) ''prev_checksum'' = Json (opt_str prev)"
  "row_get (audit_row e seq c prev k) ''checksum'' = Json (JStr c)"
  "row_get (audit_row e seq c prev k) ''chain_key'' = Json (JStr k)"
  "row_get (audit_row e seq c prev k) ''timestamp'' = Time (ae_timestamp e)"
  "row_get (audit_row e seq c prev k) ''sequence_id'' = Json (JInt seq)"
  "row_seq (audit_row e seq c prev k) = seq"
  by (simp_all add: row_get_def audit_row_def row_seq_def)

lemma persist_ok: "audit_ok db \<Longrightarrow> audit_ok (fst (persist_audit_event digest e k db))"
proof -
  assume ok: "audit_ok db"
  let ?prev = "map_option fst (chain_heads db k)"
  let ?c = "compute_checksum digest e (audit_sequence db + 1) ?prev"
  let ?r = "audit_row e (audit_sequence db + 1) ?c ?prev k"
  let ?t = "fst (persist_audit_event digest e k db)"
  have chain: "of_chain j ?t = (if j = k then of_chain j db @ [?r] else of_chain j db)" for j
    by (simp add: of_chain_def persist_audit_event_def Let_def)
  have "linked_rows None (of_chain j ?t) (map_option fst (chain_heads ?t j))" for j
    using ok linked_rows_snoc [of None "of_chain k db" ?prev ?r ?c]
    by (simp add: chain audit_ok_def) (simp add: persist_audit_event_def Let_def)
  moreover have "sorted_wrt (<) (map row_seq (audit_logs ?t))"
    using ok by (auto simp: audit_ok_def persist_audit_event_def Let_def sorted_wrt_append)
  ultimately show ?thesis
    using ok by (auto simp: audit_ok_def) (auto simp: persist_audit_event_def Let_def)
qed

inductive audit_step :: "(string \<Rightarrow> string) \<Rightarrow> audit_db \<Rightarrow> audit_db \<Rightarrow> bool" for digest where
  "audit_step digest db (fst (persist_audit_event digest e k db))"

inductive_cases audit_stepE: "audit_step digest db db'"

interpretation audit_run: step_invariant "audit_step digest" audit_ok for digest
  by unfold_locales (auto elim!: audit_stepE intro: persist_ok)

definition audit_empty :: audit_db where
  "audit_empty = \<lparr>audit_logs = [], chain_heads = Map.empty, audit_sequence = 0\<rparr>"

lemma audit_empty_ok: "audit_ok audit_empty"
  by (simp add: audit_ok_def audit_empty_def of_chain_def)

lemma sort_key_sorted: "sorted (map f xs) \<Longrightarrow> sort_key f xs = xs"
  by (induction xs) (auto simp: insort_is_Cons)

lemma sorted_chain: "audit_ok db \<Longrightarrow> chain_rows k db = of_chain k db"
proof -
  assume "audit_ok db"
  then have "sorted (map row_seq (audit_logs db))" unfolding audit_ok_def
    by (intro strict_sorted_imp_sorted) simp
  then have "sorted (map row_seq (of_chain k db))" unfolding of_chain_def by (rule sorted_filter)
  then show ?thesis by (simp add: chain_rows_def of_chain_def sort_key_sorted)
qed


section \<open>Persisted chains do not verify\<close>

lemma persisted_row_raises: "checksum_from_row digest (audit_row e n c p k) seq prev = Inl TypeError"
  by (simp add: checksum_from_row_def row_content_def checksum_fields_def row_get_def audit_row_def)

lemma persisted_step_raises: "step_errors digest True (Json JNull) (Json JNull) (audit_row e n c p k) = Inl TypeError"
  by (simp add: step_errors_def persisted_row_raises Let_def)

text \<open>C20. The integrity check of the repository cannot succeed on a chain the repository wrote: the
  row holds the timestamp as a datetime, which \<open>json.dumps\<close> refuses, so verifying any chain
  with at least one event raises TypeError. (The event id is stored as \<open>id\<close>, so its checksum
  field would be read as None even if it did not.)\<close>

theorem persisted_chain_never_verifies:
  assumes "(audit_step digest)\<^sup>*\<^sup>* audit_empty db" and "chain_rows k db \<noteq> []" and "0 < limit"
  shows "verify_chain_integrity digest k limit db = Inl TypeError"
proof -
  have ok: "audit_ok db" using audit_run.run_keeps [OF assms(1) audit_empty_ok] .
  obtain r rs where rows: "take limit (chain_rows k db) = r # rs"
    using assms(2,3) by (cases "chain_rows k db"; cases limit) auto
  then have "r \<in> set (chain_rows k db)" by (metis in_set_takeD list.set_intros(1))
  then obtain e n c p j where "r = audit_row e n c p j"
    using ok by (auto simp: sorted_chain of_chain_def audit_ok_def is_audit_row_def)
  then show ?thesis
    by (simp add: verify_chain_integrity_def rows verify_chain_def persisted_step_raises)
qed

section \<open>Tamper evidence\<close>

text \<open>The text a row's checksum is the digest of, and the content that text determines.\<close>

definition row_text :: "row \<Rightarrow> string result" where
  "row_text r =
     res_bind (row_content r) (\<lambda>c.
     res_bind (as_json (row_get r ''sequence_id'')) (\<lambda>s.
     res_bind (as_json (row_get r ''prev_checksum'')) (\<lambda>p. Inr (dumps_sorted (chain_content c s p)))))"

definition row_canon :: "row \<Rightarrow> (dict \<times> json \<times> json) result" where
  "row_canon r =
     res_bind (row_content r) (\<lambda>c.
     res_bind (as_json (row_get r ''sequence_id'')) (\<lambda>s.
     res_bind (as_json (row_get r ''prev_checksum'')) (\<lambda>p.
       Inr (map (map_prod id sort_keys) c, sort_keys s, sort_keys p))))"

definition row_ok :: "row \<Rightarrow> bool" where
  "row_ok r \<longleftrightarrow> (\<forall>k v. row_get r k = Json v \<longrightarrow> json_ok v)"

lemma row_okD: "row_ok r \<Longrightarrow> row_get r k = Json v \<Longrightarrow> json_ok v"
  by (auto simp: row_ok_def)

lemma as_json_Inr: "as_json v = Inr j \<longleftrightarrow> v = Json j"
  by (cases v) auto

lemma row_field_ok: "row_ok r \<Longrightarrow> row_field (row_get r k) = Inr v \<Longrightarrow> json_ok v"
  by (cases "row_get r k" rule: row_field.cases) (auto dest: row_okD)

lemma collect_Inr: "collect rs = Inr xs \<longleftrightarrow> rs = map Inr xs"
  by (induction rs arbitrary: xs) (auto simp: res_bind_eq_Inr)

lemma row_content_Inr:
  assumes "row_content r = Inr c"
  shows "map fst c = checksum_fields" and "row_ok r \<Longrightarrow> list_all json_ok (map snd c)"
proof -
  from assms obtain vs where vs: "map (\<lambda>f. row_field (row_get r f)) checksum_fields = map Inr vs" "c = zip checksum_fields vs"
    by (auto simp: row_content_def res_bind_eq_Inr collect_Inr)
  then have len: "length vs = length checksum_fields" by (metis length_map)
  then show "map fst c = checksum_fields" by (simp add: vs(2))
  assume ok: "row_ok r"
  have "json_ok v" if v: "v \<in> set vs" for v
  proof -
    from v have "Inr v \<in> set (map (\<lambda>f. row_field (row_get r f)) checksum_fields)" by (simp add: vs(1))
    then obtain f where "row_field (row_get r f) = Inr v" by (auto simp only: set_map image_iff)
    then show ?thesis by (rule row_field_ok [OF ok])
  qed
  then show "list_all json_ok (map snd c)" using len by (simp add: vs(2) list_all_iff)
qed

lemma chain_content_ok:
  assumes "map fst c = checksum_fields" and "list_all json_ok (map snd c)" and "json_ok s" and "json_ok p"
  shows "json_ok (chain_content c s p)"
proof -
  have "distinct (map fst c)" "''sequence_id'' \<notin> set (map fst c)" "''prev_checksum'' \<notin> set (map fst c)"
    unfolding assms(1) by (simp_all add: checksum_fields_def)
  then show ?thesis using assms(2-4) by (auto simp: chain_content_def list_all_iff)
qed

text \<open>Equal texts have equal contents: the canonical JSON is injective.\<close>

lemma row_text_inj:
  assumes "row_ok r" and "row_ok r'" and "row_text r = Inr t" and "row_text r' = Inr t"
  shows "row_canon r = row_canon r'"
proof -
  obtain c s p where r: "row_content r = Inr c" "row_get r ''sequence_id'' = Json s" "row_get r ''prev_checksum'' = Json p"
    "t = dumps_sorted (chain_content c s p)"
    using assms(3) by (auto simp: row_text_def res_bind_eq_Inr as_json_Inr)
  obtain c' s' p' where r': "row_content r' = Inr c'" "row_get r' ''sequence_id'' = Json s'" "row_get r' ''prev_checksum'' = Json p'"
    "t = dumps_sorted (chain_content c' s' p')"
    using assms(4) by (auto simp: row_text_def res_bind_eq_Inr as_json_Inr)
  note keys = row_content_Inr(1) [OF r(1)] row_content_Inr(1) [OF r'(1)]
  have "json_ok (chain_content c s p)"
    using row_content_Inr [OF r(1)] row_okD [OF assms(1)] r(2,3) assms(1) by (intro chain_content_ok) auto
  moreover have "json_ok (chain_content c' s' p')"
    using row_content_Inr [OF r'(1)] row_okD [OF assms(2)] r'(2,3) assms(2) by (intro chain_content_ok) auto
  ultimately have eq: "sort_keys (chain_content c s p) = sort_keys (chain_content c' s' p')"
    using dumps_sorted_inj r(4) r'(4) by blast
  let ?m = "map (map_prod id sort_keys)"
  let ?x = "?m (c @ [(''sequence_id'', s), (''prev_checksum'', p)])" and ?y = "?m (c' @ [(''sequence_id'', s'), (''prev_checksum'', p')])"
  have "map fst ?x = checksum_fields @ [''sequence_id'', ''prev_checksum'']"
    "map fst ?y = checksum_fields @ [''sequence_id'', ''prev_checksum'']"
    using keys by (simp_all add: comp_def)
  moreover have "distinct (checksum_fields @ [''sequence_id'', ''prev_checksum''])" by (simp add: checksum_fields_def)
  moreover have "sort_key fst ?x = sort_key fst ?y" using eq by (simp add: chain_content_def)
  ultimately have "?x = ?y" using sort_key_same_keys [of ?x ?y] by simp
  then show ?thesis using r(1-3) r'(1-3) by (simp add: row_canon_def)
qed

fun chained :: "(string \<Rightarrow> string) \<Rightarrow> py_value \<Rightarrow> row list \<Rightarrow> bool" where
  "chained digest prev [] \<longleftrightarrow> True"
| "chained digest prev (r # rs) \<longleftrightarrow>
     row_get r ''prev_checksum'' = prev
     \<and> (\<exists>t. row_text r = Inr t \<and> row_get r ''checksum'' = Json (JStr (digest t)))
     \<and> chained digest (row_get r ''checksum'') rs"

lemma checksum_from_row_text:
  "checksum_from_row digest r (row_get r ''sequence_id'') (row_get r ''prev_checksum'') = res_bind (row_text r) (\<lambda>t. Inr (digest t))"
  by (simp add: checksum_from_row_def row_text_def res_bind_assoc)

lemma verify_loop_chained:
  "verify_loop digest first prev_seq prev rs = Inr [] \<Longrightarrow> first \<longrightarrow> prev = Json JNull \<Longrightarrow> chained digest prev rs"
proof (induction digest first prev_seq prev rs rule: verify_loop.induct)
  case (2 digest first prev_seq prev r rs)
  from 2(2) have step: "step_errors digest first prev_seq prev r = Inr []"
    "verify_loop digest False (row_get r ''sequence_id'') (row_get r ''checksum'') rs = Inr []"
    by (auto simp: res_bind_eq_Inr)
  from step(1) obtain t where "row_text r = Inr t" "row_get r ''checksum'' = Json (JStr (digest t))"
    "row_get r ''prev_checksum'' = (if first then Json JNull else prev)"
    by (auto simp: step_errors_def Let_def checksum_from_row_text res_bind_eq_Inr split: if_splits)
  then show ?case using 2(1) [OF step(2)] 2(3) by auto
qed simp

lemma chained_snoc:
  "chained digest prev (rs @ [r]) \<longleftrightarrow>
     chained digest prev rs \<and> row_get r ''prev_checksum'' = (if rs = [] then prev else row_get (last rs) ''checksum'')
     \<and> (\<exists>t. row_text r = Inr t \<and> row_get r ''checksum'' = Json (JStr (digest t)))"
  by (induction digest prev rs rule: chained.induct) auto

definition collision :: "(string \<Rightarrow> string) \<Rightarrow> bool" where
  "collision digest \<longleftrightarrow> (\<exists>t u. t \<noteq> u \<and> digest t = digest u)"

lemma chained_agree:
  assumes "chained digest (Json JNull) rs" and "chained digest (Json JNull) rs'" and "length rs = length rs'"
    and "list_all row_ok rs" and "list_all row_ok rs'" and "rs \<noteq> []"
    and "row_get (last rs) ''checksum'' = row_get (last rs') ''checksum''" and "\<not> collision digest"
  shows "map row_canon rs = map row_canon rs'"
  using assms
proof (induction rs arbitrary: rs' rule: rev_induct)
  case (snoc r rs)
  obtain r' qs where rs': "rs' = qs @ [r']" using snoc.prems(3) by (cases rs' rule: rev_cases) auto
  have len: "length rs = length qs" using snoc.prems(3) by (simp add: rs')
  obtain t where t: "row_text r = Inr t" "row_get r ''checksum'' = Json (JStr (digest t))"
    "row_get r ''prev_checksum'' = (if rs = [] then Json JNull else row_get (last rs) ''checksum'')" "chained digest (Json JNull) rs"
    using snoc.prems(1) by (auto simp: chained_snoc)
  obtain t' where t': "row_text r' = Inr t'" "row_get r' ''checksum'' = Json (JStr (digest t'))"
    "row_get r' ''prev_checksum'' = (if qs = [] then Json JNull else row_get (last qs) ''checksum'')" "chained digest (Json JNull) qs"
    using snoc.prems(2) by (auto simp: rs' chained_snoc)
  have "digest t = digest t'" using snoc.prems(7) t(2) t'(2) by (simp add: rs')
  then have "t = t'" using snoc.prems(8) by (auto simp: collision_def)
  then have canon: "row_canon r = row_canon r'"
    using row_text_inj t(1) t'(1) snoc.prems(4,5) by (simp add: rs')
  show ?case
  proof (cases "rs = []")
    case False
    then have qs: "qs \<noteq> []" using len by auto
    obtain x y where xy: "row_get (last rs) ''checksum'' = Json (JStr x)" "row_get (last qs) ''checksum'' = Json (JStr y)"
      using t(4) t'(4) False qs by (metis append_butlast_last_id chained_snoc)
    have "x = y" using canon t(1,3) t'(1,3) False qs xy
      by (auto simp: row_canon_def row_text_def res_bind_eq_Inr)
    then show ?thesis
      using snoc.IH [OF t(4) t'(4) len _ _ False] snoc.prems(4,5,8) canon xy by (simp add: rs')
  qed (use canon len in \<open>simp add: rs'\<close>)
qed simp


section \<open>Serialised chains verify\<close>

text \<open>Rows in which the fields have the serialised form that the checksum was computed over, under
  the names of \<open>CHECKSUM_FIELDS\<close>, with any further columns.\<close>

definition serialised_row :: "audit_event \<Rightarrow> int \<Rightarrow> string \<Rightarrow> string option \<Rightarrow> dict \<Rightarrow> row" where
  "serialised_row e seq checksum prev extra =
     map (\<lambda>(k, v). (k, Json v))
       (event_content e @ [(''sequence_id'', JInt seq), (''checksum'', JStr checksum), (''prev_checksum'', opt_str prev)] @ extra)"

fun serialised_chain ::
  "(string \<Rightarrow> string) \<Rightarrow> string option \<Rightarrow> int \<Rightarrow> (audit_event \<times> dict) list \<Rightarrow> row list" where
  "serialised_chain digest prev seq [] = []"
| "serialised_chain digest prev seq ((e, extra) # es) =
     (let c = compute_checksum digest e seq prev
      in serialised_row e seq c prev extra # serialised_chain digest (Some c) (seq + 1) es)"

lemma serialised_row_get [simp]:
  "row_get (serialised_row e seq c prev extra) ''sequence_id'' = Json (JInt seq)"
  "row_get (serialised_row e seq c prev extra) ''checksum'' = Json (JStr c)"
  "row_get (serialised_row e seq c prev extra) ''prev_checksum'' = Json (opt_str prev)"
  by (simp_all add: row_get_def serialised_row_def event_content_def checksum_fields_def)

lemma row_field_opt: "row_field (Json (serialize_opt_dict d)) = Inr (serialize_opt_dict d)"
  by (cases d) simp_all

lemma serialised_content: "row_content (serialised_row e seq c prev extra) = Inr (event_content e)"
  by (simp add: row_content_def row_get_def serialised_row_def event_content_def checksum_fields_def row_field_opt)

lemma serialised_checksum:
  "checksum_from_row digest (serialised_row e seq c prev extra) (Json (JInt seq)) (Json (opt_str prev))
     = Inr (compute_checksum digest e seq prev)"
  by (simp add: checksum_from_row_def serialised_content compute_checksum_def)

lemma opt_str_null [simp]: "opt_str v = JNull \<longleftrightarrow> v = None"
  by (simp add: opt_str_def split: option.split)

lemma verify_serialised:
  assumes "first \<longleftrightarrow> prev = None" and "prev_seq = Json JNull \<or> (\<exists>n. prev_seq = Json (JInt n) \<and> n < seq)"
  shows "verify_loop digest first prev_seq (Json (opt_str prev)) (serialised_chain digest prev seq es) = Inr []"
  using assms
proof (induction digest prev seq es arbitrary: first prev_seq rule: serialised_chain.induct)
  case (2 digest prev seq e extra es)
  have "step_errors digest first prev_seq (Json (opt_str prev))
      (serialised_row e seq (compute_checksum digest e seq prev) prev extra) = Inr []"
    using 2(2,3) by (auto simp: step_errors_def serialised_checksum Let_def)
  moreover have "verify_loop digest False (Json (JInt seq)) (Json (opt_str (Some (compute_checksum digest e seq prev))))
      (serialised_chain digest (Some (compute_checksum digest e seq prev)) (seq + 1) es) = Inr []"
    by (rule 2(1)) auto
  ultimately show ?case by (simp add: Let_def) (simp add: opt_str_def)
qed simp

text \<open>Writing and verifying agree on serialised rows: any sequence of events, chained with
  \<open>compute_checksum\<close> and kept in serialised form, passes \<open>verify_chain\<close> with no errors,
  whatever the other columns hold (severity, actor type, metadata and the like are outside
  the checksum).\<close>

theorem serialised_chain_verifies:
  "verify_chain digest (serialised_chain digest None seq es) = Inr (True, [])"
  using verify_serialised [of True None "Json JNull" seq digest es] by (simp add: verify_chain_def opt_str_def)

section \<open>Concrete runs\<close>

definition demo_audit :: "string \<Rightarrow> audit_event" where
  "demo_audit actor =
     \<lparr>ae_event_id = ''e-1'',
      ae_timestamp = \<lparr>dt_year = 2026, dt_month = 1, dt_day = 5, dt_hour = 9, dt_minute = 30, dt_second = 0,
                      dt_micro = 0, dt_offset = Some 0\<rparr>,
      ae_event_type = ORDER_PLACED, ae_severity = AUDIT_INFO, ae_actor_id = actor, ae_actor_type = ACTOR_USER,
      ae_resource_type = RES_ORDER, ae_resource_id = ''o-1'', ae_request_id = ''r-1'', ae_source = SRC_WEB,
      ae_environment = ''production'', ae_service = ''trading-api'', ae_version = ''1.0.0'',
      ae_actor_display = None, ae_impersonator_id = None, ae_value_mode = MODE_DIFF, ae_old_value = None,
      ae_new_value = None, ae_value_hash = None, ae_trace_id = None, ae_correlation_id = None, ae_client_ip = None,
      ae_user_agent = None, ae_schema_version = 1, ae_metadata = None\<rparr>"

definition demo_audit_db :: audit_db where
  "demo_audit_db = fst (persist_audit_event id (demo_audit ''user-1'') ''default'' audit_empty)"

lemma demo_audit_reachable: "(audit_step id)\<^sup>*\<^sup>* audit_empty demo_audit_db"
  unfolding demo_audit_db_def by (intro r_into_rtranclp audit_step.intros)

lemma demo_audit_rows: "chain_rows ''default'' demo_audit_db \<noteq> []"
  by (simp add: demo_audit_db_def persist_audit_event_def Let_def chain_rows_def audit_empty_def)


theorem persisted_chain_never_verifies_witness:
  "verify_chain_integrity id ''default'' 100 demo_audit_db = Inl TypeError"
  using persisted_chain_never_verifies [OF demo_audit_reachable demo_audit_rows] by simp

lemma serialised_row_ok:
  "list_all json_ok (map snd extra) \<Longrightarrow> row_ok (serialised_row e seq c prev extra)"
proof -
  assume extra: "list_all json_ok (map snd extra)"
  have opt: "json_ok (serialize_opt_dict d)" for d by (cases d) simp_all
  have "json_ok v" if "(k, Json v) \<in> set (serialised_row e seq c prev extra)" for k v
    using that extra opt by (auto simp: serialised_row_def event_content_def checksum_fields_def opt_str_def list_all_iff
        split: option.splits)
  then show ?thesis by (auto simp: row_ok_def row_get_def split: option.splits dest: map_of_SomeD)
qed


end
