(* ===== verification/Audit_Service.thy ===== *)
theory Audit_Service
  imports Audit_Chain
begin

text \<open>
  The audit service of audit/service.py: building an event from a request (redaction, size
  limit, value mode), routing it by its tier, and the tasks and queue workers that persist
  it. A task or a worker turn is one slice; whether its database work succeeds is an argument.
  Only the queue and the scheduled tasks stand between \<open>log\<close> and the tables.
\<close>

section \<open>Building an event\<close>

record log_request =
  lr_event_type :: audit_event_type
  lr_actor_id :: string
  lr_actor_type :: actor_type
  lr_resource_type :: resource_type
  lr_resource_id :: string
  lr_request_id :: string
  lr_source :: event_source
  lr_severity :: audit_severity
  lr_old_value :: "dict option"
  lr_new_value :: "dict option"
  lr_metadata :: "dict option"
  lr_correlation_id :: "string option"
  lr_session_id :: "string option"
  lr_trace_id :: "string option"
  lr_client_ip :: "string option"
  lr_user_agent :: "string option"
  lr_actor_display :: "string option"
  lr_impersonator_id :: "string option"

definition combine_hashes :: "string option \<Rightarrow> string option \<Rightarrow> string option" where
  "combine_hashes old_hash new_hash =
     (let given = (\<lambda>h. h \<noteq> None \<and> h \<noteq> Some [])
      in if given old_hash \<and> given new_hash then Some (''old:'' @ the old_hash @ ''|new:'' @ the new_hash)
         else if given old_hash then Some (''old:'' @ the old_hash)
         else if given new_hash then Some (''new:'' @ the new_hash) else None)"

definition event_metadata :: "dict option \<Rightarrow> string option \<Rightarrow> dict option" where
  "event_metadata metadata session =
     (case session of
        None \<Rightarrow> metadata
      | Some sid \<Rightarrow> Some (AList.update ''session_id'' (JStr sid) (case metadata of None \<Rightarrow> [] | Some d \<Rightarrow> d)))"

record audit_identity =
  ai_environment :: string
  ai_service :: string
  ai_version :: string

definition default_identity :: audit_identity where
  "default_identity = \<lparr>ai_environment = ''production'', ai_service = ''trading-api'', ai_version = ''1.0.0''\<rparr>"

definition build_event ::
  "(string \<Rightarrow> string) \<Rightarrow> audit_identity \<Rightarrow> string \<Rightarrow> datetime \<Rightarrow> log_request \<Rightarrow> audit_event" where
  "build_event digest ident uid now q =
     (let rt = resource_value (lr_resource_type q);
          (old, old_hash, old_mode) = enforce_size_limit digest (redact_sensitive_fields (lr_old_value q) rt);
          (new, new_hash, new_mode) = enforce_size_limit digest (redact_sensitive_fields (lr_new_value q) rt);
          ref = (old_mode = MODE_REFERENCE \<or> new_mode = MODE_REFERENCE)
      in \<lparr>ae_event_id = uid, ae_timestamp = now, ae_event_type = lr_event_type q, ae_severity = lr_severity q,
          ae_actor_id = lr_actor_id q, ae_actor_type = lr_actor_type q, ae_resource_type = lr_resource_type q,
          ae_resource_id = lr_resource_id q, ae_request_id = lr_request_id q, ae_source = lr_source q,
          ae_environment = ai_environment ident, ae_service = ai_service ident, ae_version = ai_version ident,
          ae_actor_display = lr_actor_display q, ae_impersonator_id = lr_impersonator_id q,
          ae_value_mode = (if ref then MODE_REFERENCE else MODE_DIFF), ae_old_value = old, ae_new_value = new,
          ae_value_hash = (if ref then combine_hashes old_hash new_hash else None),
          ae_trace_id = lr_trace_id q, ae_correlation_id = lr_correlation_id q, ae_client_ip = lr_client_ip q,
          ae_user_agent = lr_user_agent q, ae_schema_version = 1,
          ae_metadata = event_metadata (lr_metadata q) (lr_session_id q)\<rparr>)"

section \<open>Routing and workers\<close>

record audit_service =
  as_identity :: audit_identity
  as_queue :: "audit_event list"
  as_capacity :: nat
  as_running :: bool
  as_workers :: nat
  as_tasks :: "audit_event list"
  as_db :: audit_db

definition audit_service_init :: "audit_db \<Rightarrow> audit_service" where
  "audit_service_init db =
     \<lparr>as_identity = default_identity, as_queue = [], as_capacity = 10000, as_running = False, as_workers = 0,
      as_tasks = [], as_db = db\<rparr>"

text \<open>Without a running event loop the event is silently dropped.\<close>

definition persist_sync :: "bool \<Rightarrow> audit_event \<Rightarrow> audit_service \<Rightarrow> audit_service" where
  "persist_sync loop e s = (if loop then s\<lparr>as_tasks := as_tasks s @ [e]\<rparr> else s)"

definition enqueue_async :: "bool \<Rightarrow> audit_event \<Rightarrow> audit_service \<Rightarrow> audit_service" where
  "enqueue_async loop e s =
     (if 0 < as_capacity s \<and> as_capacity s \<le> length (as_queue s) then persist_sync loop e s
      else s\<lparr>as_queue := as_queue s @ [e]\<rparr>)"

definition audit_log ::
  "(string \<Rightarrow> string) \<Rightarrow> bool \<Rightarrow> string \<Rightarrow> datetime \<Rightarrow> log_request \<Rightarrow> audit_service \<Rightarrow> audit_service \<times> string" where
  "audit_log digest loop uid now q s =
     (let e = build_event digest (as_identity s) uid now q
      in (if get_tier (lr_event_type q) = 0 then persist_sync loop e s else enqueue_async loop e s, uid))"

definition start_workers :: "nat \<Rightarrow> audit_service \<Rightarrow> audit_service" where
  "start_workers n s = s\<lparr>as_running := True, as_workers := as_workers s + n\<rparr>"

definition remove_nth :: "nat \<Rightarrow> 'a list \<Rightarrow> 'a list" where
  "remove_nth i xs = take i xs @ drop (Suc i) xs"

text \<open>A scheduled task runs; an exception ends it and the event is gone.\<close>

definition run_task :: "(string \<Rightarrow> string) \<Rightarrow> bool \<Rightarrow> nat \<Rightarrow> audit_service \<Rightarrow> audit_service" where
  "run_task digest db_ok i s =
     (if i < length (as_tasks s) then
        s\<lparr>as_tasks := remove_nth i (as_tasks s),
          as_db := (if db_ok then fst (persist_audit_event digest (as_tasks s ! i) ''default'' (as_db s)) else as_db s)\<rparr>
      else s)"

definition worker_slice :: "(string \<Rightarrow> string) \<Rightarrow> bool \<Rightarrow> audit_service \<Rightarrow> audit_service" where
  "worker_slice digest db_ok s =
     (case as_queue s of
        [] \<Rightarrow> s
      | e # rest \<Rightarrow>
          if \<not> as_running s \<or> as_workers s = 0 then s
          else s\<lparr>as_queue := rest,
                 as_db := (if db_ok then fst (persist_audit_event digest e ''default'' (as_db s)) else as_db s)\<rparr>)"

definition audit_stop :: "audit_service \<Rightarrow> audit_service" where
  "audit_stop s = s\<lparr>as_running := False, as_workers := 0\<rparr>"

section \<open>Properties\<close>

lemma enforce_some:
  "enforce_size_limit digest v = (Some d, h, m) \<Longrightarrow>
   v = Some d \<and> m = MODE_DIFF \<and> int (length (dumps_sorted (JObj d))) \<le> max_value_size_bytes"
  by (auto simp: enforce_size_limit_def Let_def split: option.splits if_splits)

lemma redacted_leaf:
  assumes "redact_sensitive_fields v rt = Some d'" and "(k, l) \<in> set (dict_leaves d')"
  shows "k \<in> sensitive_fields rt \<longrightarrow>
      (\<exists>d s. v = Some d \<and> (k, JStr s) \<in> set (dict_leaves d) \<and> l = JStr (mask_value s)) \<or> l = JStr ''****''"
    and "k \<notin> sensitive_fields rt \<longrightarrow> (\<exists>d. v = Some d \<and> (k, l) \<in> set (dict_leaves d))"
proof -
  obtain d where d: "v = Some d" using assms(1) by (cases v) (auto simp: redact_sensitive_fields_def)
  from redact_dict_leaves [of d rt d'] assms(1) d
  have "dict_leaves d' = map (\<lambda>(k, l). (k, redact_leaf (sensitive_fields rt) k l)) (dict_leaves d)" by simp
  with assms(2) obtain l0 where l0: "(k, l0) \<in> set (dict_leaves d)" "l = redact_leaf (sensitive_fields rt) k l0" by auto
  then show "k \<in> sensitive_fields rt \<longrightarrow>
      (\<exists>d s. v = Some d \<and> (k, JStr s) \<in> set (dict_leaves d) \<and> l = JStr (mask_value s)) \<or> l = JStr ''****''"
    using d by (cases l0) auto
  have "k \<notin> sensitive_fields rt \<longrightarrow> l = l0" using l0(2) by (cases l0) auto
  then show "k \<notin> sensitive_fields rt \<longrightarrow> (\<exists>d. v = Some d \<and> (k, l) \<in> set (dict_leaves d))" using l0(1) d by blast
qed

text \<open>What reaches the audit trail is redacted and bounded: in the recorded old and new values
  every leaf under a sensitive key is the mask of a string of the original or a full mask,
  every other leaf is one of the original value under the same key, the JSON text of a recorded value is at most 32768 bytes, and a value
  that would be larger is replaced by its digest in REFERENCE mode.\<close>

theorem recorded_values_redacted:
  assumes "ev = build_event digest ident uid now q" and "rt = resource_value (lr_resource_type q)"
    and "(ae_old_value ev, lr_old_value q) = (Some d, src) \<or> (ae_new_value ev, lr_new_value q) = (Some d, src)"
  shows "(\<forall>(k, l) \<in> set (dict_leaves d).
       if k \<in> sensitive_fields rt
       then (\<exists>d0 s. src = Some d0 \<and> (k, JStr s) \<in> set (dict_leaves d0) \<and> l = JStr (mask_value s)) \<or> l = JStr ''****''
       else \<exists>d0. src = Some d0 \<and> (k, l) \<in> set (dict_leaves d0))
    \<and> int (length (dumps_sorted (JObj d))) \<le> 32768
    \<and> (ae_value_mode ev = MODE_DIFF \<longrightarrow> (ae_old_value ev = None \<longleftrightarrow> lr_old_value q = None)
         \<and> (ae_new_value ev = None \<longleftrightarrow> lr_new_value q = None))"
proof -
  obtain h m where "enforce_size_limit digest (redact_sensitive_fields src rt) = (Some d, h, m)"
    using assms by (auto simp: build_event_def Let_def split: prod.splits)
  then have src: "redact_sensitive_fields src rt = Some d" "int (length (dumps_sorted (JObj d))) \<le> 32768"
    using enforce_some by (fastforce simp: max_value_size_bytes_def)+
  have mode: "fst (enforce_size_limit digest (redact_sensitive_fields v rt)) = None \<longleftrightarrow> v = None"
    if "snd (snd (enforce_size_limit digest (redact_sensitive_fields v rt))) \<noteq> MODE_REFERENCE" for v
    using that by (auto simp: enforce_size_limit_def redact_sensitive_fields_def Let_def split: option.splits if_splits)
  have "ae_value_mode ev = MODE_DIFF \<longrightarrow> (ae_old_value ev = None \<longleftrightarrow> lr_old_value q = None)
         \<and> (ae_new_value ev = None \<longleftrightarrow> lr_new_value q = None)"
    using mode [of "lr_old_value q"] mode [of "lr_new_value q"] assms(1,2)
    by (auto simp: build_event_def Let_def split: prod.splits if_splits)
  then show ?thesis using redacted_leaf [OF src(1)] src(2) by auto
qed

text \<open>An event of a tier that requires a synchronous write is not durable when \<open>log\<close> returns: the
  call only schedules a task, so the tables are unchanged, and a database error of that task
  loses the event; and events still queued when the service stops stay out of the tables
  whatever the workers do afterwards.\<close>

theorem audit_log_not_durable:
  assumes "get_tier (lr_event_type q) = 0" and "t = fst (audit_log digest True uid now q s)"
  shows "as_db t = as_db s \<and> as_tasks t = as_tasks s @ [build_event digest (as_identity s) uid now q]
    \<and> as_db (run_task digest False (length (as_tasks s)) t) = as_db s
    \<and> as_tasks (run_task digest False (length (as_tasks s)) t) = as_tasks s
    \<and> worker_slice digest True (audit_stop t) = audit_stop t"
  using assms
  by (simp add: audit_log_def persist_sync_def run_task_def remove_nth_def worker_slice_def audit_stop_def
      Let_def split: list.split)

text \<open>The mask shows a secret of four characters completely, and a dictionary under a sensitive key
  is not masked at all.\<close>

lemma mask_shows_short_secret: "length s = 4 \<Longrightarrow> \<exists>a b. mask_value s = a @ ''****'' @ b \<and> a @ b = s"
  by (intro exI [of _ "take 2 s"] exI [of _ "drop 2 s"]) (simp add: mask_value_def)

lemma nested_credentials_kept:
  "redact_sensitive_fields (Some [(''credentials'', JObj [(''user'', JStr ''bob''), (''pin'', JStr ''123456'')])]) ''config''
     = Some [(''credentials'', JObj [(''user'', JStr ''bob''), (''pin'', JStr ''123456'')])]"
  by (simp add: redact_sensitive_fields_def sensitive_fields_def redaction_rules_def)

section \<open>Concrete runs\<close>

definition demo_log_request :: log_request where
  "demo_log_request =
     \<lparr>lr_event_type = CONFIG_UPDATED, lr_actor_id = ''user-1'', lr_actor_type = ACTOR_USER,
      lr_resource_type = RES_CONFIG, lr_resource_id = ''c-1'', lr_request_id = ''r-1'', lr_source = SRC_WEB,
      lr_severity = AUDIT_INFO, lr_old_value = None,
      lr_new_value = Some [(''password'', JStr ''hunter22''), (''limit'', JInt 5)], lr_metadata = None,
      lr_correlation_id = None, lr_session_id = Some ''s-1'', lr_trace_id = None, lr_client_ip = None,
      lr_user_agent = None, lr_actor_display = None, lr_impersonator_id = None\<rparr>"

lemma demo_recorded:
  "ae_new_value (build_event digest ident uid now demo_log_request)
     = Some [(''password'', JStr ''hu****22''), (''limit'', JInt 5)]"
proof -
  have "length (dumps_sorted (JObj [(''password'', JStr ''hu****22''), (''limit'', JInt 5)])) = 36" by code_simp
  then show ?thesis
    by (simp add: build_event_def demo_log_request_def redact_sensitive_fields_def sensitive_fields_def
        redaction_rules_def mask_value_def enforce_size_limit_def max_value_size_bytes_def Let_def)
qed

theorem recorded_values_redacted_witness:
  "int (length (dumps_sorted (JObj (the (ae_new_value
     (build_event id default_identity ''e-1'' (ae_timestamp (demo_audit ''x'')) demo_log_request)))))) \<le> 32768"
  using recorded_values_redacted [OF refl refl,
      of id default_identity "''e-1''" "ae_timestamp (demo_audit ''x'')" demo_log_request
        "[(''password'', JStr ''hu****22''), (''limit'', JInt 5)]" "lr_new_value demo_log_request"]
  by (simp add: demo_recorded)

theorem audit_log_not_durable_witness:
  "as_db (fst (audit_log id True ''e-1'' (ae_timestamp (demo_audit ''x'')) demo_log_request
     (audit_service_init audit_empty))) = audit_empty"
  using audit_log_not_durable [of demo_log_request, OF _ refl, of id "''e-1''" "ae_timestamp (demo_audit ''x'')"
      "audit_service_init audit_empty"]
  by (simp add: demo_log_request_def get_tier_def tier_0_events_def audit_service_init_def)

end
