(* ===== verification/Reconciliation.thy ===== *)
theory Reconciliation
  imports Paper_Broker
begin

text \<open>
  Reconciliation of local with broker state: the comparator of reconciliation/comparator.py,
  the models of reconciliation/models.py and the service of reconciliation/service.py with
  its debounced runs after fills. The order in which Python iterates over the set of symbols
  is an argument. What providers and Redis answer is an argument too; a Redis failure is only
  logged. Times and durations of a result are left out.
\<close>

section \<open>Models\<close>

datatype discrepancy_type =
  MISSING_LOCAL | MISSING_BROKER | QUANTITY_MISMATCH | COST_MISMATCH | CASH_MISMATCH | EQUITY_MISMATCH

datatype discrepancy_severity = DISC_INFO | DISC_WARNING | DISC_CRITICAL

fun default_severity :: "discrepancy_type \<Rightarrow> discrepancy_severity" where
  "default_severity COST_MISMATCH = DISC_INFO"
| "default_severity CASH_MISMATCH = DISC_WARNING"
| "default_severity EQUITY_MISMATCH = DISC_WARNING"
| "default_severity QUANTITY_MISMATCH = DISC_CRITICAL"
| "default_severity MISSING_LOCAL = DISC_CRITICAL"
| "default_severity MISSING_BROKER = DISC_CRITICAL"

datatype disc_value = Quantity int | Amount decimal

record discrepancy =
  disc_type :: discrepancy_type
  disc_severity :: discrepancy_severity
  disc_symbol :: "string option"
  disc_local :: "disc_value option"
  disc_broker :: "disc_value option"
  disc_account :: string

record recon_config =
  rc_account_id :: string
  rc_interval_seconds :: int
  rc_post_fill_delay_seconds :: real
  rc_cash_tolerance :: decimal
  rc_equity_tolerance_pct :: decimal
  rc_enabled :: bool

definition default_recon_config :: "string \<Rightarrow> recon_config" where
  "default_recon_config acct =
     \<lparr>rc_account_id = acct, rc_interval_seconds = 300, rc_post_fill_delay_seconds = 5,
      rc_cash_tolerance = 1, rc_equity_tolerance_pct = 1 / 10, rc_enabled = True\<rparr>"

definition discrepancy_of ::
  "recon_config \<Rightarrow> discrepancy_type \<Rightarrow> string option \<Rightarrow> disc_value option \<Rightarrow> disc_value option \<Rightarrow> discrepancy" where
  "discrepancy_of cfg t sy l b =
     \<lparr>disc_type = t, disc_severity = default_severity t, disc_symbol = sy, disc_local = l, disc_broker = b,
      disc_account = rc_account_id cfg\<rparr>"

section \<open>Comparator\<close>

text \<open>\<open>{p.symbol: p for p in ps}\<close>: the last position of a symbol wins.\<close>

definition index_by :: "('p \<Rightarrow> string) \<Rightarrow> 'p list \<Rightarrow> string \<rightharpoonup> 'p" where
  "index_by sy ps = map_of (rev (map (\<lambda>p. (sy p, p)) ps))"

definition compare_symbol ::
  "recon_config \<Rightarrow> position option \<Rightarrow> broker_position option \<Rightarrow> string \<Rightarrow> discrepancy list" where
  "compare_symbol cfg l b sy =
     (case (l, b) of
        (None, None) \<Rightarrow> []
      | (None, Some q) \<Rightarrow> [discrepancy_of cfg MISSING_LOCAL (Some sy) None (Some (Quantity (bp_quantity q)))]
      | (Some p, None) \<Rightarrow> [discrepancy_of cfg MISSING_BROKER (Some sy) (Some (Quantity (pos_quantity p))) None]
      | (Some p, Some q) \<Rightarrow>
          if pos_quantity p \<noteq> bp_quantity q then
            [discrepancy_of cfg QUANTITY_MISMATCH (Some sy) (Some (Quantity (pos_quantity p))) (Some (Quantity (bp_quantity q)))]
          else if avg_cost p \<noteq> bp_avg_cost q then
            [discrepancy_of cfg COST_MISMATCH (Some sy) (Some (Amount (avg_cost p))) (Some (Amount (bp_avg_cost q)))]
          else [])"

definition compare_positions ::
  "recon_config \<Rightarrow> string list \<Rightarrow> position list \<Rightarrow> broker_position list \<Rightarrow> discrepancy list" where
  "compare_positions cfg order local broker =
     concat (map (\<lambda>sy. compare_symbol cfg (index_by pos_symbol local sy) (index_by bp_symbol broker sy) sy) order)"

definition equity_differs :: "recon_config \<Rightarrow> decimal \<Rightarrow> decimal \<Rightarrow> bool" where
  "equity_differs cfg loc brk =
     (if loc = 0 then brk \<noteq> 0
      else (case dec_div (dec_abs (dec_sub loc brk)) loc of
              Inr q \<Rightarrow> dec_mul q 100 > rc_equity_tolerance_pct cfg
            | Inl _ \<Rightarrow> False))"

definition compare_account :: "recon_config \<Rightarrow> decimal \<Rightarrow> decimal \<Rightarrow> broker_account \<Rightarrow> discrepancy list" where
  "compare_account cfg local_cash local_equity b =
     (if dec_abs (dec_sub local_cash (ba_cash b)) > rc_cash_tolerance cfg
      then [discrepancy_of cfg CASH_MISMATCH None (Some (Amount local_cash)) (Some (Amount (ba_cash b)))] else [])
     @ (if equity_differs cfg local_equity (ba_total_equity b)
        then [discrepancy_of cfg EQUITY_MISMATCH None (Some (Amount local_equity)) (Some (Amount (ba_total_equity b)))] else [])"

section \<open>Service\<close>

datatype recon_trigger = On_Demand | Startup | Periodic | Post_Fill string string string

record recon_result =
  rr_account_id :: string
  rr_is_clean :: bool
  rr_discrepancies :: "discrepancy list"
  rr_positions_checked :: nat
  rr_context :: recon_trigger

record local_view =
  lv_positions :: "position list"
  lv_cash :: decimal
  lv_equity :: decimal

record broker_view =
  bv_positions :: "broker_position list"
  bv_account :: broker_account

datatype recon_message = Result_Message recon_result | Discrepancy_Message discrepancy

record recon_service =
  rs_running :: bool
  rs_pending_fill :: bool
  rs_last_fill :: "order_fill option"
  rs_published :: "recon_message list"

definition recon_init :: recon_service where
  "recon_init = \<lparr>rs_running = False, rs_pending_fill = False, rs_last_fill = None, rs_published = []\<rparr>"

definition recon_result_of ::
  "recon_config \<Rightarrow> string list \<Rightarrow> local_view \<Rightarrow> broker_view \<Rightarrow> recon_trigger \<Rightarrow> recon_result" where
  "recon_result_of cfg order l b context =
     (let ds = compare_positions cfg order (lv_positions l) (bv_positions b)
               @ compare_account cfg (lv_cash l) (lv_equity l) (bv_account b)
      in \<lparr>rr_account_id = rc_account_id cfg, rr_is_clean = (length ds = 0), rr_discrepancies = ds,
          rr_positions_checked = card (pos_symbol ` set (lv_positions l) \<union> bp_symbol ` set (bv_positions b)),
          rr_context = context\<rparr>)"

text \<open>Publishing stops at the first failure of Redis; \<open>sent\<close> is how many messages got through.\<close>

definition publish_result :: "nat \<Rightarrow> recon_result \<Rightarrow> recon_service \<Rightarrow> recon_service" where
  "publish_result sent r s =
     s\<lparr>rs_published := rs_published s @ take sent (Result_Message r # map Discrepancy_Message (rr_discrepancies r))\<rparr>"

definition reconcile ::
  "recon_config \<Rightarrow> string list \<Rightarrow> local_view \<Rightarrow> broker_view \<Rightarrow> nat \<Rightarrow> recon_trigger
   \<Rightarrow> recon_service \<Rightarrow> recon_service \<times> recon_result" where
  "reconcile cfg order l b sent context s =
     (let r = recon_result_of cfg order l b context in (publish_result sent r s, r))"

definition recon_start ::
  "recon_config \<Rightarrow> string list \<Rightarrow> local_view \<Rightarrow> broker_view \<Rightarrow> nat \<Rightarrow> recon_service \<Rightarrow> recon_service" where
  "recon_start cfg order l b sent s =
     (if rs_running s then s else fst (reconcile cfg order l b sent Startup (s\<lparr>rs_running := True\<rparr>)))"

definition recon_stop :: "recon_service \<Rightarrow> recon_service" where
  "recon_stop s = s\<lparr>rs_running := False, rs_pending_fill := False\<rparr>"

definition periodic_tick ::
  "recon_config \<Rightarrow> string list \<Rightarrow> local_view \<Rightarrow> broker_view \<Rightarrow> nat \<Rightarrow> recon_service \<Rightarrow> recon_service" where
  "periodic_tick cfg order l b sent s =
     (if \<not> rs_running s then s else fst (reconcile cfg order l b sent Periodic s))"

definition on_fill :: "recon_config \<Rightarrow> order_fill \<Rightarrow> recon_service \<Rightarrow> recon_service" where
  "on_fill cfg f s =
     (if \<not> rc_enabled cfg then s else s\<lparr>rs_last_fill := Some f, rs_pending_fill := True\<rparr>)"

definition debounced_post_fill ::
  "recon_config \<Rightarrow> string list \<Rightarrow> local_view \<Rightarrow> broker_view \<Rightarrow> nat \<Rightarrow> recon_service \<Rightarrow> recon_service" where
  "debounced_post_fill cfg order l b sent s =
     (if \<not> rs_pending_fill s then s
      else case rs_last_fill s of
             None \<Rightarrow> s\<lparr>rs_pending_fill := False\<rparr>
           | Some f \<Rightarrow> fst (reconcile cfg order l b sent
               (Post_Fill (fill_order_id f) (fill_id f) (fill_symbol f)) (s\<lparr>rs_pending_fill := False\<rparr>)))"

section \<open>What a clean result means\<close>

lemma index_by_distinct:
  assumes "distinct (map sy ps)"
  shows "index_by sy ps k = Some p \<longleftrightarrow> p \<in> set ps \<and> sy p = k"
proof -
  have "map fst (rev (map (\<lambda>p. (sy p, p)) ps)) = rev (map sy ps)" by (simp add: rev_map comp_def)
  then have "distinct (map fst (rev (map (\<lambda>p. (sy p, p)) ps)))" using assms by simp
  from map_of_eq_Some_iff [OF this, of k p] show ?thesis unfolding index_by_def by auto
qed

lemma index_by_None: "index_by sy ps k = None \<longleftrightarrow> k \<notin> sy ` set ps"
  unfolding index_by_def map_of_eq_None_iff by force

lemma compare_symbol_clean:
  "compare_symbol cfg l b sy = [] \<longleftrightarrow>
     map_option (\<lambda>p. (pos_quantity p, avg_cost p)) l = map_option (\<lambda>q. (bp_quantity q, bp_avg_cost q)) b"
  by (cases l; cases b) (simp_all add: compare_symbol_def)

text \<open>The holdings a list of positions states: symbol, quantity and cost.\<close>

definition local_holdings :: "position list \<Rightarrow> (string \<times> int \<times> decimal) set" where
  "local_holdings ps = (\<lambda>p. (pos_symbol p, pos_quantity p, avg_cost p)) ` set ps"

definition broker_holdings :: "broker_position list \<Rightarrow> (string \<times> int \<times> decimal) set" where
  "broker_holdings ps = (\<lambda>p. (bp_symbol p, bp_quantity p, bp_avg_cost p)) ` set ps"

lemma holdings_index:
  assumes "distinct (map sy ps)"
  shows "map_option f (index_by sy ps k) = Some v \<longleftrightarrow> (k, v) \<in> (\<lambda>p. (sy p, f p)) ` set ps"
  using index_by_distinct [OF assms] by (auto simp: image_iff)

lemma option_eq_iff: "x = y \<longleftrightarrow> (\<forall>v. x = Some v \<longleftrightarrow> y = Some v)"
  by (cases x; cases y) auto

lemma compare_positions_clean:
  assumes "distinct (map pos_symbol ls)" and "distinct (map bp_symbol bs)"
    and "set order = pos_symbol ` set ls \<union> bp_symbol ` set bs"
  shows "compare_positions cfg order ls bs = [] \<longleftrightarrow> local_holdings ls = broker_holdings bs"
proof -
  let ?l = "\<lambda>k. map_option (\<lambda>p. (pos_quantity p, avg_cost p)) (index_by pos_symbol ls k)"
  let ?b = "\<lambda>k. map_option (\<lambda>q. (bp_quantity q, bp_avg_cost q)) (index_by bp_symbol bs k)"
  have "compare_positions cfg order ls bs = [] \<longleftrightarrow> (\<forall>k \<in> set order. ?l k = ?b k)"
    by (simp add: compare_positions_def compare_symbol_clean)
  also have "\<dots> \<longleftrightarrow> (\<forall>k. ?l k = ?b k)"
  proof -
    have "?l k = ?b k" if "k \<notin> set order" for k
    proof -
      have "index_by pos_symbol ls k = None" "index_by bp_symbol bs k = None"
        using that assms(3) by (simp_all add: index_by_None)
      then show ?thesis by simp
    qed
    then show ?thesis by blast
  qed
  also have "\<dots> \<longleftrightarrow> (\<forall>k v. ?l k = Some v \<longleftrightarrow> ?b k = Some v)" by (rule iff_allI, rule option_eq_iff)
  also have "\<dots> \<longleftrightarrow> local_holdings ls = broker_holdings bs"
    unfolding holdings_index [OF assms(1)] holdings_index [OF assms(2)] local_holdings_def broker_holdings_def
    by (simp only: set_eq_iff split_paired_All)
  finally show ?thesis .
qed

text \<open>C21. When each side has at most one position per symbol, a reconciliation is clean exactly when
  both sides state the same holdings (symbols, quantities, costs), the cash differs by at
  most the tolerance and the equity check passes, in whatever order the symbols are visited;
  otherwise every differing symbol yields exactly one discrepancy.\<close>

theorem reconcile_clean_iff:
  assumes "distinct (map pos_symbol (lv_positions l))" and "distinct (map bp_symbol (bv_positions b))"
    and "distinct order" and "set order = pos_symbol ` set (lv_positions l) \<union> bp_symbol ` set (bv_positions b)"
  shows "(rr_is_clean (snd (reconcile cfg order l b sent context s)) \<longleftrightarrow>
       local_holdings (lv_positions l) = broker_holdings (bv_positions b)
       \<and> dec_abs (dec_sub (lv_cash l) (ba_cash (bv_account b))) \<le> rc_cash_tolerance cfg
       \<and> \<not> equity_differs cfg (lv_equity l) (ba_total_equity (bv_account b)))
    \<and> rr_positions_checked (snd (reconcile cfg order l b sent context s)) = length order
    \<and> (\<forall>sy. length (filter (\<lambda>d. disc_symbol d = Some sy) (compare_positions cfg order (lv_positions l) (bv_positions b))) \<le> 1)"
proof -
  have one: "length (filter (\<lambda>d. disc_symbol d = Some sy) (compare_symbol cfg p q k)) \<le> (if k = sy then 1 else 0)" for p q k sy
    by (auto simp: compare_symbol_def discrepancy_of_def split: option.split)
  have "length (filter (\<lambda>d. disc_symbol d = Some sy) (compare_positions cfg ks ls bs)) \<le> (if sy \<in> set ks then 1 else 0)"
    if "distinct ks" for ks ls bs sy
    using that
  proof (induction ks)
    case (Cons k ks)
    then show ?case using one [of sy "index_by pos_symbol ls k" "index_by bp_symbol bs k" k]
      by (auto simp: compare_positions_def split: if_splits)
  qed (simp add: compare_positions_def)
  note count = this [OF assms(3)]
  have most: "length (filter (\<lambda>d. disc_symbol d = Some sy) (compare_positions cfg order ls bs)) \<le> 1" for sy ls bs
    using count [of sy ls bs] by (simp split: if_splits)
  have acct: "compare_account cfg c e ba = [] \<longleftrightarrow>
      dec_abs (dec_sub c (ba_cash ba)) \<le> rc_cash_tolerance cfg \<and> \<not> equity_differs cfg e (ba_total_equity ba)" for c e ba
    by (simp add: compare_account_def linorder_not_less)
  have size: "card (pos_symbol ` set (lv_positions l) \<union> bp_symbol ` set (bv_positions b)) = length order"
    using assms(3,4) distinct_card by metis
  show ?thesis
    using compare_positions_clean [OF assms(1,2,4), of cfg] most size
    by (simp add: reconcile_def recon_result_of_def Let_def acct)
qed

text \<open>Two departures: positions of one symbol held by two strategies are compared one at a time,
  and with a negative local equity no difference is ever reported.\<close>

lemma strategies_not_added:
  assumes "pos_symbol p = sy" and "pos_symbol q = sy" and "bp_symbol bp = sy"
    and "bp_quantity bp = pos_quantity p + pos_quantity q" and "pos_quantity p \<noteq> 0"
  shows "map disc_type (compare_positions cfg [sy] [p, q] [bp]) = [QUANTITY_MISMATCH]"
  using assms by (simp add: compare_positions_def index_by_def compare_symbol_def discrepancy_of_def)

lemma negative_equity_unchecked:
  assumes "loc < 0" and "0 \<le> rc_equity_tolerance_pct cfg"
  shows "\<not> equity_differs cfg loc brk"
proof -
  have "dec_abs (dec_sub loc brk) / loc \<le> 0"
    using assms(1) dec_nonneg [of "\<bar>dec_sub loc brk\<bar>"] by (simp add: dec_abs_def divide_nonneg_neg)
  then have "dec (dec_abs (dec_sub loc brk) / loc) \<le> 0" using dec_mono [of _ 0] by simp
  then have "dec_mul (dec (dec_abs (dec_sub loc brk) / loc)) 100 \<le> 0"
    using dec_mono [of "dec (dec_abs (dec_sub loc brk) / loc) * 100" 0] by (simp add: dec_mul_def)
  then show ?thesis using assms by (simp add: equity_differs_def dec_div_def)
qed

section \<open>Debouncing\<close>

definition demo_fill :: "string \<Rightarrow> order_fill" where
  "demo_fill k = \<lparr>fill_id = k, fill_order_id = ''o-1'', fill_symbol = ''SPY'', fill_side = Buy, fill_quantity = 1,
     fill_price = 50, fill_timestamp = 0\<rparr>"

lemma fills_debounced:
  assumes "rc_enabled cfg" and "0 < sent" and "fs \<noteq> []"
  shows "\<exists>r more. rs_published (debounced_post_fill cfg order l b sent (fold (on_fill cfg) fs s))
      = rs_published s @ Result_Message r # more
    \<and> rr_context r = Post_Fill (fill_order_id (last fs)) (fill_id (last fs)) (fill_symbol (last fs))
    \<and> \<not> rs_pending_fill (debounced_post_fill cfg order l b sent (fold (on_fill cfg) fs s))"
proof -
  have "fold (on_fill cfg) fs s = s\<lparr>rs_last_fill := Some (last fs), rs_pending_fill := True\<rparr>"
    using assms(3) by (induction fs arbitrary: s rule: list_nonempty_induct) (simp_all add: on_fill_def assms(1))
  then show ?thesis
    using assms(2) by (cases sent) (simp_all add: debounced_post_fill_def reconcile_def publish_result_def recon_result_of_def Let_def)
qed

section \<open>Concrete runs\<close>

definition demo_local_view :: local_view where
  "demo_local_view =
     \<lparr>lv_positions = [\<lparr>pos_id = 1, pos_account_id = ''A'', pos_symbol = ''SPY'', pos_asset_type = STOCK,
        pos_strategy_id = None, pos_status = OPEN, pos_quantity = 10, avg_cost = 50, current_price = 50,
        strike = None, expiry = None, pos_put_call = None, active_close_request_id = None, closed_at = None\<rparr>],
      lv_cash = 100, lv_equity = 0\<rparr>"

definition demo_broker_view :: "int \<Rightarrow> broker_view" where
  "demo_broker_view q =
     \<lparr>bv_positions = [\<lparr>bp_symbol = ''SPY'', bp_quantity = q, bp_avg_cost = 50, bp_market_value = 500, bp_asset_type = STOCK\<rparr>],
      bv_account = \<lparr>ba_account_id = ''A'', ba_cash = 100, ba_buying_power = 0, ba_total_equity = 0, ba_margin_used = 0\<rparr>\<rparr>"

theorem reconcile_clean_iff_witness:
  "rr_is_clean (snd (reconcile (default_recon_config ''A'') [''SPY''] demo_local_view (demo_broker_view 10) 2 On_Demand recon_init))
   \<and> \<not> rr_is_clean (snd (reconcile (default_recon_config ''A'') [''SPY''] demo_local_view (demo_broker_view 9) 2 On_Demand recon_init))"
proof -
  have d: "distinct (map pos_symbol (lv_positions demo_local_view))" "distinct (map bp_symbol (bv_positions (demo_broker_view q)))"
    "set [''SPY''] = pos_symbol ` set (lv_positions demo_local_view) \<union> bp_symbol ` set (bv_positions (demo_broker_view q))" for q
    by (simp_all add: demo_local_view_def demo_broker_view_def)
  have acct: "dec_abs (dec_sub (lv_cash demo_local_view) (ba_cash (bv_account (demo_broker_view q)))) \<le> rc_cash_tolerance (default_recon_config ''A'')"
    "\<not> equity_differs (default_recon_config ''A'') (lv_equity demo_local_view) (ba_total_equity (bv_account (demo_broker_view q)))" for q
    by (simp_all add: demo_local_view_def demo_broker_view_def default_recon_config_def equity_differs_def dec_abs_def dec_sub_def)
  have hold: "local_holdings (lv_positions demo_local_view) = broker_holdings (bv_positions (demo_broker_view q)) \<longleftrightarrow> q = 10" for q
    by (auto simp: demo_local_view_def demo_broker_view_def local_holdings_def broker_holdings_def)
  show ?thesis
    using reconcile_clean_iff [OF d(1,2) _ d(3), THEN conjunct1] acct hold by simp
qed

end
