(* ===== verification/Backtest_Portfolio.thy ===== *)
theory Backtest_Portfolio
  imports Trading_Types
begin

text \<open>
  The parts of a backtest: bars, trades and configuration (backtest/models.py), the
  portfolio (backtest/portfolio.py), simulated fills (backtest/fill_engine.py) and the trace
  of a signal to its fill (backtest/trace.py, backtest/trace_builder.py). A timestamp is an
  instant; a bar also has the calendar day of its timestamp. Uuids are arguments. Lemmas: a
  buy that fits costs no more than the cash when fills are not worse than the open.
\<close>

section \<open>Models\<close>

record bar =
  bar_symbol :: string
  bar_timestamp :: int
  bar_day :: int
  bar_open :: decimal
  bar_high :: decimal
  bar_low :: decimal
  bar_close :: decimal
  bar_volume :: int

record trade =
  trade_id :: string
  trade_timestamp :: int
  trade_symbol :: string
  trade_side :: side
  trade_quantity :: int
  gross_price :: decimal
  trade_slippage :: decimal
  trade_commission :: decimal
  signal_bar_timestamp :: int
  trade_fill_price :: decimal
  entry_factors :: "(string \<times> decimal) list"
  exit_factors :: "(string \<times> decimal) list"
  trade_attribution :: "(string \<times> decimal) list"

text \<open>The fill price is set by \<open>__post_init__\<close>.\<close>

definition post_init :: "trade \<Rightarrow> trade" where
  "post_init t =
     t\<lparr>trade_fill_price := (if trade_side t = Buy then dec_add (gross_price t) (trade_slippage t)
                            else dec_sub (gross_price t) (trade_slippage t))\<rparr>"

record backtest_config =
  bc_strategy_class :: string
  bc_factor_weights :: "(string \<times> decimal) list"
  bc_symbol :: string
  bc_start_date :: int
  bc_end_date :: int
  bc_initial_capital :: decimal
  bc_slippage_bps :: int
  bc_commission_per_share :: decimal
  bc_benchmark_symbol :: "string option"

section \<open>Portfolio\<close>

record bt_portfolio =
  pf_cash :: decimal
  pf_qty :: int
  pf_avg_cost :: decimal

definition bt_portfolio_init :: "decimal \<Rightarrow> bt_portfolio" where
  "bt_portfolio_init capital = \<lparr>pf_cash = capital, pf_qty = 0, pf_avg_cost = 0\<rparr>"

definition equity :: "decimal \<Rightarrow> bt_portfolio \<Rightarrow> decimal" where
  "equity price pf = dec_add (pf_cash pf) (dec_mul (of_int (pf_qty pf)) price)"

definition can_buy :: "decimal \<Rightarrow> int \<Rightarrow> decimal \<Rightarrow> bt_portfolio \<Rightarrow> bool" where
  "can_buy price q commission pf \<longleftrightarrow> dec_add (dec_mul price (of_int q)) commission \<le> pf_cash pf"

definition can_sell :: "int \<Rightarrow> bt_portfolio \<Rightarrow> bool" where
  "can_sell q pf \<longleftrightarrow> q \<le> pf_qty pf"

definition apply_buy :: "trade \<Rightarrow> bt_portfolio \<Rightarrow> bt_portfolio result" where
  "apply_buy t pf =
     (let q = trade_quantity t;
          total_cost = dec_add (dec_mul (trade_fill_price t) (of_int q)) (trade_commission t)
      in res_bind
           (if pf_qty pf = 0 then Inr (trade_fill_price t)
            else dec_div (dec_add (dec_mul (of_int (pf_qty pf)) (pf_avg_cost pf))
                                  (dec_mul (of_int q) (trade_fill_price t)))
                         (of_int (pf_qty pf + q)))
           (\<lambda>avg. Inr \<lparr>pf_cash = dec_sub (pf_cash pf) total_cost, pf_qty = pf_qty pf + q, pf_avg_cost = avg\<rparr>))"

definition apply_sell :: "trade \<Rightarrow> bt_portfolio \<Rightarrow> bt_portfolio" where
  "apply_sell t pf =
     pf\<lparr>pf_cash := dec_add (pf_cash pf)
          (dec_sub (dec_mul (trade_fill_price t) (of_int (trade_quantity t))) (trade_commission t)),
        pf_qty := pf_qty pf - trade_quantity t\<rparr>"

definition apply_trade :: "trade \<Rightarrow> bt_portfolio \<Rightarrow> bt_portfolio result" where
  "apply_trade t pf = (if trade_side t = Buy then apply_buy t pf else Inr (apply_sell t pf))"

section \<open>Simulated fills\<close>

definition execute_fill :: "int \<Rightarrow> decimal \<Rightarrow> string \<Rightarrow> signal \<Rightarrow> bar \<Rightarrow> trade result" where
  "execute_fill bps per_share uuid sg b =
     res_bind (dec_div (of_int bps) 10000) (\<lambda>rate.
       Inr (post_init
         \<lparr>trade_id = uuid, trade_timestamp = bar_timestamp b, trade_symbol = sig_symbol sg,
          trade_side = sig_action sg, trade_quantity = sig_quantity sg, gross_price = bar_open b,
          trade_slippage = dec_mul (bar_open b) rate,
          trade_commission = dec_mul per_share (of_int (sig_quantity sg)),
          signal_bar_timestamp = sig_timestamp sg, trade_fill_price = 0,
          entry_factors = sig_factor_scores sg, exit_factors = [], trade_attribution = []\<rparr>))"

section \<open>Traces\<close>

record bar_snapshot =
  bs_symbol :: string
  bs_timestamp :: int
  bs_open :: decimal
  bs_high :: decimal
  bs_low :: decimal
  bs_close :: decimal
  bs_volume :: int

definition snapshot :: "bar \<Rightarrow> bar_snapshot" where
  "snapshot b =
     \<lparr>bs_symbol = bar_symbol b, bs_timestamp = bar_timestamp b, bs_open = bar_open b, bs_high = bar_high b,
      bs_low = bar_low b, bs_close = bar_close b, bs_volume = bar_volume b\<rparr>"

record portfolio_snapshot =
  ps_cash :: decimal
  ps_position_qty :: int
  ps_position_avg_cost :: "decimal option"
  ps_equity :: decimal

record signal_trace =
  trace_id :: string
  trace_signal_timestamp :: int
  trace_symbol :: string
  signal_direction :: side
  signal_quantity :: int
  signal_reason :: "string option"
  signal_bar :: bar_snapshot
  portfolio_state :: portfolio_snapshot
  fill_bar :: "bar_snapshot option"
  trace_fill_timestamp :: "int option"
  trace_fill_quantity :: "int option"
  trace_fill_price :: "decimal option"
  expected_price :: "decimal option"
  expected_price_type :: "string option"
  trace_slippage :: "decimal option"
  trace_slippage_bps :: "decimal option"
  trace_commission :: "decimal option"

definition create_pending ::
  "string \<Rightarrow> bar \<Rightarrow> side \<Rightarrow> int \<Rightarrow> string option \<Rightarrow> decimal \<Rightarrow> int \<Rightarrow> decimal option \<Rightarrow> decimal \<Rightarrow> signal_trace" where
  "create_pending uuid b dir q reason c pq pavg e =
     \<lparr>trace_id = uuid, trace_signal_timestamp = bar_timestamp b, trace_symbol = bar_symbol b,
      signal_direction = dir, signal_quantity = q, signal_reason = reason, signal_bar = snapshot b,
      portfolio_state = \<lparr>ps_cash = c, ps_position_qty = pq, ps_position_avg_cost = pavg, ps_equity = e\<rparr>,
      fill_bar = None, trace_fill_timestamp = None, trace_fill_quantity = None, trace_fill_price = None,
      expected_price = None, expected_price_type = None, trace_slippage = None, trace_slippage_bps = None,
      trace_commission = None\<rparr>"

text \<open>\<open>quantize(Decimal("0.01"), ROUND_HALF_UP)\<close>, which raises when the result has more than 28 digits.\<close>

definition quantize2 :: "decimal \<Rightarrow> decimal result" where
  "quantize2 x =
     (let m = \<lfloor>\<bar>x\<bar> * 100 + 1 / 2\<rfloor>
      in if 10 ^ 28 \<le> m then Inl InvalidOperation
         else Inr (if x < 0 then - (of_int m / 100) else of_int m / 100))"

definition complete_trace ::
  "signal_trace \<Rightarrow> bar option \<Rightarrow> decimal option \<Rightarrow> int option \<Rightarrow> decimal option \<Rightarrow> signal_trace result" where
  "complete_trace tr fb fp fq comm =
     (let expected = map_option bar_open fb;
          slip = (case (fp, expected) of
                    (Some p, Some e) \<Rightarrow> if e \<noteq> 0 then Some (dec_sub p e, e) else None
                  | _ \<Rightarrow> None)
      in res_bind
           (case slip of None \<Rightarrow> Inr None
            | Some (sl, e) \<Rightarrow> res_bind (dec_div sl e) (\<lambda>r.
                res_bind (quantize2 (dec_mul r 10000)) (\<lambda>bps. Inr (Some bps))))
           (\<lambda>bps. Inr (tr\<lparr>fill_bar := map_option snapshot fb,
              trace_fill_timestamp := map_option bar_timestamp fb, trace_fill_quantity := fq,
              trace_fill_price := fp, expected_price := expected,
              expected_price_type := map_option (\<lambda>_. ''next_bar_open'') fb,
              trace_slippage := map_option fst slip, trace_slippage_bps := bps,
              trace_commission := comm\<rparr>)))"

section \<open>Lemmas\<close>

lemma apply_buy_cash:
  "apply_buy t pf = Inr pf' \<Longrightarrow>
     pf_cash pf' = dec_sub (pf_cash pf)
       (dec_add (dec_mul (trade_fill_price t) (of_int (trade_quantity t))) (trade_commission t))
     \<and> pf_qty pf' = pf_qty pf + trade_quantity t"
  by (auto simp: apply_buy_def Let_def res_bind_eq_Inr)

lemma apply_trade_qty:
  "apply_trade t pf = Inr pf' \<Longrightarrow>
     pf_qty pf' = pf_qty pf + (if trade_side t = Buy then trade_quantity t else - trade_quantity t)"
  by (auto simp: apply_trade_def apply_sell_def dest: apply_buy_cash split: if_splits)

text \<open>With no slippage a fill is at the open, which \<open>can_buy\<close> has checked.\<close>

lemma execute_fill_fields:
  "execute_fill bps per_share uuid sg b = Inr t \<Longrightarrow>
     trade_id t = uuid \<and> trade_timestamp t = bar_timestamp b \<and> trade_symbol t = sig_symbol sg
     \<and> trade_side t = sig_action sg \<and> trade_quantity t = sig_quantity sg \<and> gross_price t = bar_open b
     \<and> trade_commission t = dec_mul per_share (of_int (sig_quantity sg))
     \<and> signal_bar_timestamp t = sig_timestamp sg \<and> entry_factors t = sig_factor_scores sg"
  by (auto simp: execute_fill_def post_init_def res_bind_eq_Inr)

lemma execute_fill_unslipped:
  "execute_fill 0 per_share uuid sg b = Inr t \<Longrightarrow> dec (bar_open b) = bar_open b \<Longrightarrow>
     trade_fill_price t = bar_open b"
  by (auto simp: execute_fill_def post_init_def res_bind_eq_Inr dec_div_def dec_mul_def dec_add_def dec_sub_def)

lemma execute_fill_open:
  "bar_open b' = bar_open b \<Longrightarrow> bar_timestamp b' = bar_timestamp b \<Longrightarrow>
     execute_fill bps per_share uuid sg b' = execute_fill bps per_share uuid sg b"
  by (simp add: execute_fill_def)

lemma unslipped_buy_keeps_cash:
  assumes "can_buy (bar_open b) (sig_quantity sg) (dec_mul per_share (of_int (sig_quantity sg))) pf"
    and "execute_fill 0 per_share uuid sg b = Inr t" and "dec (bar_open b) = bar_open b"
    and "apply_buy t pf = Inr pf'"
  shows "0 \<le> pf_cash pf'"
  using assms(1) apply_buy_cash [OF assms(4)] execute_fill_fields [OF assms(2)]
    execute_fill_unslipped [OF assms(2,3)]
  by (simp add: can_buy_def dec_sub_def dec_nonneg)

end
