(* ===== verification/Decimal_Error.thy ===== *)
theory Decimal_Error
  imports Numerics
begin

text \<open>
  Error bounds for chains of decimal operations on values that are not negative.
  \<open>approx k x y\<close> says that \<open>x\<close> and \<open>y\<close> agree up to \<open>k\<close> roundings: either is at most the
  other times \<open>(1 + 10 powi -27) ^ k\<close>. The relation is symmetric and is kept by products,
  quotients and sums, so the error of a computation is its number of roundings.
\<close>

definition round_factor :: rat where
  "round_factor = 1 + 1 / 10 ^ 27"

definition approx :: "nat \<Rightarrow> rat \<Rightarrow> rat \<Rightarrow> bool" where
  "approx k x y \<longleftrightarrow> x \<le> round_factor ^ k * y \<and> y \<le> round_factor ^ k * x"

lemma round_factor_ge [simp]: "1 \<le> round_factor" "0 < round_factor" "0 \<le> round_factor"
  by (simp_all add: round_factor_def)

lemma round_factor_pow [simp]: "1 \<le> round_factor ^ k" "0 < round_factor ^ k" "0 \<le> round_factor ^ k"
  by (simp_all add: one_le_power)

lemma approx_sym: "approx k x y \<longleftrightarrow> approx k y x"
  by (auto simp: approx_def)

lemma approx_refl [simp]: "approx 0 x x"
  by (simp add: approx_def)

lemma approx_trans:
  assumes "approx j x y" and "approx k y z"
  shows "approx (j + k) x z"
proof -
  have "x \<le> round_factor ^ j * y" "y \<le> round_factor ^ k * z" "z \<le> round_factor ^ k * y" "y \<le> round_factor ^ j * x"
    using assms by (simp_all add: approx_def)
  note order_trans [OF this(1) mult_left_mono [OF this(2)]] order_trans [OF this(3) mult_left_mono [OF this(4)]]
  then show ?thesis by (simp add: approx_def power_add ac_simps)
qed

lemma approx_mono:
  assumes "approx j x y" and "j \<le> k" and "0 \<le> x" and "0 \<le> y"
  shows "approx k x y"
proof -
  have "round_factor ^ j \<le> round_factor ^ k" using assms(2) by (simp add: power_increasing)
  then show ?thesis using assms mult_right_mono [of "round_factor ^ j" "round_factor ^ k"]
    unfolding approx_def by (meson order_trans)
qed

lemma approx_times:
  assumes "approx j x y" and "approx k u v" and "0 \<le> x" "0 \<le> y" "0 \<le> u" "0 \<le> v"
  shows "approx (j + k) (x * u) (y * v)"
proof -
  have "x * u \<le> (round_factor ^ j * y) * (round_factor ^ k * v)"
    and "y * v \<le> (round_factor ^ j * x) * (round_factor ^ k * u)"
    using assms by (auto simp: approx_def intro!: mult_mono)
  then show ?thesis by (simp add: approx_def power_add ac_simps)
qed

lemma approx_inverse: "approx k x y \<Longrightarrow> 0 < x \<Longrightarrow> 0 < y \<Longrightarrow> approx k (1 / x) (1 / y)"
  by (simp add: approx_def field_simps)

lemma approx_quotient:
  assumes "approx j x y" and "approx k u v" and "0 \<le> x" "0 \<le> y" "0 < u" "0 < v"
  shows "approx (j + k) (x / u) (y / v)"
  using approx_times [OF assms(1) approx_inverse [OF assms(2)]] assms(3-6) by simp

lemma approx_plus: "approx k x y \<Longrightarrow> approx k u v \<Longrightarrow> approx k (x + u) (y + v)"
  by (simp add: approx_def ring_distribs)

lemma approx_sum_list:
  "(\<And>i. i \<in> set xs \<Longrightarrow> approx k (f i) (g i)) \<Longrightarrow> approx k (sum_list (map f xs)) (sum_list (map g xs))"
  by (induction xs) (simp_all add: approx_def approx_plus [unfolded approx_def])

lemma approx_dec: "0 \<le> x \<Longrightarrow> approx 1 (dec x) x"
proof -
  assume x: "0 \<le> x"
  have "\<bar>dec x - x\<bar> \<le> x / (2 * 10 ^ 27)" using dec_error [of x] x by simp
  then have "dec x \<le> x + x / (2 * 10 ^ 27)" and l: "x - x / (2 * 10 ^ 27) \<le> dec x" by linarith+
  then have "dec x \<le> round_factor * x" using x by (simp add: round_factor_def field_simps)
  moreover have "x \<le> round_factor * (x - x / (2 * 10 ^ 27))" using x by (simp add: round_factor_def field_simps)
  then have "x \<le> round_factor * dec x" by (rule order_trans) (rule mult_left_mono [OF l], simp)
  ultimately show ?thesis by (simp add: approx_def)
qed

lemma approx_dec_of: "approx k x y \<Longrightarrow> 0 \<le> x \<Longrightarrow> approx (Suc k) (dec x) y"
  using approx_trans [OF approx_dec, of x k y] by simp

lemma dec_sum_snoc: "dec_sum (xs @ [x]) = dec (dec_sum xs + x)"
  by (simp add: dec_sum_def dec_add_def)

lemma dec_sum_Nil [simp]: "dec_sum [] = 0"
  by (simp add: dec_sum_def)

lemma dec_sum_nonneg: "(\<And>x. x \<in> set xs \<Longrightarrow> 0 \<le> x) \<Longrightarrow> 0 \<le> dec_sum xs"
  by (induction xs rule: rev_induct) (auto simp: dec_sum_snoc intro!: dec_nonneg)

lemma dec_sum_minus: "dec_sum (map uminus xs) = - dec_sum xs"
proof (induction xs rule: rev_induct)
  case (snoc x xs)
  have "dec_sum (map uminus (xs @ [x])) = dec (- (dec_sum xs + x))" using snoc by (simp add: dec_sum_snoc)
  then show ?case by (simp only: dec_minus dec_sum_snoc)
qed simp

text \<open>A sum of \<open>n\<close> numbers takes \<open>n\<close> roundings.\<close>

lemma approx_dec_sum:
  "(\<And>x. x \<in> set xs \<Longrightarrow> 0 \<le> x) \<Longrightarrow> approx (length xs) (dec_sum xs) (sum_list xs)"
proof (induction xs rule: rev_induct)
  case (snoc x xs)
  then have nn: "0 \<le> dec_sum xs" "0 \<le> x" by (auto intro!: dec_sum_nonneg)
  have "approx (length xs) (dec_sum xs + x) (sum_list xs + x)"
    using snoc nn by (intro approx_plus approx_mono [OF approx_refl]) auto
  from approx_dec_of [OF this] nn show ?case by (simp add: dec_sum_snoc)
qed simp

text \<open>Few roundings change little.\<close>

lemma round_factor_bound:
  assumes "k \<le> 10 ^ 23"
  shows "round_factor ^ k \<le> 1 + 1 / 5000"
proof -
  have bern: "(1 - 1 / 10 ^ 27 :: rat) ^ k \<ge> 1 - of_nat k / 10 ^ 27"
  proof -
    have "1 + of_nat n * x \<le> (1 + x) ^ n" if "- 1 \<le> x" for n and x :: rat
    proof (induction n)
      case (Suc n)
      have "(1 + x) * (1 + of_nat n * x) \<le> (1 + x) * (1 + x) ^ n" using Suc that by (intro mult_left_mono) auto
      moreover have "0 \<le> of_nat n * (x * x)" by simp
      ultimately show ?case by (simp add: algebra_simps)
    qed simp
    from this [of "- 1 / 10 ^ 27" k] show ?thesis by simp
  qed
  have k: "(of_nat k :: rat) \<le> 10 ^ 23" using assms by (metis of_nat_le_iff of_nat_numeral of_nat_power)
  then have "(1 - 1 / 10000 :: rat) \<le> 1 - of_nat k / 10 ^ 27" by (simp add: field_simps)
  with bern have low: "(1 - 1 / 10000 :: rat) \<le> (1 - 1 / 10 ^ 27) ^ k" by simp
  have "round_factor ^ k * (1 - 1 / 10 ^ 27) ^ k \<le> 1"
    unfolding power_mult_distrib [symmetric] by (intro power_le_one) (simp_all add: round_factor_def field_simps)
  with mult_left_mono [OF low, of "round_factor ^ k"] have "round_factor ^ k * (1 - 1 / 10000) \<le> 1"
    by (meson order_trans round_factor_pow(3))
  then show ?thesis by (simp add: field_simps)
qed

text \<open>Integers of at most 28 digits are exact.\<close>

lemma dec_of_int: "\<bar>n\<bar> < 10 ^ 28 \<Longrightarrow> dec (of_int n) = of_int n"
  by (rule dec_exact [of _ n 0]) simp_all

lemma dec_numeral:
  "(numeral k :: int) < 10 ^ 28 \<Longrightarrow> dec (numeral k) = numeral k"
  "(numeral k :: int) < 10 ^ 28 \<Longrightarrow> dec (- numeral k) = - numeral k"
  "dec 1 = 1" "dec (- 1) = - 1"
  using dec_of_int [of "numeral k"] dec_of_int [of "- numeral k"] dec_of_int [of 1] dec_of_int [of "- 1"] by simp_all

end
