(* ===== verification/Backtest_Metrics.thy ===== *)
theory Backtest_Metrics
  imports Backtest_Portfolio Decimal_Error
begin

text \<open>
  The evaluation of a backtest: attribution of profit to factors (backtest/attribution.py),
  the metrics of backtest/metrics.py and the benchmark curve of backtest/benchmark.py.
  Powers and roots of floats and the builtin sum of floats, whose rounding differs between
  versions of Python, are fields of a record of float operations. Lemmas: attributions add up to the profit
  within the documented tolerance, and the maximum drawdown is the largest decline between
  any two points of the curve.
\<close>

section \<open>Attribution\<close>

definition weight_of :: "(string \<times> decimal) list \<Rightarrow> string \<Rightarrow> decimal" where
  "weight_of ws f = (case map_of ws f of None \<Rightarrow> 0 | Some w \<Rightarrow> w)"

definition calculate_trade_attribution ::
  "decimal \<Rightarrow> (string \<times> decimal) list \<Rightarrow> (string \<times> decimal) list option \<Rightarrow> (string \<times> decimal) list result" where
  "calculate_trade_attribution pnl factors weights =
     (if factors = [] then Inr []
      else if pnl = 0 then Inr (map (\<lambda>(f, _). (f, 0)) factors)
      else res_bind
        (case weights of
           Some ws \<Rightarrow> Inr ws
         | None \<Rightarrow> res_bind (dec_div 1 (of_nat (length factors))) (\<lambda>w. Inr (map (\<lambda>(f, _). (f, w)) factors)))
        (\<lambda>ws.
          let total = dec_sum (map (\<lambda>(f, _). weight_of ws f) factors)
          in if total = 0 then
               res_bind (dec_div pnl (of_nat (length factors))) (\<lambda>share. Inr (map (\<lambda>(f, _). (f, share)) factors))
             else res_map (\<lambda>(f, _). res_bind (dec_div (weight_of ws f) total) (\<lambda>r. Inr (f, dec_mul r pnl))) factors))"

definition normalize_attribution :: "(string \<times> decimal) list \<Rightarrow> decimal \<Rightarrow> (string \<times> decimal) list result" where
  "normalize_attribution raw pnl =
     (if raw = [] then Inr []
      else let total = dec_sum (map snd raw)
           in if total = 0 then
                res_bind (dec_div pnl (of_nat (length raw))) (\<lambda>share. Inr (map (\<lambda>(f, _). (f, share)) raw))
              else res_map (\<lambda>(f, v). res_bind (dec_div (dec_mul v pnl) total) (\<lambda>x. Inr (f, x))) raw)"

definition add_attribution :: "(string \<times> decimal) list \<Rightarrow> (string \<times> decimal) list \<Rightarrow> (string \<times> decimal) list" where
  "add_attribution attr summary =
     fold (\<lambda>(f, v) s. AList.update f (dec_add (case map_of s f of None \<Rightarrow> 0 | Some x \<Rightarrow> x) v) s) attr summary"

definition calculate_summary :: "trade list \<Rightarrow> (string \<times> decimal) list" where
  "calculate_summary trades =
     (let summary = fold (\<lambda>t. add_attribution (trade_attribution t)) trades []
      in if summary = [] then [] else AList.update ''total'' (dec_sum (map snd summary)) summary)"

definition attribution_tolerance :: decimal where
  "attribution_tolerance = 1 / 1000"

definition validate_attribution :: "(string \<times> decimal) list \<Rightarrow> decimal \<Rightarrow> bool result" where
  "validate_attribution attr pnl =
     (if attr = [] then Inr (pnl = 0)
      else let s = dec_sum (map snd attr)
           in if pnl = 0 then Inr (s = 0)
              else res_bind (dec_div (dec_abs (dec_sub s pnl)) (dec_abs pnl)) (\<lambda>e. Inr (e \<le> attribution_tolerance)))"

section \<open>Metrics\<close>

type_synonym curve = "(int \<times> decimal) list"

record float_ops =
  f_pow :: "double \<Rightarrow> double \<Rightarrow> double"
  f_sqrt :: "double \<Rightarrow> double"
  f_sum :: "double list \<Rightarrow> double"

definition total_return :: "curve \<Rightarrow> decimal \<Rightarrow> decimal result" where
  "total_return c capital =
     (if c = [] \<or> capital = 0 then Inr 0 else dec_div (dec_sub (snd (last c)) capital) capital)"

text \<open>\<open>round(x, 10)\<close> and \<open>Decimal(str(x))\<close> of the result.\<close>

definition round10 :: "double \<Rightarrow> decimal" where
  "round10 x = float_repr (fl (of_int (round_half_even (x * 10 ^ 10)) / 10 ^ 10))"

text \<open>A negative base with a fractional exponent gives a complex number, which cannot be rounded.\<close>

definition annualized_return :: "float_ops \<Rightarrow> decimal \<Rightarrow> int \<Rightarrow> decimal result" where
  "annualized_return fo tr days =
     (if days \<le> 0 then Inr 0
      else let base = fl (1 + fl tr); e = fl (252 / of_int days)
           in if base < 0 \<and> of_int \<lfloor>e\<rfloor> \<noteq> e then Inl TypeError else Inr (round10 (fl (f_pow fo base e - 1))))"

definition daily_returns :: "double list \<Rightarrow> double list" where
  "daily_returns xs =
     map (\<lambda>(p, c). fl (fl (c - p) / p)) (filter (\<lambda>(p, c). p \<noteq> 0) (zip xs (tl xs)))"

definition sharpe_ratio :: "float_ops \<Rightarrow> curve \<Rightarrow> decimal" where
  "sharpe_ratio fo c =
     (let rs = daily_returns (map (\<lambda>p. fl (snd p)) c)
      in if length c < 2 \<or> length rs < 2 then 0
         else let mean = fl (f_sum fo rs / of_nat (length rs));
                  variance = fl (f_sum fo (map (\<lambda>r. f_pow fo (fl (r - mean)) 2) rs) / of_nat (length rs - 1));
                  sd = f_pow fo variance (1 / 2)
              in if sd = 0 then 0 else round10 (fl (fl (mean / sd) * f_pow fo 252 (1 / 2))))"

text \<open>One iteration of the drawdown loop: the peak and the largest drawdown so far.\<close>

definition drawdown_step :: "int \<times> decimal \<Rightarrow> decimal \<times> decimal \<Rightarrow> (decimal \<times> decimal) result" where
  "drawdown_step p s =
     (case (p, s) of ((_, e), (peak, m)) \<Rightarrow>
        if e > peak then Inr (e, m)
        else if peak > 0 then res_bind (dec_div (dec_sub peak e) peak) (\<lambda>d. Inr (peak, if d > m then d else m))
        else Inr (peak, m))"

definition max_drawdown :: "curve \<Rightarrow> decimal result" where
  "max_drawdown c =
     (if length c < 2 then Inr 0
      else res_bind (res_fold drawdown_step c (snd (hd c), 0)) (\<lambda>s. Inr (snd s)))"

text \<open>The state of the loop over the trades: entry prices, number of sells, winners and profits.\<close>

definition trade_metrics_step ::
  "trade \<Rightarrow> (string \<times> decimal) list \<times> nat \<times> nat \<times> decimal list
   \<Rightarrow> (string \<times> decimal) list \<times> nat \<times> nat \<times> decimal list" where
  "trade_metrics_step t s =
     (case s of (entries, sells, winners, pnls) \<Rightarrow>
        if trade_side t = Buy then (AList.update (trade_symbol t) (trade_fill_price t) entries, sells, winners, pnls)
        else let entry = (case map_of entries (trade_symbol t) of None \<Rightarrow> 0 | Some x \<Rightarrow> x)
             in if entry > 0 then
                  (entries, Suc sells, (if trade_fill_price t > entry then Suc winners else winners),
                   pnls @ [dec_sub (dec_mul (dec_sub (trade_fill_price t) entry) (of_int (trade_quantity t))) (trade_commission t)])
                else (entries, Suc sells, winners, pnls))"

definition trade_metrics :: "trade list \<Rightarrow> (string \<times> decimal) list \<Rightarrow> (decimal \<times> decimal) result" where
  "trade_metrics trades entry_prices =
     (case fold trade_metrics_step trades (entry_prices, 0, 0, []) of (_, sells, winners, pnls) \<Rightarrow>
        if sells = 0 then Inr (0, 0)
        else res_bind (dec_div (of_nat winners) (of_nat sells)) (\<lambda>rate.
             res_bind (if pnls = [] then Inr 0 else dec_div (dec_sum pnls) (of_nat sells)) (\<lambda>avg. Inr (rate, avg))))"

record metrics =
  m_total_return :: decimal
  m_annualized_return :: decimal
  m_sharpe_ratio :: decimal
  m_max_drawdown :: decimal
  m_win_rate :: decimal
  m_total_trades :: nat
  m_avg_trade_pnl :: decimal

definition compute_metrics ::
  "float_ops \<Rightarrow> curve \<Rightarrow> trade list \<Rightarrow> decimal \<Rightarrow> metrics result" where
  "compute_metrics fo c trades capital =
     res_bind (total_return c capital) (\<lambda>tr.
     res_bind (annualized_return fo tr (if length c > 1 then int (length c) - 1 else 0)) (\<lambda>ann.
     res_bind (max_drawdown c) (\<lambda>mdd.
     res_bind (trade_metrics trades []) (\<lambda>(rate, avg).
       Inr \<lparr>m_total_return = tr, m_annualized_return = ann, m_sharpe_ratio = sharpe_ratio fo c,
            m_max_drawdown = mdd, m_win_rate = rate, m_total_trades = length trades, m_avg_trade_pnl = avg\<rparr>))))"

definition buy_and_hold :: "bar list \<Rightarrow> decimal \<Rightarrow> curve result" where
  "buy_and_hold bars capital =
     (if bars = [] then Inr []
      else res_map (\<lambda>b. res_bind (dec_div (bar_close b) (bar_close (hd bars)))
             (\<lambda>r. Inr (bar_timestamp b, dec_mul r capital))) bars)"

section \<open>Attributions add up\<close>

lemma weight_of_map: "f \<in> fst ` set fs \<Longrightarrow> weight_of (map (\<lambda>(f, _). (f, w)) fs) f = w"
  by (induction fs) (auto simp: weight_of_def)

lemma attribution_ignores_scores:
  "map fst fs = map fst gs \<Longrightarrow>
     calculate_trade_attribution pnl fs ws = calculate_trade_attribution pnl gs ws"
proof -
  assume eq: "map fst fs = map fst gs"
  have m: "map (\<lambda>(f, _). h f) xs = map h (map fst xs)" for h :: "string \<Rightarrow> 'z" and xs :: "(string \<times> decimal) list"
    by (simp add: case_prod_beta comp_def)
  have r: "res_map (\<lambda>(f, _). h f) xs = res_map h (map fst xs)"
    for h :: "string \<Rightarrow> (string \<times> decimal) result" and xs :: "(string \<times> decimal) list"
    by (induction xs) auto
  have len: "length fs = length gs" using eq by (metis length_map)
  have nil: "fs = [] \<longleftrightarrow> gs = []" using eq by auto
  show ?thesis unfolding calculate_trade_attribution_def m r eq len nil by (rule refl)
qed

lemma validate_close:
  assumes "attr \<noteq> []" and "0 < pnl" and "approx k (dec_sum (map snd attr)) pnl" and "k \<le> 10 ^ 23"
  shows "validate_attribution attr pnl = Inr True"
proof -
  let ?s = "dec_sum (map snd attr)" and ?c = "1 + 1 / 5000 :: rat"
  have "?s \<le> ?c * pnl" "pnl \<le> ?c * ?s"
    using assms(3) round_factor_bound [OF assms(4)] assms(2)
  proof -
    have s: "?s \<le> round_factor ^ k * pnl" "pnl \<le> round_factor ^ k * ?s" using assms(3) by (simp_all add: approx_def)
    have "0 < ?s" using s(2) assms(2) by (metis less_le_trans zero_less_mult_pos round_factor_pow(2))
    then show "?s \<le> ?c * pnl" "pnl \<le> ?c * ?s"
      using s assms(2) round_factor_bound [OF assms(4)]
      by (meson mult_right_mono order_trans less_imp_le)+
  qed
  then have "5000 * ?s \<le> 5001 * pnl" and "5000 * pnl \<le> 5001 * ?s" by (simp_all add: field_simps)
  then have "4000 * (?s - pnl) \<le> pnl" and "4000 * (pnl - ?s) \<le> pnl" using assms(2) by (simp_all add: ring_distribs)
  then have "4000 * \<bar>?s - pnl\<bar> \<le> pnl" unfolding abs_if by (simp split: if_split)
  then have "\<bar>?s - pnl\<bar> \<le> pnl / 4000" by simp
  then have "dec \<bar>?s - pnl\<bar> \<le> dec (pnl / 4000)" by (rule dec_mono)
  have r: "dec x \<le> round_factor * x" "x \<le> round_factor * dec x" if "0 \<le> x" for x
    using approx_dec [OF that] by (simp_all add: approx_def)
  let ?d = "dec (?s - pnl)"
  have "\<bar>?d\<bar> \<le> round_factor * \<bar>?s - pnl\<bar>"
    using r(1) [of "?s - pnl"] r(1) [of "- (?s - pnl)"] dec_minus [of "?s - pnl"] dec_nonneg [of "?s - pnl"] dec_nonneg [of "- (?s - pnl)"]
    by (cases "0 \<le> ?s - pnl") auto
  moreover have "dec \<bar>?d\<bar> \<le> round_factor * \<bar>?d\<bar>" by (rule r(1)) simp
  moreover have "pnl \<le> round_factor * dec pnl" using r(2) assms(2) by simp
  moreover have "dec pnl > 0" using assms(2) by (rule dec_pos)
  ultimately have "dec \<bar>?d\<bar> \<le> dec pnl / 1000"
    using \<open>\<bar>?s - pnl\<bar> \<le> pnl / 4000\<close> by (simp add: round_factor_def field_simps)
  then have "dec \<bar>?d\<bar> / dec pnl \<le> 1 / 1000" using \<open>dec pnl > 0\<close> by (simp add: field_simps)
  then have "dec (dec \<bar>?d\<bar> / dec pnl) \<le> dec (1 / 1000)" by (rule dec_mono)
  also have "dec (1 / 1000) = 1 / 1000" by (rule dec_exact [of _ 1 "- 3"]) (simp_all add: power_int_minus)
  finally show ?thesis
    using assms(1,2) \<open>dec pnl > 0\<close>
    by (simp add: validate_attribution_def Let_def dec_div_def dec_abs_def dec_sub_def attribution_tolerance_def)
qed

lemma validate_minus:
  "validate_attribution (map (\<lambda>(f, v). (f, - v)) attr) (- pnl) = validate_attribution attr pnl"
proof -
  have s: "dec_sum (map snd (map (\<lambda>(f, v). (f, - v)) attr)) = - dec_sum (map snd attr)"
    using dec_sum_minus [of "map snd attr"] by (simp add: comp_def case_prod_beta)
  have d: "dec_abs (dec_sub (- x) (- y)) = dec_abs (dec_sub x y)" for x y
    using dec_minus [of "x - y"] by (simp add: dec_abs_def dec_sub_def)
  show ?thesis unfolding validate_attribution_def s Let_def d by (simp add: dec_abs_def)
qed

definition weights_ok :: "(string \<times> decimal) list option \<Rightarrow> bool" where
  "weights_ok weights = (case weights of None \<Rightarrow> True | Some ws \<Rightarrow> list_all (\<lambda>(f, w). 0 \<le> w) ws)"

lemma weight_of_nonneg: "list_all (\<lambda>(f, w). 0 \<le> w) ws \<Longrightarrow> 0 \<le> weight_of ws f"
  by (induction ws) (auto simp: weight_of_def)

text \<open>Every attribution is a share of the profit, and the shares add up to one.\<close>

lemma shares_of_weights:
  assumes "\<And>f. f \<in> fst ` set fs \<Longrightarrow> 0 \<le> w f" and "dec_sum (map (w \<circ> fst) fs) \<noteq> 0"
  shows "approx (Suc (length fs)) (sum_list (map (\<lambda>p. dec (w (fst p) / dec_sum (map (w \<circ> fst) fs))) fs)) 1"
proof -
  let ?T = "dec_sum (map (w \<circ> fst) fs)" and ?A = "sum_list (map (w \<circ> fst) fs)"
  have nn: "0 \<le> x" if "x \<in> set (map (w \<circ> fst) fs)" for x using that assms(1) by auto
  have T: "0 < ?T" using dec_sum_nonneg [OF nn] assms(2) by fastforce
  have "approx (length (map (w \<circ> fst) fs)) ?T ?A" by (rule approx_dec_sum) (rule nn)
  then have TA: "approx (length fs) ?T ?A" by simp
  then have "0 < round_factor ^ length fs * ?A" using T unfolding approx_def by linarith
  then have A: "0 < ?A" by (rule zero_less_mult_pos) (rule round_factor_pow(2))
  have "approx (Suc (length fs)) (dec (w (fst p) / ?T)) (w (fst p) / ?A)" if "p \<in> set fs" for p
    using approx_quotient [OF approx_refl TA _ _ T A] assms(1) that T by (intro approx_dec_of) auto
  then have "approx (Suc (length fs)) (sum_list (map (\<lambda>p. dec (w (fst p) / ?T)) fs)) (sum_list (map (\<lambda>p. w (fst p) / ?A) fs))"
    by (rule approx_sum_list)
  also have "sum_list (map (\<lambda>p. w (fst p) / ?A) fs) = 1"
    using A sum_list_mult_const [of "w \<circ> fst" "1 / ?A" fs] by (simp add: comp_def)
  finally show ?thesis .
qed

lemma attribution_shares:
  assumes "factors \<noteq> []" and "pnl \<noteq> 0" and "weights_ok weights"
  shows "\<exists>g. calculate_trade_attribution pnl factors weights = Inr (map (\<lambda>(f, _). (f, dec (g f * pnl))) factors)
    \<and> (\<forall>f \<in> fst ` set factors. 0 \<le> g f) \<and> approx (Suc (length factors)) (sum_list (map (\<lambda>p. g (fst p)) factors)) 1"
proof -
  let ?n = "of_nat (length factors) :: rat"
  define ws where "ws = (case weights of Some ws \<Rightarrow> ws | None \<Rightarrow> map (\<lambda>(f, _). (f, dec (1 / ?n))) factors)"
  let ?w = "weight_of ws" and ?T = "dec_sum (map (weight_of ws \<circ> fst) factors)"
  have n: "0 < ?n" using assms(1) by simp
  have nn: "0 \<le> ?w f" if "f \<in> fst ` set factors" for f
  proof (cases weights)
    case None
    then show ?thesis using that n by (simp add: ws_def weight_of_map dec_nonneg)
  next
    case (Some v)
    then show ?thesis using assms(3) by (simp add: ws_def weights_ok_def weight_of_nonneg)
  qed
  have calc: "calculate_trade_attribution pnl factors weights =
      (if ?T = 0 then Inr (map (\<lambda>(f, _). (f, dec (pnl / ?n))) factors)
       else Inr (map (\<lambda>(f, _). (f, dec (dec (?w f / ?T) * pnl))) factors))"
  proof -
    have m: "map (\<lambda>(f, _). weight_of ws f) factors = map (weight_of ws \<circ> fst) factors" by auto
    have b: "(case weights of Some ws \<Rightarrow> Inr ws
        | None \<Rightarrow> res_bind (dec_div 1 ?n) (\<lambda>w. Inr (map (\<lambda>(f, _). (f, w)) factors))) = Inr ws"
      using n by (cases weights) (simp_all add: ws_def dec_div_def)
    have "res_map (\<lambda>(f, _). res_bind (dec_div (?w f) ?T) (\<lambda>r. Inr (f, dec_mul r pnl))) factors
        = Inr (map (\<lambda>(f, _). (f, dec (dec (?w f / ?T) * pnl))) factors)" if "?T \<noteq> 0"
      using that by (intro res_map_total) (auto simp: dec_div_def dec_mul_def)
    then show ?thesis using assms(1,2) n
      unfolding calculate_trade_attribution_def b by (simp add: m Let_def) (simp add: dec_div_def)
  qed
  show ?thesis
  proof (cases "?T = 0")
    case True
    have "sum_list (map (\<lambda>p. 1 / ?n) factors) = 1" using n by (simp add: sum_list_triv)
    then show ?thesis using True calc n
      by (intro exI [of _ "\<lambda>f. 1 / ?n"]) (auto intro: approx_mono [OF approx_refl])
  next
    case False
    have "0 \<le> dec (?w f / ?T)" if "f \<in> fst ` set factors" for f
      using nn that dec_sum_nonneg [of "map (weight_of ws \<circ> fst) factors"] by (intro dec_nonneg divide_nonneg_nonneg) auto
    then show ?thesis using False calc shares_of_weights [of factors ?w] nn
      by (intro exI [of _ "\<lambda>f. dec (?w f / ?T)"]) simp
  qed
qed

text \<open>Unless a weight is negative, the attribution of a trade returns, names every factor once
  more in order, and its values add up to the profit within the documented 0.1 percent: the
  rounding of up to \<open>10 ^ 20\<close> factors never fails the validation.\<close>

theorem attribution_within_tolerance:
  assumes "factors \<noteq> []" and "pnl \<noteq> 0" and "weights_ok weights" and "length factors \<le> 10 ^ 20"
  shows "\<exists>attr. calculate_trade_attribution pnl factors weights = Inr attr
    \<and> map fst attr = map fst factors \<and> validate_attribution attr pnl = Inr True"
proof -
  from attribution_shares [OF assms(1-3)] obtain g where
    calc: "calculate_trade_attribution pnl factors weights = Inr (map (\<lambda>(f, _). (f, dec (g f * pnl))) factors)"
    and g: "\<forall>f \<in> fst ` set factors. 0 \<le> g f" and one: "approx (Suc (length factors)) (sum_list (map (\<lambda>p. g (fst p)) factors)) 1"
    by blast
  let ?attr = "\<lambda>q. map (\<lambda>(f, _). (f, dec (g f * q))) factors"
  have pos: "validate_attribution (?attr q) q = Inr True" if q: "0 < q" for q
  proof -
    have nn: "0 \<le> g (fst p) * q" if "p \<in> set factors" for p using g that q by simp
    have "approx (length factors) (dec_sum (map snd (?attr q))) (sum_list (map snd (?attr q)))"
      using approx_dec_sum [of "map snd (?attr q)"] nn by (force simp: dec_nonneg)
    moreover have "approx 1 (sum_list (map snd (?attr q))) (sum_list (map (\<lambda>p. g (fst p) * q) factors))"
      using approx_sum_list [of factors 1 "\<lambda>p. dec (g (fst p) * q)" "\<lambda>p. g (fst p) * q"] nn approx_dec
      by (simp add: comp_def case_prod_beta)
    moreover have "approx (Suc (length factors)) (sum_list (map (\<lambda>p. g (fst p) * q) factors)) q"
      using one q by (simp add: approx_def sum_list_mult_const mult.assoc [symmetric] mult_right_mono)
    ultimately have "approx (length factors + (1 + Suc (length factors))) (dec_sum (map snd (?attr q))) q"
      by (meson approx_trans)
    then show ?thesis using assms(1,4) q by (intro validate_close) auto
  qed
  have "validate_attribution (?attr pnl) pnl = Inr True"
  proof (cases "0 < pnl")
    case False
    have "?attr pnl = map (\<lambda>(f, v). (f, - v)) (?attr (- pnl))" by (auto simp: dec_minus)
    then have "validate_attribution (?attr pnl) pnl = validate_attribution (?attr (- pnl)) (- pnl)"
      using validate_minus [of "?attr (- pnl)" "- pnl"] by (simp only: minus_minus)
    then show ?thesis using pos [of "- pnl"] False assms(2) by simp
  qed (rule pos)
  then show ?thesis using calc by (auto simp: comp_def case_prod_beta)
qed

section \<open>The maximum drawdown\<close>

text \<open>The reference: the largest relative decline from any point to a later one.\<close>

definition decline :: "decimal list \<Rightarrow> nat \<Rightarrow> nat \<Rightarrow> decimal" where
  "decline es i j = dec ((es ! i - es ! j) / es ! i)"

definition worst_decline :: "decimal list \<Rightarrow> decimal \<Rightarrow> bool" where
  "worst_decline es m \<longleftrightarrow>
     0 \<le> m \<and> (\<forall>j < length es. \<forall>i \<le> j. 0 < es ! i \<longrightarrow> decline es i j \<le> m)
     \<and> (m = 0 \<or> (\<exists>j < length es. \<exists>i \<le> j. 0 < es ! i \<and> m = decline es i j))"

text \<open>Equities that are not negative and whose differences need no rounding.\<close>

definition exact_equities :: "decimal list \<Rightarrow> bool" where
  "exact_equities es \<longleftrightarrow>
     list_all (\<lambda>x. 0 \<le> x \<and> list_all (\<lambda>y. dec (x - y) = x - y) es) es"

lemma decline_append: "i \<le> j \<Longrightarrow> j < length es \<Longrightarrow> decline (es @ [e]) i j = decline es i j"
  by (simp add: decline_def nth_append)

lemma decline_last: "i < length es \<Longrightarrow> decline (es @ [e]) i (length es) = dec ((es ! i - e) / es ! i)"
  "decline (es @ [e]) (length es) (length es) = 0"
  by (simp_all add: decline_def nth_append)

lemma decline_le:
  "0 < x \<Longrightarrow> x \<le> pk \<Longrightarrow> 0 \<le> e \<Longrightarrow> dec ((x - e) / x) \<le> dec ((pk - e) / pk)"
  by (rule dec_mono) (simp add: field_simps mult_left_mono)

lemma worst_decline_snoc:
  assumes "worst_decline es m" and "m \<le> m'"
    and "\<And>x. x \<in> set es \<Longrightarrow> 0 < x \<Longrightarrow> dec ((x - e) / x) \<le> m'"
    and "m' = m \<or> (\<exists>x \<in> set es. 0 < x \<and> m' = dec ((x - e) / x))"
  shows "worst_decline (es @ [e]) m'"
proof -
  have old: "decline (es @ [e]) i j \<le> m'" if "j < length es" "i \<le> j" "0 < (es @ [e]) ! i" for i j
    using that assms(1,2) decline_append [of i j es e] by (fastforce simp: worst_decline_def nth_append)
  have new: "decline (es @ [e]) i (length es) \<le> m'" if "i \<le> length es" "0 < (es @ [e]) ! i" for i
    using that assms(1-3) by (cases "i = length es")
      (auto simp: decline_last worst_decline_def nth_append)
  have "m' = 0 \<or> (\<exists>j < length (es @ [e]). \<exists>i \<le> j. 0 < (es @ [e]) ! i \<and> m' = decline (es @ [e]) i j)"
  proof (cases "m' = m")
    case True
    from assms(1) consider "m = 0" | i j where "j < length es" "i \<le> j" "0 < es ! i" "m = decline es i j"
      by (auto simp: worst_decline_def)
    then show ?thesis
    proof cases
      case 2
      then show ?thesis using True
        by (intro disjI2 exI [of _ j] conjI exI [of _ i]) (simp_all add: decline_append nth_append)
    qed (simp add: True)
  next
    case False
    with assms(4) obtain i where "i < length es" "0 < es ! i" "m' = dec ((es ! i - e) / es ! i)"
      by (auto simp: in_set_conv_nth)
    then show ?thesis
      by (intro disjI2 exI [of _ "length es"] conjI exI [of _ i]) (simp_all add: decline_last nth_append)
  qed
  moreover have "0 \<le> m'" using assms(1,2) by (simp add: worst_decline_def)
  ultimately show ?thesis using old new by (auto simp: worst_decline_def less_Suc_eq)
qed

text \<open>The loop keeps the peak of what it has seen and the worst decline.\<close>

lemma drawdown_loop:
  assumes "exact_equities (map snd c)" and "c \<noteq> [] \<Longrightarrow> snd (hd c) = pk0"
  shows "\<exists>pk m. res_fold drawdown_step c (pk0, 0) = Inr (pk, m) \<and> worst_decline (map snd c) m
    \<and> pk0 \<le> pk \<and> (\<forall>e \<in> set (map snd c). e \<le> pk) \<and> (pk = pk0 \<or> pk \<in> set (map snd c))"
  using assms
proof (induction c rule: rev_induct)
  case Nil
  then show ?case by (simp add: worst_decline_def)
next
  case (snoc p c)
  obtain t e where p: "p = (t, e)" by (cases p)
  have ex: "exact_equities (map snd c)" using snoc.prems(1) by (simp add: exact_equities_def list_all_iff)
  have e: "0 \<le> e" using snoc.prems(1) by (simp add: exact_equities_def p)
  have hd: "c \<noteq> [] \<Longrightarrow> snd (hd c) = pk0" and pk0: "c = [] \<Longrightarrow> e = pk0" using snoc.prems(2) by (simp_all add: p)
  from snoc.IH [OF ex hd] obtain pk m where
    run: "res_fold drawdown_step c (pk0, 0) = Inr (pk, m)" and w: "worst_decline (map snd c) m"
    and b: "pk0 \<le> pk" "\<forall>e \<in> set (map snd c). e \<le> pk" "pk = pk0 \<or> pk \<in> set (map snd c)" by blast
  have m: "0 \<le> m" using w by (simp add: worst_decline_def)
  have pk: "pk \<in> set (map snd c)" if "c \<noteq> []"
    using b(3) hd [OF that] that by (metis list.set_sel(1) list.map_sel(1) map_is_Nil_conv)
  have low: "dec ((x - e) / x) \<le> m" if "x \<in> set (map snd c)" "0 < x" "x \<le> e" for x
  proof -
    have "dec ((x - e) / x) \<le> dec 0" using that by (intro dec_mono) (simp add: field_simps)
    then show ?thesis using m by simp
  qed
  show ?case
  proof (cases "e > pk")
    case True
    have "worst_decline (map snd c @ [e]) m"
      using w low b(2) True by (intro worst_decline_snoc) fastforce+
    moreover have "res_fold drawdown_step (c @ [p]) (pk0, 0) = Inr (e, m)"
      using run True by (simp add: res_fold_append drawdown_step_def p)
    ultimately show ?thesis using b True by (simp add: p) fastforce
  next
    case le: False
    show ?thesis
    proof (cases "pk > 0")
      case True
      let ?d = "dec ((pk - e) / pk)"
      have exd: "dec (pk - e) = pk - e"
      proof (cases "c = []")
        case True
        then show ?thesis using pk0 b(3) by simp
      next
        case False
        then show ?thesis using pk snoc.prems(1) by (auto simp: exact_equities_def list_all_iff p)
      qed
      have step: "drawdown_step p (pk, m) = Inr (pk, max m ?d)"
        using le True by (simp add: drawdown_step_def p dec_div_def dec_sub_def exd max_def)
      have "worst_decline (map snd c @ [e]) (max m ?d)"
      proof (rule worst_decline_snoc [OF w])
        show "dec ((x - e) / x) \<le> max m ?d" if "x \<in> set (map snd c)" "0 < x" for x
          using decline_le [of x pk e] that b(2) e by (auto simp: le_max_iff_disj)
        show "max m ?d = m \<or> (\<exists>x \<in> set (map snd c). 0 < x \<and> max m ?d = dec ((x - e) / x))"
        proof (cases "c = []")
          case True
          then show ?thesis using pk0 b(3) m by simp
        next
          case False
          then show ?thesis using pk True by (auto simp: max_def)
        qed
      qed simp
      moreover have "res_fold drawdown_step (c @ [p]) (pk0, 0) = Inr (pk, max m ?d)"
        using run step by (simp add: res_fold_append)
      ultimately show ?thesis using b le by (auto simp: p)
    next
      case False
      have "worst_decline (map snd c @ [e]) m"
        using w b(2) False by (intro worst_decline_snoc) fastforce+
      moreover have "res_fold drawdown_step (c @ [p]) (pk0, 0) = Inr (pk, m)"
        using run False le by (simp add: res_fold_append drawdown_step_def p)
      ultimately show ?thesis using b le by (auto simp: p)
    qed
  qed
qed

text \<open>C24. The single pass over the equity curve computes the largest relative decline between any
  point and any later one, as the quadratic reference defines it, when the equities are not
  negative and their differences are exact; it never raises, and the result is between 0 and 1.\<close>

theorem max_drawdown_is_worst_decline:
  assumes "exact_equities (map snd c)"
  shows "\<exists>m. max_drawdown c = Inr m \<and> worst_decline (map snd c) m \<and> m \<le> 1"
proof -
  have one: "m \<le> 1" if "worst_decline (map snd c) m" for m
  proof -
    have "decline (map snd c) i j \<le> dec 1" if "i \<le> j" "j < length c" "0 < map snd c ! i" for i j
      using that assms unfolding decline_def
      by (intro dec_mono) (simp add: field_simps exact_equities_def list_all_length)
    moreover have "dec 1 = 1" by (rule dec_exact [of _ 1 0]) simp_all
    ultimately show ?thesis using that by (auto simp: worst_decline_def)
  qed
  have short: "worst_decline (map snd c) 0" if "length c < 2"
  proof -
    have "decline (map snd c) i j = 0" if "j < length c" "i \<le> j" for i j
      using that \<open>length c < 2\<close> by (cases "i = j") (simp_all add: decline_def)
    then show ?thesis by (auto simp: worst_decline_def)
  qed
  show ?thesis
    using drawdown_loop [OF assms, of "snd (hd c)"] one short
    by (cases "length c < 2") (auto simp: max_drawdown_def)
qed

section \<open>Concrete runs\<close>

theorem attribution_within_tolerance_witness:
  "\<exists>attr. calculate_trade_attribution (- 100) [(''momentum'', 1), (''breakout'', 2)]
       (Some [(''momentum'', 1), (''breakout'', 2)]) = Inr attr
     \<and> map fst attr = [''momentum'', ''breakout''] \<and> validate_attribution attr (- 100) = Inr True"
  using attribution_within_tolerance [of "[(''momentum'', 1), (''breakout'', 2)]" "- 100"
      "Some [(''momentum'', 1), (''breakout'', 2)]"]
  by (simp add: weights_ok_def)

theorem max_drawdown_is_worst_decline_witness:
  "\<exists>m. max_drawdown [(1, 100), (2, 120), (3, 90)] = Inr m \<and> worst_decline [100, 120, 90] m \<and> m \<le> 1"
proof -
  have d: "dec (of_int n) = of_int n" if "\<bar>n\<bar> < 1000" for n :: int
    using that by (intro dec_exact [of _ n 0]) simp_all
  show ?thesis
    using max_drawdown_is_worst_decline [of "[(1, 100), (2, 120), (3, 90)]"] d [of 10] d [of 20] d [of 30]
      d [of "- 10"] d [of "- 20"] d [of "- 30"]
    by (simp add: exact_equities_def)
qed

end
