(* ===== verification/Backtest_Benchmark.thy ===== *)
theory Backtest_Benchmark
  imports Backtest_Metrics
begin

text \<open>
  The comparison of a backtest with a benchmark: the statistics of backtest/math_utils.py and
  backtest/benchmark_metrics.py, in floats with their roundings. Lemmas: aligned curves have
  equal lengths, the regression of aligned returns never raises, and a strategy that earns
  exactly the benchmark's returns captures all of them.
\<close>

section \<open>Statistics\<close>

definition calculate_returns :: "decimal list \<Rightarrow> double list" where
  "calculate_returns xs =
     (if length xs < 2 then []
      else map (\<lambda>(p, c). if p = 0 then 0 else fl (fl (dec_sub c p) / fl p)) (zip xs (tl xs)))"

definition decimal_mean :: "decimal list \<Rightarrow> double" where
  "decimal_mean xs = (if xs = [] then 0 else fl (fl (dec_sum xs) / of_nat (length xs)))"

definition decimal_variance :: "float_ops \<Rightarrow> decimal list \<Rightarrow> double" where
  "decimal_variance fo xs =
     (if length xs < 2 then 0
      else let mean = decimal_mean xs
           in fl (f_sum fo (map (\<lambda>x. f_pow fo (fl (fl x - mean)) 2) xs) / of_nat (length xs - 1)))"

definition decimal_covariance :: "float_ops \<Rightarrow> decimal list \<Rightarrow> decimal list \<Rightarrow> double result" where
  "decimal_covariance fo xs ys =
     (if length xs \<noteq> length ys then Inl ValueError
      else if length xs < 2 then Inr 0
      else let mx = decimal_mean xs; my = decimal_mean ys
           in Inr (fl (f_sum fo (map (\<lambda>(x, y). fl (fl (fl x - mx) * fl (fl y - my))) (zip xs ys)) / of_nat (length xs - 1))))"

definition decimal_ols :: "float_ops \<Rightarrow> decimal list \<Rightarrow> decimal list \<Rightarrow> (double \<times> double \<times> double list) result" where
  "decimal_ols fo xs ys =
     (if length xs < 2 \<or> length ys < 2 then Inr (0, 0, [])
      else let var_x = decimal_variance fo xs; my = decimal_mean ys
           in if var_x = 0 then Inr (my, 0, map (\<lambda>y. fl (fl y - my)) ys)
              else res_bind (decimal_covariance fo xs ys) (\<lambda>cov.
                   let beta = fl (cov / var_x); alpha = fl (my - fl (beta * decimal_mean xs))
                   in Inr (alpha, beta, map (\<lambda>(x, y). fl (fl y - fl (alpha + fl (beta * fl x)))) (zip xs ys))))"

section \<open>Benchmark metrics\<close>

record benchmark_comparison =
  bm_symbol :: string
  bm_total_return :: decimal
  bm_alpha :: decimal
  bm_beta :: decimal
  bm_tracking_error :: decimal
  bm_information_ratio :: decimal
  bm_sortino_ratio :: decimal
  bm_up_capture :: decimal
  bm_down_capture :: decimal

text \<open>\<open>dict(curve)\<close> keeps the last value of a timestamp.\<close>

definition align_curves :: "curve \<Rightarrow> curve \<Rightarrow> decimal list \<times> decimal list" where
  "align_curves strategy benchmark =
     (let joined = filter (\<lambda>p. map_of (rev benchmark) (fst p) \<noteq> None) strategy
      in (map snd joined, map (\<lambda>p. the (map_of (rev benchmark) (fst p))) joined))"

definition sample_std :: "float_ops \<Rightarrow> double list \<Rightarrow> double" where
  "sample_std fo xs =
     (if length xs < 2 then 0
      else let mean = fl (f_sum fo xs / of_nat (length xs))
           in f_sqrt fo (fl (f_sum fo (map (\<lambda>x. f_pow fo (fl (x - mean)) 2) xs) / of_nat (length xs - 1))))"

definition sortino :: "float_ops \<Rightarrow> double list \<Rightarrow> double" where
  "sortino fo rs =
     (let negative = filter (\<lambda>r. r < 0) rs
      in if rs = [] \<or> negative = [] then 0
         else let mean = fl (f_sum fo rs / of_nat (length rs));
                  dev = f_sqrt fo (fl (f_sum fo (map (\<lambda>r. f_pow fo r 2) negative) / of_nat (length rs)))
              in if dev = 0 then 0 else fl (fl (mean / dev) * f_sqrt fo 252))"

text \<open>One capture ratio, over the days on which the benchmark's return satisfies a condition.\<close>

definition capture_ratio :: "float_ops \<Rightarrow> (double \<Rightarrow> bool) \<Rightarrow> double list \<Rightarrow> double list \<Rightarrow> double" where
  "capture_ratio fo P strategy benchmark =
     (let days = filter (\<lambda>(s, b). P b) (zip strategy benchmark); n = of_nat (length days);
          bench_mean = fl (f_sum fo (map snd days) / n)
      in if days = [] \<or> bench_mean = 0 then 0
         else fl (fl (f_sum fo (map fst days) / n) / bench_mean))"

definition capture_ratios :: "float_ops \<Rightarrow> double list \<Rightarrow> double list \<Rightarrow> double \<times> double" where
  "capture_ratios fo strategy benchmark =
     (capture_ratio fo (\<lambda>b. b > 0) strategy benchmark, capture_ratio fo (\<lambda>b. b < 0) strategy benchmark)"

definition compute_benchmark :: "float_ops \<Rightarrow> curve \<Rightarrow> curve \<Rightarrow> string \<Rightarrow> benchmark_comparison option result" where
  "compute_benchmark fo strategy benchmark sy =
     (let (s, b) = align_curves strategy benchmark;
          sr = calculate_returns s; br = calculate_returns b
      in if length s < 2 then Inr None
         else if length sr < 1 then Inr None
         else res_bind (if hd b = 0 then Inr 0 else dec_div (dec_sub (last b) (hd b)) (hd b)) (\<lambda>total.
              res_bind (decimal_ols fo (map float_repr br) (map float_repr sr)) (\<lambda>(alpha_daily, beta, residuals).
                let alpha = fl (alpha_daily * 252);
                    te = fl (sample_std fo residuals * f_sqrt fo 252);
                    ir = (if te = 0 then 0 else fl (alpha / te));
                    (up, down) = capture_ratios fo sr br
                in Inr (Some \<lparr>bm_symbol = sy, bm_total_return = total, bm_alpha = float_repr alpha,
                     bm_beta = float_repr beta, bm_tracking_error = float_repr te, bm_information_ratio = float_repr ir,
                     bm_sortino_ratio = float_repr (sortino fo sr), bm_up_capture = float_repr up,
                     bm_down_capture = float_repr down\<rparr>))))"

section \<open>Lemmas\<close>

lemma align_curves_length: "align_curves s b = (x, y) \<Longrightarrow> length x = length y"
  by (auto simp: align_curves_def Let_def)

lemma calculate_returns_length: "length (calculate_returns xs) = length xs - 1"
  by (cases "length xs < 2") (auto simp: calculate_returns_def)

lemma capture_own_benchmark: "capture_ratio fo P rs rs \<in> {0, 1}"
proof -
  have "fst p = snd p" if "p \<in> set (zip rs rs)" for p using that by (auto simp: in_set_zip)
  then have eq: "map fst (filter (\<lambda>(s, b). P b) (zip rs rs)) = map snd (filter (\<lambda>(s, b). P b) (zip rs rs))" by auto
  show ?thesis using fl_of_int [of 1] unfolding capture_ratio_def Let_def eq by simp
qed

text \<open>The comparison always returns: neither a division nor the covariance can raise.\<close>

lemma compute_benchmark_returns: "\<exists>r. compute_benchmark fo s b sy = Inr r"
proof -
  obtain x y where xy: "align_curves s b = (x, y)" by (cases "align_curves s b")
  have len: "length (calculate_returns x) = length (calculate_returns y)"
    using align_curves_length [OF xy] by (simp add: calculate_returns_length)
  have "\<exists>p. decimal_ols fo (map float_repr (calculate_returns y)) (map float_repr (calculate_returns x)) = Inr p"
    using len by (simp add: decimal_ols_def decimal_covariance_def Let_def)
  then obtain a be rs where
    ols: "decimal_ols fo (map float_repr (calculate_returns y)) (map float_repr (calculate_returns x)) = Inr (a, be, rs)"
    by (metis prod_cases3)
  have "\<exists>t. (if hd y = 0 then Inr 0 else dec_div (dec_sub (last y) (hd y)) (hd y)) = Inr t" by (simp add: dec_div_def)
  then obtain t where "(if hd y = 0 then Inr 0 else dec_div (dec_sub (last y) (hd y)) (hd y)) = Inr t" by blast
  then show ?thesis using ols xy
    by (simp add: compute_benchmark_def Let_def split_beta)
qed

end
