(* ===== verification/Backtest_Engine.thy ===== *)
theory Backtest_Engine
  imports Backtest_Benchmark
begin

text \<open>
  The event loop of backtest/engine.py: at each bar the signal of an earlier bar is executed
  at the open, then the strategy sees the close. The strategy, the bar loader and uuids are
  parameters; a strategy may raise. The \<open>MockPosition\<close> that the context shows to a strategy is a
  pair of quantity and average cost. Lemmas: the trades up to a bar depend only on the
  earlier bars and on the open of that bar (no look-ahead), the portfolio is the replay of
  the trades, and positions and, without slippage, cash never become negative.
\<close>

section \<open>State of a run\<close>

record market_data =
  md_symbol :: string
  md_price :: decimal
  md_bid :: decimal
  md_ask :: decimal
  md_volume :: int
  md_timestamp :: int

type_synonym 's strategy =
  "market_data \<Rightarrow> (string \<Rightarrow> (int \<times> decimal) option) \<Rightarrow> 's \<Rightarrow> (signal list \<times> 's) result"

record entry_position =
  ep_entry_trades :: "(trade \<times> int) list"
  ep_total_qty :: int
  ep_weighted_avg_cost :: decimal
  ep_weighted_factors :: "(string \<times> decimal) list"
  ep_total_commission :: decimal

record 's backtest =
  bt_portfolio :: bt_portfolio
  bt_equity_curve :: curve
  bt_trades :: "trade list"
  bt_first_signal_bar :: "int option"
  bt_pending_signal :: "signal option"
  bt_pending_traces :: "(int \<times> signal_trace) list"
  bt_completed_traces :: "signal_trace list"
  bt_entries :: "(string \<times> entry_position) list"
  bt_strategy :: 's

definition backtest_init :: "backtest_config \<Rightarrow> 's \<Rightarrow> 's backtest" where
  "backtest_init cfg s =
     \<lparr>bt_portfolio = bt_portfolio_init (bc_initial_capital cfg), bt_equity_curve = [], bt_trades = [],
      bt_first_signal_bar = None, bt_pending_signal = None, bt_pending_traces = [], bt_completed_traces = [],
      bt_entries = [], bt_strategy = s\<rparr>"

definition factor_weights :: "backtest_config \<Rightarrow> (string \<times> decimal) list option" where
  "factor_weights cfg = (if bc_factor_weights cfg = [] then None else Some (bc_factor_weights cfg))"

section \<open>Attribution bookkeeping\<close>

definition new_entry :: entry_position where
  "new_entry = \<lparr>ep_entry_trades = [], ep_total_qty = 0, ep_weighted_avg_cost = 0, ep_weighted_factors = [],
     ep_total_commission = 0\<rparr>"

definition weigh_factor ::
  "int \<Rightarrow> int \<Rightarrow> int \<Rightarrow> string \<times> decimal \<Rightarrow> (string \<times> decimal) list \<Rightarrow> (string \<times> decimal) list result" where
  "weigh_factor old_qty q new_qty p fs =
     (case p of (f, score) \<Rightarrow>
        if new_qty > 0 then
          res_bind (dec_div (dec_add (dec_mul (weight_of fs f) (of_int old_qty)) (dec_mul score (of_int q))) (of_int new_qty))
            (\<lambda>w. Inr (AList.update f w fs))
        else Inr fs)"

definition track_entry ::
  "trade \<Rightarrow> (string \<times> entry_position) list \<Rightarrow> (string \<times> entry_position) list result" where
  "track_entry t entries =
     (let sy = trade_symbol t; q = trade_quantity t;
          pos = (case map_of entries sy of None \<Rightarrow> new_entry | Some p \<Rightarrow> p);
          old_qty = ep_total_qty pos; new_qty = old_qty + q
      in res_bind
           (if new_qty > 0 then
              dec_div (dec_add (dec_mul (ep_weighted_avg_cost pos) (of_int old_qty)) (dec_mul (trade_fill_price t) (of_int q)))
                (of_int new_qty)
            else Inr (ep_weighted_avg_cost pos))
           (\<lambda>avg. res_bind (res_fold (weigh_factor old_qty q new_qty) (entry_factors t) (ep_weighted_factors pos))
           (\<lambda>fs. Inr (AList.update sy
              (pos\<lparr>ep_entry_trades := ep_entry_trades pos @ [(t, q)], ep_weighted_avg_cost := avg,
                   ep_weighted_factors := fs, ep_total_qty := new_qty,
                   ep_total_commission := dec_add (ep_total_commission pos) (trade_commission t)\<rparr>) entries))))"

text \<open>The attribution of a sell and the entries that remain.\<close>

definition attribute_exit ::
  "(string \<times> decimal) list option \<Rightarrow> trade \<Rightarrow> (string \<times> entry_position) list
   \<Rightarrow> (trade \<times> (string \<times> entry_position) list) result" where
  "attribute_exit weights t entries =
     (case map_of entries (trade_symbol t) of
        None \<Rightarrow> Inr (t, entries)
      | Some pos \<Rightarrow>
          (let q = trade_quantity t
           in res_bind
                (if ep_total_qty pos > 0
                 then dec_div (dec_mul (ep_total_commission pos) (of_int q)) (of_int (ep_total_qty pos)) else Inr 0)
                (\<lambda>prorata.
                  let pnl = dec_sub (dec_sub (dec_mul (dec_sub (trade_fill_price t) (ep_weighted_avg_cost pos)) (of_int q))
                                             (trade_commission t)) prorata
                  in res_bind (calculate_trade_attribution pnl (ep_weighted_factors pos) weights) (\<lambda>attr.
                       let pos' = pos\<lparr>ep_total_qty := ep_total_qty pos - q,
                                      ep_total_commission := dec_sub (ep_total_commission pos) prorata\<rparr>
                       in Inr (t\<lparr>trade_attribution := attr\<rparr>,
                            if ep_total_qty pos' \<le> 0 then AList.delete (trade_symbol t) entries
                            else AList.update (trade_symbol t) pos' entries)))))"

section \<open>One bar\<close>

definition finish_trace :: "bar \<Rightarrow> signal \<Rightarrow> trade \<Rightarrow> 's backtest \<Rightarrow> 's backtest result" where
  "finish_trace b sg t s =
     (case map_of (bt_pending_traces s) (sig_timestamp sg) of
        None \<Rightarrow> Inr s
      | Some tr \<Rightarrow>
          res_bind (complete_trace tr (Some b) (Some (trade_fill_price t)) (Some (trade_quantity t)) (Some (trade_commission t)))
            (\<lambda>tr'. Inr (s\<lparr>bt_completed_traces := bt_completed_traces s @ [tr'],
                          bt_pending_traces := AList.delete (sig_timestamp sg) (bt_pending_traces s)\<rparr>)))"

text \<open>The pending signal is executed at the open of a bar of the backtest period, if the checks pass.\<close>

definition execute_signal :: "(nat \<Rightarrow> string) \<Rightarrow> backtest_config \<Rightarrow> bar \<Rightarrow> signal \<Rightarrow> 's backtest \<Rightarrow> 's backtest result" where
  "execute_signal uuid cfg b sg s =
     (let fill = execute_fill (bc_slippage_bps cfg) (bc_commission_per_share cfg) (uuid (length (bt_trades s))) sg b
      in if sig_action sg = Buy then
           if can_buy (bar_open b) (sig_quantity sg)
                (dec_mul (bc_commission_per_share cfg) (of_int (sig_quantity sg))) (bt_portfolio s) then
             res_bind fill (\<lambda>t.
             res_bind (apply_trade t (bt_portfolio s)) (\<lambda>pf.
             res_bind (track_entry t (bt_entries s)) (\<lambda>entries.
             finish_trace b sg t (s\<lparr>bt_portfolio := pf, bt_trades := bt_trades s @ [t], bt_entries := entries\<rparr>))))
           else Inr s
         else if can_sell (sig_quantity sg) (bt_portfolio s) then
           res_bind fill (\<lambda>t0.
             let t = t0\<lparr>exit_factors := sig_factor_scores sg\<rparr>
             in res_bind (apply_trade t (bt_portfolio s)) (\<lambda>pf.
                res_bind (attribute_exit (factor_weights cfg) t (bt_entries s)) (\<lambda>(t', entries).
                finish_trace b sg t' (s\<lparr>bt_portfolio := pf, bt_trades := bt_trades s @ [t'], bt_entries := entries\<rparr>))))
         else Inr s)"

definition execute_pending :: "(nat \<Rightarrow> string) \<Rightarrow> backtest_config \<Rightarrow> bar \<Rightarrow> 's backtest \<Rightarrow> 's backtest result" where
  "execute_pending uuid cfg b s =
     (case bt_pending_signal s of
        None \<Rightarrow> Inr s
      | Some sg \<Rightarrow>
          if bc_start_date cfg \<le> bar_day b
          then res_bind (execute_signal uuid cfg b sg s) (\<lambda>s'. Inr (s'\<lparr>bt_pending_signal := None\<rparr>))
          else Inr s)"

definition bar_to_market_data :: "bar \<Rightarrow> market_data" where
  "bar_to_market_data b =
     \<lparr>md_symbol = bar_symbol b, md_price = bar_close b, md_bid = bar_close b, md_ask = bar_close b,
      md_volume = bar_volume b, md_timestamp = bar_timestamp b\<rparr>"

text \<open>The context ignores the symbol it is asked for.\<close>

definition backtest_context :: "bt_portfolio \<Rightarrow> string \<Rightarrow> (int \<times> decimal) option" where
  "backtest_context pf sy = (if pf_qty pf > 0 then Some (pf_qty pf, pf_avg_cost pf) else None)"

definition capture_signal :: "(int \<Rightarrow> string) \<Rightarrow> bar \<Rightarrow> signal list \<Rightarrow> 's backtest \<Rightarrow> 's backtest" where
  "capture_signal tuuid b sigs s =
     (case sigs of
        [] \<Rightarrow> s
      | sg # _ \<Rightarrow>
          (let pf = bt_portfolio s;
               tr = create_pending (tuuid (bar_timestamp b)) b (sig_action sg) (sig_quantity sg)
                      (if sig_reason sg \<noteq> [] then Some (sig_reason sg) else None) (pf_cash pf) (pf_qty pf)
                      (if pf_qty pf > 0 then Some (pf_avg_cost pf) else None) (equity (bar_close b) pf)
           in s\<lparr>bt_pending_signal := Some sg,
                bt_first_signal_bar := (case bt_first_signal_bar s of None \<Rightarrow> Some (bar_timestamp b) | Some x \<Rightarrow> Some x),
                bt_pending_traces := AList.update (sig_timestamp sg) tr (bt_pending_traces s)\<rparr>))"

definition observe_close :: "'s strategy \<Rightarrow> (int \<Rightarrow> string) \<Rightarrow> backtest_config \<Rightarrow> bar \<Rightarrow> 's backtest \<Rightarrow> 's backtest result" where
  "observe_close strat tuuid cfg b s =
     res_bind (strat (bar_to_market_data b) (backtest_context (bt_portfolio s)) (bt_strategy s)) (\<lambda>(sigs, st).
       let s' = capture_signal tuuid b sigs (s\<lparr>bt_strategy := st\<rparr>)
       in Inr (if bc_start_date cfg \<le> bar_day b
               then s'\<lparr>bt_equity_curve := bt_equity_curve s' @ [(bar_timestamp b, equity (bar_close b) (bt_portfolio s'))]\<rparr>
               else s'))"

definition process_bar ::
  "'s strategy \<Rightarrow> (nat \<Rightarrow> string) \<Rightarrow> (int \<Rightarrow> string) \<Rightarrow> backtest_config \<Rightarrow> bar \<Rightarrow> 's backtest \<Rightarrow> 's backtest result" where
  "process_bar strat uuid tuuid cfg b s =
     res_bind (execute_pending uuid cfg b s) (observe_close strat tuuid cfg b)"

definition event_loop ::
  "'s strategy \<Rightarrow> (nat \<Rightarrow> string) \<Rightarrow> (int \<Rightarrow> string) \<Rightarrow> backtest_config \<Rightarrow> bar list \<Rightarrow> 's backtest \<Rightarrow> 's backtest result" where
  "event_loop strat uuid tuuid cfg bars s = res_fold (process_bar strat uuid tuuid cfg) bars s"

section \<open>A complete run\<close>

definition strategy_allowed :: "string \<Rightarrow> bool" where
  "strategy_allowed name \<longleftrightarrow> take 15 name = ''src.strategies.'' \<or> take 6 name = ''tests.''"

definition bars_to_process :: "backtest_config \<Rightarrow> nat \<Rightarrow> bar list \<Rightarrow> bar list result" where
  "bars_to_process cfg warmup all_bars =
     (let warm = filter (\<lambda>b. bar_day b < bc_start_date cfg) all_bars;
          back = filter (\<lambda>b. bc_start_date cfg \<le> bar_day b) all_bars
      in if length warm < warmup then Inl ValueError
         else Inr (if warmup > 0 then drop (length warm - warmup) warm @ back else back))"

text \<open>The unrealised profit of what is still held is attributed at the last close.\<close>

definition attribute_open ::
  "(string \<times> decimal) list option \<Rightarrow> decimal \<Rightarrow> string \<times> entry_position \<Rightarrow> (string \<times> decimal) list
   \<Rightarrow> (string \<times> decimal) list result" where
  "attribute_open weights price p summary =
     (case p of (_, pos) \<Rightarrow>
        if ep_total_qty pos > 0 then
          res_bind (calculate_trade_attribution
              (dec_mul (dec_sub price (ep_weighted_avg_cost pos)) (of_int (ep_total_qty pos))) (ep_weighted_factors pos) weights)
            (\<lambda>attr. let s' = add_attribution attr summary
               in Inr (case map_of s' ''total'' of
                         None \<Rightarrow> s'
                       | Some x \<Rightarrow> AList.update ''total'' (dec_add x (dec_sum (map snd attr))) s'))
        else Inr summary)"

record backtest_result =
  br_equity_curve :: curve
  br_trades :: "trade list"
  br_final_equity :: decimal
  br_final_cash :: decimal
  br_final_position_qty :: int
  br_metrics :: metrics
  br_warm_up_required_bars :: nat
  br_warm_up_bars_used :: nat
  br_first_signal_bar :: "int option"
  br_benchmark :: "benchmark_comparison option"
  br_traces :: "signal_trace list"
  br_attribution_summary :: "(string \<times> decimal) list"

definition compare_benchmark ::
  "float_ops \<Rightarrow> (string \<Rightarrow> int \<Rightarrow> int \<Rightarrow> bar list) \<Rightarrow> backtest_config \<Rightarrow> curve \<Rightarrow> benchmark_comparison option result" where
  "compare_benchmark fo load cfg c =
     (case bc_benchmark_symbol cfg of
        None \<Rightarrow> Inr None
      | Some sy \<Rightarrow>
          (let bars = load sy (bc_start_date cfg) (bc_end_date cfg)
           in if sy = [] \<or> bars = [] then Inr None
              else res_bind (buy_and_hold bars (bc_initial_capital cfg)) (\<lambda>bench.
                   compute_benchmark fo c bench sy)))"

definition finish_run ::
  "float_ops \<Rightarrow> (string \<Rightarrow> int \<Rightarrow> int \<Rightarrow> bar list) \<Rightarrow> backtest_config \<Rightarrow> nat \<Rightarrow> bar list
   \<Rightarrow> 's backtest \<Rightarrow> backtest_result result" where
  "finish_run fo load cfg warmup all_bars s =
     (let back = filter (\<lambda>b. bc_start_date cfg \<le> bar_day b) all_bars;
          warm = filter (\<lambda>b. bar_day b < bc_start_date cfg) all_bars;
          c = bt_equity_curve s;
          final_price = (if back = [] then bc_initial_capital cfg else bar_close (last back))
      in res_bind (compute_metrics fo c (bt_trades s) (bc_initial_capital cfg)) (\<lambda>m.
         res_bind (compare_benchmark fo load cfg c) (\<lambda>bench.
         res_bind (res_fold (attribute_open (factor_weights cfg) final_price) (bt_entries s) (calculate_summary (bt_trades s)))
           (\<lambda>summary. Inr
             \<lparr>br_equity_curve = c, br_trades = bt_trades s,
              br_final_equity = (if c = [] then bc_initial_capital cfg else snd (last c)),
              br_final_cash = pf_cash (bt_portfolio s), br_final_position_qty = pf_qty (bt_portfolio s), br_metrics = m,
              br_warm_up_required_bars = warmup, br_warm_up_bars_used = min (length warm) warmup,
              br_first_signal_bar = bt_first_signal_bar s, br_benchmark = bench, br_traces = bt_completed_traces s,
              br_attribution_summary = summary\<rparr>))))"

definition run_backtest ::
  "float_ops \<Rightarrow> (string \<Rightarrow> int \<Rightarrow> int \<Rightarrow> bar list)
   \<Rightarrow> (backtest_config \<Rightarrow> ('s strategy \<times> 's \<times> nat) result) \<Rightarrow> (nat \<Rightarrow> string) \<Rightarrow> (int \<Rightarrow> string)
   \<Rightarrow> backtest_config \<Rightarrow> backtest_result result" where
  "run_backtest fo load create uuid tuuid cfg =
     (if \<not> strategy_allowed (bc_strategy_class cfg) then Inl ValueError
      else res_bind (create cfg) (\<lambda>(strat, st, warmup).
        let all_bars = load (bc_symbol cfg) (bc_start_date cfg - (int warmup * 3 + 7)) (bc_end_date cfg)
        in res_bind (bars_to_process cfg warmup all_bars) (\<lambda>bars.
           res_bind (event_loop strat uuid tuuid cfg bars (backtest_init cfg st))
             (finish_run fo load cfg warmup all_bars))))"

section \<open>What one bar changes\<close>

lemma finish_trace_frame:
  "finish_trace b sg t s = Inr s' \<Longrightarrow>
     bt_trades s' = bt_trades s \<and> bt_portfolio s' = bt_portfolio s \<and> bt_equity_curve s' = bt_equity_curve s
     \<and> bt_strategy s' = bt_strategy s \<and> bt_pending_signal s' = bt_pending_signal s"
  by (auto simp: finish_trace_def res_bind_eq_Inr split: option.splits)

lemma apply_trade_cong:
  "trade_side t' = trade_side t \<Longrightarrow> trade_quantity t' = trade_quantity t \<Longrightarrow> trade_fill_price t' = trade_fill_price t
   \<Longrightarrow> trade_commission t' = trade_commission t \<Longrightarrow> apply_trade t' pf = apply_trade t pf"
  by (simp add: apply_trade_def apply_buy_def apply_sell_def Let_def)

lemma attribute_exit_frame:
  "attribute_exit ws t entries = Inr (t', entries') \<Longrightarrow>
     apply_trade t' = apply_trade t \<and> trade_timestamp t' = trade_timestamp t \<and> trade_side t' = trade_side t
     \<and> trade_quantity t' = trade_quantity t \<and> trade_fill_price t' = trade_fill_price t \<and> trade_commission t' = trade_commission t"
  by (auto simp: attribute_exit_def Let_def res_bind_eq_Inr intro!: apply_trade_cong split: option.splits)

text \<open>A signal leads to at most one trade: at this bar's time, with the signal's side and quantity,
  allowed by the check, and applied to the portfolio.\<close>

lemma execute_signal_effect:
  assumes "execute_signal uuid cfg b sg s = Inr s'"
  obtains "bt_trades s' = bt_trades s" "bt_portfolio s' = bt_portfolio s" "bt_equity_curve s' = bt_equity_curve s"
  | t t0 where "bt_trades s' = bt_trades s @ [t]" "bt_equity_curve s' = bt_equity_curve s"
      "apply_trade t (bt_portfolio s) = Inr (bt_portfolio s')" "trade_timestamp t = bar_timestamp b"
      "trade_side t = sig_action sg" "trade_quantity t = sig_quantity sg"
      "execute_fill (bc_slippage_bps cfg) (bc_commission_per_share cfg) (uuid (length (bt_trades s))) sg b = Inr t0"
      "apply_trade t = apply_trade t0"
      "if sig_action sg = Buy
       then can_buy (bar_open b) (sig_quantity sg) (dec_mul (bc_commission_per_share cfg) (of_int (sig_quantity sg))) (bt_portfolio s)
       else can_sell (sig_quantity sg) (bt_portfolio s)"
proof (cases "sig_action sg = Buy")
  case True
  show thesis
  proof (cases "can_buy (bar_open b) (sig_quantity sg) (dec_mul (bc_commission_per_share cfg) (of_int (sig_quantity sg))) (bt_portfolio s)")
    case False
    with True assms that(1) show thesis by (simp add: execute_signal_def)
  next
    case ok: True
    with True assms obtain t pf entries where
      fill: "execute_fill (bc_slippage_bps cfg) (bc_commission_per_share cfg) (uuid (length (bt_trades s))) sg b = Inr t"
      and "apply_trade t (bt_portfolio s) = Inr pf"
      and "finish_trace b sg t (s\<lparr>bt_portfolio := pf, bt_trades := bt_trades s @ [t], bt_entries := entries\<rparr>) = Inr s'"
      by (auto simp: execute_signal_def Let_def res_bind_eq_Inr)
    with finish_trace_frame [OF this(3)] execute_fill_fields [OF fill] True ok show thesis by (intro that(2) [of t t]) auto
  qed
next
  case False
  show thesis
  proof (cases "can_sell (sig_quantity sg) (bt_portfolio s)")
    case no: False
    with False assms that(1) show thesis by (simp add: execute_signal_def)
  next
    case ok: True
    with False assms obtain t0 t' pf entries where
      fill: "execute_fill (bc_slippage_bps cfg) (bc_commission_per_share cfg) (uuid (length (bt_trades s))) sg b = Inr t0"
      and ap: "apply_trade (t0\<lparr>exit_factors := sig_factor_scores sg\<rparr>) (bt_portfolio s) = Inr pf"
      and att: "attribute_exit (factor_weights cfg) (t0\<lparr>exit_factors := sig_factor_scores sg\<rparr>) (bt_entries s) = Inr (t', entries)"
      and fin: "finish_trace b sg t' (s\<lparr>bt_portfolio := pf, bt_trades := bt_trades s @ [t'], bt_entries := entries\<rparr>) = Inr s'"
      by (auto simp: execute_signal_def Let_def res_bind_eq_Inr)
    have same: "apply_trade (t0\<lparr>exit_factors := sig_factor_scores sg\<rparr>) = apply_trade t0"
      by (intro ext apply_trade_cong) simp_all
    show thesis
      using attribute_exit_frame [OF att] finish_trace_frame [OF fin] execute_fill_fields [OF fill] False ok ap
      by (intro that(2) [of t' t0] fill) (simp_all add: same)
  qed
qed

lemma capture_signal_frame [simp]:
  "bt_trades (capture_signal tuuid b sigs s) = bt_trades s"
  "bt_portfolio (capture_signal tuuid b sigs s) = bt_portfolio s"
  "bt_equity_curve (capture_signal tuuid b sigs s) = bt_equity_curve s"
  by (cases sigs; simp add: capture_signal_def Let_def)+

lemma observe_close_effect:
  "observe_close strat tuuid cfg b s = Inr s' \<Longrightarrow>
     bt_trades s' = bt_trades s \<and> bt_portfolio s' = bt_portfolio s
     \<and> bt_equity_curve s' = bt_equity_curve s
         @ (if bc_start_date cfg \<le> bar_day b then [(bar_timestamp b, equity (bar_close b) (bt_portfolio s))] else [])"
  by (auto simp: observe_close_def res_bind_eq_Inr Let_def)

lemma process_bar_parts:
  "process_bar strat uuid tuuid cfg b s = Inr s' \<Longrightarrow>
     \<exists>u. execute_pending uuid cfg b s = Inr u \<and> observe_close strat tuuid cfg b u = Inr s'"
  by (simp add: process_bar_def res_bind_eq_Inr)

lemma execute_pending_effect:
  assumes "execute_pending uuid cfg b s = Inr s'"
  shows "\<exists>ts. bt_trades s' = bt_trades s @ ts \<and> length ts \<le> 1 \<and> (\<forall>t \<in> set ts. trade_timestamp t = bar_timestamp b)
    \<and> res_fold apply_trade ts (bt_portfolio s) = Inr (bt_portfolio s') \<and> bt_equity_curve s' = bt_equity_curve s"
proof -
  consider "s' = s"
    | sg u where "execute_signal uuid cfg b sg s = Inr u" "s' = u\<lparr>bt_pending_signal := None\<rparr>"
    using assms by (auto simp: execute_pending_def res_bind_eq_Inr split: option.splits if_splits)
  then show ?thesis
  proof cases
    case (2 sg u)
    from 2(1) show ?thesis by (rule execute_signal_effect) (simp_all add: 2(2))
  qed simp
qed

lemma process_bar_effect:
  assumes "process_bar strat uuid tuuid cfg b s = Inr s'"
  shows "\<exists>ts. bt_trades s' = bt_trades s @ ts \<and> length ts \<le> 1 \<and> (\<forall>t \<in> set ts. trade_timestamp t = bar_timestamp b)
    \<and> res_fold apply_trade ts (bt_portfolio s) = Inr (bt_portfolio s')
    \<and> bt_equity_curve s' = bt_equity_curve s
         @ (if bc_start_date cfg \<le> bar_day b then [(bar_timestamp b, equity (bar_close b) (bt_portfolio s'))] else [])"
  using process_bar_parts [OF assms] execute_pending_effect observe_close_effect by fastforce

section \<open>No look-ahead\<close>

lemma execute_pending_open:
  assumes "bar_timestamp b' = bar_timestamp b" "bar_day b' = bar_day b" "bar_open b' = bar_open b"
    and "execute_pending uuid cfg b s = Inr u" and "execute_pending uuid cfg b' s = Inr u'"
  shows "bt_trades u' = bt_trades u"
proof -
  have "bt_trades v' = bt_trades v"
    if "execute_signal uuid cfg b sg s = Inr v" "execute_signal uuid cfg b' sg s = Inr v'" for sg v v'
    using that unfolding execute_signal_def Let_def execute_fill_open [OF assms(3,1)] assms(3)
    by (auto simp: res_bind_eq_Inr dest!: finish_trace_frame split: if_splits)
  then show ?thesis using assms(2,4,5)
    by (auto simp: execute_pending_def res_bind_eq_Inr split: option.splits if_splits)
qed

lemma later_bars_extend:
  assumes "event_loop strat uuid tuuid cfg ys s = Inr r"
  shows "(\<exists>ts. bt_trades r = bt_trades s @ ts \<and> (\<forall>t \<in> set ts. \<exists>y \<in> set ys. trade_timestamp t = bar_timestamp y))
    \<and> (\<exists>ps. bt_equity_curve r = bt_equity_curve s @ ps \<and> (\<forall>p \<in> set ps. \<exists>y \<in> set ys. fst p = bar_timestamp y))"
proof (intro conjI)
  show "\<exists>ts. bt_trades r = bt_trades s @ ts \<and> (\<forall>t \<in> set ts. \<exists>y \<in> set ys. trade_timestamp t = bar_timestamp y)"
    using process_bar_effect
    by (intro res_fold_extends [OF _ assms [unfolded event_loop_def], of bt_trades "\<lambda>y t. trade_timestamp t = bar_timestamp y"]) blast
  show "\<exists>ps. bt_equity_curve r = bt_equity_curve s @ ps \<and> (\<forall>p \<in> set ps. \<exists>y \<in> set ys. fst p = bar_timestamp y)"
    using process_bar_effect
    by (intro res_fold_extends [OF _ assms [unfolded event_loop_def], of bt_equity_curve "\<lambda>y p. fst p = bar_timestamp y"]) fastforce
qed

text \<open>Everything up to the execution at bar \<open>b\<close> is settled before the rest of \<open>b\<close> is read.\<close>

lemma event_loop_at:
  assumes "event_loop strat uuid tuuid cfg (xs @ b # ys) s = Inr r" and "\<forall>y \<in> set ys. bar_timestamp b < bar_timestamp y"
  shows "\<exists>m u. event_loop strat uuid tuuid cfg xs s = Inr m \<and> execute_pending uuid cfg b m = Inr u
    \<and> filter (\<lambda>t. trade_timestamp t \<le> bar_timestamp b) (bt_trades r)
        = filter (\<lambda>t. trade_timestamp t \<le> bar_timestamp b) (bt_trades u)
    \<and> filter (\<lambda>p. fst p < bar_timestamp b) (bt_equity_curve r)
        = filter (\<lambda>p. fst p < bar_timestamp b) (bt_equity_curve m)"
proof -
  from assms(1) obtain m v where m: "event_loop strat uuid tuuid cfg xs s = Inr m"
    and v: "process_bar strat uuid tuuid cfg b m = Inr v" and r: "event_loop strat uuid tuuid cfg ys v = Inr r"
    by (auto simp: event_loop_def res_fold_append res_bind_eq_Inr)
  from process_bar_parts [OF v] obtain u where
    u: "execute_pending uuid cfg b m = Inr u" "observe_close strat tuuid cfg b u = Inr v" by blast
  from later_bars_extend [OF r] obtain ts ps where
    ts: "bt_trades r = bt_trades v @ ts" "\<forall>t \<in> set ts. \<exists>y \<in> set ys. trade_timestamp t = bar_timestamp y"
    and ps: "bt_equity_curve r = bt_equity_curve v @ ps" "\<forall>p \<in> set ps. \<exists>y \<in> set ys. fst p = bar_timestamp y" by blast
  have "filter (\<lambda>t. trade_timestamp t \<le> bar_timestamp b) ts = []"
    using ts(2) assms(2) by (force simp: filter_empty_conv)
  moreover have "filter (\<lambda>p. fst p < bar_timestamp b) ps = []"
    using ps(2) assms(2) by (force simp: filter_empty_conv)
  moreover have "bt_equity_curve u = bt_equity_curve m" using execute_pending_effect [OF u(1)] by blast
  ultimately show ?thesis using m u(1) ts(1) ps(1) observe_close_effect [OF u(2)]
    by (intro exI [of _ m] exI [of _ u]) simp
qed

text \<open>C22. No look-ahead: two runs over histories that agree before a bar and agree on the time and
  the open of that bar make the same trades up to and including that bar and have the same
  equity before it, whatever the rest of the bar and the later bars are.\<close>

theorem no_lookahead:
  assumes "event_loop strat uuid tuuid cfg (xs @ b # ys) s = Inr r"
    and "event_loop strat uuid tuuid cfg (xs @ b' # ys') s = Inr r'"
    and "bar_timestamp b' = bar_timestamp b" and "bar_day b' = bar_day b" and "bar_open b' = bar_open b"
    and "\<forall>y \<in> set ys \<union> set ys'. bar_timestamp b < bar_timestamp y"
  shows "filter (\<lambda>t. trade_timestamp t \<le> bar_timestamp b) (bt_trades r)
      = filter (\<lambda>t. trade_timestamp t \<le> bar_timestamp b) (bt_trades r')
    \<and> filter (\<lambda>p. fst p < bar_timestamp b) (bt_equity_curve r)
      = filter (\<lambda>p. fst p < bar_timestamp b) (bt_equity_curve r')"
proof -
  from event_loop_at [OF assms(1)] assms(6) obtain m u where
    m: "event_loop strat uuid tuuid cfg xs s = Inr m" "execute_pending uuid cfg b m = Inr u"
    and r: "filter (\<lambda>t. trade_timestamp t \<le> bar_timestamp b) (bt_trades r)
        = filter (\<lambda>t. trade_timestamp t \<le> bar_timestamp b) (bt_trades u)"
      "filter (\<lambda>p. fst p < bar_timestamp b) (bt_equity_curve r) = filter (\<lambda>p. fst p < bar_timestamp b) (bt_equity_curve m)"
    by auto
  from event_loop_at [OF assms(2)] assms(3,6) m(1) obtain u' where
    u': "execute_pending uuid cfg b' m = Inr u'"
    and r': "filter (\<lambda>t. trade_timestamp t \<le> bar_timestamp b) (bt_trades r')
        = filter (\<lambda>t. trade_timestamp t \<le> bar_timestamp b) (bt_trades u')"
      "filter (\<lambda>p. fst p < bar_timestamp b) (bt_equity_curve r') = filter (\<lambda>p. fst p < bar_timestamp b) (bt_equity_curve m)"
    by auto
  from execute_pending_open [OF assms(3-5) m(2) u'] r r' show ?thesis by simp
qed

section \<open>The portfolio is the replay of the trades\<close>

definition backtest_bars :: "backtest_config \<Rightarrow> bar list \<Rightarrow> bar list" where
  "backtest_bars cfg bars = filter (\<lambda>b. bc_start_date cfg \<le> bar_day b) bars"

lemma event_loop_replay:
  "event_loop strat uuid tuuid cfg bars s = Inr r \<Longrightarrow>
     \<exists>ts. bt_trades r = bt_trades s @ ts \<and> length ts \<le> length bars
       \<and> res_fold apply_trade ts (bt_portfolio s) = Inr (bt_portfolio r)
       \<and> map fst (bt_equity_curve r) = map fst (bt_equity_curve s) @ map bar_timestamp (backtest_bars cfg bars)"
proof (induction bars arbitrary: s)
  case Nil
  then show ?case by (simp add: event_loop_def backtest_bars_def)
next
  case (Cons b bars)
  then obtain v where v: "process_bar strat uuid tuuid cfg b s = Inr v" "event_loop strat uuid tuuid cfg bars v = Inr r"
    by (auto simp: event_loop_def res_bind_eq_Inr)
  from process_bar_effect [OF v(1)] obtain ts where
    ts: "bt_trades v = bt_trades s @ ts" "length ts \<le> 1" "res_fold apply_trade ts (bt_portfolio s) = Inr (bt_portfolio v)"
      "map fst (bt_equity_curve v) = map fst (bt_equity_curve s) @ map bar_timestamp (backtest_bars cfg [b])"
    by (auto simp: backtest_bars_def)
  from Cons.IH [OF v(2)] obtain us where
    us: "bt_trades r = bt_trades v @ us" "length us \<le> length bars" "res_fold apply_trade us (bt_portfolio v) = Inr (bt_portfolio r)"
      "map fst (bt_equity_curve r) = map fst (bt_equity_curve v) @ map bar_timestamp (backtest_bars cfg bars)" by blast
  show ?case
    using ts us by (intro exI [of _ "ts @ us"]) (auto simp: res_fold_append backtest_bars_def)
qed

text \<open>C23. The books of a run balance: replaying the recorded trades on the initial capital gives the
  final portfolio, there is at most one trade per bar, the equity curve has exactly one point
  per bar of the backtest period, and its last point values the final portfolio at the last close.\<close>

theorem backtest_replays_trades:
  assumes "event_loop strat uuid tuuid cfg bars (backtest_init cfg st) = Inr r"
  shows "res_fold apply_trade (bt_trades r) (bt_portfolio_init (bc_initial_capital cfg)) = Inr (bt_portfolio r)
    \<and> length (bt_trades r) \<le> length bars
    \<and> map fst (bt_equity_curve r) = map bar_timestamp (backtest_bars cfg bars)
    \<and> (bars \<noteq> [] \<and> bc_start_date cfg \<le> bar_day (last bars) \<longrightarrow>
         snd (last (bt_equity_curve r)) = equity (bar_close (last bars)) (bt_portfolio r))"
proof -
  have "snd (last (bt_equity_curve r)) = equity (bar_close (last bars)) (bt_portfolio r)"
    if "bars \<noteq> []" "bc_start_date cfg \<le> bar_day (last bars)"
  proof -
    from that(1) have "bars = butlast bars @ [last bars]" by simp
    with assms obtain m where "process_bar strat uuid tuuid cfg (last bars) m = Inr r"
      unfolding event_loop_def by (metis res_fold_snocD)
    from process_bar_effect [OF this] that(2) show ?thesis by auto
  qed
  with event_loop_replay [OF assms] show ?thesis by (auto simp: backtest_init_def)
qed

section \<open>No shorting and no leverage\<close>

definition positive_signals :: "'s strategy \<Rightarrow> bool" where
  "positive_signals strat \<longleftrightarrow>
     (\<forall>md ctx st sigs st'. strat md ctx st = Inr (sigs, st') \<longrightarrow> (\<forall>sg \<in> set sigs. 0 < sig_quantity sg))"

definition long_only :: "'s backtest \<Rightarrow> bool" where
  "long_only s \<longleftrightarrow> 0 \<le> pf_qty (bt_portfolio s)
     \<and> (case bt_pending_signal s of None \<Rightarrow> True | Some sg \<Rightarrow> 0 < sig_quantity sg)"

text \<open>An open that a decimal holds exactly and that is worth its commission.\<close>

definition fair_open :: "backtest_config \<Rightarrow> bar \<Rightarrow> bool" where
  "fair_open cfg b \<longleftrightarrow> dec (bar_open b) = bar_open b \<and> bc_commission_per_share cfg \<le> bar_open b"

lemma execute_signal_qty:
  assumes "execute_signal uuid cfg b sg s = Inr s'" and "0 < sig_quantity sg" and "0 \<le> pf_qty (bt_portfolio s)"
  shows "0 \<le> pf_qty (bt_portfolio s')"
  using assms(1)
proof (rule execute_signal_effect)
  fix t t0
  assume "apply_trade t (bt_portfolio s) = Inr (bt_portfolio s')" "trade_side t = sig_action sg"
    "trade_quantity t = sig_quantity sg"
    "if sig_action sg = Buy
     then can_buy (bar_open b) (sig_quantity sg) (dec_mul (bc_commission_per_share cfg) (of_int (sig_quantity sg))) (bt_portfolio s)
     else can_sell (sig_quantity sg) (bt_portfolio s)"
  then show ?thesis using apply_trade_qty [of t] assms(2,3) by (auto simp: can_sell_def split: if_splits)
qed (simp add: assms(3))

lemma execute_signal_cash:
  assumes "execute_signal uuid cfg b sg s = Inr s'" and "0 < sig_quantity sg"
    and "bc_slippage_bps cfg = 0" and "fair_open cfg b" and "0 \<le> pf_cash (bt_portfolio s)"
  shows "0 \<le> pf_cash (bt_portfolio s')"
  using assms(1)
proof (rule execute_signal_effect)
  fix t t0
  assume ap: "apply_trade t (bt_portfolio s) = Inr (bt_portfolio s')" "apply_trade t = apply_trade t0"
    and fill: "execute_fill (bc_slippage_bps cfg) (bc_commission_per_share cfg) (uuid (length (bt_trades s))) sg b = Inr t0"
    and ok: "if sig_action sg = Buy
      then can_buy (bar_open b) (sig_quantity sg) (dec_mul (bc_commission_per_share cfg) (of_int (sig_quantity sg))) (bt_portfolio s)
      else can_sell (sig_quantity sg) (bt_portfolio s)"
  from ap have ap: "apply_trade t0 (bt_portfolio s) = Inr (bt_portfolio s')" by simp
  have fill: "execute_fill 0 (bc_commission_per_share cfg) (uuid (length (bt_trades s))) sg b = Inr t0"
    using fill assms(3) by simp
  have exact: "dec (bar_open b) = bar_open b" using assms(4) by (simp add: fair_open_def)
  show ?thesis
  proof (cases "sig_action sg = Buy")
    case True
    then show ?thesis
      using unslipped_buy_keeps_cash [OF _ fill exact] ok ap execute_fill_fields [OF fill]
      by (simp add: apply_trade_def)
  next
    case False
    have "bc_commission_per_share cfg * of_int (sig_quantity sg) \<le> bar_open b * of_int (sig_quantity sg)"
      using assms(2,4) by (intro mult_right_mono) (simp_all add: fair_open_def)
    then have "0 \<le> dec_sub (dec_mul (trade_fill_price t0) (of_int (trade_quantity t0))) (trade_commission t0)"
      using execute_fill_fields [OF fill] execute_fill_unslipped [OF fill exact]
      by (simp add: dec_sub_def dec_mul_def dec_nonneg dec_mono)
    moreover have "bt_portfolio s' = apply_sell t0 (bt_portfolio s)"
      using False ap execute_fill_fields [OF fill] by (simp add: apply_trade_def)
    ultimately show ?thesis using assms(5) by (simp add: apply_sell_def dec_add_def dec_nonneg)
  qed
qed (simp add: assms(5))

lemma capture_pending:
  "bt_pending_signal (capture_signal tuuid b sigs s) = (case sigs of [] \<Rightarrow> bt_pending_signal s | sg # _ \<Rightarrow> Some sg)"
  by (cases sigs) (simp_all add: capture_signal_def Let_def)

lemma process_bar_long_only:
  assumes "positive_signals strat" and "long_only s" and "process_bar strat uuid tuuid cfg b s = Inr s'"
  shows "long_only s'"
proof -
  from process_bar_parts [OF assms(3)] obtain u where
    u: "execute_pending uuid cfg b s = Inr u" "observe_close strat tuuid cfg b u = Inr s'" by blast
  have "long_only u"
    using u(1) assms(2) execute_signal_qty
    by (fastforce simp: execute_pending_def long_only_def res_bind_eq_Inr split: option.splits if_splits)
  with u(2) assms(1) show ?thesis
    by (fastforce simp: observe_close_def long_only_def positive_signals_def res_bind_eq_Inr Let_def capture_pending
        split: list.splits option.splits if_splits)
qed

lemma process_bar_cash:
  assumes "long_only s" and "process_bar strat uuid tuuid cfg b s = Inr s'"
    and "bc_slippage_bps cfg = 0" and "fair_open cfg b" and "0 \<le> pf_cash (bt_portfolio s)"
  shows "0 \<le> pf_cash (bt_portfolio s')"
proof -
  from process_bar_parts [OF assms(2)] obtain u where
    u: "execute_pending uuid cfg b s = Inr u" "observe_close strat tuuid cfg b u = Inr s'" by blast
  have "0 \<le> pf_cash (bt_portfolio u)"
    using u(1) assms(1,3-5) execute_signal_cash
    by (fastforce simp: execute_pending_def long_only_def res_bind_eq_Inr split: option.splits if_splits)
  with observe_close_effect [OF u(2)] show ?thesis by simp
qed

text \<open>With a strategy that asks for positive quantities the simulated position is never short in
  any run, and without slippage the cash is never negative either, as the portfolio's
  documentation promises, provided opens are exact decimals of at least the commission per share.\<close>

theorem backtest_never_short:
  assumes "positive_signals strat" and "event_loop strat uuid tuuid cfg bars (backtest_init cfg st) = Inr r"
  shows "0 \<le> pf_qty (bt_portfolio r)
    \<and> (bc_slippage_bps cfg = 0 \<and> 0 \<le> bc_initial_capital cfg \<and> list_all (fair_open cfg) bars \<longrightarrow> 0 \<le> pf_cash (bt_portfolio r))"
proof -
  let ?ok = "\<lambda>s. long_only s \<and> (bc_slippage_bps cfg = 0 \<and> 0 \<le> bc_initial_capital cfg \<and> list_all (fair_open cfg) bars
      \<longrightarrow> 0 \<le> pf_cash (bt_portfolio s))"
  have "?ok r"
  proof (rule res_fold_invariant [OF _ _ assms(2) [unfolded event_loop_def]])
    show "?ok v" if "b \<in> set bars" "?ok u" "process_bar strat uuid tuuid cfg b u = Inr v" for b u v
      using that process_bar_long_only [OF assms(1), of u uuid tuuid cfg b v] process_bar_cash [of u strat uuid tuuid cfg b v]
      by (auto simp: list_all_iff)
    show "?ok (backtest_init cfg st)"
      by (simp add: backtest_init_def bt_portfolio_init_def long_only_def)
  qed
  then show ?thesis by (simp add: long_only_def)
qed

section \<open>Departures\<close>

text \<open>With slippage the check at the open does not cover the fill: an order for the whole cash overdraws it.\<close>

lemma slippage_overdraws:
  "can_buy 100 10 0 (bt_portfolio_init 1000)
   \<and> map_sum id pf_cash (res_bind (execute_fill 5 0 ''t''
         \<lparr>sig_strategy_id = ''s'', sig_symbol = ''SPY'', sig_action = Buy, sig_quantity = 10, sig_order_type = Market,
          sig_limit_price = None, sig_reason = [], sig_timestamp = 1, sig_factor_scores = []\<rparr>
         \<lparr>bar_symbol = ''SPY'', bar_timestamp = 2, bar_day = 2, bar_open = 100, bar_high = 100, bar_low = 100,
          bar_close = 100, bar_volume = 1\<rparr>) (\<lambda>t. apply_trade t (bt_portfolio_init 1000))) = Inr (- 1 / 2)"
  by code_simp

text \<open>A signal from the warm-up stays pending until the first bar of the backtest period, however many
  bars lie between.\<close>

lemma warmup_signal_kept:
  assumes "bar_day b < bc_start_date cfg" and "bt_pending_signal s = Some sg"
    and "\<And>md ctx. strat md ctx (bt_strategy s) = Inr ([], bt_strategy s)"
  shows "\<exists>s'. process_bar strat uuid tuuid cfg b s = Inr s' \<and> bt_pending_signal s' = Some sg"
  using assms by (simp add: process_bar_def execute_pending_def observe_close_def capture_signal_def)

section \<open>Concrete runs\<close>

text \<open>Buys one share when flat, sells it otherwise.\<close>

definition demo_strategy :: "unit strategy" where
  "demo_strategy md ctx st =
     Inr ([\<lparr>sig_strategy_id = ''s'', sig_symbol = md_symbol md,
            sig_action = (case ctx (md_symbol md) of None \<Rightarrow> Buy | Some _ \<Rightarrow> Sell), sig_quantity = 1,
            sig_order_type = Market, sig_limit_price = None, sig_reason = [], sig_timestamp = md_timestamp md,
            sig_factor_scores = []\<rparr>], ())"

definition demo_backtest :: backtest_config where
  "demo_backtest =
     \<lparr>bc_strategy_class = ''src.strategies.demo'', bc_factor_weights = [], bc_symbol = ''SPY'', bc_start_date = 1,
      bc_end_date = 9, bc_initial_capital = 1000, bc_slippage_bps = 0, bc_commission_per_share = 0,
      bc_benchmark_symbol = None\<rparr>"

definition demo_bar :: "int \<Rightarrow> decimal \<Rightarrow> decimal \<Rightarrow> bar" where
  "demo_bar n op cl =
     \<lparr>bar_symbol = ''SPY'', bar_timestamp = n, bar_day = n, bar_open = op, bar_high = cl, bar_low = op, bar_close = cl,
      bar_volume = 1\<rparr>"

abbreviation demo_run :: "bar list \<Rightarrow> unit backtest result" where
  "demo_run bars \<equiv> event_loop demo_strategy (\<lambda>_. ''t'') (\<lambda>_. ''u'') demo_backtest bars (backtest_init demo_backtest ())"

definition demo_summary :: "unit backtest result \<Rightarrow> (side \<times> decimal) list \<times> decimal" where
  "demo_summary r = (case r of Inl _ \<Rightarrow> ([], 0)
     | Inr s \<Rightarrow> (map (\<lambda>t. (trade_side t, trade_fill_price t)) (bt_trades s), pf_cash (bt_portfolio s)))"

lemmas demo_defs =
  event_loop_def process_bar_def execute_pending_def execute_signal_def observe_close_def capture_signal_def
  finish_trace_def track_entry_def attribute_exit_def apply_trade_def apply_buy_def apply_sell_def execute_fill_def
  post_init_def complete_trace_def quantize2_def create_pending_def backtest_context_def bar_to_market_data_def equity_def
  can_buy_def can_sell_def demo_strategy_def demo_backtest_def demo_bar_def backtest_init_def bt_portfolio_init_def
  new_entry_def calculate_trade_attribution_def dec_defs dec_numeral Let_def

lemma demo_runs:
  "demo_summary (demo_run [demo_bar 1 10 11, demo_bar 2 12 13, demo_bar 3 14 15]) = ([(Buy, 12), (Sell, 14)], 1002)"
  "demo_summary (demo_run [demo_bar 1 10 11, demo_bar 2 12 99]) = ([(Buy, 12)], 988)"
  by (simp_all add: demo_summary_def demo_defs)

lemma demo_run_returns:
  "\<exists>r. demo_run [demo_bar 1 10 11, demo_bar 2 12 13, demo_bar 3 14 15] = Inr r
     \<and> map trade_fill_price (bt_trades r) = [12, 14] \<and> pf_cash (bt_portfolio r) = 1002"
  "\<exists>r. demo_run [demo_bar 1 10 11, demo_bar 2 12 99] = Inr r \<and> map trade_fill_price (bt_trades r) = [12]"
  using demo_runs by (auto simp: demo_summary_def split: sum.splits)

theorem no_lookahead_witness:
  "\<exists>r r'. demo_run [demo_bar 1 10 11, demo_bar 2 12 13, demo_bar 3 14 15] = Inr r
     \<and> demo_run [demo_bar 1 10 11, demo_bar 2 12 99] = Inr r'
     \<and> filter (\<lambda>t. trade_timestamp t \<le> 2) (bt_trades r) = filter (\<lambda>t. trade_timestamp t \<le> 2) (bt_trades r')"
proof -
  obtain r r' where r: "demo_run ([demo_bar 1 10 11] @ demo_bar 2 12 13 # [demo_bar 3 14 15]) = Inr r"
    and r': "demo_run ([demo_bar 1 10 11] @ demo_bar 2 12 99 # []) = Inr r'"
    using demo_run_returns by auto
  have "filter (\<lambda>t. trade_timestamp t \<le> bar_timestamp (demo_bar 2 12 13)) (bt_trades r)
      = filter (\<lambda>t. trade_timestamp t \<le> bar_timestamp (demo_bar 2 12 13)) (bt_trades r')"
    using no_lookahead [OF r r'] by (simp add: demo_bar_def)
  with r r' show ?thesis by (simp add: demo_bar_def)
qed

theorem backtest_replays_trades_witness:
  "\<exists>r. demo_run [demo_bar 1 10 11, demo_bar 2 12 13, demo_bar 3 14 15] = Inr r
     \<and> map fst (bt_equity_curve r) = [1, 2, 3] \<and> snd (last (bt_equity_curve r)) = equity 15 (bt_portfolio r)"
proof -
  obtain r where r: "demo_run [demo_bar 1 10 11, demo_bar 2 12 13, demo_bar 3 14 15] = Inr r"
    using demo_run_returns(1) by blast
  from backtest_replays_trades [OF r] r show ?thesis
    by (simp add: demo_bar_def demo_backtest_def backtest_bars_def)
qed

theorem backtest_never_short_witness:
  "\<exists>r. demo_run [demo_bar 1 10 11, demo_bar 2 12 13, demo_bar 3 14 15] = Inr r
     \<and> 0 \<le> pf_qty (bt_portfolio r) \<and> 0 \<le> pf_cash (bt_portfolio r)"
proof -
  obtain r where r: "demo_run [demo_bar 1 10 11, demo_bar 2 12 13, demo_bar 3 14 15] = Inr r"
    using demo_run_returns(1) by blast
  have "positive_signals demo_strategy" by (auto simp: positive_signals_def demo_strategy_def)
  moreover have "dec 10 = 10" "dec 12 = 12" "dec 14 = 14"
    using dec_exact [of 10 10 0] dec_exact [of 12 12 0] dec_exact [of 14 14 0] by simp_all
  ultimately show ?thesis
    using backtest_never_short [OF _ r] r by (simp add: demo_bar_def demo_backtest_def fair_open_def)
qed

end
