(* ===== verification/Governance.thy ===== *)
theory Governance
  imports Numerics "HOL-Library.Multiset" "HOL-Library.List_Lexorder" "HOL-Library.Char_ord"
    "HOL-Library.Product_Lexorder"
begin

text \<open>
  The core of the governance package: the models of governance/models.py,
  hypothesis/models.py and constraints/models.py, the registries of hypotheses and
  constraints, and the in-memory audit store of audit/store.py. Fields that the validated models
  only carry along are kept; the payload of an audit entry is left out. The locale
  \<open>entity_registry\<close> is the contract of both registries. Lemmas: a lazy load that
  fails keeps failing.
\<close>

section \<open>Models\<close>

datatype gov_event_type =
    CONSTRAINT_ACTIVATED | CONSTRAINT_DEACTIVATED | FALSIFIER_CHECK_PASS | FALSIFIER_CHECK_TRIGGERED
  | VETO_DOWNGRADE | RISK_BUDGET_ADJUSTED | POSITION_CAP_APPLIED | POOL_BUILT | REGIME_CHANGED

datatype hypothesis_status = DRAFT | ACTIVE | SUNSET | HYP_REJECTED

datatype comparison_operator = LT | LTE | GT | GTE | EQ

datatype trigger_action = REVIEW | SUNSET_ACTION

datatype stop_mode = BASELINE | WIDE | FUNDAMENTAL_GUARDED

fun stop_mode_value :: "stop_mode \<Rightarrow> string" where
  "stop_mode_value BASELINE = ''baseline''"
| "stop_mode_value WIDE = ''wide''"
| "stop_mode_value FUNDAMENTAL_GUARDED = ''fundamental_guarded''"

record hypothesis_scope =
  sc_symbols :: "string list"
  sc_sectors :: "string list"

record falsifier =
  fal_metric :: string
  fal_operator :: comparison_operator
  fal_threshold :: double
  fal_window :: string
  fal_trigger :: trigger_action

record hypothesis =
  hyp_id :: string
  hyp_title :: string
  hyp_statement :: string
  hyp_scope :: hypothesis_scope
  hyp_owner :: string
  hyp_status :: hypothesis_status
  hyp_review_cycle :: string
  hyp_created_at :: int
  hyp_sources :: "string list"
  hyp_notes :: string
  hyp_falsifiers :: "falsifier list"
  hyp_linked_constraints :: "string list"

definition hyp_is_active :: "hypothesis \<Rightarrow> bool" where
  "hyp_is_active h \<longleftrightarrow> hyp_status h = ACTIVE"

record constraint_actions =
  ca_enable_strategy :: "bool option"
  ca_pool_bias_multiplier :: "double option"
  ca_veto_downgrade :: "bool option"
  ca_risk_budget_multiplier :: "double option"
  ca_holding_extension_days :: "int option"
  ca_add_position_cap_multiplier :: "double option"
  ca_stop_mode :: "stop_mode option"

record guardrails =
  gr_max_position_pct :: "double option"
  gr_max_gross_exposure_delta :: "double option"
  gr_max_drawdown_addon :: "double option"

record gov_constraint =
  con_id :: string
  con_title :: string
  con_symbols :: "string list"
  con_strategies :: "string list"
  con_requires :: "string list"
  con_disabled_if_falsified :: bool
  con_actions :: constraint_actions
  con_guardrails :: "guardrails option"
  con_priority :: int

text \<open>What the field validators of the models demand.\<close>

fun opt_all :: "('a \<Rightarrow> bool) \<Rightarrow> 'a option \<Rightarrow> bool" where
  "opt_all P None = True"
| "opt_all P (Some x) = P x"

definition id_char :: "char \<Rightarrow> bool" where
  "id_char c \<longleftrightarrow> c \<in> set ''abcdefghijklmnopqrstuvwxyz0123456789_''"

definition valid_constraint :: "gov_constraint \<Rightarrow> bool" where
  "valid_constraint c \<longleftrightarrow>
     con_id c \<noteq> [] \<and> list_all id_char (con_id c)
     \<and> opt_all (\<lambda>m. 0 < m) (ca_pool_bias_multiplier (con_actions c))
     \<and> opt_all (\<lambda>m. 1 \<le> m) (ca_risk_budget_multiplier (con_actions c))
     \<and> opt_all (\<lambda>d. 0 \<le> d) (ca_holding_extension_days (con_actions c))
     \<and> opt_all (\<lambda>m. 0 < m) (ca_add_position_cap_multiplier (con_actions c))
     \<and> opt_all (\<lambda>g. opt_all (\<lambda>p. 0 \<le> p \<and> p \<le> 1) (gr_max_position_pct g)) (con_guardrails c)
     \<and> 1 \<le> con_priority c"

section \<open>Registries\<close>

text \<open>The contract of a registry of entities with a unique key. \<open>ok\<close> holds once nothing is left to load.\<close>

locale entity_registry =
  fixes ok :: "'s \<Rightarrow> bool" and lookup :: "'s \<Rightarrow> string \<Rightarrow> 'v option"
    and add :: "'v \<Rightarrow> 's \<Rightarrow> 's \<times> unit result" and remove :: "string \<Rightarrow> 's \<Rightarrow> 's \<times> bool result"
    and key :: "'v \<Rightarrow> string"
  assumes add_new: "ok s \<Longrightarrow> lookup s (key v) = None \<Longrightarrow>
      \<exists>t. add v s = (t, Inr ()) \<and> ok t \<and> lookup t = (lookup s)(key v \<mapsto> v)"
    and add_duplicate: "ok s \<Longrightarrow> lookup s (key v) \<noteq> None \<Longrightarrow> \<exists>t e. add v s = (t, Inl e) \<and> ok t \<and> lookup t = lookup s"
    and remove_spec: "ok s \<Longrightarrow>
      \<exists>t. remove k s = (t, Inr (lookup s k \<noteq> None)) \<and> ok t \<and> lookup t = (lookup s)(k := None)"
begin

text \<open>An entity can be registered exactly when its key is free, and again after it was removed.\<close>

lemma add_iff: "ok s \<Longrightarrow> snd (add v s) = Inr () \<longleftrightarrow> lookup s (key v) = None"
  using add_new [of s v] add_duplicate [of s v] by fastforce

lemma add_twice: "ok s \<Longrightarrow> snd (add v (fst (add v s))) \<noteq> Inr ()"
  using add_new [of s v] add_duplicate [of s v] add_duplicate [of "fst (add v s)" v] by fastforce

lemma add_remove:
  assumes "ok s" and "snd (add v s) = Inr ()"
  shows "snd (remove (key v) (fst (add v s))) = Inr True \<and> lookup (fst (remove (key v) (fst (add v s)))) = lookup s"
proof -
  have free: "lookup s (key v) = None" using add_iff [OF assms(1)] assms(2) by blast
  from add_new [OF assms(1) free] obtain t where t: "add v s = (t, Inr ())" "ok t" "lookup t = (lookup s)(key v \<mapsto> v)" by blast
  with remove_spec [OF t(2), of "key v"] free show ?thesis by (auto simp: fun_upd_idem)
qed

end

text \<open>Both registries keep a dictionary by id. What was added before a duplicate stays in it.\<close>

definition dict_register :: "('v \<Rightarrow> string) \<Rightarrow> string \<Rightarrow> 'v \<Rightarrow> (string \<times> 'v) list \<Rightarrow> (string \<times> 'v) list \<times> unit result" where
  "dict_register key err v d =
     (if map_of d (key v) \<noteq> None then (d, Inl (ExternalError err)) else (AList.update (key v) v d, Inr ()))"

fun dict_register_all :: "('v \<Rightarrow> string) \<Rightarrow> string \<Rightarrow> 'v list \<Rightarrow> (string \<times> 'v) list \<Rightarrow> (string \<times> 'v) list \<times> unit result" where
  "dict_register_all key err [] d = (d, Inr ())"
| "dict_register_all key err (v # vs) d =
     (case dict_register key err v d of
        (d', Inl e) \<Rightarrow> (d', Inl e)
      | (d', Inr _) \<Rightarrow> dict_register_all key err vs d')"

type_synonym hypotheses = "(string \<times> hypothesis) list"

definition hyp_get :: "string \<Rightarrow> hypotheses \<Rightarrow> hypothesis option" where
  "hyp_get k d = map_of d k"

definition hyp_register :: "hypothesis \<Rightarrow> hypotheses \<Rightarrow> hypotheses \<times> unit result" where
  "hyp_register h d = dict_register hyp_id ''DuplicateHypothesisError'' h d"

definition hyp_unregister :: "string \<Rightarrow> hypotheses \<Rightarrow> hypotheses \<times> bool result" where
  "hyp_unregister k d = (if map_of d k \<noteq> None then (AList.delete k d, Inr True) else (d, Inr False))"

definition hyp_filter_by_status :: "hypothesis_status set \<Rightarrow> hypotheses \<Rightarrow> hypothesis list" where
  "hyp_filter_by_status st d = filter (\<lambda>h. hyp_status h \<in> st) (map snd d)"

definition hyp_get_active :: "hypotheses \<Rightarrow> hypothesis list" where
  "hyp_get_active d = hyp_filter_by_status {ACTIVE} d"

definition hyp_reload :: "hypothesis list option \<Rightarrow> hypotheses \<Rightarrow> hypotheses \<times> unit result" where
  "hyp_reload loader d =
     (case loader of
        None \<Rightarrow> (d, Inl ValueError)
      | Some hs \<Rightarrow> dict_register_all hyp_id ''DuplicateHypothesisError'' hs [])"

definition hyp_list_all :: "hypotheses \<Rightarrow> hypothesis list" where
  "hyp_list_all d = map snd d"

definition hyp_count :: "hypotheses \<Rightarrow> nat" where
  "hyp_count d = length d"

definition hyp_is_empty :: "hypotheses \<Rightarrow> bool" where
  "hyp_is_empty d \<longleftrightarrow> length d = 0"

definition hyp_count_by_status :: "hypothesis_status \<Rightarrow> hypotheses \<Rightarrow> nat" where
  "hyp_count_by_status st d = length (filter (\<lambda>h. hyp_status h = st) (map snd d))"

text \<open>The constraint registry loads lazily; its loader is what the files hold.\<close>

record constraint_registry =
  cr_constraints :: "(string \<times> gov_constraint) list"
  cr_loader :: "gov_constraint list option"
  cr_loaded :: bool

definition cr_init :: "gov_constraint list option \<Rightarrow> constraint_registry" where
  "cr_init loader = \<lparr>cr_constraints = [], cr_loader = loader, cr_loaded = False\<rparr>"

definition cr_add_all :: "gov_constraint list \<Rightarrow> constraint_registry \<Rightarrow> constraint_registry \<times> unit result" where
  "cr_add_all cs s =
     (case dict_register_all con_id ''DuplicateConstraintError'' cs (cr_constraints s) of
        (d, Inl e) \<Rightarrow> (s\<lparr>cr_constraints := d\<rparr>, Inl e)
      | (d, Inr _) \<Rightarrow> (s\<lparr>cr_constraints := d, cr_loaded := True\<rparr>, Inr ()))"

definition ensure_loaded :: "constraint_registry \<Rightarrow> constraint_registry \<times> unit result" where
  "ensure_loaded s =
     (case cr_loader s of
        Some cs \<Rightarrow> if \<not> cr_loaded s then cr_add_all cs s else (s, Inr ())
      | None \<Rightarrow> (s, Inr ()))"

definition with_loaded :: "(constraint_registry \<Rightarrow> constraint_registry \<times> 'a) \<Rightarrow> constraint_registry \<Rightarrow> constraint_registry \<times> 'a result" where
  "with_loaded f s =
     (case ensure_loaded s of (t, Inl e) \<Rightarrow> (t, Inl e) | (t, Inr _) \<Rightarrow> (case f t of (u, x) \<Rightarrow> (u, Inr x)))"

definition cr_get :: "string \<Rightarrow> constraint_registry \<Rightarrow> constraint_registry \<times> gov_constraint option result" where
  "cr_get k = with_loaded (\<lambda>s. (s, map_of (cr_constraints s) k))"

definition cr_list_all :: "constraint_registry \<Rightarrow> constraint_registry \<times> gov_constraint list result" where
  "cr_list_all = with_loaded (\<lambda>s. (s, map snd (cr_constraints s)))"

definition applies_to_symbol :: "string \<Rightarrow> gov_constraint \<Rightarrow> bool" where
  "applies_to_symbol sy c \<longleftrightarrow> con_symbols c = [] \<or> sy \<in> set (con_symbols c)"

definition cr_filter_by_symbol :: "string \<Rightarrow> constraint_registry \<Rightarrow> constraint_registry \<times> gov_constraint list result" where
  "cr_filter_by_symbol sy = with_loaded (\<lambda>s. (s, filter (applies_to_symbol sy) (map snd (cr_constraints s))))"

definition cr_filter_by_strategy :: "string \<Rightarrow> constraint_registry \<Rightarrow> constraint_registry \<times> gov_constraint list result" where
  "cr_filter_by_strategy st =
     with_loaded (\<lambda>s. (s, filter (\<lambda>c. con_strategies c = [] \<or> st \<in> set (con_strategies c)) (map snd (cr_constraints s))))"

definition cr_register :: "gov_constraint \<Rightarrow> constraint_registry \<Rightarrow> constraint_registry \<times> unit result" where
  "cr_register c s =
     (case dict_register con_id ''DuplicateConstraintError'' c (cr_constraints s) of
        (d, r) \<Rightarrow> (s\<lparr>cr_constraints := d, cr_loaded := True\<rparr>, r))"

definition cr_unregister :: "string \<Rightarrow> constraint_registry \<Rightarrow> constraint_registry \<times> bool result" where
  "cr_unregister k =
     with_loaded (\<lambda>s. if map_of (cr_constraints s) k \<noteq> None
       then (s\<lparr>cr_constraints := AList.delete k (cr_constraints s)\<rparr>, True) else (s, False))"

definition cr_reload :: "constraint_registry \<Rightarrow> constraint_registry \<times> unit result" where
  "cr_reload s =
     (case cr_loader s of
        None \<Rightarrow> (s, Inl ValueError)
      | Some cs \<Rightarrow> cr_add_all cs (s\<lparr>cr_constraints := []\<rparr>))"

definition cr_count :: "constraint_registry \<Rightarrow> constraint_registry \<times> nat result" where
  "cr_count = with_loaded (\<lambda>s. (s, length (cr_constraints s)))"

definition cr_is_empty :: "constraint_registry \<Rightarrow> constraint_registry \<times> bool result" where
  "cr_is_empty = with_loaded (\<lambda>s. (s, length (cr_constraints s) = 0))"

section \<open>Audit store\<close>

record gov_entry =
  ge_id :: nat
  ge_timestamp :: int
  ge_event_type :: gov_event_type
  ge_hypothesis_id :: "string option"
  ge_constraint_id :: "string option"
  ge_symbol :: "string option"

record gov_store =
  gs_entries :: "gov_entry list"
  gs_next_id :: nat

definition gov_store_init :: gov_store where
  "gov_store_init = \<lparr>gs_entries = [], gs_next_id = 1\<rparr>"

definition gov_log ::
  "int \<Rightarrow> gov_event_type \<Rightarrow> string option \<Rightarrow> string option \<Rightarrow> string option \<Rightarrow> gov_store \<Rightarrow> gov_store" where
  "gov_log now ev hid cid sy s =
     s\<lparr>gs_entries := gs_entries s @ [\<lparr>ge_id = gs_next_id s, ge_timestamp = now, ge_event_type = ev,
         ge_hypothesis_id = hid, ge_constraint_id = cid, ge_symbol = sy\<rparr>], gs_next_id := Suc (gs_next_id s)\<rparr>"

text \<open>Python's sort with \<open>reverse\<close> keeps the order of equal timestamps.\<close>

definition gov_query ::
  "int option \<Rightarrow> int option \<Rightarrow> gov_event_type option \<Rightarrow> string option \<Rightarrow> string option \<Rightarrow> nat \<Rightarrow> gov_store \<Rightarrow> gov_entry list" where
  "gov_query start stop ev sy cid limit s =
     take limit (sort_key (\<lambda>e. - ge_timestamp e)
       (filter (\<lambda>e. opt_all (\<lambda>t. t \<le> ge_timestamp e) start \<and> opt_all (\<lambda>t. ge_timestamp e \<le> t) stop
          \<and> opt_all (\<lambda>x. ge_event_type e = x) ev \<and> opt_all (\<lambda>x. ge_symbol e = Some x) sy
          \<and> opt_all (\<lambda>x. ge_constraint_id e = Some x) cid) (gs_entries s)))"

definition gov_count :: "gov_store \<Rightarrow> nat" where
  "gov_count s = length (gs_entries s)"

definition gov_clear :: "gov_store \<Rightarrow> gov_store" where
  "gov_clear s = s\<lparr>gs_entries := [], gs_next_id := 1\<rparr>"

section \<open>The registries meet the contract\<close>

lemma map_of_delete_fun: "map_of (AList.delete k d) = (map_of d)(k := None)"
  by (rule ext) (simp add: delete_conv)

definition nothing_to_load :: "constraint_registry \<Rightarrow> bool" where
  "nothing_to_load s \<longleftrightarrow> cr_loaded s \<or> cr_loader s = None"

lemma ensure_loaded_id: "nothing_to_load s \<Longrightarrow> ensure_loaded s = (s, Inr ())"
  by (auto simp: nothing_to_load_def ensure_loaded_def split: option.split)

interpretation hyps: entity_registry "\<lambda>_. True" map_of hyp_register hyp_unregister hyp_id
  by unfold_locales (auto simp: hyp_register_def hyp_unregister_def dict_register_def map_of_delete_fun)

interpretation cons: entity_registry nothing_to_load "\<lambda>s. map_of (cr_constraints s)" cr_register cr_unregister con_id
  by unfold_locales (auto simp: cr_register_def cr_unregister_def with_loaded_def ensure_loaded_id dict_register_def
      nothing_to_load_def map_of_delete_fun)

text \<open>A lazy load that meets a duplicate fails, and every later access fails again: the dictionary
  already holds the first constraint of the files.\<close>

lemma failed_load_sticks:
  assumes "cr_loader s = Some (c # cs)" and "\<not> cr_loaded s" and "map_of (cr_constraints s) (con_id c) \<noteq> None"
  shows "cr_get k s = (s, Inl (ExternalError ''DuplicateConstraintError''))"
  using assms by (simp add: cr_get_def with_loaded_def ensure_loaded_def cr_add_all_def dict_register_def)

lemma failed_load_leaves_first:
  assumes "cr_constraints s = []" and "cr_loader s = Some (c # cs)" and "\<not> cr_loaded s"
    and "snd (cr_get k s) = Inl e"
  shows "map_of (cr_constraints (fst (cr_get k s))) (con_id c) \<noteq> None \<and> \<not> cr_loaded (fst (cr_get k s))"
proof -
  have keep: "map_of (fst (dict_register_all key err vs d)) x \<noteq> None" if "map_of d x \<noteq> None" for key err vs d and x :: string
    using that by (induction vs arbitrary: d) (auto simp: dict_register_def split: sum.splits prod.splits)
  show ?thesis
    using assms keep [of "AList.update (con_id c) c []" "con_id c" con_id "''DuplicateConstraintError''" cs]
    by (auto simp: cr_get_def with_loaded_def ensure_loaded_def cr_add_all_def dict_register_def split: prod.splits sum.splits)
qed

end
