(* ===== verification/Governance_Pool.thy ===== *)
theory Governance_Pool
  imports Governance Iso_Time "HOL-Library.Sublist"
begin

text \<open>
  The pool of tradable symbols: the structural filters of governance/pool/filters.py and the
  builder of governance/pool/builder.py with its hypothesis gating, weights, version and audit
  trail. Python's text of a float is the parameter \<open>str_float\<close>, the hash of the configuration the
  parameter \<open>digest\<close>. Lemmas: which symbols are in a pool, when a pool is refused as empty, that
  the audit trail decides every symbol of the universe exactly once, and that the pool does not
  depend on the order of the universe.
\<close>

section \<open>Structural filters\<close>

record symbol_data =
  sd_symbol :: string
  sd_sector :: string
  sd_state_owned_ratio :: double
  sd_dividend_yield :: double
  sd_avg_dollar_volume :: double
  sd_market_cap :: double
  sd_price :: double

record structural_filters =
  sf_state_owned :: "double option"
  sf_dividend_yield :: "double option"
  sf_min_volume :: "double option"
  sf_exclude_sectors :: "string list"
  sf_min_market_cap :: "double option"
  sf_max_price :: "double option"
  sf_min_price :: "double option"

text \<open>One check against an optional threshold, and the text of a failed check.\<close>

definition breach :: "(double \<Rightarrow> bool) \<Rightarrow> double option \<Rightarrow> bool" where
  "breach P threshold = (case threshold of None \<Rightarrow> False | Some t \<Rightarrow> P t)"

definition filter_reason :: "string \<Rightarrow> string \<Rightarrow> string" where
  "filter_reason name detail = ''structural_filter:'' @ name @ '' ('' @ detail @ '')''"

definition compare_text :: "(double \<Rightarrow> string) \<Rightarrow> string \<Rightarrow> double \<Rightarrow> string \<Rightarrow> double option \<Rightarrow> string" where
  "compare_text str_float what v cmp threshold =
     what @ '' '' @ str_float v @ '' '' @ cmp @ '' '' @ (case threshold of None \<Rightarrow> ''None'' | Some t \<Rightarrow> str_float t)"

definition check_filters :: "(double \<Rightarrow> string) \<Rightarrow> structural_filters \<Rightarrow> symbol_data \<Rightarrow> string option" where
  "check_filters str_float f d =
     (if breach (\<lambda>t. sd_state_owned_ratio d \<ge> t) (sf_state_owned f)
      then Some (filter_reason ''exclude_state_owned_ratio_gte''
             (compare_text str_float ''ratio'' (sd_state_owned_ratio d) ''>='' (sf_state_owned f)))
      else if breach (\<lambda>t. sd_dividend_yield d \<ge> t) (sf_dividend_yield f)
      then Some (filter_reason ''exclude_dividend_yield_gte''
             (compare_text str_float ''yield'' (sd_dividend_yield d) ''>='' (sf_dividend_yield f)))
      else if breach (\<lambda>t. sd_avg_dollar_volume d < t) (sf_min_volume f)
      then Some (filter_reason ''min_avg_dollar_volume''
             (compare_text str_float ''volume'' (sd_avg_dollar_volume d) ''<'' (sf_min_volume f)))
      else if sd_sector d \<in> set (sf_exclude_sectors f)
      then Some (filter_reason ''exclude_sectors'' (''sector '' @ [CHR 0x27] @ sd_sector d @ [CHR 0x27] @ '' in exclusion list''))
      else if breach (\<lambda>t. sd_market_cap d < t) (sf_min_market_cap f)
      then Some (filter_reason ''min_market_cap''
             (compare_text str_float ''market_cap'' (sd_market_cap d) ''<'' (sf_min_market_cap f)))
      else if breach (\<lambda>t. sd_price d < t) (sf_min_price f)
      then Some (filter_reason ''min_price'' (compare_text str_float ''price'' (sd_price d) ''<'' (sf_min_price f)))
      else if breach (\<lambda>t. sd_price d > t) (sf_max_price f)
      then Some (filter_reason ''max_price'' (compare_text str_float ''price'' (sd_price d) ''>'' (sf_max_price f)))
      else None)"

text \<open>The loop over the universe, with its two accumulators.\<close>

definition apply_structural_filters ::
  "(double \<Rightarrow> string) \<Rightarrow> structural_filters \<Rightarrow> symbol_data list \<Rightarrow> symbol_data list \<times> (symbol_data \<times> string) list" where
  "apply_structural_filters str_float f universe =
     (if universe = [] then ([], [])
      else fold (\<lambda>d (passed, excluded).
             case check_filters str_float f d of
               None \<Rightarrow> (passed @ [d], excluded)
             | Some reason \<Rightarrow> (passed, excluded @ [(d, reason)])) universe ([], []))"

text \<open>\<open>str.split\<close> with a separator; an empty one raises in Python and does not occur.\<close>

function str_split :: "string \<Rightarrow> string \<Rightarrow> string list" where
  "str_split sep s =
     (if s = [] \<or> sep = [] then [s]
      else if prefix sep s then [] # str_split sep (drop (length sep) s)
      else case str_split sep (tl s) of p # ps \<Rightarrow> (hd s # p) # ps | [] \<Rightarrow> [[hd s]])"
  by pat_completeness auto
termination by (relation "measure (\<lambda>(_, s). length s)") (auto simp: neq_Nil_conv)

declare str_split.simps [simp del]

definition strip :: "string \<Rightarrow> string" where
  "strip s = rev (dropWhile (\<lambda>c. c \<in> set '' '' \<union> {CHR 0x09, CHR 0x0A, CHR 0x0B, CHR 0x0C, CHR 0x0D})
     (rev (dropWhile (\<lambda>c. c \<in> set '' '' \<union> {CHR 0x09, CHR 0x0A, CHR 0x0B, CHR 0x0C, CHR 0x0D}) s)))"

definition extract_filter_source :: "string \<Rightarrow> string" where
  "extract_filter_source reason =
     (if sublist ''structural_filter:'' reason
      then strip (hd (str_split '' '' (str_split ''structural_filter:'' reason ! 1))) else reason)"

section \<open>Hypothesis gating\<close>

datatype pool_action = INCLUDED | EXCLUDED | PRIORITIZED

record pool_entry =
  pe_symbol :: string
  pe_action :: pool_action
  pe_reason :: string
  pe_source :: string

text \<open>The loop over the given hypotheses: missing and inactive ones are skipped. The registry is optional.\<close>

definition active_given :: "hypotheses option \<Rightarrow> string list \<Rightarrow> hypothesis list" where
  "active_given reg ids =
     (case reg of
        None \<Rightarrow> []
      | Some hs \<Rightarrow> concat (map (\<lambda>k. case hyp_get k hs of
            None \<Rightarrow> [] | Some h \<Rightarrow> if hyp_is_active h then [h\<lparr>hyp_id := k\<rparr>] else []) ids))"

definition scope_dict :: "(hypothesis \<Rightarrow> string list) \<Rightarrow> hypothesis list \<Rightarrow> (string \<times> string) list" where
  "scope_dict field hs = fold (\<lambda>h d. fold (\<lambda>x d. AList.update x (hyp_id h) d) (field h) d) hs []"

definition resolve_denylist :: "hypotheses option \<Rightarrow> string list \<Rightarrow> (string \<times> string) list" where
  "resolve_denylist reg ids = scope_dict (sc_symbols \<circ> hyp_scope) (active_given reg ids)"

definition resolve_bias_sectors :: "hypotheses option \<Rightarrow> string list \<Rightarrow> (string \<times> string) list" where
  "resolve_bias_sectors reg ids = scope_dict (sc_sectors \<circ> hyp_scope) (active_given reg ids)"

record allowlist =
  al_symbols :: "string set"
  al_sectors :: "string set"
  al_hypothesis_ids :: "string list"

definition resolve_allowlist :: "hypotheses option \<Rightarrow> string list \<Rightarrow> allowlist option" where
  "resolve_allowlist reg ids =
     (let hs = active_given reg ids;
          symbols = \<Union> (set (map (set \<circ> sc_symbols \<circ> hyp_scope) hs));
          sectors = \<Union> (set (map (set \<circ> sc_sectors \<circ> hyp_scope) hs))
      in if hs = [] then None
         else if symbols = {} \<and> sectors = {} then None
         else Some \<lparr>al_symbols = symbols, al_sectors = sectors, al_hypothesis_ids = map hyp_id hs\<rparr>)"

section \<open>Building a pool\<close>

record pool_config =
  pc_universe_symbols :: "string list"
  pc_filters :: structural_filters
  pc_denylist :: "string list"
  pc_allowlist :: "string list"
  pc_bias :: "string list"
  pc_bias_multiplier :: double

record pool =
  pool_symbols :: "string list"
  pool_weights :: "(string \<times> double) list"
  pool_version :: string
  pool_built_at :: datetime
  pool_audit_trail :: "pool_entry list"

definition pool_is_empty :: "pool \<Rightarrow> bool" where
  "pool_is_empty p \<longleftrightarrow> length (pool_symbols p) = 0"

record pool_request =
  pr_filters :: structural_filters
  pr_denylist :: "string list"
  pr_allowlist :: "string list"
  pr_bias :: "string list"
  pr_bias_multiplier :: double

definition generate_version :: "(pool_config \<Rightarrow> string) \<Rightarrow> datetime \<Rightarrow> string list \<Rightarrow> pool_request \<Rightarrow> string" where
  "generate_version digest now universe_symbols r =
     pad 4 (dt_year now) @ pad 2 (dt_month now) @ pad 2 (dt_day now) @ ''_'' @
     take 12 (digest \<lparr>pc_universe_symbols = universe_symbols, pc_filters = pr_filters r,
       pc_denylist = sort (pr_denylist r), pc_allowlist = sort (pr_allowlist r), pc_bias = sort (pr_bias r),
       pc_bias_multiplier = pr_bias_multiplier r\<rparr>)"

definition excluded_entry :: "symbol_data \<Rightarrow> string \<Rightarrow> string \<Rightarrow> pool_entry" where
  "excluded_entry d reason source =
     \<lparr>pe_symbol = sd_symbol d, pe_action = EXCLUDED, pe_reason = reason, pe_source = source\<rparr>"

definition denied_step :: "(string \<times> string) list \<Rightarrow> symbol_data \<Rightarrow> symbol_data list \<times> pool_entry list \<Rightarrow> symbol_data list \<times> pool_entry list" where
  "denied_step deny d = (\<lambda>(kept, trail).
     case map_of deny (sd_symbol d) of
       Some h \<Rightarrow> (kept, trail @ [excluded_entry d (''hypothesis:'' @ h) h])
     | None \<Rightarrow> (kept @ [d], trail))"

definition is_allowed :: "allowlist \<Rightarrow> symbol_data \<Rightarrow> bool" where
  "is_allowed a d \<longleftrightarrow> sd_symbol d \<in> al_symbols a \<or> sd_sector d \<in> al_sectors a"

definition allowed_step :: "allowlist \<Rightarrow> symbol_data \<Rightarrow> symbol_data list \<times> pool_entry list \<Rightarrow> symbol_data list \<times> pool_entry list" where
  "allowed_step a d = (\<lambda>(kept, trail).
     if is_allowed a d then (kept @ [d], trail)
     else let source = (case al_hypothesis_ids a of h # _ \<Rightarrow> h | [] \<Rightarrow> ''allowlist'')
          in (kept, trail @ [excluded_entry d (''hypothesis_allowlist:'' @ source) source]))"

definition bias_step :: "(string \<times> string) list \<Rightarrow> double \<Rightarrow> symbol_data \<Rightarrow> (string \<times> double) list \<times> pool_entry list \<Rightarrow> (string \<times> double) list \<times> pool_entry list" where
  "bias_step sectors m d = (\<lambda>(weights, trail).
     case map_of sectors (sd_sector d) of
       Some h \<Rightarrow> (AList.update (sd_symbol d) m weights,
         trail @ [\<lparr>pe_symbol = sd_symbol d, pe_action = PRIORITIZED, pe_reason = ''hypothesis:'' @ h, pe_source = h\<rparr>])
     | None \<Rightarrow> (weights, trail))"

definition included_entry :: "symbol_data \<Rightarrow> pool_entry" where
  "included_entry d =
     \<lparr>pe_symbol = sd_symbol d, pe_action = INCLUDED, pe_reason = ''passed_all_filters'', pe_source = ''pool_builder''\<rparr>"

text \<open>The left of the result is \<open>EmptyPoolError\<close> with the audit trail it carries.\<close>

definition build_pool ::
  "(double \<Rightarrow> string) \<Rightarrow> (pool_config \<Rightarrow> string) \<Rightarrow> datetime \<Rightarrow> hypotheses option \<Rightarrow> pool_request \<Rightarrow> symbol_data list
   \<Rightarrow> pool_entry list + pool" where
  "build_pool str_float digest now reg r universe =
     (let (passed, excluded) = apply_structural_filters str_float (pr_filters r) universe;
          trail0 = map (\<lambda>(d, reason). excluded_entry d reason (extract_filter_source reason)) excluded;
          (kept1, trail1) = fold (denied_step (resolve_denylist reg (pr_denylist r))) passed ([], trail0);
          (kept2, trail2) = (case resolve_allowlist reg (pr_allowlist r) of
             None \<Rightarrow> (kept1, trail1) | Some a \<Rightarrow> fold (allowed_step a) kept1 ([], trail1));
          members = sort_key sd_symbol kept2;
          sectors = resolve_bias_sectors reg (pr_bias r);
          (weights, trail3) = (if sectors \<noteq> [] \<and> pr_bias_multiplier r \<noteq> 1
             then fold (bias_step sectors (pr_bias_multiplier r)) members ([], trail2) else ([], trail2));
          trail = trail3 @ map included_entry members
      in if map sd_symbol members = [] then Inl trail
         else Inr \<lparr>pool_symbols = map sd_symbol members, pool_weights = weights,
                pool_version = generate_version digest now (sort (map sd_symbol universe)) r,
                pool_built_at = now, pool_audit_trail = trail\<rparr>)"

section \<open>Closed forms of the loops\<close>

lemma apply_structural_filters_closed:
  "apply_structural_filters str_float f universe =
     (filter (\<lambda>d. check_filters str_float f d = None) universe,
      concat (map (\<lambda>d. case check_filters str_float f d of None \<Rightarrow> [] | Some reason \<Rightarrow> [(d, reason)]) universe))"
proof -
  have "fold (\<lambda>d (passed, excluded). case check_filters str_float f d of None \<Rightarrow> (passed @ [d], excluded)
           | Some reason \<Rightarrow> (passed, excluded @ [(d, reason)])) xs (ps, es)
      = (ps @ filter (\<lambda>d. check_filters str_float f d = None) xs,
         es @ concat (map (\<lambda>d. case check_filters str_float f d of None \<Rightarrow> [] | Some reason \<Rightarrow> [(d, reason)]) xs))" for xs ps es
    by (induction xs arbitrary: ps es) (auto split: option.split)
  then show ?thesis by (simp add: apply_structural_filters_def)
qed

lemma denied_closed:
  "fold (denied_step deny) xs (kept, trail) =
     (kept @ filter (\<lambda>d. map_of deny (sd_symbol d) = None) xs,
      trail @ concat (map (\<lambda>d. case map_of deny (sd_symbol d) of None \<Rightarrow> []
        | Some h \<Rightarrow> [excluded_entry d (''hypothesis:'' @ h) h]) xs))"
  by (induction xs arbitrary: kept trail) (auto simp: denied_step_def split: option.split)

lemma allowed_closed:
  "\<exists>source. fold (allowed_step a) xs (kept, trail) =
     (kept @ filter (is_allowed a) xs,
      trail @ map (\<lambda>d. excluded_entry d (''hypothesis_allowlist:'' @ source) source) (filter (\<lambda>d. \<not> is_allowed a d) xs))"
  by (rule exI [of _ "case al_hypothesis_ids a of h # _ \<Rightarrow> h | [] \<Rightarrow> ''allowlist''"], induction xs arbitrary: kept trail)
    (auto simp: allowed_step_def Let_def)

definition allowed_by :: "allowlist option \<Rightarrow> symbol_data \<Rightarrow> bool" where
  "allowed_by a d = opt_all (\<lambda>a. is_allowed a d) a"

lemma allowed_by_simps [simp]: "allowed_by None = (\<lambda>_. True)" "allowed_by (Some a) = is_allowed a"
  by (auto simp: allowed_by_def)

definition add_weight :: "(string \<times> string) list \<Rightarrow> double \<Rightarrow> symbol_data \<Rightarrow> (string \<times> double) list \<Rightarrow> (string \<times> double) list" where
  "add_weight sectors m d w = (case map_of sectors (sd_sector d) of None \<Rightarrow> w | Some _ \<Rightarrow> AList.update (sd_symbol d) m w)"

lemma bias_trail:
  "\<exists>es. fold (bias_step sectors m) xs (weights, trail) = (fold (add_weight sectors m) xs weights, trail @ es)
     \<and> (\<forall>e \<in> set es. pe_action e = PRIORITIZED)"
proof (induction xs arbitrary: weights trail)
  case (Cons d xs)
  obtain t where b: "bias_step sectors m d (weights, trail) = (add_weight sectors m d weights, trail @ t)"
    and t: "\<forall>e \<in> set t. pe_action e = PRIORITIZED"
    by (cases "map_of sectors (sd_sector d)") (auto simp: bias_step_def add_weight_def)
  obtain es where "fold (bias_step sectors m) xs (add_weight sectors m d weights, trail @ t)
      = (fold (add_weight sectors m) xs (add_weight sectors m d weights), (trail @ t) @ es)"
    "\<forall>e \<in> set es. pe_action e = PRIORITIZED" using Cons.IH by blast
  with b t show ?case by (intro exI [of _ "t @ es"]) auto
qed simp

definition bias_weights :: "hypotheses option \<Rightarrow> pool_request \<Rightarrow> symbol_data list \<Rightarrow> (string \<times> double) list" where
  "bias_weights reg r ds =
     (if resolve_bias_sectors reg (pr_bias r) \<noteq> [] \<and> pr_bias_multiplier r \<noteq> 1
      then fold (add_weight (resolve_bias_sectors reg (pr_bias r)) (pr_bias_multiplier r)) ds [] else [])"

text \<open>What the builder keeps of the universe.\<close>

definition kept_members :: "(double \<Rightarrow> string) \<Rightarrow> hypotheses option \<Rightarrow> pool_request \<Rightarrow> symbol_data list \<Rightarrow> symbol_data list" where
  "kept_members str_float reg r universe =
     filter (allowed_by (resolve_allowlist reg (pr_allowlist r)))
       (filter (\<lambda>d. map_of (resolve_denylist reg (pr_denylist r)) (sd_symbol d) = None)
         (filter (\<lambda>d. check_filters str_float (pr_filters r) d = None) universe))"

definition decided :: "pool_entry list \<Rightarrow> string list" where
  "decided t = map pe_symbol (filter (\<lambda>e. pe_action e \<noteq> PRIORITIZED) t)"

lemma excluded_entry_action [simp]: "pe_action (excluded_entry d reason source) = EXCLUDED"
  by (simp add: excluded_entry_def)

lemma decided_simps [simp]:
  "decided [] = []" "decided (t @ u) = decided t @ decided u"
  "decided (map included_entry ds) = map sd_symbol ds"
  "decided (excluded_entry d reason source # t) = sd_symbol d # decided t"
  "(\<forall>e \<in> set t. pe_action e = PRIORITIZED) \<Longrightarrow> decided t = []"
  "decided (map (\<lambda>d. excluded_entry d (f d) (g d)) ds) = map sd_symbol ds"
  by (simp_all add: decided_def excluded_entry_def) (induction ds, simp_all add: included_entry_def)+

lemma decided_excluded:
  "decided (map (\<lambda>(d, reason). excluded_entry d reason (f reason)) xs) = map (sd_symbol \<circ> fst) xs"
  by (induction xs) (auto simp: decided_def excluded_entry_def)

lemma decided_denied:
  "decided (concat (map (\<lambda>d. case P d of None \<Rightarrow> [] | Some h \<Rightarrow> [excluded_entry d (f h) h]) xs))
     = map sd_symbol (filter (\<lambda>d. P d \<noteq> None) xs)"
  by (induction xs) (auto split: option.split)

lemma excluded_pairs:
  "map (sd_symbol \<circ> fst) (concat (map (\<lambda>d. case P d of None \<Rightarrow> [] | Some reason \<Rightarrow> [(d, reason)]) xs))
     = map sd_symbol (filter (\<lambda>d. P d \<noteq> None) xs)"
  by (induction xs) (auto split: option.split)

lemma mset_split: "mset (map f (filter P xs)) + mset (map f (filter (\<lambda>x. \<not> P x) xs)) = mset (map f xs)"
  by (induction xs) auto

lemma mset_split': "mset (map f (filter (\<lambda>x. \<not> P x) xs)) + mset (map f (filter P xs)) = mset (map f xs)"
  by (induction xs) auto

lemma gated_by_allowlist:
  obtains t2 where "(case resolve_allowlist reg (pr_allowlist r) of None \<Rightarrow> (K, t) | Some a \<Rightarrow> fold (allowed_step a) K ([], t))
      = (filter (allowed_by (resolve_allowlist reg (pr_allowlist r))) K, t @ t2)"
    and "decided t2 = map sd_symbol (filter (\<lambda>d. \<not> allowed_by (resolve_allowlist reg (pr_allowlist r)) d) K)"
    and "\<forall>e \<in> set t2. pe_action e \<noteq> INCLUDED"
proof (cases "resolve_allowlist reg (pr_allowlist r)")
  case None
  then show ?thesis using that [of "[]"] by (simp add: allowed_by_def)
next
  case (Some a)
  obtain source where "fold (allowed_step a) K ([], t) =
     (filter (is_allowed a) K,
      t @ map (\<lambda>d. excluded_entry d (''hypothesis_allowlist:'' @ source) source) (filter (\<lambda>d. \<not> is_allowed a d) K))"
    using allowed_closed [of a K "[]" t] by auto
  with Some show ?thesis
    using that [of "map (\<lambda>d. excluded_entry d (''hypothesis_allowlist:'' @ source) source) (filter (\<lambda>d. \<not> is_allowed a d) K)"]
    by simp
qed

lemma weighed_by_bias:
  obtains t3 where "(if resolve_bias_sectors reg (pr_bias r) \<noteq> [] \<and> pr_bias_multiplier r \<noteq> 1
      then fold (bias_step (resolve_bias_sectors reg (pr_bias r)) (pr_bias_multiplier r)) ds ([], t) else ([], t))
      = (bias_weights reg r ds, t @ t3)"
    and "\<forall>e \<in> set t3. pe_action e = PRIORITIZED"
proof (cases "resolve_bias_sectors reg (pr_bias r) \<noteq> [] \<and> pr_bias_multiplier r \<noteq> 1")
  case True
  then show ?thesis using that bias_trail [of "resolve_bias_sectors reg (pr_bias r)" "pr_bias_multiplier r" ds "[]" t]
    by (auto simp: bias_weights_def)
next
  case False
  then show ?thesis using that [of "[]"] by (auto simp: bias_weights_def)
qed

lemma build_pool_closed:
  "\<exists>t. decided t = map sd_symbol (filter (\<lambda>d. check_filters str_float (pr_filters r) d \<noteq> None) universe)
        @ map sd_symbol (filter (\<lambda>d. map_of (resolve_denylist reg (pr_denylist r)) (sd_symbol d) \<noteq> None)
             (filter (\<lambda>d. check_filters str_float (pr_filters r) d = None) universe))
        @ map sd_symbol (filter (\<lambda>d. \<not> allowed_by (resolve_allowlist reg (pr_allowlist r)) d)
             (filter (\<lambda>d. map_of (resolve_denylist reg (pr_denylist r)) (sd_symbol d) = None)
               (filter (\<lambda>d. check_filters str_float (pr_filters r) d = None) universe)))
     \<and> (\<forall>e \<in> set t. pe_action e \<noteq> INCLUDED)
     \<and> build_pool str_float digest now reg r universe =
        (let members = sort_key sd_symbol (kept_members str_float reg r universe); trail = t @ map included_entry members
         in if members = [] then Inl trail
            else Inr \<lparr>pool_symbols = map sd_symbol members, pool_weights = bias_weights reg r members,
                   pool_version = generate_version digest now (sort (map sd_symbol universe)) r,
                   pool_built_at = now, pool_audit_trail = trail\<rparr>)"
proof -
  let ?f = "check_filters str_float (pr_filters r)" and ?deny = "resolve_denylist reg (pr_denylist r)"
  let ?P = "filter (\<lambda>d. ?f d = None) universe"
  let ?K = "filter (\<lambda>d. map_of ?deny (sd_symbol d) = None) ?P"
  let ?t0 = "map (\<lambda>(d, reason). excluded_entry d reason (extract_filter_source reason))
    (concat (map (\<lambda>d. case ?f d of None \<Rightarrow> [] | Some reason \<Rightarrow> [(d, reason)]) universe))"
  let ?t1 = "concat (map (\<lambda>d. case map_of ?deny (sd_symbol d) of None \<Rightarrow> []
    | Some h \<Rightarrow> [excluded_entry d (''hypothesis:'' @ h) h]) ?P)"
  obtain t2 where t2: "(case resolve_allowlist reg (pr_allowlist r) of None \<Rightarrow> (?K, ?t0 @ ?t1)
      | Some a \<Rightarrow> fold (allowed_step a) ?K ([], ?t0 @ ?t1))
      = (kept_members str_float reg r universe, (?t0 @ ?t1) @ t2)"
    and d2: "decided t2 = map sd_symbol (filter (\<lambda>d. \<not> allowed_by (resolve_allowlist reg (pr_allowlist r)) d) ?K)"
    and e2: "\<forall>e \<in> set t2. pe_action e \<noteq> INCLUDED"
    by (rule gated_by_allowlist [where reg = reg and r = r and K = ?K and t = "?t0 @ ?t1", folded kept_members_def])
  obtain t3 where t3: "(if resolve_bias_sectors reg (pr_bias r) \<noteq> [] \<and> pr_bias_multiplier r \<noteq> 1
      then fold (bias_step (resolve_bias_sectors reg (pr_bias r)) (pr_bias_multiplier r))
        (sort_key sd_symbol (kept_members str_float reg r universe)) ([], (?t0 @ ?t1) @ t2) else ([], (?t0 @ ?t1) @ t2))
      = (bias_weights reg r (sort_key sd_symbol (kept_members str_float reg r universe)), ((?t0 @ ?t1) @ t2) @ t3)" and e3: "\<forall>e \<in> set t3. pe_action e = PRIORITIZED"
    by (rule weighed_by_bias)
  have e01: "\<forall>e \<in> set (?t0 @ ?t1). pe_action e \<noteq> INCLUDED"
    by (auto split: option.splits)
  have "decided (((?t0 @ ?t1) @ t2) @ t3) = map sd_symbol (filter (\<lambda>d. ?f d \<noteq> None) universe)
      @ map sd_symbol (filter (\<lambda>d. map_of ?deny (sd_symbol d) \<noteq> None) ?P)
      @ map sd_symbol (filter (\<lambda>d. \<not> allowed_by (resolve_allowlist reg (pr_allowlist r)) d) ?K)"
    using e3 d2 by (simp only: decided_simps decided_excluded excluded_pairs decided_denied append_assoc append_Nil2)
  moreover have "\<forall>e \<in> set (((?t0 @ ?t1) @ t2) @ t3). pe_action e \<noteq> INCLUDED"
    using e01 e2 e3 by fastforce
  moreover have "build_pool str_float digest now reg r universe =
      (let members = sort_key sd_symbol (kept_members str_float reg r universe);
           trail = (((?t0 @ ?t1) @ t2) @ t3) @ map included_entry members
       in if members = [] then Inl trail
          else Inr \<lparr>pool_symbols = map sd_symbol members, pool_weights = bias_weights reg r members,
                 pool_version = generate_version digest now (sort (map sd_symbol universe)) r,
                 pool_built_at = now, pool_audit_trail = trail\<rparr>)"
    using t2 t3 by (simp add: build_pool_def apply_structural_filters_closed denied_closed Let_def
      del: decided_simps append_assoc)
  ultimately show ?thesis by blast
qed

section \<open>Who is in the pool\<close>

text \<open>The active ones of the hypotheses that a request names.\<close>

definition given_hypothesis :: "hypotheses option \<Rightarrow> string list \<Rightarrow> hypothesis \<Rightarrow> bool" where
  "given_hypothesis reg ids h \<longleftrightarrow> (\<exists>hs k. reg = Some hs \<and> k \<in> set ids \<and> hyp_get k hs = Some h \<and> hyp_is_active h)"

definition belongs :: "(double \<Rightarrow> string) \<Rightarrow> hypotheses option \<Rightarrow> pool_request \<Rightarrow> symbol_data \<Rightarrow> bool" where
  "belongs str_float reg r d \<longleftrightarrow>
     check_filters str_float (pr_filters r) d = None
     \<and> (\<forall>h. given_hypothesis reg (pr_denylist r) h \<longrightarrow> sd_symbol d \<notin> set (sc_symbols (hyp_scope h)))
     \<and> ((\<forall>h. given_hypothesis reg (pr_allowlist r) h \<longrightarrow> sc_symbols (hyp_scope h) = [] \<and> sc_sectors (hyp_scope h) = [])
        \<or> (\<exists>h. given_hypothesis reg (pr_allowlist r) h
             \<and> (sd_symbol d \<in> set (sc_symbols (hyp_scope h)) \<or> sd_sector d \<in> set (sc_sectors (hyp_scope h)))))"

lemma optional_mem:
  "y \<in> set (case x of None \<Rightarrow> [] | Some z \<Rightarrow> if P z then [f z] else []) \<longleftrightarrow> (\<exists>z. x = Some z \<and> P z \<and> y = f z)"
  by (cases x) auto

lemma active_given_mem:
  "h \<in> set (active_given reg ids) \<longleftrightarrow>
     (\<exists>hs k h'. reg = Some hs \<and> k \<in> set ids \<and> hyp_get k hs = Some h' \<and> hyp_is_active h' \<and> h = h'\<lparr>hyp_id := k\<rparr>)"
proof (cases reg)
  case (Some hs)
  have "h \<in> set (active_given (Some hs) ids) \<longleftrightarrow> (\<exists>k \<in> set ids. \<exists>h'. hyp_get k hs = Some h' \<and> hyp_is_active h' \<and> h = h'\<lparr>hyp_id := k\<rparr>)"
    by (simp only: active_given_def option.case set_concat set_map UN_iff image_image optional_mem bex_simps)
  with Some show ?thesis by blast
qed (simp add: active_given_def)

lemma active_given_set:
  "hyp_scope ` set (active_given reg ids) = hyp_scope ` {h. given_hypothesis reg ids h}"
proof (intro equalityI subsetI)
  fix s assume "s \<in> hyp_scope ` set (active_given reg ids)"
  then obtain hs k h' where "reg = Some hs" "k \<in> set ids" "hyp_get k hs = Some h'" "hyp_is_active h'" "s = hyp_scope h'"
    by (auto simp: active_given_mem)
  then show "s \<in> hyp_scope ` {h. given_hypothesis reg ids h}" by (auto simp: given_hypothesis_def)
next
  fix s assume "s \<in> hyp_scope ` {h. given_hypothesis reg ids h}"
  then obtain hs k h where h: "reg = Some hs" "k \<in> set ids" "hyp_get k hs = Some h" "hyp_is_active h" "s = hyp_scope h"
    by (auto simp: given_hypothesis_def)
  then have "h\<lparr>hyp_id := k\<rparr> \<in> set (active_given reg ids)" by (auto simp: active_given_mem)
  moreover have "s = hyp_scope (h\<lparr>hyp_id := k\<rparr>)" using h by simp
  ultimately show "s \<in> hyp_scope ` set (active_given reg ids)" by blast
qed

lemma map_of_field:
  "map_of (fold (\<lambda>x d. AList.update x v d) xs d) y = (if y \<in> set xs then Some v else map_of d y)"
  by (induction xs arbitrary: d) (auto simp: update_conv)

lemma scope_dict_None:
  "map_of (scope_dict field hs) x = None \<longleftrightarrow> (\<forall>h \<in> set hs. x \<notin> set (field h))"
proof -
  have "map_of (fold (\<lambda>h d. fold (\<lambda>x d. AList.update x (hyp_id h) d) (field h) d) hs d) x = None
      \<longleftrightarrow> map_of d x = None \<and> (\<forall>h \<in> set hs. x \<notin> set (field h))" for d
    by (induction hs arbitrary: d) (auto simp: map_of_field split: if_splits)
  then show ?thesis by (simp add: scope_dict_def)
qed

lemma not_denied:
  "map_of (resolve_denylist reg ids) x = None
     \<longleftrightarrow> (\<forall>h. given_hypothesis reg ids h \<longrightarrow> x \<notin> set (sc_symbols (hyp_scope h)))"
proof -
  have "map_of (resolve_denylist reg ids) x = None \<longleftrightarrow> (\<forall>s \<in> hyp_scope ` set (active_given reg ids). x \<notin> set (sc_symbols s))"
    by (simp add: resolve_denylist_def scope_dict_None)
  then show ?thesis by (simp add: active_given_set)
qed

lemma allowed_iff:
  "allowed_by (resolve_allowlist reg ids) d \<longleftrightarrow>
     (\<forall>h. given_hypothesis reg ids h \<longrightarrow> sc_symbols (hyp_scope h) = [] \<and> sc_sectors (hyp_scope h) = [])
     \<or> (\<exists>h. given_hypothesis reg ids h
          \<and> (sd_symbol d \<in> set (sc_symbols (hyp_scope h)) \<or> sd_sector d \<in> set (sc_sectors (hyp_scope h))))"
proof -
  let ?S = "hyp_scope ` set (active_given reg ids)"
  have "allowed_by (resolve_allowlist reg ids) d \<longleftrightarrow>
     (\<forall>s \<in> ?S. sc_symbols s = [] \<and> sc_sectors s = []) \<or> (\<exists>s \<in> ?S. sd_symbol d \<in> set (sc_symbols s) \<or> sd_sector d \<in> set (sc_sectors s))"
    by (auto simp: resolve_allowlist_def Let_def is_allowed_def)
  then show ?thesis unfolding active_given_set by auto
qed

lemma kept_members_belongs: "kept_members str_float reg r universe = filter (belongs str_float reg r) universe"
  by (auto simp: kept_members_def belongs_def not_denied allowed_iff intro!: filter_cong)

lemma sort_key_Nil_iff [simp]: "sort_key f xs = [] \<longleftrightarrow> xs = []"
  by (metis length_0_conv length_sort)

lemma sort_map_key: "map sd_symbol (sort_key sd_symbol ds) = sort (map sd_symbol ds)"
  by (rule sym, rule properties_for_sort) (simp_all add: mset_map)

lemmas build_pool_belongs = build_pool_closed [unfolded kept_members_belongs]


text \<open>The audit trail decides every symbol of the universe exactly once, included or excluded,
  whether a pool is built or not, and includes exactly the symbols of the pool.\<close>

theorem audit_trail_complete:
  "case build_pool str_float digest now reg r universe of
     Inl trail \<Rightarrow> mset (decided trail) = mset (map sd_symbol universe) \<and> filter (\<lambda>e. pe_action e = INCLUDED) trail = []
   | Inr p \<Rightarrow> mset (decided (pool_audit_trail p)) = mset (map sd_symbol universe)
       \<and> map pe_symbol (filter (\<lambda>e. pe_action e = INCLUDED) (pool_audit_trail p)) = pool_symbols p"
proof -
  let ?P = "filter (\<lambda>d. check_filters str_float (pr_filters r) d = None) universe"
  let ?K = "filter (\<lambda>d. map_of (resolve_denylist reg (pr_denylist r)) (sd_symbol d) = None) ?P"
  let ?M = "sort_key sd_symbol (kept_members str_float reg r universe)"
  obtain t where dec: "decided t = map sd_symbol (filter (\<lambda>d. check_filters str_float (pr_filters r) d \<noteq> None) universe)
        @ map sd_symbol (filter (\<lambda>d. map_of (resolve_denylist reg (pr_denylist r)) (sd_symbol d) \<noteq> None) ?P)
        @ map sd_symbol (filter (\<lambda>d. \<not> allowed_by (resolve_allowlist reg (pr_allowlist r)) d) ?K)"
    and inc: "\<forall>e \<in> set t. pe_action e \<noteq> INCLUDED"
    and build: "build_pool str_float digest now reg r universe =
        (let members = ?M; trail = t @ map included_entry members
         in if members = [] then Inl trail
            else Inr \<lparr>pool_symbols = map sd_symbol members, pool_weights = bias_weights reg r members,
                   pool_version = generate_version digest now (sort (map sd_symbol universe)) r,
                   pool_built_at = now, pool_audit_trail = trail\<rparr>)"
    using build_pool_closed [of str_float r universe reg digest now] by blast
  have f1: "mset (map sd_symbol (filter (\<lambda>d. \<not> allowed_by (resolve_allowlist reg (pr_allowlist r)) d) ?K))
      + mset (map sd_symbol ?M) = mset (map sd_symbol ?K)"
    using mset_split' [of sd_symbol "allowed_by (resolve_allowlist reg (pr_allowlist r))" ?K]
    by (simp only: kept_members_def mset_map mset_sort)
  have f2: "mset (map sd_symbol (filter (\<lambda>d. map_of (resolve_denylist reg (pr_denylist r)) (sd_symbol d) \<noteq> None) ?P))
      + mset (map sd_symbol ?K) = mset (map sd_symbol ?P)" by (rule mset_split')
  have f3: "mset (map sd_symbol (filter (\<lambda>d. check_filters str_float (pr_filters r) d \<noteq> None) universe))
      + mset (map sd_symbol ?P) = mset (map sd_symbol universe)" by (rule mset_split')
  have all: "mset (decided (t @ map included_entry ?M)) = mset (map sd_symbol universe)"
    by (simp only: decided_simps dec mset_append add.assoc f1 f2 f3)
  have t0: "filter (\<lambda>e. pe_action e = INCLUDED) t = []" using inc by (simp add: filter_empty_conv)
  have m0: "filter (\<lambda>e. pe_action e = INCLUDED) (map included_entry ds) = map included_entry ds"
    "map pe_symbol (map included_entry ds) = map sd_symbol ds" for ds
    by (induction ds) (simp_all add: included_entry_def)
  show ?thesis
  proof (cases "?M = []")
    case True
    then have "build_pool str_float digest now reg r universe = Inl (t @ map included_entry ?M)" by (simp add: build Let_def del: decided_simps)
    with all t0 True show ?thesis by (simp only: sum.case filter_append m0 list.map append_Nil2 filter.simps simp_thms)
  next
    case False
    then show ?thesis using all t0 m0 by (simp only: build Let_def if_False sum.case pool.simps filter_append append_Nil)
  qed
qed

text \<open>The pool does not depend on the order in which the universe is listed: symbols, weights and
  version are the same.\<close>

lemma pool_order_independent:
  assumes "mset universe = mset universe'" and "distinct (map sd_symbol universe)"
    and "build_pool str_float digest now reg r universe = Inr p"
  shows "\<exists>p'. build_pool str_float digest now reg r universe' = Inr p' \<and> pool_symbols p' = pool_symbols p
    \<and> pool_weights p' = pool_weights p \<and> pool_version p' = pool_version p"
proof -
  let ?b = "filter (belongs str_float reg r)"
  have inj: "inj_on sd_symbol (set (?b universe))"
    using assms(2) by (auto simp: distinct_map inj_on_def)
  have members: "sort_key sd_symbol (?b universe) = sort_key sd_symbol (?b universe')"
    by (rule sort_key_inj_key_eq [OF _ inj]) (simp_all add: assms(1))
  have names: "sort (map sd_symbol universe) = sort (map sd_symbol universe')"
    by (rule properties_for_sort) (simp_all add: mset_map assms(1))
  have ne: "?b universe \<noteq> [] \<longleftrightarrow> ?b universe' \<noteq> []" using members by (metis sort_key_Nil_iff)
  from build_pool_belongs [of str_float r universe reg digest now] build_pool_belongs [of str_float r universe' reg digest now] assms(3)
  show ?thesis using ne by (auto simp: Let_def members names split: if_splits)
qed

section \<open>What the version leaves out\<close>

text \<open>The version covers the configuration and the names of the universe, but neither the hypotheses nor
  the data of the symbols: pools that differ share a version.\<close>

lemma version_ignores_hypotheses:
  assumes "build_pool str_float digest now reg r universe = Inr p"
    and "build_pool str_float' digest now reg' r universe' = Inr p'"
    and "map sd_symbol universe = map sd_symbol universe'"
  shows "pool_version p = pool_version p'"
  using build_pool_belongs [of str_float r universe reg digest now] build_pool_belongs [of str_float' r universe' reg' digest now] assms
  by (auto simp: Let_def split: if_splits)

text \<open>The source of a structural exclusion is the name of the filter.\<close>

lemma hd_str_split:
  assumes "c \<notin> set sep" and "\<not> sublist sep (takeWhile (\<lambda>x. x \<noteq> c) s)"
  shows "takeWhile (\<lambda>x. x \<noteq> c) (hd (str_split sep s)) = takeWhile (\<lambda>x. x \<noteq> c) s"
  using assms
proof (induction sep s rule: str_split.induct)
  case (1 sep s)
  consider "s = [] \<or> sep = []" | u where "s = sep @ u" "sep \<noteq> []" | "s \<noteq> []" "sep \<noteq> []" "\<not> prefix sep s"
    by (auto elim: prefixE)
  then show ?case
  proof cases
    case 1
    then show ?thesis by (subst str_split.simps) simp
  next
    case 2
    have "takeWhile (\<lambda>x. x \<noteq> c) s = sep @ takeWhile (\<lambda>x. x \<noteq> c) u"
      unfolding 2 by (rule takeWhile_append2) (use "1.prems"(1) in auto)
    moreover have "sublist sep (sep @ takeWhile (\<lambda>x. x \<noteq> c) u)" by (auto simp: sublist_def intro: exI [of _ "[]"])
    ultimately show ?thesis using "1.prems"(2) by simp
  next
    case 3
    then obtain x t where s: "s = x # t" by (cases s) auto
    have split: "hd (str_split sep s) = x # hd (str_split sep t)" if "str_split sep t \<noteq> []"
      using 3 that unfolding s by (subst str_split.simps) (simp split: list.split)
    have ne: "str_split sep t \<noteq> []"
      by (subst str_split.simps) (simp split: list.split)
    show ?thesis
    proof (cases "x = c")
      case False
      with "1.prems"(2) have "\<not> sublist sep (takeWhile (\<lambda>x. x \<noteq> c) t)" by (auto simp: s sublist_Cons_right)
      with "1.IH"(2) 3 "1.prems"(1) show ?thesis unfolding split [OF ne] by (simp add: s)
    qed (simp add: split [OF ne], simp add: s)
  qed
qed

lemma hd_str_split_char: "hd (str_split [c] s) = takeWhile (\<lambda>x. x \<noteq> c) s"
proof (induction "[c]" s rule: str_split.induct)
  case (1 s)
  have ne: "str_split sep t \<noteq> []" for sep t by (subst str_split.simps) (simp split: list.split)
  show ?case
  proof (cases s)
    case (Cons x t)
    then show ?thesis using 1 ne [of "[c]" t] by (subst str_split.simps) (auto split: list.split)
  qed (subst str_split.simps, simp)
qed

lemma source_of_reason:
  assumes "list_all (\<lambda>c. c \<notin> set '' :'' \<union> {CHR 0x09, CHR 0x0A, CHR 0x0B, CHR 0x0C, CHR 0x0D}) name"
  shows "extract_filter_source (filter_reason name detail) = name"
proof -
  let ?S = "''structural_filter:''" and ?rest = "name @ '' ('' @ detail @ '')''"
  have "str_split ?S (?S @ ?rest) = [] # str_split ?S ?rest" by (subst str_split.simps) (simp add: prefix_def)
  moreover have "str_split ?S ?rest \<noteq> []" by (subst str_split.simps) (simp split: list.split)
  ultimately have piece: "str_split ?S (?S @ ?rest) ! 1 = hd (str_split ?S ?rest)" by (simp add: hd_conv_nth)
  have name: "takeWhile (\<lambda>x. x \<noteq> CHR '' '') ?rest = name"
    using assms by (subst takeWhile_append2) (auto simp: list_all_iff)
  have ns: "\<not> sublist ?S name" using assms set_mono_sublist [of ?S name] by (auto simp: list_all_iff)
  have "takeWhile (\<lambda>x. x \<noteq> CHR '' '') (hd (str_split ?S ?rest)) = takeWhile (\<lambda>x. x \<noteq> CHR '' '') ?rest"
    by (rule hd_str_split) (simp, simp only: name ns not_False_eq_True)
  then have "hd (str_split '' '' (str_split ?S (?S @ ?rest) ! 1)) = name"
    unfolding piece hd_str_split_char name .
  moreover have "strip name = name"
  proof -
    have id: "dropWhile P xs = xs" if "\<forall>x \<in> set xs. \<not> P x" for P and xs :: string
      using that by (cases xs) auto
    show ?thesis using assms unfolding strip_def by (subst id, force simp: list_all_iff)+ simp
  qed
  moreover have "sublist ?S (?S @ ?rest)" unfolding sublist_def by (rule exI [of _ "[]"]) blast
  ultimately show ?thesis unfolding extract_filter_source_def filter_reason_def by (simp only: if_True)
qed

section \<open>Concrete pools\<close>

definition demo_symbol :: "string \<Rightarrow> string \<Rightarrow> double \<Rightarrow> symbol_data" where
  "demo_symbol name sector price =
     \<lparr>sd_symbol = name, sd_sector = sector, sd_state_owned_ratio = 0, sd_dividend_yield = 0, sd_avg_dollar_volume = 1000,
      sd_market_cap = 1000, sd_price = price\<rparr>"

definition demo_request :: pool_request where
  "demo_request =
     \<lparr>pr_filters = \<lparr>sf_state_owned = None, sf_dividend_yield = None, sf_min_volume = None, sf_exclude_sectors = [],
        sf_min_market_cap = None, sf_max_price = None, sf_min_price = Some 5\<rparr>,
      pr_denylist = [], pr_allowlist = [], pr_bias = [], pr_bias_multiplier = 1\<rparr>"

definition demo_universe :: "symbol_data list" where
  "demo_universe = [demo_symbol ''SPY'' ''etf'' 400, demo_symbol ''PNNY'' ''misc'' 1, demo_symbol ''AAPL'' ''tech'' 180]"

definition demo_now :: datetime where
  "demo_now = \<lparr>dt_year = 2026, dt_month = 1, dt_day = 5, dt_hour = 0, dt_minute = 0, dt_second = 0, dt_micro = 0,
     dt_offset = Some 0\<rparr>"

lemma demo_pool:
  "\<exists>t. build_pool (\<lambda>_. ''x'') (\<lambda>_. ''abc'') demo_now None demo_request demo_universe =
     Inr \<lparr>pool_symbols = [''AAPL'', ''SPY''], pool_weights = [], pool_version = ''20260105_abc'', pool_built_at = demo_now,
       pool_audit_trail = t\<rparr>"
proof -
  have b: "filter (belongs (\<lambda>_. ''x'') None demo_request) demo_universe
      = [demo_symbol ''SPY'' ''etf'' 400, demo_symbol ''AAPL'' ''tech'' 180]"
    by (simp add: belongs_def given_hypothesis_def demo_universe_def demo_request_def demo_symbol_def check_filters_def breach_def)
  have v: "generate_version (\<lambda>_. ''abc'') demo_now names demo_request = ''20260105_abc''" for names
    by (simp add: generate_version_def demo_now_def pad_def zfill_def show_nat.simps digit_char_def char_of_def bit_0)
  have w: "bias_weights None demo_request ds = []" for ds
    by (simp add: bias_weights_def demo_request_def)
  show ?thesis
    using build_pool_belongs [of "\<lambda>_. ''x''" demo_request demo_universe None "\<lambda>_. ''abc''" demo_now]
    unfolding b by (auto simp: v w Let_def demo_symbol_def)
qed

lemma pool_order_independent_witness:
  "\<exists>p. build_pool (\<lambda>_. ''x'') (\<lambda>_. ''abc'') demo_now None demo_request (rev demo_universe) = Inr p
     \<and> pool_symbols p = [''AAPL'', ''SPY''] \<and> pool_version p = ''20260105_abc''"
proof -
  obtain t where d: "build_pool (\<lambda>_. ''x'') (\<lambda>_. ''abc'') demo_now None demo_request demo_universe =
     Inr \<lparr>pool_symbols = [''AAPL'', ''SPY''], pool_weights = [], pool_version = ''20260105_abc'', pool_built_at = demo_now,
       pool_audit_trail = t\<rparr>" using demo_pool by blast
  have u: "distinct (map sd_symbol demo_universe)" by (simp add: demo_universe_def demo_symbol_def)
  from pool_order_independent [OF _ u d, of "rev demo_universe"] show ?thesis by force
qed

end
