(* ===== verification/Constraint_Resolver.thy ===== *)
theory Constraint_Resolver
  imports Governance "HOL-Library.Sublist"
begin

text \<open>
  The resolver of governance/constraints/resolver.py: which constraints are active for a symbol
  under the current hypotheses, the actions they contribute, the merged values, the audit
  events, and the cached resolution. SHA-256 is the parameter \<open>digest\<close>; the cache serialises a
  result with pydantic, which is a parameter too. Lemmas: the result does not depend on the
  order in which constraints were registered, and the merged values are the most restrictive.
\<close>

section \<open>Activation and actions\<close>

text \<open>The loop over the required hypotheses, with its early returns.\<close>

fun requirements_met :: "hypotheses \<Rightarrow> bool \<Rightarrow> string list \<Rightarrow> bool" where
  "requirements_met hs dis [] = True"
| "requirements_met hs dis (k # ks) =
     (case hyp_get k hs of
        None \<Rightarrow> False
      | Some h \<Rightarrow>
          if hyp_status h \<noteq> ACTIVE then (if dis \<and> hyp_status h = SUNSET then False else False)
          else requirements_met hs dis ks)"

definition is_constraint_active :: "hypotheses \<Rightarrow> gov_constraint \<Rightarrow> bool" where
  "is_constraint_active hs c =
     (if con_requires c = [] then True else requirements_met hs (con_disabled_if_falsified c) (con_requires c))"

datatype action_value = Num double | Flag bool | Mode string

record resolved_action =
  ra_constraint_id :: string
  ra_action_type :: string
  ra_value :: action_value

definition opt_action :: "string \<Rightarrow> string \<Rightarrow> ('a \<Rightarrow> action_value) \<Rightarrow> 'a option \<Rightarrow> resolved_action list" where
  "opt_action cid typ f v =
     (case v of None \<Rightarrow> [] | Some x \<Rightarrow> [\<lparr>ra_constraint_id = cid, ra_action_type = typ, ra_value = f x\<rparr>])"

definition extract_actions :: "gov_constraint \<Rightarrow> resolved_action list" where
  "extract_actions c =
     (let a = con_actions c; i = con_id c
      in opt_action i ''enable_strategy'' Flag (ca_enable_strategy a)
         @ opt_action i ''pool_bias_multiplier'' Num (ca_pool_bias_multiplier a)
         @ opt_action i ''veto_downgrade'' Flag (ca_veto_downgrade a)
         @ opt_action i ''risk_budget_multiplier'' Num (ca_risk_budget_multiplier a)
         @ opt_action i ''holding_extension_days'' (\<lambda>n. Num (fl (of_int n))) (ca_holding_extension_days a)
         @ opt_action i ''add_position_cap_multiplier'' Num (ca_add_position_cap_multiplier a)
         @ opt_action i ''stop_mode'' (\<lambda>m. Mode (stop_mode_value m)) (ca_stop_mode a))"

section \<open>Merging\<close>

fun restrictiveness :: "stop_mode \<Rightarrow> nat" where
  "restrictiveness BASELINE = 0"
| "restrictiveness WIDE = 1"
| "restrictiveness FUNDAMENTAL_GUARDED = 2"

definition most_restrictive_stop_mode :: "stop_mode list \<Rightarrow> string" where
  "most_restrictive_stop_mode modes =
     (case modes of
        [] \<Rightarrow> ''baseline''
      | m # ms \<Rightarrow> stop_mode_value
          (fold (\<lambda>x best. if restrictiveness x > restrictiveness best then x else best) ms m))"

definition opt_values :: "('c \<Rightarrow> 'a option) \<Rightarrow> 'c list \<Rightarrow> 'a list" where
  "opt_values f cs = concat (map (\<lambda>c. case f c of None \<Rightarrow> [] | Some x \<Rightarrow> [x]) cs)"

definition min_opt :: "double list \<Rightarrow> double option" where
  "min_opt xs = (if xs = [] then None else Some (Min (set xs)))"

definition merge_guardrails :: "guardrails list \<Rightarrow> guardrails option" where
  "merge_guardrails gs =
     (if gs = [] then None
      else let pct = opt_values gr_max_position_pct gs; gross = opt_values gr_max_gross_exposure_delta gs;
               dd = opt_values gr_max_drawdown_addon gs
           in if pct = [] \<and> gross = [] \<and> dd = []
              then Some \<lparr>gr_max_position_pct = None, gr_max_gross_exposure_delta = None, gr_max_drawdown_addon = None\<rparr>
              else Some \<lparr>gr_max_position_pct = min_opt pct, gr_max_gross_exposure_delta = min_opt gross,
                     gr_max_drawdown_addon = min_opt dd\<rparr>)"

text \<open>Sorted ids joined by colons.\<close>

definition version_hash :: "(string \<Rightarrow> string) \<Rightarrow> string list \<Rightarrow> string" where
  "version_hash digest ids =
     take 16 (digest (case sort ids of [] \<Rightarrow> [] | i # is \<Rightarrow> i @ concat (map (\<lambda>x. CHR '':'' # x) is)))"

section \<open>Resolution\<close>

record resolved_constraints =
  rc_symbol :: string
  rc_actions :: "resolved_action list"
  rc_resolved_at :: int
  rc_version :: string
  rc_risk_budget_multiplier :: double
  rc_pool_bias_multiplier :: double
  rc_stop_mode :: string
  rc_veto_downgrade_active :: bool
  rc_guardrails :: "guardrails option"

definition float_product :: "double list \<Rightarrow> double" where
  "float_product xs = foldl (\<lambda>acc m. fl (acc * m)) 1 xs"

definition active_constraints :: "hypotheses \<Rightarrow> gov_constraint list \<Rightarrow> gov_constraint list" where
  "active_constraints hs applicable =
     sort_key (\<lambda>c. (con_priority c, con_id c)) (filter (is_constraint_active hs) applicable)"

definition merge_constraints :: "(string \<Rightarrow> string) \<Rightarrow> int \<Rightarrow> string \<Rightarrow> gov_constraint list \<Rightarrow> resolved_constraints" where
  "merge_constraints digest now sy active =
     \<lparr>rc_symbol = sy, rc_actions = concat (map extract_actions active), rc_resolved_at = now,
      rc_version = version_hash digest (map con_id active),
      rc_risk_budget_multiplier = float_product (opt_values (ca_risk_budget_multiplier \<circ> con_actions) active),
      rc_pool_bias_multiplier = float_product (opt_values (ca_pool_bias_multiplier \<circ> con_actions) active),
      rc_stop_mode = most_restrictive_stop_mode (opt_values (ca_stop_mode \<circ> con_actions) active),
      rc_veto_downgrade_active = list_ex id (opt_values (ca_veto_downgrade \<circ> con_actions) active),
      rc_guardrails = merge_guardrails (opt_values con_guardrails active)\<rparr>"

definition log_audit_events ::
  "int \<Rightarrow> string \<Rightarrow> gov_constraint list \<Rightarrow> resolved_constraints \<Rightarrow> gov_store option \<Rightarrow> gov_store option" where
  "log_audit_events now sy active r store =
     (case store of
        None \<Rightarrow> None
      | Some s \<Rightarrow>
          (let s1 = fold (\<lambda>c. gov_log now CONSTRAINT_ACTIVATED None (Some (con_id c)) (Some sy)) active s;
               vetoing = filter (\<lambda>c. ca_veto_downgrade (con_actions c) = Some True) active;
               s2 = (if rc_veto_downgrade_active r
                     then gov_log now VETO_DOWNGRADE None (case vetoing of [] \<Rightarrow> None | c # _ \<Rightarrow> Some (con_id c)) (Some sy) s1
                     else s1);
               s3 = (if rc_risk_budget_multiplier r \<noteq> 1 then gov_log now RISK_BUDGET_ADJUSTED None None (Some sy) s2 else s2)
           in Some (case rc_guardrails r of
                      Some g \<Rightarrow> if gr_max_position_pct g \<noteq> None
                                then gov_log now POSITION_CAP_APPLIED None None (Some sy) s3 else s3
                    | None \<Rightarrow> s3)))"

record resolver =
  rv_registry :: constraint_registry
  rv_store :: "gov_store option"

definition resolve :: "(string \<Rightarrow> string) \<Rightarrow> int \<Rightarrow> hypotheses \<Rightarrow> string \<Rightarrow> resolver \<Rightarrow> resolver \<times> resolved_constraints result" where
  "resolve digest now hs sy s =
     (case cr_filter_by_symbol sy (rv_registry s) of
        (reg, Inl e) \<Rightarrow> (s\<lparr>rv_registry := reg\<rparr>, Inl e)
      | (reg, Inr applicable) \<Rightarrow>
          (let active = active_constraints hs applicable; r = merge_constraints digest now sy active
           in (\<lparr>rv_registry = reg, rv_store = log_audit_events now sy active r (rv_store s)\<rparr>, Inr r)))"

text \<open>The cache of governance/cache.py: the keys and texts that Redis holds, under a prefix and a
  namespace; whether the entry has expired is an argument of the lookup.\<close>

type_synonym gov_cache = "(string \<times> string) list"

definition cache_key :: "string \<Rightarrow> string \<Rightarrow> string" where
  "cache_key ns k = ''governance:'' @ ns @ '':'' @ k"

definition cache_get :: "(string \<Rightarrow> 'a option) \<Rightarrow> bool \<Rightarrow> string \<Rightarrow> string \<Rightarrow> gov_cache \<Rightarrow> 'a option" where
  "cache_get decode expired ns k c =
     (if expired then None else case map_of c (cache_key ns k) of None \<Rightarrow> None | Some text \<Rightarrow> decode text)"

definition cache_set :: "('a \<Rightarrow> string) \<Rightarrow> string \<Rightarrow> string \<Rightarrow> 'a \<Rightarrow> gov_cache \<Rightarrow> gov_cache" where
  "cache_set encode ns k v c = AList.update (cache_key ns k) (encode v) c"

definition cache_delete :: "string \<Rightarrow> string \<Rightarrow> gov_cache \<Rightarrow> gov_cache" where
  "cache_delete ns k c = AList.delete (cache_key ns k) c"

text \<open>The scan for \<open>governance:\<close>namespace\<open>:*\<close> with the number of keys deleted.\<close>

definition invalidate_namespace :: "string \<Rightarrow> gov_cache \<Rightarrow> gov_cache \<times> nat" where
  "invalidate_namespace ns c =
     (filter (\<lambda>(k, _). \<not> prefix (cache_key ns []) k) c, length (filter (\<lambda>(k, _). prefix (cache_key ns []) k) c))"

definition get_version :: "string \<Rightarrow> gov_cache \<Rightarrow> string option" where
  "get_version ns c = map_of c (cache_key ns ''_version'')"

definition set_version :: "string \<Rightarrow> string \<Rightarrow> gov_cache \<Rightarrow> gov_cache" where
  "set_version ns v c = AList.update (cache_key ns ''_version'') v c"

definition resolve_async ::
  "(resolved_constraints \<Rightarrow> string) \<Rightarrow> (string \<Rightarrow> resolved_constraints option) \<Rightarrow> bool \<Rightarrow> (string \<Rightarrow> string) \<Rightarrow> int
   \<Rightarrow> hypotheses \<Rightarrow> string \<Rightarrow> resolver \<times> gov_cache option \<Rightarrow> (resolver \<times> gov_cache option) \<times> resolved_constraints result" where
  "resolve_async encode decode expired digest now hs sy sc =
     (case sc of (s, cache) \<Rightarrow>
        (case (case cache of None \<Rightarrow> None | Some c \<Rightarrow> cache_get decode expired ''resolved_constraints'' sy c) of
           Some r \<Rightarrow> ((s, cache), Inr r)
         | None \<Rightarrow>
             (case resolve digest now hs sy s of
                (t, Inl e) \<Rightarrow> ((t, cache), Inl e)
              | (t, Inr r) \<Rightarrow> ((t, map_option (cache_set encode ''resolved_constraints'' sy r) cache), Inr r))))"

definition invalidate_cache :: "string \<Rightarrow> gov_cache option \<Rightarrow> gov_cache option" where
  "invalidate_cache sy cache = map_option (cache_delete ''resolved_constraints'' sy) cache"

definition invalidate_all_cache :: "gov_cache option \<Rightarrow> gov_cache option \<times> nat" where
  "invalidate_all_cache cache =
     (case cache of
        None \<Rightarrow> (None, 0)
      | Some c \<Rightarrow> (case invalidate_namespace ''resolved_constraints'' c of (c', n) \<Rightarrow> (Some c', n)))"

section \<open>When a constraint is active\<close>

lemma requirements_met_iff:
  "requirements_met hs dis ks \<longleftrightarrow> (\<forall>k \<in> set ks. \<exists>h. hyp_get k hs = Some h \<and> hyp_is_active h)"
  by (induction ks) (auto simp: hyp_is_active_def split: option.split)

lemma is_constraint_active_iff:
  "is_constraint_active hs c \<longleftrightarrow> (\<forall>k \<in> set (con_requires c). \<exists>h. hyp_get k hs = Some h \<and> hyp_is_active h)"
  by (auto simp: is_constraint_active_def requirements_met_iff)

text \<open>The flag \<open>disabled_if_falsified\<close> never matters.\<close>

lemma falsified_flag_ignored:
  "is_constraint_active hs (c\<lparr>con_disabled_if_falsified := b\<rparr>) = is_constraint_active hs c"
  by (simp add: is_constraint_active_iff)

section \<open>The merged values\<close>

lemma opt_values_set: "set (opt_values f cs) = {x. \<exists>c \<in> set cs. f c = Some x}"
  by (auto simp: opt_values_def split: option.splits)

lemma fold_restrictive:
  "restrictiveness m \<le> restrictiveness (fold (\<lambda>x best. if restrictiveness x > restrictiveness best then x else best) ms m)
   \<and> (\<forall>x \<in> set ms. restrictiveness x
        \<le> restrictiveness (fold (\<lambda>x best. if restrictiveness x > restrictiveness best then x else best) ms m))
   \<and> fold (\<lambda>x best. if restrictiveness x > restrictiveness best then x else best) ms m \<in> insert m (set ms)"
  by (induction ms arbitrary: m) (auto intro: order_trans less_imp_le simp: not_less)

lemma most_restrictive_spec:
  "\<exists>m. most_restrictive_stop_mode ms = stop_mode_value m
     \<and> (\<forall>x \<in> set ms. restrictiveness x \<le> restrictiveness m) \<and> (m = BASELINE \<or> m \<in> set ms)"
proof (cases ms)
  case Nil
  then show ?thesis by (intro exI [of _ BASELINE]) (simp add: most_restrictive_stop_mode_def)
next
  case (Cons a as)
  then show ?thesis using fold_restrictive [of a as]
    by (auto simp: most_restrictive_stop_mode_def)
qed

lemma float_product_snoc: "float_product (xs @ [x]) = fl (float_product xs * x)"
  by (simp add: float_product_def)

lemma float_product_ge_1: "(\<And>x. x \<in> set xs \<Longrightarrow> 1 \<le> x) \<Longrightarrow> 1 \<le> float_product xs"
proof (induction xs rule: rev_induct)
  case (snoc x xs)
  then have "1 * 1 \<le> float_product xs * x" by (intro mult_mono) auto
  then have "fl 1 \<le> fl (float_product xs * x)" by (intro fl_mono) simp
  then show ?case using fl_of_int [of 1] by (simp add: float_product_snoc)
qed (simp add: float_product_def)

lemma min_opt_spec:
  "min_opt xs = Some m \<longleftrightarrow> xs \<noteq> [] \<and> m \<in> set xs \<and> (\<forall>x \<in> set xs. m \<le> x)"
  by (auto simp: min_opt_def intro: Min_eqI)

text \<open>A field of the merged guardrails is the least of the values that are given.\<close>

lemma merged_cap:
  assumes "merge_guardrails gs = Some g"
  shows "gr_max_position_pct g = min_opt (opt_values gr_max_position_pct gs)"
    and "gr_max_gross_exposure_delta g = min_opt (opt_values gr_max_gross_exposure_delta gs)"
    and "gr_max_drawdown_addon g = min_opt (opt_values gr_max_drawdown_addon gs)"
  using assms by (auto simp: merge_guardrails_def Let_def min_opt_def split: if_splits)

lemma merge_guardrails_None: "merge_guardrails gs = None \<longleftrightarrow> gs = []"
  by (simp add: merge_guardrails_def Let_def)

text \<open>The constraints that a resolution has to respect.\<close>

definition active_for :: "hypotheses \<Rightarrow> string \<Rightarrow> constraint_registry \<Rightarrow> gov_constraint set" where
  "active_for hs sy reg =
     {c \<in> snd ` set (cr_constraints reg). applies_to_symbol sy c
        \<and> (\<forall>k \<in> set (con_requires c). \<exists>h. hyp_get k hs = Some h \<and> hyp_is_active h)}"

lemma set_active_constraints:
  "set (active_constraints hs (filter (applies_to_symbol sy) (map snd (cr_constraints reg)))) = active_for hs sy reg"
  by (auto simp: active_constraints_def is_constraint_active_iff active_for_def)

lemma resolve_loaded:
  assumes "nothing_to_load (rv_registry s)"
  shows "snd (resolve digest now hs sy s) = Inr (merge_constraints digest now sy
    (active_constraints hs (filter (applies_to_symbol sy) (map snd (cr_constraints (rv_registry s))))))"
  using assms by (simp add: resolve_def cr_filter_by_symbol_def with_loaded_def ensure_loaded_id Let_def)

lemma merged_stop_mode:
  "\<exists>m. rc_stop_mode (merge_constraints digest now sy A) = stop_mode_value m
     \<and> (\<forall>c \<in> set A. \<forall>x. ca_stop_mode (con_actions c) = Some x \<longrightarrow> restrictiveness x \<le> restrictiveness m)"
proof -
  obtain m where m: "rc_stop_mode (merge_constraints digest now sy A) = stop_mode_value m"
    and le: "\<forall>x \<in> set (opt_values (ca_stop_mode \<circ> con_actions) A). restrictiveness x \<le> restrictiveness m"
    using most_restrictive_spec [of "opt_values (ca_stop_mode \<circ> con_actions) A"] by (auto simp: merge_constraints_def)
  have "restrictiveness x \<le> restrictiveness m" if "c \<in> set A" "ca_stop_mode (con_actions c) = Some x" for c x
    using le that by (force simp: opt_values_set)
  with m show ?thesis by blast
qed

lemma merged_position_cap:
  assumes "c \<in> set A" "con_guardrails c = Some g" "gr_max_position_pct g = Some p"
  shows "\<exists>g' p'. rc_guardrails (merge_constraints digest now sy A) = Some g' \<and> gr_max_position_pct g' = Some p' \<and> p' \<le> p"
proof -
  let ?gs = "opt_values con_guardrails A"
  have g: "g \<in> set ?gs" using assms by (auto simp: opt_values_set)
  then obtain g' where g': "merge_guardrails ?gs = Some g'"
    using merge_guardrails_None [of ?gs] by (cases "merge_guardrails ?gs") auto
  have p: "p \<in> set (opt_values gr_max_position_pct ?gs)" using g assms(3) by (auto simp: opt_values_set)
  then obtain p' where p': "min_opt (opt_values gr_max_position_pct ?gs) = Some p'"
    by (cases "opt_values gr_max_position_pct ?gs") (auto simp: min_opt_def)
  with p have "p' \<le> p" by (simp add: min_opt_spec)
  with g' p' merged_cap(1) [OF g'] show ?thesis by (simp add: merge_constraints_def)
qed

lemma merged_veto:
  "rc_veto_downgrade_active (merge_constraints digest now sy A) \<longleftrightarrow> (\<exists>c \<in> set A. ca_veto_downgrade (con_actions c) = Some True)"
  by (auto simp: merge_constraints_def list_ex_iff opt_values_set)

lemma merged_risk_budget:
  "(\<And>c. c \<in> set A \<Longrightarrow> valid_constraint c) \<Longrightarrow> 1 \<le> rc_risk_budget_multiplier (merge_constraints digest now sy A)"
  unfolding merge_constraints_def
  by (simp, rule float_product_ge_1) (force simp: opt_values_set valid_constraint_def)


section \<open>Order of registration\<close>

lemma active_constraints_perm:
  assumes "mset cs = mset ds" and "distinct (map con_id cs)"
  shows "active_constraints hs cs = active_constraints hs ds"
proof -
  have inj: "inj_on (\<lambda>c. (con_priority c, con_id c)) (set (filter (is_constraint_active hs) cs))"
    using assms(2) by (auto simp: distinct_map inj_on_def)
  show ?thesis unfolding active_constraints_def
    by (rule sort_key_inj_key_eq [OF _ inj]) (simp_all add: assms(1))
qed

text \<open>C26. Two registries with the same constraints, registered or loaded in any order, resolve to the same
  result, with the same version and the same actions in the same order.\<close>

theorem resolve_order_independent:
  assumes "nothing_to_load (rv_registry s)" and "nothing_to_load (rv_registry t)"
    and "mset (map snd (cr_constraints (rv_registry s))) = mset (map snd (cr_constraints (rv_registry t)))"
    and "distinct (map con_id (map snd (cr_constraints (rv_registry s))))"
  shows "snd (resolve digest now hs sy s) = snd (resolve digest now hs sy t)"
proof -
  let ?f = "\<lambda>r. filter (applies_to_symbol sy) (map snd (cr_constraints r))"
  have "mset (?f (rv_registry s)) = mset (?f (rv_registry t))" using assms(3) by (simp only: mset_filter)
  moreover have "distinct (map con_id (?f (rv_registry s)))" using assms(4) by (simp only: distinct_map_filter)
  ultimately have "active_constraints hs (?f (rv_registry s)) = active_constraints hs (?f (rv_registry t))"
    by (rule active_constraints_perm)
  then show ?thesis using assms(1,2) by (simp only: resolve_loaded)
qed

section \<open>Audit and cache\<close>

lemma cache_hit_is_stale:
  assumes "cache_get decode expired ''resolved_constraints'' sy c = Some r"
  shows "resolve_async encode decode expired digest now hs sy (s, Some c) = ((s, Some c), Inr r)"
  using assms by (simp add: resolve_async_def)

lemma resolve_async_invalidated:
  "resolve_async encode decode expired digest now hs sy (s, invalidate_cache sy (Some c))
     = (case resolve digest now hs sy s of
          (t, Inl e) \<Rightarrow> ((t, invalidate_cache sy (Some c)), Inl e)
        | (t, Inr r) \<Rightarrow> ((t, Some (cache_set encode ''resolved_constraints'' sy r (cache_delete ''resolved_constraints'' sy c))), Inr r))"
  by (simp add: resolve_async_def invalidate_cache_def cache_get_def cache_delete_def delete_conv split: prod.split sum.split)

text \<open>Invalidating everything removes what invalidating one symbol removes, and the version too.\<close>

lemma namespace_prefix: "prefix (cache_key ns []) (cache_key ns k)"
  by (simp add: cache_key_def)

lemma map_of_invalidate_namespace:
  "map_of (fst (invalidate_namespace ns c)) k = (if prefix (cache_key ns []) k then None else map_of c k)"
  by (induction c) (auto simp: invalidate_namespace_def)

lemma invalidate_all_misses:
  "cache_get decode expired ''resolved_constraints'' sy (fst (invalidate_namespace ''resolved_constraints'' c)) = None
   \<and> get_version ''resolved_constraints'' (fst (invalidate_namespace ''resolved_constraints'' c)) = None"
  by (simp add: cache_get_def get_version_def map_of_invalidate_namespace namespace_prefix)

section \<open>Concrete runs\<close>

definition demo_constraint :: "string \<Rightarrow> stop_mode \<Rightarrow> gov_constraint" where
  "demo_constraint i m =
     \<lparr>con_id = i, con_title = i, con_symbols = [], con_strategies = [], con_requires = [], con_disabled_if_falsified = True,
      con_actions = \<lparr>ca_enable_strategy = None, ca_pool_bias_multiplier = None, ca_veto_downgrade = Some True,
        ca_risk_budget_multiplier = Some 2, ca_holding_extension_days = None, ca_add_position_cap_multiplier = None,
        ca_stop_mode = Some m\<rparr>,
      con_guardrails = Some \<lparr>gr_max_position_pct = Some (1 / 4), gr_max_gross_exposure_delta = None, gr_max_drawdown_addon = None\<rparr>,
      con_priority = 100\<rparr>"

definition demo_resolver :: "gov_constraint list \<Rightarrow> resolver" where
  "demo_resolver cs =
     \<lparr>rv_registry = \<lparr>cr_constraints = map (\<lambda>c. (con_id c, c)) cs, cr_loader = None, cr_loaded = True\<rparr>, rv_store = None\<rparr>"


theorem resolve_order_independent_witness:
  "snd (resolve (\<lambda>x. x) 0 [] ''SPY'' (demo_resolver [demo_constraint ''a'' WIDE, demo_constraint ''b'' BASELINE]))
     = snd (resolve (\<lambda>x. x) 0 [] ''SPY'' (demo_resolver [demo_constraint ''b'' BASELINE, demo_constraint ''a'' WIDE]))"
  by (rule resolve_order_independent)
    (simp_all add: demo_resolver_def demo_constraint_def nothing_to_load_def add_mset_commute)

end
