(* ===== verification/Governance_Monitoring.thy ===== *)
theory Governance_Monitoring
  imports Constraint_Resolver
begin

text \<open>
  Falsifier checks, governance alerts, the regime detector and the context given to strategies:
  governance/monitoring (metrics, falsifier, alerts, scheduler), regime/detector.py and context.py.
  A metric provider and an alert handler are callables of the application, so arguments here; a
  provider that raises is a left value and a handler answers whether it returned. Texts and the
  detail dictionaries of results and alerts are left out. Lemmas: a run of the scheduler checks
  every falsifier of every active hypothesis and raises exactly the alerts of the triggered ones;
  a regime is never milder under worse metrics; what the context holds when a part of it fails.
\<close>

section \<open>Metrics\<close>

type_synonym provider = "string option \<Rightarrow> double option result"
type_synonym metric_registry = "(string \<times> provider) list"

definition metric_register :: "string \<Rightarrow> provider \<Rightarrow> metric_registry \<Rightarrow> metric_registry" where
  "metric_register name p ms = AList.update name p ms"

definition metric_value :: "string \<Rightarrow> string option \<Rightarrow> metric_registry \<Rightarrow> double option" where
  "metric_value name window ms =
     (case map_of ms name of
        None \<Rightarrow> None
      | Some p \<Rightarrow> (case p window of Inl _ \<Rightarrow> None | Inr v \<Rightarrow> v))"

definition has_metric :: "string \<Rightarrow> metric_registry \<Rightarrow> bool" where
  "has_metric name ms \<longleftrightarrow> map_of ms name \<noteq> None"

section \<open>Falsifier checks\<close>

record check_result =
  ck_hypothesis_id :: string
  ck_falsifier_index :: nat
  ck_metric :: string
  ck_operator :: comparison_operator
  ck_threshold :: double
  ck_window :: string
  ck_metric_value :: "double option"
  ck_triggered :: bool
  ck_trigger_action :: trigger_action
  ck_checked_at :: int

fun compare :: "double \<Rightarrow> comparison_operator \<Rightarrow> double \<Rightarrow> bool" where
  "compare v LT t \<longleftrightarrow> v < t"
| "compare v LTE t \<longleftrightarrow> v \<le> t"
| "compare v GT t \<longleftrightarrow> v > t"
| "compare v GTE t \<longleftrightarrow> v \<ge> t"
| "compare v EQ t \<longleftrightarrow> v = t"

definition log_falsifier_check :: "int \<Rightarrow> check_result \<Rightarrow> gov_store option \<Rightarrow> gov_store option" where
  "log_falsifier_check now r store =
     map_option (gov_log now (if ck_triggered r then FALSIFIER_CHECK_TRIGGERED else FALSIFIER_CHECK_PASS)
       (Some (ck_hypothesis_id r)) None None) store"

definition evaluate_falsifier ::
  "int \<Rightarrow> metric_registry \<Rightarrow> string \<Rightarrow> falsifier \<Rightarrow> nat \<Rightarrow> gov_store option \<Rightarrow> gov_store option \<times> check_result" where
  "evaluate_falsifier now ms hid f i store =
     (let v = metric_value (fal_metric f) (Some (fal_window f)) ms;
          r = \<lparr>ck_hypothesis_id = hid, ck_falsifier_index = i, ck_metric = fal_metric f, ck_operator = fal_operator f,
               ck_threshold = fal_threshold f, ck_window = fal_window f, ck_metric_value = v,
               ck_triggered = (case v of None \<Rightarrow> False | Some x \<Rightarrow> compare x (fal_operator f) (fal_threshold f)),
               ck_trigger_action = fal_trigger f, ck_checked_at = now\<rparr>
      in if v = None then (store, r) else (log_falsifier_check now r store, r))"

text \<open>The loop over the enumerated falsifiers.\<close>

fun evaluate_falsifiers ::
  "int \<Rightarrow> metric_registry \<Rightarrow> string \<Rightarrow> nat \<Rightarrow> falsifier list \<Rightarrow> gov_store option \<Rightarrow> gov_store option \<times> check_result list" where
  "evaluate_falsifiers now ms hid i [] store = (store, [])"
| "evaluate_falsifiers now ms hid i (f # fs) store =
     (case evaluate_falsifier now ms hid f i store of
        (store1, r) \<Rightarrow> (case evaluate_falsifiers now ms hid (Suc i) fs store1 of (store2, rs) \<Rightarrow> (store2, r # rs)))"

definition check_hypothesis ::
  "int \<Rightarrow> metric_registry \<Rightarrow> hypotheses \<Rightarrow> string \<Rightarrow> gov_store option \<Rightarrow> gov_store option \<times> check_result list result" where
  "check_hypothesis now ms hs hid store =
     (case hyp_get hid hs of
        None \<Rightarrow> (store, Inl ValueError)
      | Some h \<Rightarrow> (case evaluate_falsifiers now ms hid 0 (hyp_falsifiers h) store of (store', rs) \<Rightarrow> (store', Inr rs)))"

text \<open>An error of one hypothesis is logged and the loop goes on.\<close>

fun check_each ::
  "int \<Rightarrow> metric_registry \<Rightarrow> hypotheses \<Rightarrow> hypothesis list \<Rightarrow> gov_store option \<Rightarrow> gov_store option \<times> check_result list" where
  "check_each now ms hs [] store = (store, [])"
| "check_each now ms hs (h # rest) store =
     (case check_hypothesis now ms hs (hyp_id h) store of
        (store1, Inl _) \<Rightarrow> check_each now ms hs rest store1
      | (store1, Inr rs) \<Rightarrow> (case check_each now ms hs rest store1 of (store2, rs') \<Rightarrow> (store2, rs @ rs')))"

definition check_all :: "int \<Rightarrow> metric_registry \<Rightarrow> hypotheses \<Rightarrow> gov_store option \<Rightarrow> gov_store option \<times> check_result list" where
  "check_all now ms hs store = check_each now ms hs (hyp_get_active hs) store"

section \<open>Alerts\<close>

datatype alert_severity = INFO | WARNING | CRITICAL

record gov_alert =
  al_id :: string
  al_severity :: alert_severity
  al_source :: string
  al_hypothesis_id :: "string option"
  al_falsifier_index :: nat
  al_metric :: string
  al_action :: trigger_action
  al_created_at :: int
  al_delivered :: bool

record alert_generator =
  ag_alerts :: "gov_alert list"
  ag_handlers :: "(gov_alert \<Rightarrow> bool) list"

definition alert_generator_init :: alert_generator where
  "alert_generator_init = \<lparr>ag_alerts = [], ag_handlers = []\<rparr>"

definition add_handler :: "(gov_alert \<Rightarrow> bool) \<Rightarrow> alert_generator \<Rightarrow> alert_generator" where
  "add_handler h g = g\<lparr>ag_handlers := ag_handlers g @ [h]\<rparr>"

text \<open>Every handler is called, in order; one that raises does not stop the others.\<close>

definition deliver :: "(gov_alert \<Rightarrow> bool) list \<Rightarrow> gov_alert \<Rightarrow> gov_alert" where
  "deliver handlers a =
     (if fold (\<lambda>h delivered. if h a then True else delivered) handlers False then a\<lparr>al_delivered := True\<rparr> else a)"

definition severity_of :: "trigger_action \<Rightarrow> alert_severity" where
  "severity_of act = (if act = SUNSET_ACTION then CRITICAL else WARNING)"

text \<open>The stored object is the one that is delivered.\<close>

definition generate_from_check :: "int \<Rightarrow> string \<Rightarrow> check_result \<Rightarrow> alert_generator \<Rightarrow> alert_generator \<times> gov_alert option" where
  "generate_from_check now uuid r g =
     (if \<not> ck_triggered r then (g, None)
      else let a = \<lparr>al_id = uuid, al_severity = severity_of (ck_trigger_action r), al_source = ''falsifier_checker'',
             al_hypothesis_id = Some (ck_hypothesis_id r), al_falsifier_index = ck_falsifier_index r,
             al_metric = ck_metric r, al_action = ck_trigger_action r, al_created_at = now, al_delivered = False\<rparr>;
             b = (if ag_handlers g \<noteq> [] then deliver (ag_handlers g) a else a)
           in (g\<lparr>ag_alerts := ag_alerts g @ [b]\<rparr>, Some b))"

definition get_alerts :: "alert_generator \<Rightarrow> gov_alert list" where
  "get_alerts g = ag_alerts g"

text \<open>The scheduler's run: the uuid of the n-th alert is an argument.\<close>

fun generate_alerts :: "int \<Rightarrow> (nat \<Rightarrow> string) \<Rightarrow> nat \<Rightarrow> check_result list \<Rightarrow> alert_generator \<Rightarrow> alert_generator" where
  "generate_alerts now uuid n [] g = g"
| "generate_alerts now uuid n (r # rs) g =
     (if ck_triggered r then generate_alerts now uuid (Suc n) rs (fst (generate_from_check now (uuid n) r g))
      else generate_alerts now uuid n rs g)"

definition run_checks ::
  "int \<Rightarrow> (nat \<Rightarrow> string) \<Rightarrow> metric_registry \<Rightarrow> hypotheses \<Rightarrow> gov_store option \<times> alert_generator
   \<Rightarrow> (gov_store option \<times> alert_generator) \<times> check_result list" where
  "run_checks now uuid ms hs = (\<lambda>(store, g).
     case check_all now ms hs store of
       (store', results) \<Rightarrow> ((store', generate_alerts now uuid 0 results g), results))"

section \<open>Regime\<close>

datatype regime_state = REGIME_NORMAL | REGIME_TRANSITION | REGIME_STRESS

fun regime_value :: "regime_state \<Rightarrow> string" where
  "regime_value REGIME_NORMAL = ''NORMAL''"
| "regime_value REGIME_TRANSITION = ''TRANSITION''"
| "regime_value REGIME_STRESS = ''STRESS''"

record regime_thresholds =
  rt_volatility_transition :: double
  rt_volatility_stress :: double
  rt_drawdown_transition :: double
  rt_drawdown_stress :: double

record regime_config =
  rg_thresholds :: regime_thresholds
  rg_pacing_multipliers :: "(string \<times> double) list"

record regime_snapshot =
  rs_state :: regime_state
  rs_previous_state :: "regime_state option"
  rs_changed_at :: int
  rs_volatility :: double
  rs_drawdown :: double
  rs_pacing_multiplier :: double

record regime_detector =
  rd_config :: regime_config
  rd_metrics :: metric_registry
  rd_previous_state :: "regime_state option"

definition regime_metric :: "metric_registry \<Rightarrow> string \<Rightarrow> double" where
  "regime_metric ms name = (case metric_value name None ms of None \<Rightarrow> 0 | Some v \<Rightarrow> v)"

definition regime_of :: "regime_thresholds \<Rightarrow> double \<Rightarrow> double \<Rightarrow> regime_state" where
  "regime_of t volatility drawdown =
     (if volatility \<ge> rt_volatility_stress t \<or> drawdown \<ge> rt_drawdown_stress t then REGIME_STRESS
      else if volatility \<ge> rt_volatility_transition t \<or> drawdown \<ge> rt_drawdown_transition t then REGIME_TRANSITION
      else REGIME_NORMAL)"

definition detect_regime :: "int \<Rightarrow> regime_detector \<Rightarrow> regime_detector \<times> regime_snapshot" where
  "detect_regime now d =
     (let volatility = regime_metric (rd_metrics d) ''portfolio_volatility'';
          drawdown = regime_metric (rd_metrics d) ''max_drawdown'';
          state = regime_of (rg_thresholds (rd_config d)) volatility drawdown;
          pacing = (case map_of (rg_pacing_multipliers (rd_config d)) (regime_value state) of None \<Rightarrow> 1 | Some m \<Rightarrow> m)
      in (d\<lparr>rd_previous_state := Some state\<rparr>,
          \<lparr>rs_state = state, rs_previous_state = rd_previous_state d, rs_changed_at = now, rs_volatility = volatility,
           rs_drawdown = drawdown, rs_pacing_multiplier = pacing\<rparr>))"

section \<open>Context for strategies\<close>

record gov_context =
  gx_active_pool :: "string list"
  gx_pacing_multiplier :: double
  gx_risk_budget_multiplier :: double
  gx_veto_downgrade_active :: bool
  gx_stop_mode :: string
  gx_pool_version :: string
  gx_regime_state :: string

text \<open>Getting the detector or the resolver may fail, and so may resolving; each failure keeps the
  defaults of its part. The current pool is its symbols and version.\<close>

definition build_governance_context ::
  "(string \<Rightarrow> string) \<Rightarrow> int \<Rightarrow> hypotheses \<Rightarrow> (string list \<times> string) option \<Rightarrow> string
   \<Rightarrow> regime_detector result \<times> resolver result \<Rightarrow> (regime_detector result \<times> resolver result) \<times> gov_context" where
  "build_governance_context digest now hs pool sy = (\<lambda>(detector, resolver).
     let (detector', regime, pacing) =
           (case detector of
              Inl e \<Rightarrow> (Inl e, ''NORMAL'', 1)
            | Inr d \<Rightarrow> (case detect_regime now d of (d', s) \<Rightarrow> (Inr d', regime_value (rs_state s), rs_pacing_multiplier s)));
         (resolver', risk, veto, stop) =
           (case resolver of
              Inl e \<Rightarrow> (Inl e, 1, False, ''baseline'')
            | Inr v \<Rightarrow> (case resolve digest now hs sy v of
                 (v', Inl e) \<Rightarrow> (Inr v', 1, False, ''baseline'')
               | (v', Inr r) \<Rightarrow> (Inr v', rc_risk_budget_multiplier r, rc_veto_downgrade_active r, rc_stop_mode r)));
         (active, version) = (case pool of None \<Rightarrow> ([], ''none'') | Some (syms, ver) \<Rightarrow> (syms, ver))
     in ((detector', resolver'),
         \<lparr>gx_active_pool = active, gx_pacing_multiplier = pacing, gx_risk_budget_multiplier = risk,
          gx_veto_downgrade_active = veto, gx_stop_mode = stop, gx_pool_version = version, gx_regime_state = regime\<rparr>))"

section \<open>The registry of hypotheses is keyed by id\<close>

definition keyed :: "hypotheses \<Rightarrow> bool" where
  "keyed hs \<longleftrightarrow> distinct (map fst hs) \<and> (\<forall>(k, h) \<in> set hs. k = hyp_id h)"

lemma keyed_get: "keyed hs \<Longrightarrow> h \<in> snd ` set hs \<Longrightarrow> hyp_get (hyp_id h) hs = Some h"
  by (auto simp: keyed_def hyp_get_def intro!: map_of_is_SomeI)

lemma in_update: "x \<in> set (AList.update k v d) \<Longrightarrow> x = (k, v) \<or> x \<in> set d"
  by (induction d) (auto split: if_splits)

lemma in_delete: "x \<in> set (AList.delete k d) \<Longrightarrow> x \<in> set d"
  by (induction d) (auto split: if_splits)

lemma keyed_update: "keyed hs \<Longrightarrow> keyed (AList.update (hyp_id h) h hs)"
  unfolding keyed_def by (auto simp: distinct_update dest!: in_update)

lemma keyed_register: "keyed hs \<Longrightarrow> keyed (fst (hyp_register h hs))"
  by (simp add: hyp_register_def dict_register_def keyed_update)

lemma keyed_unregister: "keyed hs \<Longrightarrow> keyed (fst (hyp_unregister k hs))"
  unfolding keyed_def hyp_unregister_def by (auto simp: distinct_delete dest: in_delete)

lemma keyed_reload: "keyed hs \<Longrightarrow> keyed (fst (hyp_reload loader hs))"
proof -
  have "keyed d \<Longrightarrow> keyed (fst (dict_register_all hyp_id err vs d))" for err vs d
  proof (induction vs arbitrary: d)
    case (Cons v vs)
    then show ?case using keyed_update [of d v] by (auto simp: dict_register_def)
  qed simp
  moreover have "keyed []" by (simp add: keyed_def)
  ultimately show "keyed hs \<Longrightarrow> ?thesis" by (simp add: hyp_reload_def split: option.split)
qed

section \<open>A run of the scheduler\<close>

definition check_of :: "check_result \<Rightarrow> string \<times> nat" where
  "check_of r = (ck_hypothesis_id r, ck_falsifier_index r)"

text \<open>What a result says of its falsifier.\<close>

definition checks :: "metric_registry \<Rightarrow> hypotheses \<Rightarrow> check_result \<Rightarrow> bool" where
  "checks ms hs r \<longleftrightarrow>
     (\<exists>h f. hyp_get (ck_hypothesis_id r) hs = Some h \<and> ck_falsifier_index r < length (hyp_falsifiers h)
        \<and> f = hyp_falsifiers h ! ck_falsifier_index r \<and> ck_trigger_action r = fal_trigger f
        \<and> (ck_triggered r \<longleftrightarrow> (\<exists>v. metric_value (fal_metric f) (Some (fal_window f)) ms = Some v
                                   \<and> compare v (fal_operator f) (fal_threshold f))))"

lemma evaluate_falsifier_result:
  "snd (evaluate_falsifier now ms hid f i store) = r \<Longrightarrow> check_of r = (hid, i) \<and> ck_trigger_action r = fal_trigger f
     \<and> (ck_triggered r \<longleftrightarrow> (\<exists>v. metric_value (fal_metric f) (Some (fal_window f)) ms = Some v
                                   \<and> compare v (fal_operator f) (fal_threshold f)))"
  by (cases "metric_value (fal_metric f) (Some (fal_window f)) ms") (auto simp: evaluate_falsifier_def Let_def check_of_def)

lemma evaluate_falsifiers_length: "length (snd (evaluate_falsifiers now ms hid i fs store)) = length fs"
  by (induction now ms hid i fs store rule: evaluate_falsifiers.induct) (auto split: prod.split prod.splits)

lemma evaluate_falsifiers_nth:
  "n < length fs \<Longrightarrow> \<exists>store'. snd (evaluate_falsifiers now ms hid i fs store) ! n
     = snd (evaluate_falsifier now ms hid (fs ! n) (i + n) store')"
proof (induction fs arbitrary: i n store)
  case (Cons f fs)
  obtain s1 r where e: "evaluate_falsifier now ms hid f i store = (s1, r)" by fastforce
  obtain s2 rs where es: "evaluate_falsifiers now ms hid (Suc i) fs s1 = (s2, rs)" by fastforce
  show ?case
  proof (cases n)
    case 0
    then show ?thesis using e es by (intro exI [of _ store]) simp
  next
    case (Suc m)
    then show ?thesis using Cons.IH [of m "Suc i" s1] Cons.prems e es by simp
  qed
qed simp

lemma check_hypothesis_results:
  assumes "hyp_get hid hs = Some h" and "check_hypothesis now ms hs hid store = (store', res)"
  shows "\<exists>rs. res = Inr rs \<and> map check_of rs = map (\<lambda>i. (hid, i)) [0..<length (hyp_falsifiers h)] \<and> (\<forall>r \<in> set rs. checks ms hs r)"
proof -
  let ?rs = "snd (evaluate_falsifiers now ms hid 0 (hyp_falsifiers h) store)"
  have res: "res = Inr ?rs" using assms by (auto simp: check_hypothesis_def split: prod.splits)
  have nth: "check_of (?rs ! n) = (hid, n) \<and> checks ms hs (?rs ! n)" if n: "n < length (hyp_falsifiers h)" for n
  proof -
    obtain st where "?rs ! n = snd (evaluate_falsifier now ms hid (hyp_falsifiers h ! n) n st)"
      using evaluate_falsifiers_nth [OF n, of now ms hid 0 store] by auto
    from evaluate_falsifier_result [OF this [symmetric]] n assms(1) show ?thesis
      by (auto simp: checks_def check_of_def)
  qed
  have "map check_of ?rs = map (\<lambda>i. (hid, i)) [0..<length (hyp_falsifiers h)]"
    by (rule nth_equalityI) (simp_all add: evaluate_falsifiers_length nth)
  moreover have "\<forall>r \<in> set ?rs. checks ms hs r"
    using nth by (auto simp: in_set_conv_nth evaluate_falsifiers_length)
  ultimately show ?thesis using res by blast
qed

lemma check_each_results:
  assumes "\<forall>h \<in> set xs. hyp_get (hyp_id h) hs = Some h" and "check_each now ms hs xs store = (store', rs)"
  shows "map check_of rs = concat (map (\<lambda>h. map (\<lambda>i. (hyp_id h, i)) [0..<length (hyp_falsifiers h)]) xs)
    \<and> (\<forall>r \<in> set rs. checks ms hs r)"
  using assms
proof (induction xs arbitrary: store store' rs)
  case (Cons h xs)
  obtain s1 res where c: "check_hypothesis now ms hs (hyp_id h) store = (s1, res)" by fastforce
  with check_hypothesis_results [OF _ c] Cons.prems(1) obtain r1 where r1: "res = Inr r1"
    "map check_of r1 = map (\<lambda>i. (hyp_id h, i)) [0..<length (hyp_falsifiers h)]" "\<forall>r \<in> set r1. checks ms hs r" by auto
  obtain s2 r2 where c2: "check_each now ms hs xs s1 = (s2, r2)" by fastforce
  have "rs = r1 @ r2" using Cons.prems(2) c r1(1) c2 by simp
  with r1 Cons.IH [OF _ c2] Cons.prems(1) show ?case by auto
qed simp

lemma hyp_get_active_keyed: "keyed hs \<Longrightarrow> h \<in> set (hyp_get_active hs) \<Longrightarrow> hyp_get (hyp_id h) hs = Some h"
  by (rule keyed_get) (auto simp: hyp_get_active_def hyp_filter_by_status_def)

definition alert_of :: "gov_alert \<Rightarrow> string option \<times> nat \<times> alert_severity" where
  "alert_of a = (al_hypothesis_id a, al_falsifier_index a, al_severity a)"

text \<open>An alert is marked as delivered when some handler returned.\<close>

definition delivery_ok :: "(gov_alert \<Rightarrow> bool) list \<Rightarrow> gov_alert \<Rightarrow> bool" where
  "delivery_ok hs a \<longleftrightarrow> (al_delivered a \<longleftrightarrow> (\<exists>h \<in> set hs. h (a\<lparr>al_delivered := False\<rparr>)))"

lemma deliver_flag: "fold (\<lambda>h delivered. if h a then True else delivered) hs b \<longleftrightarrow> b \<or> (\<exists>h \<in> set hs. h a)"
  by (induction hs arbitrary: b) auto

lemma deliver_ok: "\<not> al_delivered a \<Longrightarrow> delivery_ok hs (deliver hs a)"
proof -
  assume a: "\<not> al_delivered a"
  then have "a\<lparr>al_delivered := False\<rparr> = a" by (cases a) simp
  then have same: "(\<exists>h \<in> set hs. h (a\<lparr>al_delivered := False\<rparr>)) = (\<exists>h \<in> set hs. h a)" by (simp only:)
  show ?thesis
  proof (cases "\<exists>h \<in> set hs. h a")
    case True
    then have "deliver hs a = a\<lparr>al_delivered := True\<rparr>" by (simp only: deliver_def deliver_flag simp_thms if_True)
    with True same show ?thesis by (simp add: delivery_ok_def)
  next
    case False
    then have "deliver hs a = a" by (simp only: deliver_def deliver_flag simp_thms if_False)
    with a False same show ?thesis by (simp only: delivery_ok_def)
  qed
qed

lemma alert_of_deliver: "alert_of (deliver hs a) = alert_of a"
  by (simp add: alert_of_def deliver_def)

lemma generated:
  assumes "ck_triggered r"
  shows "\<exists>a. fst (generate_from_check now uuid r g) = g\<lparr>ag_alerts := ag_alerts g @ [a]\<rparr>
    \<and> alert_of a = (Some (ck_hypothesis_id r), ck_falsifier_index r, severity_of (ck_trigger_action r)) \<and> delivery_ok (ag_handlers g) a"
proof -
  let ?a = "\<lparr>al_id = uuid, al_severity = severity_of (ck_trigger_action r), al_source = ''falsifier_checker'',
    al_hypothesis_id = Some (ck_hypothesis_id r), al_falsifier_index = ck_falsifier_index r,
    al_metric = ck_metric r, al_action = ck_trigger_action r, al_created_at = now, al_delivered = False\<rparr>"
  let ?b = "if ag_handlers g \<noteq> [] then deliver (ag_handlers g) ?a else ?a"
  have "fst (generate_from_check now uuid r g) = g\<lparr>ag_alerts := ag_alerts g @ [?b]\<rparr>"
    using assms by (simp only: generate_from_check_def Let_def not_True_eq_False if_False fst_conv)
  moreover have "alert_of ?b = alert_of ?a" by (simp add: alert_of_deliver)
  moreover have "alert_of ?a = (Some (ck_hypothesis_id r), ck_falsifier_index r, severity_of (ck_trigger_action r))"
    by (simp add: alert_of_def)
  moreover have "delivery_ok (ag_handlers g) ?b"
    using deliver_ok [of ?a "ag_handlers g"] by (cases "ag_handlers g = []") (simp_all add: delivery_ok_def)
  ultimately show ?thesis by metis
qed

lemma generate_alerts_alerts:
  "\<exists>as. generate_alerts now uuid n rs g = g\<lparr>ag_alerts := ag_alerts g @ as\<rparr>
     \<and> map alert_of as = map (\<lambda>r. (Some (ck_hypothesis_id r), ck_falsifier_index r, severity_of (ck_trigger_action r))) (filter ck_triggered rs)
     \<and> (\<forall>a \<in> set as. delivery_ok (ag_handlers g) a)"
proof (induction rs arbitrary: n g)
  case Nil
  then show ?case by (intro exI [of _ "[]"]) simp
next
  case (Cons r rs)
  show ?case
  proof (cases "ck_triggered r")
    case True
    obtain a where a: "fst (generate_from_check now (uuid n) r g) = g\<lparr>ag_alerts := ag_alerts g @ [a]\<rparr>"
      "alert_of a = (Some (ck_hypothesis_id r), ck_falsifier_index r, severity_of (ck_trigger_action r))"
      "delivery_ok (ag_handlers g) a" using generated [OF True] by blast
    obtain as where as: "generate_alerts now uuid (Suc n) rs (g\<lparr>ag_alerts := ag_alerts g @ [a]\<rparr>)
        = g\<lparr>ag_alerts := (ag_alerts g @ [a]) @ as\<rparr>"
      "map alert_of as = map (\<lambda>r. (Some (ck_hypothesis_id r), ck_falsifier_index r, severity_of (ck_trigger_action r))) (filter ck_triggered rs)"
      "\<forall>b \<in> set as. delivery_ok (ag_handlers g) b"
      using Cons.IH [of "Suc n" "g\<lparr>ag_alerts := ag_alerts g @ [a]\<rparr>"] by auto
    show ?thesis using a as True by (intro exI [of _ "a # as"]) simp
  next
    case False
    then show ?thesis using Cons.IH [of n g] by simp
  qed
qed

text \<open>A run of the scheduler evaluates every falsifier of every active hypothesis exactly once, in
  order; a falsifier triggers exactly when its metric has a value that meets its condition; and the
  run raises exactly one alert per triggered falsifier, critical for a sunset and a warning for a
  review, marked as delivered exactly when some handler returned.\<close>

theorem run_checks_alerts:
  assumes "keyed hs"
  shows "case run_checks now uuid ms hs (store, g) of ((store', g'), results) \<Rightarrow>
    map check_of results = concat (map (\<lambda>h. map (\<lambda>i. (hyp_id h, i)) [0..<length (hyp_falsifiers h)]) (hyp_get_active hs))
    \<and> (\<forall>r \<in> set results. checks ms hs r)
    \<and> (\<exists>as. ag_alerts g' = ag_alerts g @ as
         \<and> map alert_of as = map (\<lambda>r. (Some (ck_hypothesis_id r), ck_falsifier_index r, severity_of (ck_trigger_action r)))
             (filter ck_triggered results)
         \<and> (\<forall>a \<in> set as. delivery_ok (ag_handlers g) a))"
proof -
  obtain store' rs where c: "check_all now ms hs store = (store', rs)" by fastforce
  obtain as where as: "generate_alerts now uuid 0 rs g = g\<lparr>ag_alerts := ag_alerts g @ as\<rparr>"
    "map alert_of as = map (\<lambda>r. (Some (ck_hypothesis_id r), ck_falsifier_index r, severity_of (ck_trigger_action r))) (filter ck_triggered rs)"
    "\<forall>a \<in> set as. delivery_ok (ag_handlers g) a" using generate_alerts_alerts by blast
  have active: "\<forall>h \<in> set (hyp_get_active hs). hyp_get (hyp_id h) hs = Some h"
    using hyp_get_active_keyed [OF assms] by blast
  show ?thesis using check_each_results [OF active c [unfolded check_all_def]] as by (simp add: run_checks_def c)
qed

section \<open>Regimes\<close>

fun regime_rank :: "regime_state \<Rightarrow> nat" where
  "regime_rank REGIME_NORMAL = 0"
| "regime_rank REGIME_TRANSITION = 1"
| "regime_rank REGIME_STRESS = 2"

text \<open>A detection never finds a milder regime under worse metrics, whatever the thresholds and the
  previous state.\<close>

lemma regime_of_mono: "v \<le> v' \<Longrightarrow> d \<le> d' \<Longrightarrow> regime_rank (regime_of t v d) \<le> regime_rank (regime_of t v' d')"
  by (auto simp: regime_of_def)

lemma detect_regime_mono:
  assumes "rd_config d' = rd_config d"
    and "regime_metric (rd_metrics d) ''portfolio_volatility'' \<le> regime_metric (rd_metrics d') ''portfolio_volatility''"
    and "regime_metric (rd_metrics d) ''max_drawdown'' \<le> regime_metric (rd_metrics d') ''max_drawdown''"
  shows "regime_rank (rs_state (snd (detect_regime now d))) \<le> regime_rank (rs_state (snd (detect_regime now' d')))"
  using assms by (simp add: detect_regime_def Let_def regime_of_mono)

lemma detect_regime_records:
  "rd_previous_state (fst (detect_regime now d)) = Some (rs_state (snd (detect_regime now d)))"
  by (simp add: detect_regime_def Let_def)

text \<open>A missing or failing metric counts as zero: with positive thresholds and no data the regime is normal.\<close>

lemma regime_fails_open:
  assumes "rd_metrics d = []" and "0 < rt_volatility_transition (rg_thresholds (rd_config d))"
    and "0 < rt_volatility_stress (rg_thresholds (rd_config d))" and "0 < rt_drawdown_transition (rg_thresholds (rd_config d))"
    and "0 < rt_drawdown_stress (rg_thresholds (rd_config d))"
  shows "rs_state (snd (detect_regime now d)) = REGIME_NORMAL"
  using assms by (simp add: detect_regime_def Let_def regime_of_def regime_metric_def metric_value_def)

section \<open>Context\<close>

text \<open>A resolver that cannot load its constraints leaves the strategy with no constraint at all.\<close>

lemma context_fails_open:
  assumes "snd (resolve digest now hs sy v) = Inl e"
  shows "gx_veto_downgrade_active (snd (build_governance_context digest now hs pool sy (d, Inr v))) = False
    \<and> gx_stop_mode (snd (build_governance_context digest now hs pool sy (d, Inr v))) = ''baseline''"
  using assms by (cases "resolve digest now hs sy v") (simp add: build_governance_context_def Let_def split: sum.split prod.split)

lemma context_of_resolution:
  assumes "snd (resolve digest now hs sy v) = Inr r"
  shows "gx_veto_downgrade_active (snd (build_governance_context digest now hs pool sy (d, Inr v))) = rc_veto_downgrade_active r
    \<and> gx_stop_mode (snd (build_governance_context digest now hs pool sy (d, Inr v))) = rc_stop_mode r
    \<and> gx_risk_budget_multiplier (snd (build_governance_context digest now hs pool sy (d, Inr v))) = rc_risk_budget_multiplier r"
  using assms by (cases "resolve digest now hs sy v") (simp add: build_governance_context_def Let_def split: sum.split prod.split)

section \<open>A concrete run\<close>

definition demo_hypothesis :: hypothesis where
  "demo_hypothesis =
     \<lparr>hyp_id = ''h1'', hyp_title = ''t'', hyp_statement = ''s'', hyp_scope = \<lparr>sc_symbols = [], sc_sectors = []\<rparr>, hyp_owner = ''human'',
      hyp_status = ACTIVE, hyp_review_cycle = ''30d'', hyp_created_at = 0, hyp_sources = [], hyp_notes = [],
      hyp_falsifiers = [\<lparr>fal_metric = ''ic'', fal_operator = LT, fal_threshold = 0, fal_window = ''6m'', fal_trigger = SUNSET_ACTION\<rparr>],
      hyp_linked_constraints = []\<rparr>"

theorem run_checks_alerts_witness:
  "\<exists>a. ag_alerts (snd (fst (run_checks 0 (\<lambda>_. ''u'') [(''ic'', \<lambda>_. Inr (Some (- 1)))] [(''h1'', demo_hypothesis)] (None, alert_generator_init)))) = [a]
     \<and> alert_of a = (Some ''h1'', 0, CRITICAL)"
proof -
  let ?ms = "[(''ic'', \<lambda>_. Inr (Some (- 1)))] :: metric_registry" and ?hs = "[(''h1'', demo_hypothesis)]"
  have k: "keyed ?hs" by (simp add: keyed_def demo_hypothesis_def)
  obtain store' g' rs where run: "run_checks 0 (\<lambda>_. ''u'') ?ms ?hs (None, alert_generator_init) = ((store', g'), rs)"
    by (metis prod.exhaust)
  have act: "hyp_get_active ?hs = [demo_hypothesis]"
    by (simp add: hyp_get_active_def hyp_filter_by_status_def demo_hypothesis_def)
  have fields: "hyp_id demo_hypothesis = ''h1''" "length (hyp_falsifiers demo_hypothesis) = 1" "ag_alerts alert_generator_init = []"
    by (simp_all add: demo_hypothesis_def alert_generator_init_def)
  from run_checks_alerts [OF k, where now = 0 and uuid = "\<lambda>_. ''u''" and ms = ?ms and store = None and g = alert_generator_init] obtain as where
    as: "map check_of rs = [(''h1'', 0)]" "\<forall>r \<in> set rs. checks ?ms ?hs r" "ag_alerts g' = as"
      "map alert_of as = map (\<lambda>r. (Some (ck_hypothesis_id r), ck_falsifier_index r, severity_of (ck_trigger_action r))) (filter ck_triggered rs)"
    unfolding run act by (auto simp: fields)
  then obtain r where r: "rs = [r]" "ck_hypothesis_id r = ''h1''" "ck_falsifier_index r = 0"
    by (auto simp: check_of_def)
  have "ck_triggered r \<and> ck_trigger_action r = SUNSET_ACTION"
    using as(2) r by (simp add: checks_def hyp_get_def demo_hypothesis_def metric_value_def)
  then show ?thesis using as(3,4) r run by (auto simp: severity_of_def)
qed

end
