(* ===== verification/Alerts.thy ===== *)
theory Alerts
  imports Numerics Json Iso_Time
begin

text \<open>
  Alerts as values: the models and sanitising of alerts/models.py, the factory with fingerprints,
  deduplication keys and validation (alerts/factory.py, alerts/config.py), and routing
  (alerts/routing.py). An instant is a count of microseconds since 1970 with its time zone; the
  text of a float and a random UUID are arguments. Lemmas: sanitised details are bounded in size,
  deduplication keys and windows, destinations are unique and allowed by the severity.
\<close>

section \<open>Models\<close>

datatype alert_type =
    ORDER_REJECTED | ORDER_FILLED | POSITION_LIMIT_HIT | DAILY_LOSS_LIMIT | KILL_SWITCH_ACTIVATED
  | COMPONENT_UNHEALTHY | COMPONENT_RECOVERED | DB_WRITE_FAIL | STORAGE_THRESHOLD | ALERT_DELIVERY_FAILED
  | OPTION_EXPIRING

fun alert_type_value :: "alert_type \<Rightarrow> string" where
  "alert_type_value ORDER_REJECTED = ''order_rejected''"
| "alert_type_value ORDER_FILLED = ''order_filled''"
| "alert_type_value POSITION_LIMIT_HIT = ''position_limit_hit''"
| "alert_type_value DAILY_LOSS_LIMIT = ''daily_loss_limit''"
| "alert_type_value KILL_SWITCH_ACTIVATED = ''kill_switch_activated''"
| "alert_type_value COMPONENT_UNHEALTHY = ''component_unhealthy''"
| "alert_type_value COMPONENT_RECOVERED = ''component_recovered''"
| "alert_type_value DB_WRITE_FAIL = ''db_write_fail''"
| "alert_type_value STORAGE_THRESHOLD = ''storage_threshold''"
| "alert_type_value ALERT_DELIVERY_FAILED = ''alert_delivery_failed''"
| "alert_type_value OPTION_EXPIRING = ''option_expiring''"

datatype sev = SEV1 | SEV2 | SEV3

definition recovery_types :: "alert_type set" where
  "recovery_types = {COMPONENT_RECOVERED}"

record entity_ref =
  er_account_id :: "string option"
  er_symbol :: "string option"
  er_strategy_id :: "string option"
  er_run_id :: "string option"

text \<open>A JSON scalar; a float is the text Python writes for it.\<close>

datatype scalar = SNull | SBool bool | SInt int | SFloat string | SStr string

type_synonym details = "(string \<times> scalar) list"

text \<open>The values a caller may put into the details. \<open>PyOther\<close> is any other object with its text.\<close>

datatype py_value =
    PyScalar scalar
  | PyDecimal string
  | PyDatetime datetime
  | PyUuid string
  | PyException string string
  | PyOther string

datatype timezone = UTC | Zone int

record py_time =
  pt_micros :: int
  pt_zone :: "timezone option"

record alert =
  alert_id :: string
  alert_type :: alert_type
  alert_severity :: sev
  alert_timestamp :: py_time
  alert_fingerprint :: string
  alert_entity_ref :: "entity_ref option"
  alert_summary :: string
  alert_details :: details

section \<open>Details\<close>

fun to_json_safe :: "py_value \<Rightarrow> scalar" where
  "to_json_safe (PyScalar x) = x"
| "to_json_safe (PyDecimal t) = SStr t"
| "to_json_safe (PyDatetime d) = SStr (isoformat d)"
| "to_json_safe (PyUuid t) = SStr t"
| "to_json_safe (PyException name msg) = SStr (name @ '': '' @ msg)"
| "to_json_safe (PyOther t) = SStr t"

text \<open>\<open>str\<close> of a scalar and of a value, as in an f-string.\<close>

fun str_scalar :: "scalar \<Rightarrow> string" where
  "str_scalar SNull = ''None''"
| "str_scalar (SBool b) = (if b then ''True'' else ''False'')"
| "str_scalar (SInt n) = show_int n"
| "str_scalar (SFloat t) = t"
| "str_scalar (SStr t) = t"

fun str_value :: "py_value \<Rightarrow> string" where
  "str_value (PyScalar x) = str_scalar x"
| "str_value (PyDecimal t) = t"
| "str_value (PyDatetime d) = map (\<lambda>c. if c = CHR ''T'' then CHR '' '' else c) (isoformat d)"
| "str_value (PyUuid t) = t"
| "str_value (PyException name msg) = msg"
| "str_value (PyOther t) = t"

fun dump_scalar :: "scalar \<Rightarrow> string" where
  "dump_scalar SNull = ''null''"
| "dump_scalar (SBool b) = (if b then ''true'' else ''false'')"
| "dump_scalar (SInt n) = show_int n"
| "dump_scalar (SFloat t) = t"
| "dump_scalar (SStr t) = dump_str t"

definition dump_details :: "details \<Rightarrow> string" where
  "dump_details d = ''{'' @ join '', '' (map (\<lambda>(k, v). dump_str k @ '': '' @ dump_scalar v) d) @ ''}''"

text \<open>The text is ASCII, so its bytes are its characters.\<close>

definition check_size :: "details \<Rightarrow> nat" where
  "check_size d = length (dump_details d)"

definition max_details_bytes :: nat where "max_details_bytes = 8192"
definition max_string_value_length :: nat where "max_string_value_length = 512"
definition max_keys :: nat where "max_keys = 20"

definition truncate_value :: "scalar \<Rightarrow> scalar" where
  "truncate_value v =
     (case v of
        SStr t \<Rightarrow> if length t > max_string_value_length then SStr (take max_string_value_length t @ ''...[truncated]'') else v
      | _ \<Rightarrow> v)"

definition details_too_large :: details where
  "details_too_large = [(''_truncated'', SBool True), (''_error'', SStr ''details too large'')]"

definition sanitize_details :: "nat \<Rightarrow> (string \<times> py_value) list \<Rightarrow> details" where
  "sanitize_details max_size details =
     (if details = [] then []
      else let all = map (map_prod id to_json_safe) details
           in if check_size all \<le> max_size then all
              else let few = AList.update ''_truncated'' (SBool True) (take max_keys all)
                   in if check_size few \<le> max_size then few
                      else let short = map (map_prod id truncate_value) few
                           in if check_size short \<le> max_size then short else details_too_large)"

section \<open>Factory\<close>

datatype dedupe_strategy = WINDOWED_10M | PERMANENT_PER_THRESHOLD

definition dedupe_strategies :: "(alert_type \<times> dedupe_strategy) list" where
  "dedupe_strategies = [(OPTION_EXPIRING, PERMANENT_PER_THRESHOLD)]"

definition get_dedupe_strategy :: "alert_type \<Rightarrow> dedupe_strategy" where
  "get_dedupe_strategy t = (case map_of dedupe_strategies t of None \<Rightarrow> WINDOWED_10M | Some s \<Rightarrow> s)"

definition cooldown_window_minutes :: int where "cooldown_window_minutes = 10"

definition normalize_timestamp :: "int \<Rightarrow> py_time option \<Rightarrow> py_time" where
  "normalize_timestamp now t =
     (case t of
        None \<Rightarrow> \<lparr>pt_micros = now, pt_zone = Some UTC\<rparr>
      | Some d \<Rightarrow>
          (if pt_zone d = None then d\<lparr>pt_zone := Some UTC\<rparr>
           else if pt_zone d = Some UTC then d
           else d\<lparr>pt_zone := Some UTC\<rparr>))"

definition build_entity_ref ::
  "string option \<Rightarrow> string option \<Rightarrow> string option \<Rightarrow> string option \<Rightarrow> entity_ref option" where
  "build_entity_ref acc sy strat run =
     (if acc = None \<and> sy = None \<and> strat = None \<and> run = None then None
      else Some \<lparr>er_account_id = acc, er_symbol = sy, er_strategy_id = strat, er_run_id = run\<rparr>)"

text \<open>\<open>x or ''\<close>.\<close>

definition or_empty :: "string option \<Rightarrow> string" where
  "or_empty x = (case x of None \<Rightarrow> [] | Some s \<Rightarrow> s)"

text \<open>\<open>details.get(k)\<close>: a stored None counts as missing.\<close>

definition get_value :: "string \<Rightarrow> (string \<times> py_value) list option \<Rightarrow> py_value option" where
  "get_value k details =
     (case details of
        None \<Rightarrow> None
      | Some d \<Rightarrow> (case map_of d k of Some (PyScalar SNull) \<Rightarrow> None | x \<Rightarrow> x))"

definition build_fingerprint ::
  "alert_type \<Rightarrow> string option \<Rightarrow> string option \<Rightarrow> string option \<Rightarrow> (string \<times> py_value) list option \<Rightarrow> string result" where
  "build_fingerprint t acc sy strat details =
     (if t = OPTION_EXPIRING
      then (case get_value ''position_id'' details of
              None \<Rightarrow> Inl ValueError
            | Some p \<Rightarrow> Inr (alert_type_value t @ '':'' @ or_empty acc @ '':'' @ str_value p))
      else Inr (alert_type_value t @ '':'' @ or_empty acc @ '':'' @ or_empty sy @ '':'' @ or_empty strat))"

definition truncate_summary :: "string \<Rightarrow> string" where
  "truncate_summary s = (if length s \<le> 255 then s else take 252 s @ ''...'')"

record alert_request =
  aq_type :: alert_type
  aq_severity :: sev
  aq_summary :: string
  aq_alert_id :: "string option"
  aq_timestamp :: "py_time option"
  aq_account_id :: "string option"
  aq_symbol :: "string option"
  aq_strategy_id :: "string option"
  aq_run_id :: "string option"
  aq_details :: "(string \<times> py_value) list option"

definition create_alert :: "string \<Rightarrow> int \<Rightarrow> alert_request \<Rightarrow> alert result" where
  "create_alert uuid now r =
     res_bind (build_fingerprint (aq_type r) (aq_account_id r) (aq_symbol r) (aq_strategy_id r) (aq_details r))
       (\<lambda>fp. Inr \<lparr>alert_id = (case aq_alert_id r of None \<Rightarrow> uuid | Some i \<Rightarrow> i), alert_type = aq_type r,
          alert_severity = aq_severity r, alert_timestamp = normalize_timestamp now (aq_timestamp r), alert_fingerprint = fp,
          alert_entity_ref = build_entity_ref (aq_account_id r) (aq_symbol r) (aq_strategy_id r) (aq_run_id r),
          alert_summary = truncate_summary (aq_summary r),
          alert_details = (case aq_details r of None \<Rightarrow> [] | Some d \<Rightarrow> sanitize_details max_details_bytes d)\<rparr>)"

text \<open>\<open>int(timestamp())\<close>: the seconds are a float, cut toward zero; \<open>//\<close> is floor division.\<close>

definition timestamp_seconds :: "py_time \<Rightarrow> int" where
  "timestamp_seconds t = trunc_int (fl (of_int (pt_micros t) / 1000000))"

definition bucket_of :: "py_time \<Rightarrow> int" where
  "bucket_of t = timestamp_seconds t div (cooldown_window_minutes * 60)"

definition compute_dedupe_key :: "alert \<Rightarrow> string result" where
  "compute_dedupe_key a =
     (if alert_type a \<in> recovery_types then Inr (alert_fingerprint a @ '':recovery:'' @ alert_id a)
      else if get_dedupe_strategy (alert_type a) = PERMANENT_PER_THRESHOLD
      then (case map_of (alert_details a) ''threshold_days'' of
              None \<Rightarrow> Inl ValueError
            | Some SNull \<Rightarrow> Inl ValueError
            | Some v \<Rightarrow> Inr (alert_fingerprint a @ '':threshold_'' @ str_scalar v @ '':permanent''))
      else Inr (alert_fingerprint a @ '':'' @ show_int (bucket_of (alert_timestamp a))))"

definition validate_alert :: "alert \<Rightarrow> unit result" where
  "validate_alert a =
     (if pt_zone (alert_timestamp a) = None then Inl ValueError
      else if pt_zone (alert_timestamp a) \<noteq> Some UTC then Inl ValueError
      else if length (alert_summary a) > 255 then Inl ValueError
      else Inr ())"

section \<open>Routing\<close>

definition destination_env_map :: "(string \<times> string) list" where
  "destination_env_map =
     [(''email:default'', ''ALERT_EMAIL_DEFAULT''), (''email:risk'', ''ALERT_EMAIL_RISK''), (''email:ops'', ''ALERT_EMAIL_OPS''),
      (''webhook:default'', ''ALERT_WEBHOOK_DEFAULT''), (''webhook:wecom'', ''ALERT_WEBHOOK_WECOM'')]"

record routing_config =
  severity_channels :: "(sev \<times> string list) list"
  type_recipients :: "(alert_type \<times> string list) list"
  global_recipients :: "string list"

definition default_routing :: routing_config where
  "default_routing =
     \<lparr>severity_channels = [(SEV1, [''email'', ''webhook'']), (SEV2, [''webhook'']), (SEV3, [])],
      type_recipients = [(DAILY_LOSS_LIMIT, [''email:risk'']), (KILL_SWITCH_ACTIVATED, [''email:ops'', ''email:risk'']),
        (POSITION_LIMIT_HIT, [''email:risk''])],
      global_recipients = [''email:default'', ''webhook:default'']\<rparr>"

definition get_channels_for_severity :: "routing_config \<Rightarrow> sev \<Rightarrow> string list" where
  "get_channels_for_severity cfg s = (case map_of (severity_channels cfg) s of None \<Rightarrow> [] | Some cs \<Rightarrow> cs)"

definition resolve_destination :: "(string \<Rightarrow> string option) \<Rightarrow> string \<Rightarrow> string option" where
  "resolve_destination getenv key = (case map_of destination_env_map key of None \<Rightarrow> None | Some var \<Rightarrow> getenv var)"

definition channel_type_of :: "string \<Rightarrow> string" where
  "channel_type_of key = takeWhile (\<lambda>c. c \<noteq> CHR '':'') key"

text \<open>One round of the loop; the set of seen destinations is the set of those in the result.\<close>

definition add_destination ::
  "(string \<Rightarrow> string option) \<Rightarrow> string list \<Rightarrow> string \<Rightarrow> (string \<times> string) list \<Rightarrow> (string \<times> string) list" where
  "add_destination getenv enabled key result =
     (if channel_type_of key \<notin> set enabled then result
      else (case resolve_destination getenv key of
              None \<Rightarrow> result
            | Some addr \<Rightarrow> if (channel_type_of key, addr) \<in> set result then result else result @ [(channel_type_of key, addr)]))"

definition get_destinations_for_alert ::
  "(string \<Rightarrow> string option) \<Rightarrow> routing_config option \<Rightarrow> alert \<Rightarrow> (string \<times> string) list" where
  "get_destinations_for_alert getenv config a =
     (let cfg = (case config of None \<Rightarrow> default_routing | Some c \<Rightarrow> c);
          enabled = get_channels_for_severity cfg (alert_severity a)
      in if enabled = [] then []
         else fold (add_destination getenv enabled)
           ((case map_of (type_recipients cfg) (alert_type a) of None \<Rightarrow> [] | Some ks \<Rightarrow> ks) @ global_recipients cfg) [])"

section \<open>Sizes and keys\<close>

lemma sanitize_bound: "51 \<le> max_size \<Longrightarrow> check_size (sanitize_details max_size details) \<le> max_size"
proof -
  have "check_size [] = 2" by (simp add: check_size_def dump_details_def)
  moreover have "check_size details_too_large = 51"
    by (simp add: check_size_def dump_details_def details_too_large_def dump_str_def escape_char_def)
  ultimately show "51 \<le> max_size \<Longrightarrow> ?thesis" by (simp add: sanitize_details_def Let_def)
qed

lemma normalized_zone: "pt_zone (normalize_timestamp now t) = Some UTC"
  by (auto simp: normalize_timestamp_def split: option.split)

lemma truncated_length: "length (truncate_summary s) \<le> 255"
  by (simp add: truncate_summary_def)

lemma created_alert_valid: "create_alert uuid now r = Inr a \<Longrightarrow> validate_alert a = Inr ()"
  using normalized_zone [of now "aq_timestamp r"] truncated_length [of "aq_summary r"]
  by (auto simp: create_alert_def validate_alert_def res_bind_eq_Inr)

lemma created_details_bounded: "create_alert uuid now r = Inr a \<Longrightarrow> check_size (alert_details a) \<le> max_details_bytes"
proof -
  have "check_size [] \<le> max_details_bytes" "51 \<le> max_details_bytes"
    by (simp_all add: check_size_def dump_details_def max_details_bytes_def)
  then show "create_alert uuid now r = Inr a \<Longrightarrow> ?thesis"
    by (auto simp: create_alert_def res_bind_eq_Inr sanitize_bound split: option.split)
qed

lemma recovery_key_iff:
  assumes "alert_type a \<in> recovery_types"
  shows "compute_dedupe_key a = Inr (alert_fingerprint a @ '':recovery:'' @ alert_id a)"
  using assms by (simp add: compute_dedupe_key_def)

section \<open>Destinations\<close>

lemma add_destination_distinct: "distinct ds \<Longrightarrow> distinct (add_destination getenv enabled key ds)"
  by (auto simp: add_destination_def split: option.split)

lemma fold_add_distinct: "distinct ds \<Longrightarrow> distinct (fold (add_destination getenv enabled) ks ds)"
  by (induction ks arbitrary: ds) (auto simp: add_destination_distinct)

lemma fold_add_set:
  "set (fold (add_destination getenv enabled) ks ds) = set ds \<union>
     {(c, addr). \<exists>k \<in> set ks. c = channel_type_of k \<and> c \<in> set enabled \<and> resolve_destination getenv k = Some addr}"
  by (induction ks arbitrary: ds) (auto simp: add_destination_def split: option.splits)

lemma destinations_spec:
  "distinct (get_destinations_for_alert getenv (Some cfg) a)
   \<and> set (get_destinations_for_alert getenv (Some cfg) a) =
       {(c, addr). \<exists>k \<in> set ((case map_of (type_recipients cfg) (alert_type a) of None \<Rightarrow> [] | Some ks \<Rightarrow> ks) @ global_recipients cfg).
          c = channel_type_of k \<and> c \<in> set (get_channels_for_severity cfg (alert_severity a)) \<and> resolve_destination getenv k = Some addr}"
  by (auto simp: get_destinations_for_alert_def Let_def fold_add_distinct fold_add_set)

text \<open>With the default configuration information alerts go nowhere and warnings only to the webhook.\<close>

lemma default_destinations:
  "alert_severity a = SEV3 \<Longrightarrow> get_destinations_for_alert getenv None a = []"
  "alert_severity a = SEV2 \<Longrightarrow> (c, addr) \<in> set (get_destinations_for_alert getenv None a) \<Longrightarrow> c = ''webhook''"
proof -
  show "alert_severity a = SEV3 \<Longrightarrow> get_destinations_for_alert getenv None a = []"
    by (simp add: get_destinations_for_alert_def default_routing_def get_channels_for_severity_def)
  show "alert_severity a = SEV2 \<Longrightarrow> (c, addr) \<in> set (get_destinations_for_alert getenv None a) \<Longrightarrow> c = ''webhook''"
  proof -
    assume a: "alert_severity a = SEV2" "(c, addr) \<in> set (get_destinations_for_alert getenv None a)"
    have "get_destinations_for_alert getenv None a = get_destinations_for_alert getenv (Some default_routing) a"
      by (simp add: get_destinations_for_alert_def)
    with a(2) have "c \<in> set (get_channels_for_severity default_routing (alert_severity a))"
      using destinations_spec [of getenv default_routing a] by auto
    with a(1) show "c = ''webhook''" by (simp add: get_channels_for_severity_def default_routing_def)
  qed
qed

end
