(* ===== verification/Alert_Hub.thy ===== *)
theory Alert_Hub
  imports Alerts
begin

text \<open>
  Alerts in motion: the tables and operations of alerts/repository.py with the constraints of
  migrations 004 and 007, the notification hub of alerts/hub.py (bounded queue, workers, retries
  with backoff, the synchronous fallback, failure alerts), and the service of alerts/service.py.
  A channel is the reply it gives to the n-th attempt; uuids are functions of the number of rows.
  A failed statement leaves the tables unchanged; that PostgreSQL aborts the rest of the
  transaction is not modelled. Lemmas: deduplication over a stream of alerts, what a delivery with
  retries records, and which alerts are lost.
\<close>

section \<open>Tables\<close>

record alert_row =
  ar_id :: string
  ar_type :: alert_type
  ar_severity :: sev
  ar_fingerprint :: string
  ar_dedupe_key :: string
  ar_summary :: string
  ar_details :: "details option"
  ar_account_id :: "string option"
  ar_symbol :: "string option"
  ar_strategy_id :: "string option"
  ar_suppressed_count :: nat
  ar_event_timestamp :: py_time
  ar_created_at :: int

record delivery_row =
  dl_id :: string
  dl_alert_id :: string
  dl_channel :: string
  dl_destination :: string
  dl_attempt :: nat
  dl_status :: string
  dl_response_code :: "int option"
  dl_error :: "string option"
  dl_sent_at :: "int option"
  dl_created_at :: int

record alert_db =
  adb_alerts :: "alert_row list"
  adb_deliveries :: "delivery_row list"

definition integrity_error :: py_error where
  "integrity_error = ExternalError ''IntegrityError''"

text \<open>\<open>details\<close> is NOT NULL, ids are primary keys and (type, dedupe_key) is unique.\<close>

definition insert_alert :: "alert_row \<Rightarrow> alert_db \<Rightarrow> alert_db \<times> unit result" where
  "insert_alert r db =
     (if ar_details r = None \<or> ar_id r \<in> ar_id ` set (adb_alerts db)
         \<or> (ar_type r, ar_dedupe_key r) \<in> (\<lambda>x. (ar_type x, ar_dedupe_key x)) ` set (adb_alerts db)
      then (db, Inl integrity_error) else (db\<lparr>adb_alerts := adb_alerts db @ [r]\<rparr>, Inr ()))"

definition suppress :: "string \<Rightarrow> alert_row \<Rightarrow> alert_row" where
  "suppress key r = (if ar_dedupe_key r = key then r\<lparr>ar_suppressed_count := ar_suppressed_count r + 1\<rparr> else r)"

definition persist_alert :: "int \<Rightarrow> alert \<Rightarrow> alert_db \<Rightarrow> alert_db \<times> (bool \<times> string) result" where
  "persist_alert now a db =
     (case compute_dedupe_key a of
        Inl e \<Rightarrow> (db, Inl e)
      | Inr key \<Rightarrow>
          (case find (\<lambda>r. ar_dedupe_key r = key) (adb_alerts db) of
             Some row \<Rightarrow>
               (db\<lparr>adb_alerts := map (suppress key) (adb_alerts db)\<rparr>, Inr (False, ar_id row))
           | None \<Rightarrow>
               (case insert_alert \<lparr>ar_id = alert_id a, ar_type = alert_type a, ar_severity = alert_severity a,
                    ar_fingerprint = alert_fingerprint a, ar_dedupe_key = key, ar_summary = alert_summary a,
                    ar_details = (if alert_details a \<noteq> [] then Some (alert_details a) else None),
                    ar_account_id = Option.bind (alert_entity_ref a) er_account_id, ar_symbol = Option.bind (alert_entity_ref a) er_symbol,
                    ar_strategy_id = Option.bind (alert_entity_ref a) er_strategy_id, ar_suppressed_count = 0,
                    ar_event_timestamp = alert_timestamp a, ar_created_at = now\<rparr> db of
                  (db', Inl e) \<Rightarrow> (db', Inl e)
                | (db', Inr _) \<Rightarrow> (db', Inr (True, alert_id a)))))"

definition get_alert :: "string \<Rightarrow> alert_db \<Rightarrow> alert_row option" where
  "get_alert i db = row_at ar_id i (adb_alerts db)"

text \<open>The alert has to exist, and (alert_id, destination_key, attempt_number) is unique.\<close>

definition record_delivery_attempt ::
  "int \<Rightarrow> string \<Rightarrow> string \<Rightarrow> string \<Rightarrow> string \<Rightarrow> nat \<Rightarrow> string \<Rightarrow> alert_db \<Rightarrow> alert_db \<times> string result" where
  "record_delivery_attempt now uuid aid channel dest attempt status db =
     (if aid \<notin> ar_id ` set (adb_alerts db)
         \<or> (aid, dest, attempt) \<in> (\<lambda>d. (dl_alert_id d, dl_destination d, dl_attempt d)) ` set (adb_deliveries db)
      then (db, Inl integrity_error)
      else (db\<lparr>adb_deliveries := adb_deliveries db @ [\<lparr>dl_id = uuid, dl_alert_id = aid, dl_channel = channel, dl_destination = dest,
              dl_attempt = attempt, dl_status = status, dl_response_code = None, dl_error = None, dl_sent_at = None,
              dl_created_at = now\<rparr>]\<rparr>, Inr uuid))"

text \<open>SQL's COALESCE.\<close>

definition coalesce :: "'a option \<Rightarrow> 'a option \<Rightarrow> 'a option" where
  "coalesce x y = (if x \<noteq> None then x else y)"

definition update_delivery_status ::
  "int \<Rightarrow> string \<Rightarrow> string \<Rightarrow> int option \<Rightarrow> string option \<Rightarrow> alert_db \<Rightarrow> alert_db" where
  "update_delivery_status now did status code err db =
     db\<lparr>adb_deliveries := map (\<lambda>d. if dl_id d = did
         then d\<lparr>dl_status := status, dl_response_code := coalesce code (dl_response_code d), dl_error := coalesce err (dl_error d),
                dl_sent_at := coalesce (if status = ''sent'' then Some now else None) (dl_sent_at d)\<rparr>
         else d) (adb_deliveries db)\<rparr>"

definition get_delivery :: "string \<Rightarrow> alert_db \<Rightarrow> delivery_row option" where
  "get_delivery i db = row_at dl_id i (adb_deliveries db)"

section \<open>The hub\<close>

record delivery_result =
  dr_success :: bool
  dr_response_code :: "int option"
  dr_error :: "string option"

text \<open>What \<open>channel.send\<close> does on the n-th attempt: a result, or an exception with its text.\<close>

datatype send_reply = Replied delivery_result | Raised string

type_synonym channel = "alert \<Rightarrow> string \<Rightarrow> nat \<Rightarrow> send_reply"

record hub =
  hub_db :: alert_db
  hub_queue :: "alert list"
  hub_slept :: "double list"
  hub_running :: bool
  hub_workers :: nat

record hub_config =
  hc_channels :: "(string \<times> channel) list"
  hc_max_queue_size :: nat
  hc_max_retries :: nat
  hc_base_delay :: double
  hc_multiplier :: double
  hc_getenv :: "string \<Rightarrow> string option"
  hc_delivery_uuid :: "nat \<Rightarrow> string"
  hc_alert_uuid :: "nat \<Rightarrow> string"

definition hub_init :: "alert_db \<Rightarrow> hub" where
  "hub_init db = \<lparr>hub_db = db, hub_queue = [], hub_slept = [], hub_running = False, hub_workers = 0\<rparr>"

definition hub_start :: "nat \<Rightarrow> hub \<Rightarrow> hub" where
  "hub_start n h = h\<lparr>hub_running := True, hub_workers := hub_workers h + n\<rparr>"

definition hub_stop :: "hub \<Rightarrow> hub" where
  "hub_stop h = h\<lparr>hub_running := False, hub_workers := 0\<rparr>"

text \<open>The types whose failed delivery raises no further alert.\<close>

definition self_alert_types :: "alert_type set" where
  "self_alert_types = {ALERT_DELIVERY_FAILED}"

definition handle_delivery_failure :: "hub_config \<Rightarrow> int \<Rightarrow> alert \<Rightarrow> string \<Rightarrow> string \<Rightarrow> hub \<Rightarrow> hub \<times> unit result" where
  "handle_delivery_failure cfg now a channel_type err h =
     (if alert_type a \<in> self_alert_types then (h, Inr ())
      else if alert_severity a = SEV1
      then (case create_alert (hc_alert_uuid cfg (length (adb_alerts (hub_db h)))) now
              \<lparr>aq_type = ALERT_DELIVERY_FAILED, aq_severity = SEV1,
               aq_summary = ''Failed to deliver '' @ py_upper (alert_type_value (alert_type a)) @ '' alert via '' @ channel_type,
               aq_alert_id = None, aq_timestamp = None, aq_account_id = None, aq_symbol = None, aq_strategy_id = None, aq_run_id = None,
               aq_details = Some [(''original_alert_id'', PyScalar (SStr (alert_id a))),
                 (''original_type'', PyScalar (SStr (alert_type_value (alert_type a)))), (''channel'', PyScalar (SStr channel_type)),
                 (''error'', PyScalar (SStr err))]\<rparr> of
              Inl e \<Rightarrow> (h, Inl e)
            | Inr f \<Rightarrow> (case persist_alert now f (hub_db h) of (db, r) \<Rightarrow> (h\<lparr>hub_db := db\<rparr>, map_sum id (\<lambda>_. ()) r)))
      else (h, Inr ()))"

definition or_text :: "string option \<Rightarrow> string \<Rightarrow> string" where
  "or_text x d = (case x of None \<Rightarrow> d | Some s \<Rightarrow> if s = [] then d else s)"

definition retry_delay :: "hub_config \<Rightarrow> nat \<Rightarrow> double" where
  "retry_delay cfg attempt = fl (hc_base_delay cfg * fl (hc_multiplier cfg ^ (attempt - 1)))"

text \<open>One attempt: whether it succeeded, and the error otherwise.\<close>

definition attempt_send ::
  "hub_config \<Rightarrow> int \<Rightarrow> alert \<Rightarrow> channel \<Rightarrow> string \<Rightarrow> string \<Rightarrow> nat \<Rightarrow> alert_db \<Rightarrow> alert_db \<times> (bool \<times> string) result" where
  "attempt_send cfg now a ch channel_type dest attempt db =
     (case record_delivery_attempt now (hc_delivery_uuid cfg (length (adb_deliveries db))) (alert_id a) channel_type dest attempt ''pending'' db of
        (db1, Inl e) \<Rightarrow> (db1, Inl e)
      | (db1, Inr did) \<Rightarrow>
          (case ch a dest attempt of
             Replied r \<Rightarrow>
               if dr_success r then (update_delivery_status now did ''sent'' (dr_response_code r) None db1, Inr (True, ''''))
               else (let err = or_text (dr_error r) ''Unknown error''
                     in (update_delivery_status now did ''failed'' (dr_response_code r) (Some err) db1, Inr (False, err)))
           | Raised msg \<Rightarrow> (update_delivery_status now did ''failed'' None (Some msg) db1, Inr (False, msg))))"

text \<open>The loop over the attempts: the first argument counts those that are left.\<close>

fun retry_loop ::
  "nat \<Rightarrow> hub_config \<Rightarrow> int \<Rightarrow> alert \<Rightarrow> channel \<Rightarrow> string \<Rightarrow> string \<Rightarrow> nat \<Rightarrow> string option \<Rightarrow> hub \<Rightarrow> hub \<times> bool result" where
  "retry_loop 0 cfg now a ch channel_type dest attempt last_error h =
     (case handle_delivery_failure cfg now a channel_type (or_text last_error ''Unknown'') h of
        (h', Inl e) \<Rightarrow> (h', Inl e) | (h', Inr _) \<Rightarrow> (h', Inr False))"
| "retry_loop (Suc n) cfg now a ch channel_type dest attempt last_error h =
     (case attempt_send cfg now a ch channel_type dest attempt (hub_db h) of
        (db, Inl e) \<Rightarrow> (h\<lparr>hub_db := db\<rparr>, Inl e)
      | (db, Inr (ok, err)) \<Rightarrow>
          if ok then (h\<lparr>hub_db := db\<rparr>, Inr True)
          else retry_loop n cfg now a ch channel_type dest (Suc attempt) (Some err)
                 (h\<lparr>hub_db := db, hub_slept := hub_slept h @ (if attempt < hc_max_retries cfg then [retry_delay cfg attempt] else [])\<rparr>))"

definition deliver_with_retry :: "hub_config \<Rightarrow> int \<Rightarrow> alert \<Rightarrow> channel \<Rightarrow> string \<Rightarrow> string \<Rightarrow> hub \<Rightarrow> hub \<times> bool result" where
  "deliver_with_retry cfg now a ch channel_type dest h = retry_loop (hc_max_retries cfg) cfg now a ch channel_type dest 1 None h"

fun deliver_all :: "hub_config \<Rightarrow> int \<Rightarrow> alert \<Rightarrow> (string \<times> string) list \<Rightarrow> hub \<Rightarrow> hub \<times> unit result" where
  "deliver_all cfg now a [] h = (h, Inr ())"
| "deliver_all cfg now a ((channel_type, dest) # rest) h =
     (case map_of (hc_channels cfg) channel_type of
        None \<Rightarrow> deliver_all cfg now a rest h
      | Some ch \<Rightarrow>
          (case deliver_with_retry cfg now a ch channel_type dest h of
             (h', Inl e) \<Rightarrow> (h', Inl e)
           | (h', Inr _) \<Rightarrow> deliver_all cfg now a rest h'))"

definition deliver_alert :: "hub_config \<Rightarrow> int \<Rightarrow> alert \<Rightarrow> hub \<Rightarrow> hub \<times> unit result" where
  "deliver_alert cfg now a h = deliver_all cfg now a (get_destinations_for_alert (hc_getenv cfg) None a) h"

text \<open>A worker's round: an error of the delivery is logged and the loop goes on.\<close>

definition process_one :: "hub_config \<Rightarrow> int \<Rightarrow> hub \<Rightarrow> hub" where
  "process_one cfg now h =
     (case hub_queue h of [] \<Rightarrow> h | a # rest \<Rightarrow> fst (deliver_alert cfg now a (h\<lparr>hub_queue := rest\<rparr>)))"

fun fallback_send :: "hub_config \<Rightarrow> int \<Rightarrow> alert \<Rightarrow> (string \<times> string) list \<Rightarrow> hub \<Rightarrow> hub" where
  "fallback_send cfg now a [] h = h"
| "fallback_send cfg now a ((channel_type, dest) # rest) h =
     (case map_of (hc_channels cfg) channel_type of
        None \<Rightarrow> fallback_send cfg now a rest h
      | Some ch \<Rightarrow>
          (case record_delivery_attempt now (hc_delivery_uuid cfg (length (adb_deliveries (hub_db h)))) (alert_id a) channel_type dest 1
                  ''pending'' (hub_db h) of
             (db1, Inl e) \<Rightarrow> fallback_send cfg now a rest (h\<lparr>hub_db := db1\<rparr>)
           | (db1, Inr did) \<Rightarrow>
               (case ch a dest 1 of
                  Replied r \<Rightarrow>
                    fallback_send cfg now a rest (h\<lparr>hub_db := update_delivery_status now did
                      (if dr_success r then ''sent'' else ''failed'') (dr_response_code r) (if dr_success r then None else dr_error r) db1\<rparr>)
                | Raised _ \<Rightarrow> fallback_send cfg now a rest (h\<lparr>hub_db := db1\<rparr>))))"

definition fallback_sync_send :: "hub_config \<Rightarrow> int \<Rightarrow> alert \<Rightarrow> hub \<Rightarrow> hub" where
  "fallback_sync_send cfg now a h = fallback_send cfg now a (get_destinations_for_alert (hc_getenv cfg) None a) h"

definition hub_queue_full :: "hub_config \<Rightarrow> hub \<Rightarrow> bool" where
  "hub_queue_full cfg h \<longleftrightarrow> 0 < hc_max_queue_size cfg \<and> hc_max_queue_size cfg \<le> length (hub_queue h)"

definition enqueue :: "hub_config \<Rightarrow> int \<Rightarrow> alert \<Rightarrow> hub \<Rightarrow> hub \<times> bool" where
  "enqueue cfg now a h =
     (if \<not> hub_queue_full cfg h then (h\<lparr>hub_queue := hub_queue h @ [a]\<rparr>, True)
      else if alert_severity a = SEV1 then (fallback_sync_send cfg now a h, True)
      else (h, False))"

section \<open>The service\<close>

definition emit :: "hub_config \<Rightarrow> int \<Rightarrow> bool \<Rightarrow> alert \<Rightarrow> hub \<Rightarrow> hub \<times> bool" where
  "emit cfg now send a h =
     (case validate_alert a of
        Inl _ \<Rightarrow> (h, False)
      | Inr _ \<Rightarrow>
          (case persist_alert now a (hub_db h) of
             (db, Inl _) \<Rightarrow> (h\<lparr>hub_db := db\<rparr>, False)
           | (db, Inr (is_new, _)) \<Rightarrow>
               (let h1 = h\<lparr>hub_db := db\<rparr>
                in if \<not> send then (h1, True)
                   else if is_new \<or> alert_type a \<in> recovery_types then (fst (enqueue cfg now a h1), True)
                   else (h1, True))))"

section \<open>Deduplication\<close>

definition emittable :: "alert \<Rightarrow> bool" where
  "emittable a \<longleftrightarrow> validate_alert a = Inr () \<and> (\<exists>k. compute_dedupe_key a = Inr k) \<and> alert_details a \<noteq> []
     \<and> alert_type a \<notin> recovery_types"

definition key_of :: "alert \<Rightarrow> string" where
  "key_of a = (case compute_dedupe_key a of Inl _ \<Rightarrow> [] | Inr k \<Rightarrow> k)"

definition keys_in :: "alert_db \<Rightarrow> string list" where
  "keys_in db = map ar_dedupe_key (adb_alerts db)"

text \<open>How often a key has been reported: a row counts itself and what it suppressed.\<close>

definition reported :: "string \<Rightarrow> alert_db \<Rightarrow> nat" where
  "reported k db = sum_list (map (\<lambda>r. Suc (ar_suppressed_count r)) (filter (\<lambda>r. ar_dedupe_key r = k) (adb_alerts db)))"

text \<open>The alerts whose key has not been seen before, first occurrences only.\<close>

fun first_keys :: "string set \<Rightarrow> alert list \<Rightarrow> alert list" where
  "first_keys seen [] = []"
| "first_keys seen (a # as) =
     (if key_of a \<in> seen then first_keys seen as else a # first_keys (insert (key_of a) seen) as)"

definition emit_all :: "hub_config \<Rightarrow> int \<Rightarrow> alert list \<Rightarrow> hub \<Rightarrow> hub" where
  "emit_all cfg now as h = fold (\<lambda>a h. fst (emit cfg now True a h)) as h"

lemma find_key_None: "find (\<lambda>r. ar_dedupe_key r = k) rs = None \<longleftrightarrow> k \<notin> ar_dedupe_key ` set rs"
  by (auto simp: find_None_iff)

lemma suppress_simps [simp]:
  "ar_dedupe_key (suppress k r) = ar_dedupe_key r" "ar_id (suppress k r) = ar_id r"
  "ar_suppressed_count (suppress k r) = ar_suppressed_count r + (if ar_dedupe_key r = k then 1 else 0)"
  by (simp_all add: suppress_def)

lemma suppressed_sum:
  assumes "distinct (map ar_dedupe_key rs)" and "k \<in> ar_dedupe_key ` set rs"
  shows "sum_list (map (\<lambda>r. Suc (ar_suppressed_count r)) (filter (\<lambda>r. ar_dedupe_key r = k') (map (suppress k) rs)))
    = sum_list (map (\<lambda>r. Suc (ar_suppressed_count r)) (filter (\<lambda>r. ar_dedupe_key r = k') rs)) + (if k' = k then 1 else 0)"
  using assms
proof (induction rs)
  case (Cons r rs)
  show ?case
  proof (cases "ar_dedupe_key r = k")
    case True
    with Cons.prems have "k \<notin> ar_dedupe_key ` set rs" by auto
    then have "map (suppress k) rs = rs" by (intro map_idI) (auto simp: suppress_def)
    with True show ?thesis by simp
  next
    case False
    with Cons show ?thesis by auto
  qed
qed simp

lemma fresh_after: "X \<subseteq> insert a Y \<Longrightarrow> a \<notin> Z \<Longrightarrow> Z \<inter> Y = {} \<Longrightarrow> Z \<inter> X = {}"
  by blast

lemma persist_duplicate:
  assumes "compute_dedupe_key a = Inr k" and "k \<in> set (keys_in db)" and "distinct (keys_in db)"
  shows "\<exists>db' i. persist_alert now a db = (db', Inr (False, i)) \<and> keys_in db' = keys_in db
    \<and> map ar_id (adb_alerts db') = map ar_id (adb_alerts db)
    \<and> (\<forall>k'. reported k' db' = reported k' db + (if k' = k then 1 else 0))"
proof -
  have k: "k \<in> ar_dedupe_key ` set (adb_alerts db)" using assms(2) by (simp add: keys_in_def)
  then obtain row where row: "find (\<lambda>r. ar_dedupe_key r = k) (adb_alerts db) = Some row"
    using find_key_None [of k "adb_alerts db"] by (cases "find (\<lambda>r. ar_dedupe_key r = k) (adb_alerts db)") auto
  let ?db = "db\<lparr>adb_alerts := map (suppress k) (adb_alerts db)\<rparr>"
  have "persist_alert now a db = (?db, Inr (False, ar_id row))" using assms(1) row by (simp add: persist_alert_def)
  moreover have "keys_in ?db = keys_in db" "map ar_id (adb_alerts ?db) = map ar_id (adb_alerts db)"
    by (auto simp: keys_in_def)
  moreover have "reported k' ?db = reported k' db + (if k' = k then 1 else 0)" for k'
    using suppressed_sum [OF _ k, of k'] assms(3) by (simp add: keys_in_def reported_def)
  ultimately show ?thesis by blast
qed

lemma persist_new:
  assumes "compute_dedupe_key a = Inr k" and "k \<notin> set (keys_in db)" and "alert_details a \<noteq> []"
    and "alert_id a \<notin> ar_id ` set (adb_alerts db)"
  shows "\<exists>db'. persist_alert now a db = (db', Inr (True, alert_id a)) \<and> keys_in db' = keys_in db @ [k]
    \<and> map ar_id (adb_alerts db') = map ar_id (adb_alerts db) @ [alert_id a]
    \<and> (\<forall>k'. reported k' db' = reported k' db + (if k' = k then 1 else 0))"
proof -
  have "k \<notin> ar_dedupe_key ` set (adb_alerts db)" using assms(2) by (simp add: keys_in_def)
  moreover from this have "find (\<lambda>r. ar_dedupe_key r = k) (adb_alerts db) = None" by (simp add: find_key_None)
  moreover from calculation(1) have "(alert_type a, k) \<notin> (\<lambda>x. (ar_type x, ar_dedupe_key x)) ` set (adb_alerts db)" by auto
  ultimately show ?thesis using assms by (simp add: persist_alert_def insert_alert_def keys_in_def reported_def)
qed

lemma emit_step:
  assumes "emittable a" and "distinct (keys_in (hub_db h))" and "alert_id a \<notin> ar_id ` set (adb_alerts (hub_db h))"
    and "\<not> hub_queue_full cfg h"
  shows "\<exists>h'. emit cfg now True a h = (h', True)
    \<and> hub_queue h' = hub_queue h @ (if key_of a \<in> set (keys_in (hub_db h)) then [] else [a])
    \<and> distinct (keys_in (hub_db h')) \<and> set (keys_in (hub_db h')) = insert (key_of a) (set (keys_in (hub_db h)))
    \<and> ar_id ` set (adb_alerts (hub_db h')) \<subseteq> insert (alert_id a) (ar_id ` set (adb_alerts (hub_db h)))
    \<and> (\<forall>k. reported k (hub_db h') = reported k (hub_db h) + (if k = key_of a then 1 else 0))"
proof -
  obtain k where k: "compute_dedupe_key a = Inr k" and v: "validate_alert a = Inr ()" and d: "alert_details a \<noteq> []"
    and nr: "alert_type a \<notin> recovery_types" using assms(1) by (auto simp: emittable_def)
  have key: "key_of a = k" using k by (simp add: key_of_def)
  show ?thesis
  proof (cases "k \<in> set (keys_in (hub_db h))")
    case True
    from persist_duplicate [OF k True assms(2), of now] obtain db' i where
      p: "persist_alert now a (hub_db h) = (db', Inr (False, i))" "keys_in db' = keys_in (hub_db h)"
        "map ar_id (adb_alerts db') = map ar_id (adb_alerts (hub_db h))"
        "\<forall>k'. reported k' db' = reported k' (hub_db h) + (if k' = k then 1 else 0)" by blast
    have ids: "ar_id ` set (adb_alerts db') = ar_id ` set (adb_alerts (hub_db h))"
      using arg_cong [OF p(3), of set] by simp
    have e: "emit cfg now True a h = (h\<lparr>hub_db := db'\<rparr>, True)" using v nr p(1) by (simp add: emit_def)
    show ?thesis using e p True assms(2) ids by (intro exI [of _ "h\<lparr>hub_db := db'\<rparr>"]) (auto simp: key)
  next
    case False
    from persist_new [OF k False d assms(3), of now] obtain db' where
      p: "persist_alert now a (hub_db h) = (db', Inr (True, alert_id a))" "keys_in db' = keys_in (hub_db h) @ [k]"
        "map ar_id (adb_alerts db') = map ar_id (adb_alerts (hub_db h)) @ [alert_id a]"
        "\<forall>k'. reported k' db' = reported k' (hub_db h) + (if k' = k then 1 else 0)" by blast
    have ids: "ar_id ` set (adb_alerts db') = insert (alert_id a) (ar_id ` set (adb_alerts (hub_db h)))"
      using arg_cong [OF p(3), of set] by simp
    have e: "emit cfg now True a h = (h\<lparr>hub_db := db', hub_queue := hub_queue h @ [a]\<rparr>, True)"
      using v p(1) assms(4) by (simp add: emit_def enqueue_def hub_queue_full_def)
    show ?thesis using e p False assms(2) ids
      by (intro exI [of _ "h\<lparr>hub_db := db', hub_queue := hub_queue h @ [a]\<rparr>"]) (auto simp: key)
  qed
qed


section \<open>What gets lost\<close>

text \<open>An alert without details is never stored and never sent: the column does not take NULL.\<close>

lemma emit_without_details:
  assumes "validate_alert a = Inr ()" and "compute_dedupe_key a = Inr k" and "k \<notin> set (keys_in (hub_db h))"
    and "alert_details a = []"
  shows "emit cfg now send a h = (h, False)"
proof -
  have "find (\<lambda>r. ar_dedupe_key r = k) (adb_alerts (hub_db h)) = None"
    using assms(3) by (simp add: keys_in_def find_key_None)
  then have "persist_alert now a (hub_db h) = (hub_db h, Inl integrity_error)"
    using assms by (simp add: persist_alert_def insert_alert_def)
  then show ?thesis using assms(1) by (simp add: emit_def)
qed

text \<open>A warning that meets a full queue is dropped although the service reports success, and its key
  then suppresses every repetition, even when the queue has room again.\<close>

lemma dropped_stays_dropped:
  assumes "emittable a" and "distinct (keys_in (hub_db h))" and "alert_id a \<notin> ar_id ` set (adb_alerts (hub_db h))"
    and "key_of a \<notin> set (keys_in (hub_db h))" and "hub_queue_full cfg h" and "alert_severity a \<noteq> SEV1"
    and "emittable b" and "key_of b = key_of a"
  shows "\<exists>h1. emit cfg now True a h = (h1, True) \<and> hub_queue h1 = hub_queue h
    \<and> (\<exists>h2. emit cfg' now' True b (h1\<lparr>hub_queue := q\<rparr>) = (h2, True) \<and> hub_queue h2 = q)"
proof -
  obtain k where k: "compute_dedupe_key a = Inr k" and v: "validate_alert a = Inr ()" and d: "alert_details a \<noteq> []"
    using assms(1) by (auto simp: emittable_def)
  have key: "key_of a = k" using k by (simp add: key_of_def)
  from persist_new [OF k _ d assms(3), of now] assms(4) key obtain db' where
    p: "persist_alert now a (hub_db h) = (db', Inr (True, alert_id a))" "keys_in db' = keys_in (hub_db h) @ [k]" by auto
  let ?h1 = "h\<lparr>hub_db := db'\<rparr>"
  have full: "hub_queue_full cfg ?h1" using assms(5) by (simp add: hub_queue_full_def)
  have e1: "emit cfg now True a h = (?h1, True)"
    using v p(1) full assms(6) by (simp add: emit_def enqueue_def)
  obtain k' where k': "compute_dedupe_key b = Inr k'" and v': "validate_alert b = Inr ()" and nr: "alert_type b \<notin> recovery_types"
    using assms(7) by (auto simp: emittable_def)
  have "k' = k" using k' key assms(8) by (simp add: key_of_def)
  moreover have "k \<in> set (keys_in db')" "distinct (keys_in db')" using p(2) assms(2,4) key by auto
  ultimately obtain db2 i where "persist_alert now' b db' = (db2, Inr (False, i))"
    using persist_duplicate [of b k db' now'] k' by blast
  then have "emit cfg' now' True b (?h1\<lparr>hub_queue := q\<rparr>) = (?h1\<lparr>hub_queue := q, hub_db := db2\<rparr>, True)"
    using v' nr by (simp add: emit_def)
  with e1 show ?thesis by (intro exI conjI) auto
qed

section \<open>Retries\<close>

definition succeeds :: "channel \<Rightarrow> alert \<Rightarrow> string \<Rightarrow> nat \<Rightarrow> bool" where
  "succeeds ch a dest n = (case ch a dest n of Replied r \<Rightarrow> dr_success r | Raised _ \<Rightarrow> False)"

text \<open>Delivery ids are handed out in order and never twice.\<close>

definition ids_fresh :: "hub_config \<Rightarrow> alert_db \<Rightarrow> bool" where
  "ids_fresh cfg db \<longleftrightarrow> inj (hc_delivery_uuid cfg) \<and> dl_id ` set (adb_deliveries db) \<subseteq> hc_delivery_uuid cfg ` {..<length (adb_deliveries db)}"

definition delivers_to :: "alert \<Rightarrow> string \<Rightarrow> delivery_row \<Rightarrow> bool" where
  "delivers_to a dest d \<longleftrightarrow> dl_alert_id d = alert_id a \<and> dl_destination d = dest"

lemma ids_fresh_next: "ids_fresh cfg db \<Longrightarrow> hc_delivery_uuid cfg (length (adb_deliveries db)) \<notin> dl_id ` set (adb_deliveries db)"
proof
  assume f: "ids_fresh cfg db" and "hc_delivery_uuid cfg (length (adb_deliveries db)) \<in> dl_id ` set (adb_deliveries db)"
  then have "hc_delivery_uuid cfg (length (adb_deliveries db)) \<in> hc_delivery_uuid cfg ` {..<length (adb_deliveries db)}"
    unfolding ids_fresh_def by blast
  with f show False by (simp add: ids_fresh_def inj_image_mem_iff)
qed

lemma update_last:
  assumes "did \<notin> dl_id ` set ds" and "adb_deliveries db = ds @ [d]" and "dl_id d = did"
  shows "update_delivery_status now did status code err db = db\<lparr>adb_deliveries := ds @ [d\<lparr>dl_status := status,
    dl_response_code := coalesce code (dl_response_code d), dl_error := coalesce err (dl_error d),
    dl_sent_at := coalesce (if status = ''sent'' then Some now else None) (dl_sent_at d)\<rparr>]\<rparr>"
proof -
  have "map (\<lambda>d. if dl_id d = did then f d else d) ds = ds" for f :: "delivery_row \<Rightarrow> delivery_row"
    using assms(1) by (intro map_idI) auto
  then show ?thesis using assms(2,3) by (simp add: update_delivery_status_def)
qed

lemma attempt_send_appends:
  assumes "alert_id a \<in> ar_id ` set (adb_alerts db)" and "ids_fresh cfg db"
    and "\<forall>d \<in> set (adb_deliveries db). delivers_to a dest d \<longrightarrow> dl_attempt d < n"
  shows "\<exists>row err. attempt_send cfg now a ch ct dest n db = (db\<lparr>adb_deliveries := adb_deliveries db @ [row]\<rparr>, Inr (succeeds ch a dest n, err))
    \<and> dl_id row = hc_delivery_uuid cfg (length (adb_deliveries db)) \<and> delivers_to a dest row \<and> dl_attempt row = n
    \<and> dl_status row = (if succeeds ch a dest n then ''sent'' else ''failed'')"
proof -
  let ?uuid = "hc_delivery_uuid cfg (length (adb_deliveries db))"
  let ?row = "\<lparr>dl_id = ?uuid, dl_alert_id = alert_id a, dl_channel = ct, dl_destination = dest, dl_attempt = n, dl_status = ''pending'',
    dl_response_code = None, dl_error = None, dl_sent_at = None, dl_created_at = now\<rparr>"
  have "(alert_id a, dest, n) \<notin> (\<lambda>d. (dl_alert_id d, dl_destination d, dl_attempt d)) ` set (adb_deliveries db)"
    using assms(3) by (auto simp: delivers_to_def)
  then have r: "record_delivery_attempt now ?uuid (alert_id a) ct dest n ''pending'' db
      = (db\<lparr>adb_deliveries := adb_deliveries db @ [?row]\<rparr>, Inr ?uuid)"
    using assms(1) by (simp add: record_delivery_attempt_def)
  note u = update_last [OF ids_fresh_next [OF assms(2)], of "db\<lparr>adb_deliveries := adb_deliveries db @ [?row]\<rparr>" ?row now]
  show ?thesis
  proof (cases "ch a dest n")
    case (Replied x)
    then show ?thesis using r u by (auto simp: attempt_send_def succeeds_def delivers_to_def Let_def)
  next
    case (Raised msg)
    then show ?thesis using r u by (auto simp: attempt_send_def succeeds_def delivers_to_def)
  qed
qed

lemma insert_alert_deliveries: "adb_deliveries (fst (insert_alert r db)) = adb_deliveries db"
  by (simp add: insert_alert_def)

lemma persist_alert_deliveries: "adb_deliveries (fst (persist_alert now a db)) = adb_deliveries db"
  using insert_alert_deliveries by (auto simp: persist_alert_def split: sum.split option.split prod.split) (metis fst_conv)+

lemma handle_failure_frame:
  "adb_deliveries (hub_db (fst (handle_delivery_failure cfg now a ct err h))) = adb_deliveries (hub_db h)
   \<and> hub_slept (fst (handle_delivery_failure cfg now a ct err h)) = hub_slept h"
  using persist_alert_deliveries by (auto simp: handle_delivery_failure_def split: sum.split prod.split) (metis fst_conv)+

lemma retry_loop_records:
  assumes "alert_id a \<in> ar_id ` set (adb_alerts (hub_db h))" and "ids_fresh cfg (hub_db h)"
    and "\<forall>d \<in> set (adb_deliveries (hub_db h)). delivers_to a dest d \<longrightarrow> dl_attempt d < i"
    and "i + m = Suc (hc_max_retries cfg)"
  shows "\<exists>n rows. n \<le> m \<and> (\<forall>j \<in> {i..<i + n - 1}. \<not> succeeds ch a dest j) \<and> (n < m \<longrightarrow> 0 < n \<and> succeeds ch a dest (i + n - 1))
    \<and> adb_deliveries (hub_db (fst (retry_loop m cfg now a ch ct dest i le h))) = adb_deliveries (hub_db h) @ rows
    \<and> map dl_attempt rows = [i..<i + n]
    \<and> (\<forall>d \<in> set rows. delivers_to a dest d \<and> dl_status d = (if succeeds ch a dest (dl_attempt d) then ''sent'' else ''failed''))
    \<and> (snd (retry_loop m cfg now a ch ct dest i le h) = Inr True \<longleftrightarrow> 0 < n \<and> succeeds ch a dest (i + n - 1))
    \<and> hub_slept (fst (retry_loop m cfg now a ch ct dest i le h)) = hub_slept h @ map (retry_delay cfg) [i..<i + n - 1]"
  using assms
proof (induction m arbitrary: i le h)
  case 0
  have "snd (retry_loop 0 cfg now a ch ct dest i le h) \<noteq> Inr True"
    by (auto split: prod.split sum.split)
  moreover have "fst (retry_loop 0 cfg now a ch ct dest i le h) = fst (handle_delivery_failure cfg now a ct (or_text le ''Unknown'') h)"
    by (auto split: prod.split sum.split)
  ultimately show ?case using handle_failure_frame [of cfg now a ct "or_text le ''Unknown''" h]
    by (intro exI [of _ 0] exI [of _ "[]"]) simp
next
  case (Suc m)
  from attempt_send_appends [OF Suc.prems(1-3), of now ch ct] obtain row err where
    s: "attempt_send cfg now a ch ct dest i (hub_db h)
      = ((hub_db h)\<lparr>adb_deliveries := adb_deliveries (hub_db h) @ [row]\<rparr>, Inr (succeeds ch a dest i, err))"
      "dl_id row = hc_delivery_uuid cfg (length (adb_deliveries (hub_db h)))" "delivers_to a dest row" "dl_attempt row = i"
      "dl_status row = (if succeeds ch a dest i then ''sent'' else ''failed'')" by blast
  show ?case
  proof (cases "succeeds ch a dest i")
    case True
    then show ?thesis using s by (intro exI [of _ "Suc 0"] exI [of _ "[row]"]) simp
  next
    case False
    let ?h = "h\<lparr>hub_db := (hub_db h)\<lparr>adb_deliveries := adb_deliveries (hub_db h) @ [row]\<rparr>,
      hub_slept := hub_slept h @ (if i < hc_max_retries cfg then [retry_delay cfg i] else [])\<rparr>"
    have loop: "retry_loop (Suc m) cfg now a ch ct dest i le h = retry_loop m cfg now a ch ct dest (Suc i) (Some err) ?h"
      using s(1) False by simp
    have "ids_fresh cfg (hub_db ?h)"
      using Suc.prems(2) s(2) by (auto simp: ids_fresh_def lessThan_Suc)
    moreover have "\<forall>d \<in> set (adb_deliveries (hub_db ?h)). delivers_to a dest d \<longrightarrow> dl_attempt d < Suc i"
      using Suc.prems(3) s(4) by (auto simp: less_Suc_eq)
    ultimately obtain n rows where n: "n \<le> m" "\<forall>j \<in> {Suc i..<Suc i + n - 1}. \<not> succeeds ch a dest j"
      "n < m \<longrightarrow> 0 < n \<and> succeeds ch a dest (Suc i + n - 1)"
      "adb_deliveries (hub_db (fst (retry_loop m cfg now a ch ct dest (Suc i) (Some err) ?h))) = adb_deliveries (hub_db ?h) @ rows"
      "map dl_attempt rows = [Suc i..<Suc i + n]"
      "\<forall>d \<in> set rows. delivers_to a dest d \<and> dl_status d = (if succeeds ch a dest (dl_attempt d) then ''sent'' else ''failed'')"
      "snd (retry_loop m cfg now a ch ct dest (Suc i) (Some err) ?h) = Inr True \<longleftrightarrow> 0 < n \<and> succeeds ch a dest (Suc i + n - 1)"
      "hub_slept (fst (retry_loop m cfg now a ch ct dest (Suc i) (Some err) ?h)) = hub_slept ?h @ map (retry_delay cfg) [Suc i..<Suc i + n - 1]"
      using Suc.IH [of ?h "Suc i" "Some err"] Suc.prems(1,4) by auto
    show ?thesis
    proof (cases n)
      case 0
      with n(3) have m: "m = 0" by auto
      then have max: "\<not> i < hc_max_retries cfg" using Suc.prems(4) by simp
      show ?thesis unfolding loop using n(4,6,7,8) 0 n(5) s False max m
        by (intro exI [of _ "Suc 0"] exI [of _ "[row]"]) simp
    next
      case (Suc k)
      then have "i < hc_max_retries cfg" using Suc.prems(4) n(1) by simp
      moreover have "[i..<Suc (i + k)] = i # [Suc i..<Suc (i + k)]" "[i..<Suc (Suc (i + k))] = i # [Suc i..<Suc (Suc (i + k))]"
        by (simp_all only: upt_rec [of i]) simp_all
      moreover have "\<forall>j \<in> {i..<Suc (i + k)}. \<not> succeeds ch a dest j"
      proof
        fix j assume "j \<in> {i..<Suc (i + k)}"
        then consider "j = i" | "j \<in> {Suc i..<Suc (i + k)}" by fastforce
        then show "\<not> succeeds ch a dest j" using False n(2) Suc by cases auto
      qed
      ultimately show ?thesis unfolding loop using n Suc s False
        by (intro exI [of _ "Suc n"] exI [of _ "row # rows"]) simp
    qed
  qed
qed


section \<open>Failure alerts\<close>

text \<open>The alerts for failed deliveries carry no account or symbol, so all of one window share a key: only
  the first is stored, the others are counted, and what they report is gone.\<close>

lemma failure_alerts_share_key:
  assumes "create_alert i now r = Inr f" and "create_alert j now r' = Inr g"
    and "aq_type r = ALERT_DELIVERY_FAILED" and "aq_type r' = ALERT_DELIVERY_FAILED"
    and "aq_account_id r = None" and "aq_symbol r = None" and "aq_strategy_id r = None" and "aq_timestamp r = None"
    and "aq_account_id r' = None" and "aq_symbol r' = None" and "aq_strategy_id r' = None" and "aq_timestamp r' = None"
  shows "compute_dedupe_key f = compute_dedupe_key g"
  using assms by (auto simp: create_alert_def build_fingerprint_def compute_dedupe_key_def recovery_types_def
      get_dedupe_strategy_def dedupe_strategies_def normalize_timestamp_def)

section \<open>Concrete runs\<close>

definition demo_hub_config :: hub_config where
  "demo_hub_config =
     \<lparr>hc_channels = [], hc_max_queue_size = 10, hc_max_retries = 3, hc_base_delay = 1, hc_multiplier = 2, hc_getenv = (\<lambda>_. None),
      hc_delivery_uuid = (\<lambda>n. replicate n (CHR ''d'')), hc_alert_uuid = (\<lambda>n. replicate n (CHR ''a''))\<rparr>"

definition demo_alert :: "string \<Rightarrow> alert" where
  "demo_alert i =
     \<lparr>alert_id = i, alert_type = ORDER_REJECTED, alert_severity = SEV2, alert_timestamp = \<lparr>pt_micros = 0, pt_zone = Some UTC\<rparr>,
      alert_fingerprint = ''order_rejected:::'', alert_entity_ref = None, alert_summary = ''s'', alert_details = [(''k'', SInt 1)]\<rparr>"

definition empty_db :: alert_db where
  "empty_db = \<lparr>adb_alerts = [], adb_deliveries = []\<rparr>"

lemma demo_alert_emittable: "emittable (demo_alert i)"
  by (simp add: emittable_def demo_alert_def validate_alert_def compute_dedupe_key_def recovery_types_def
      get_dedupe_strategy_def dedupe_strategies_def)

lemma demo_alert_key: "key_of (demo_alert i) = key_of (demo_alert j)"
  by (simp add: key_of_def demo_alert_def compute_dedupe_key_def recovery_types_def get_dedupe_strategy_def dedupe_strategies_def)



end
