(* ===== verification/Derivatives.thy ===== *)
theory Derivatives
  imports Trading_Types Alert_Hub "HOL-Library.Sublist"
begin

text \<open>
  Derivative contracts near expiry: models/derivative_contract.py, the expiration manager, the
  assignment handler and the roll manager of derivatives/, and the worker of
  workers/expiration_worker.py on top of the alert service. Days are integers. An enum column is
  declared with a String type: an object made in the process holds the enum member, one loaded
  from a row holds its text, on which \<open>.value\<close> raises. The ISO text of a date and the text of a
  Decimal are arguments. Lemmas: the expiry window, what an assignment is worth, the cycle of
  contract months, and that the worker warns of a contract only once.
\<close>

section \<open>Contracts\<close>

datatype 'e field = Member 'e | Raw string

text \<open>\<open>x.value\<close>, the text of a column, and comparison with a member of a \<open>str\<close> enumeration.\<close>

definition field_value :: "('e \<Rightarrow> string) \<Rightarrow> 'e field \<Rightarrow> string result" where
  "field_value f x = (case x of Member e \<Rightarrow> Inr (f e) | Raw _ \<Rightarrow> Inl AttributeError)"

definition field_text :: "('e \<Rightarrow> string) \<Rightarrow> 'e field \<Rightarrow> string" where
  "field_text f x = (case x of Member e \<Rightarrow> f e | Raw s \<Rightarrow> s)"

definition field_is :: "('e \<Rightarrow> string) \<Rightarrow> 'e field \<Rightarrow> 'e \<Rightarrow> bool" where
  "field_is f x e \<longleftrightarrow> field_text f x = f e"

datatype contract_type = OPTION_CONTRACT | FUTURE_CONTRACT

fun contract_type_value :: "contract_type \<Rightarrow> string" where
  "contract_type_value OPTION_CONTRACT = ''option''"
| "contract_type_value FUTURE_CONTRACT = ''future''"

fun put_call_value :: "put_call \<Rightarrow> string" where
  "put_call_value PUT = ''put''"
| "put_call_value CALL = ''call''"

record contract =
  dc_symbol :: string
  dc_underlying :: string
  dc_type :: "contract_type field"
  dc_expiry :: int
  dc_strike :: "decimal option"
  dc_put_call :: "put_call field option"

definition days_to_expiry :: "int \<Rightarrow> contract \<Rightarrow> int" where
  "days_to_expiry today c = dc_expiry c - today"

definition is_expiring_soon :: "int \<Rightarrow> contract \<Rightarrow> bool" where
  "is_expiring_soon today c \<longleftrightarrow> days_to_expiry today c \<le> 5"

section \<open>Expiration manager\<close>

record expiration_alert =
  ea_symbol :: string
  ea_underlying :: string
  ea_expiry :: int
  ea_days_to_expiry :: int
  ea_contract_type :: "contract_type field"
  ea_put_call :: "put_call field option"
  ea_strike :: "decimal option"

definition expiration_manager_init :: "int \<Rightarrow> int result" where
  "expiration_manager_init warning_days = (if warning_days < 0 then Inl ValueError else Inr warning_days)"

definition get_expiring_positions :: "int \<Rightarrow> int \<Rightarrow> int option \<Rightarrow> contract list \<Rightarrow> contract list result" where
  "get_expiring_positions today warning_days days table =
     (let lookup_days = (case days of None \<Rightarrow> warning_days | Some d \<Rightarrow> d)
      in if lookup_days < 0 then Inl ValueError
         else Inr (sort_key dc_expiry (filter (\<lambda>c. today \<le> dc_expiry c \<and> dc_expiry c \<le> today + lookup_days) table)))"

definition check_expirations :: "int \<Rightarrow> int \<Rightarrow> contract list \<Rightarrow> expiration_alert list result" where
  "check_expirations today warning_days table =
     res_bind (get_expiring_positions today warning_days None table) (\<lambda>cs.
       Inr (map (\<lambda>c. \<lparr>ea_symbol = dc_symbol c, ea_underlying = dc_underlying c, ea_expiry = dc_expiry c,
         ea_days_to_expiry = dc_expiry c - today, ea_contract_type = dc_type c, ea_put_call = dc_put_call c,
         ea_strike = dc_strike c\<rparr>) cs))"

section \<open>Assignment\<close>

datatype assignment_direction = ASSIGN_BUY | ASSIGN_SELL

record assignment_estimate =
  ae_option_symbol :: string
  ae_is_itm :: bool
  ae_resulting_shares :: int
  ae_cash_impact :: decimal
  ae_direction :: assignment_direction

definition assignment_handler_init :: "int \<Rightarrow> int result" where
  "assignment_handler_init mult = (if mult \<le> 0 then Inl ValueError else Inr mult)"

text \<open>The debug message reads \<open>put_call.value\<close>, so a raw column raises after the comparison.\<close>

definition calculate_itm_status :: "contract \<Rightarrow> decimal \<Rightarrow> bool result" where
  "calculate_itm_status c price =
     (case dc_strike c of
        None \<Rightarrow> Inl ValueError
      | Some k \<Rightarrow>
          (case dc_put_call c of
             None \<Rightarrow> Inl ValueError
           | Some pc \<Rightarrow>
               (let itm = (if field_is put_call_value pc CALL then price > k else price < k)
                in res_bind (field_value put_call_value pc) (\<lambda>_. Inr itm))))"

definition estimate_assignment :: "int \<Rightarrow> contract \<Rightarrow> decimal \<Rightarrow> int \<Rightarrow> assignment_estimate result" where
  "estimate_assignment mult c price quantity =
     res_bind (calculate_itm_status c price) (\<lambda>itm.
       let is_long = quantity \<ge> 0;
           is_call = (case dc_put_call c of None \<Rightarrow> False | Some pc \<Rightarrow> field_is put_call_value pc CALL);
           direction = (if is_call then (if is_long then ASSIGN_BUY else ASSIGN_SELL)
                        else (if is_long then ASSIGN_SELL else ASSIGN_BUY));
           n = \<bar>quantity\<bar>;
           k = (case dc_strike c of None \<Rightarrow> 0 | Some k \<Rightarrow> k);
           (shares, cash) =
             (if itm \<and> n > 0
              then (n * mult, if direction = ASSIGN_BUY then dec_mul (dec (- k)) (of_int (n * mult)) else dec_mul k (of_int (n * mult)))
              else (0, 0))
       in Inr \<lparr>ae_option_symbol = dc_symbol c, ae_is_itm = itm, ae_resulting_shares = shares, ae_cash_impact = cash,
            ae_direction = direction\<rparr>)"

section \<open>Rolling futures\<close>

datatype roll_strategy = CALENDAR_SPREAD | CLOSE_OPEN

record roll_config =
  ro_underlying :: string
  ro_strategy :: roll_strategy
  ro_days_before_expiry :: int

record roll_plan =
  rp_symbol :: string
  rp_strategy :: roll_strategy
  rp_close_action :: string
  rp_open_action :: "string option"

record roll_manager =
  rm_default_days_before :: int
  rm_default_strategy :: roll_strategy
  rm_configs :: "(string \<times> roll_config) list"

definition roll_manager_init :: "int \<Rightarrow> roll_strategy \<Rightarrow> roll_manager result" where
  "roll_manager_init days st =
     (if days < 0 then Inl ValueError
      else Inr \<lparr>rm_default_days_before = days, rm_default_strategy = st, rm_configs = []\<rparr>)"

definition configure_underlying :: "string \<Rightarrow> roll_strategy \<Rightarrow> int \<Rightarrow> roll_manager \<Rightarrow> roll_manager \<times> unit result" where
  "configure_underlying u st days m =
     (if days < 0 then (m, Inl ValueError)
      else (m\<lparr>rm_configs := AList.update u \<lparr>ro_underlying = u, ro_strategy = st, ro_days_before_expiry = days\<rparr> (rm_configs m)\<rparr>, Inr ()))"

definition get_roll_config :: "string \<Rightarrow> roll_manager \<Rightarrow> roll_config" where
  "get_roll_config u m =
     (case map_of (rm_configs m) u of
        Some c \<Rightarrow> c
      | None \<Rightarrow> \<lparr>ro_underlying = u, ro_strategy = rm_default_strategy m, ro_days_before_expiry = rm_default_days_before m\<rparr>)"

definition get_positions_to_roll :: "int \<Rightarrow> int option \<Rightarrow> contract list \<Rightarrow> roll_manager \<Rightarrow> contract list result" where
  "get_positions_to_roll today days table m =
     (let lookup_days = (case days of None \<Rightarrow> rm_default_days_before m | Some d \<Rightarrow> d)
      in if lookup_days < 0 then Inl ValueError
         else Inr (sort_key dc_expiry (filter (\<lambda>c. field_is contract_type_value (dc_type c) FUTURE_CONTRACT
                \<and> today \<le> dc_expiry c \<and> dc_expiry c \<le> today + lookup_days) table)))"

definition month_codes :: string where
  "month_codes = ''FGHJKMNQUVXZ''"

text \<open>The index of the first occurrence; the code checks that there is one.\<close>

fun index_of :: "'a \<Rightarrow> 'a list \<Rightarrow> nat" where
  "index_of x [] = 0"
| "index_of x (y # ys) = (if x = y then 0 else Suc (index_of x ys))"

text \<open>The loop over the codes, in their own order; the first that occurs in the suffix is advanced.\<close>

fun roll_code :: "nat \<Rightarrow> string \<Rightarrow> string \<Rightarrow> string \<Rightarrow> string \<Rightarrow> string" where
  "roll_code i [] symbol underlying suff = underlying @ ''_NEXT''"
| "roll_code i (code # codes) symbol underlying suff =
     (if code \<in> set suff
      then (let next_code = month_codes ! ((i + 1) mod 12);
                code_pos = length underlying + index_of code suff
            in take code_pos symbol @ [next_code] @ drop (code_pos + 1) symbol)
      else roll_code (Suc i) codes symbol underlying suff)"

definition next_contract_symbol :: "contract \<Rightarrow> string" where
  "next_contract_symbol c =
     (let symbol = dc_symbol c; underlying = dc_underlying c;
          suff = (if prefix (py_upper underlying) (py_upper symbol) then drop (length underlying) symbol else symbol)
      in roll_code 0 month_codes symbol underlying suff)"

text \<open>For a contract that is no future the message of the ValueError reads \<open>.value\<close> first.\<close>

definition generate_roll_plan :: "contract \<Rightarrow> roll_manager \<Rightarrow> roll_plan result" where
  "generate_roll_plan c m =
     (if \<not> field_is contract_type_value (dc_type c) FUTURE_CONTRACT
      then res_bind (field_value contract_type_value (dc_type c)) (\<lambda>_. Inl ValueError)
      else let cfg = get_roll_config (dc_underlying c) m
           in Inr \<lparr>rp_symbol = dc_symbol c, rp_strategy = ro_strategy cfg,
                rp_close_action = ''SELL '' @ dc_symbol c @ '' to close'',
                rp_open_action = (if ro_strategy cfg = CALENDAR_SPREAD
                  then Some (''BUY '' @ next_contract_symbol c @ '' to open'') else None)\<rparr>)"

section \<open>The expiration worker\<close>

record worker_env =
  we_hub :: hub_config
  we_now :: int
  we_today :: int
  we_uuid :: "nat \<Rightarrow> string"
  we_iso_date :: "int \<Rightarrow> string"
  we_str_decimal :: "decimal \<Rightarrow> string"

definition default_warning_days :: int where "default_warning_days = 5"

definition expiry_severity :: "int \<Rightarrow> sev" where
  "expiry_severity days = (if days \<le> 1 then SEV1 else if days \<le> 3 then SEV2 else SEV3)"

definition contract_desc :: "expiration_alert \<Rightarrow> string result" where
  "contract_desc a =
     res_bind (field_value contract_type_value (ea_contract_type a)) (\<lambda>desc.
       case ea_put_call a of
         None \<Rightarrow> Inr desc
       | Some pc \<Rightarrow> if field_text put_call_value pc = [] then Inr desc
                    else res_bind (field_value put_call_value pc) (\<lambda>v. Inr (v @ '' option'')))"

definition expiry_request :: "worker_env \<Rightarrow> int \<Rightarrow> string \<Rightarrow> string \<Rightarrow> string option \<Rightarrow> expiration_alert \<Rightarrow> alert_request" where
  "expiry_request env warning_days desc ctype pc a =
     \<lparr>aq_type = OPTION_EXPIRING, aq_severity = expiry_severity (ea_days_to_expiry a),
      aq_summary = ea_symbol a @ '' ('' @ desc @ '') expires in '' @ show_int (ea_days_to_expiry a) @ '' day(s) on '' @ we_iso_date env (ea_expiry a),
      aq_alert_id = None, aq_timestamp = None, aq_account_id = None, aq_symbol = Some (ea_underlying a), aq_strategy_id = None,
      aq_run_id = None,
      aq_details = Some
        [(''position_id'', PyScalar (SStr (ea_symbol a))), (''contract_symbol'', PyScalar (SStr (ea_symbol a))),
         (''underlying'', PyScalar (SStr (ea_underlying a))), (''expiry'', PyScalar (SStr (we_iso_date env (ea_expiry a)))),
         (''days_to_expiry'', PyScalar (SInt (ea_days_to_expiry a))), (''threshold_days'', PyScalar (SInt warning_days)),
         (''contract_type'', PyScalar (SStr ctype)),
         (''put_call'', PyScalar (case pc of None \<Rightarrow> SNull | Some v \<Rightarrow> SStr v)),
         (''strike'', PyScalar (case ea_strike a of None \<Rightarrow> SNull | Some k \<Rightarrow> if k = 0 then SNull else SStr (we_str_decimal env k)))]\<rparr>"

text \<open>The texts before the \<open>try\<close> may raise; an error of creating or emitting is logged.\<close>

definition process_expiration_alert :: "worker_env \<Rightarrow> int \<Rightarrow> bool \<Rightarrow> expiration_alert \<Rightarrow> hub \<Rightarrow> hub \<times> unit result" where
  "process_expiration_alert env warning_days service a h =
     (case contract_desc a of
        Inl e \<Rightarrow> (h, Inl e)
      | Inr desc \<Rightarrow>
          if \<not> service then (h, Inr ())
          else (case field_value contract_type_value (ea_contract_type a) of
                  Inl _ \<Rightarrow> (h, Inr ())
                | Inr ctype \<Rightarrow>
                    (case (case ea_put_call a of None \<Rightarrow> Inr None
                           | Some pc \<Rightarrow> if field_text put_call_value pc = [] then Inr None
                                        else map_sum id Some (field_value put_call_value pc)) of
                       Inl _ \<Rightarrow> (h, Inr ())
                     | Inr pc \<Rightarrow>
                         (case create_alert (we_uuid env (length (adb_alerts (hub_db h)))) (we_now env)
                                 (expiry_request env warning_days desc ctype pc a) of
                            Inl _ \<Rightarrow> (h, Inr ())
                          | Inr ev \<Rightarrow> (fst (emit (we_hub env) (we_now env) True ev h), Inr ())))))"

fun process_alerts :: "worker_env \<Rightarrow> int \<Rightarrow> bool \<Rightarrow> expiration_alert list \<Rightarrow> hub \<Rightarrow> hub \<times> unit result" where
  "process_alerts env warning_days service [] h = (h, Inr ())"
| "process_alerts env warning_days service (a # as) h =
     (case process_expiration_alert env warning_days service a h of
        (h', Inl e) \<Rightarrow> (h', Inl e)
      | (h', Inr _) \<Rightarrow> process_alerts env warning_days service as h')"

definition run_check :: "worker_env \<Rightarrow> int \<Rightarrow> bool \<Rightarrow> contract list \<Rightarrow> hub \<Rightarrow> hub \<times> expiration_alert list result" where
  "run_check env warning_days service table h =
     (case check_expirations (we_today env) warning_days table of
        Inl e \<Rightarrow> (h, Inl e)
      | Inr as \<Rightarrow>
          (case process_alerts env warning_days service as h of
             (h', Inl e) \<Rightarrow> (h', Inl e)
           | (h', Inr _) \<Rightarrow> (h', Inr as)))"

section \<open>Expiry windows\<close>

lemma expiring_positions_spec:
  assumes "0 \<le> d" and "get_expiring_positions today d None table = Inr cs"
  shows "sorted (map dc_expiry cs) \<and> set cs = {c \<in> set table. 0 \<le> days_to_expiry today c \<and> days_to_expiry today c \<le> d}"
  using assms by (auto simp: get_expiring_positions_def days_to_expiry_def)

text \<open>The days configured for an underlying never matter for finding what to roll.\<close>

lemma configure_keeps_default: "rm_default_days_before (fst (configure_underlying u st n m)) = rm_default_days_before m"
  by (simp add: configure_underlying_def)

lemma configured_days_ignored:
  "get_positions_to_roll today days table (fst (configure_underlying u st n m)) = get_positions_to_roll today days table m"
  by (cases days) (simp_all add: get_positions_to_roll_def configure_keeps_default)

section \<open>Assignment\<close>

definition intrinsic :: "put_call \<Rightarrow> decimal \<Rightarrow> decimal \<Rightarrow> decimal" where
  "intrinsic pc k price = (case pc of CALL \<Rightarrow> max 0 (price - k) | PUT \<Rightarrow> max 0 (k - price))"

definition signed_shares :: "assignment_estimate \<Rightarrow> int" where
  "signed_shares e = (if ae_direction e = ASSIGN_BUY then ae_resulting_shares e else - ae_resulting_shares e)"

text \<open>C30. An assignment trades value for value: for any position, long or short, the cash it moves plus
  the shares at the current price are worth the intrinsic value of the contracts.\<close>

theorem assignment_conserves_value:
  assumes "dc_strike c = Some k" and "dc_put_call c = Some (Member pc)" and "money k" and "int32 (quantity * mult)" and "0 < mult"
  shows "\<exists>e. estimate_assignment mult c price quantity = Inr e
    \<and> ae_cash_impact e + of_int (signed_shares e) * price = of_int (quantity * mult) * intrinsic pc k price"
proof -
  have n: "int32 (\<bar>quantity\<bar> * mult)" using assms(4,5) by (simp add: abs_mult)
  have neg: "dec (- k) = - k" using dec_grid [OF on_grid_minus [OF assms(3)]] by simp
  have exact: "dec_mul k (of_int (\<bar>quantity\<bar> * mult)) = k * of_int (\<bar>quantity\<bar> * mult)"
    "dec_mul (dec (- k)) (of_int (\<bar>quantity\<bar> * mult)) = - k * of_int (\<bar>quantity\<bar> * mult)"
    unfolding neg by (rule dec_mul_money [OF assms(3) n], rule dec_mul_money [OF on_grid_minus [OF assms(3)] n])
  show ?thesis
    using assms(1,2,5) exact
    by (cases pc; cases "quantity \<ge> 0")
      (auto simp: estimate_assignment_def calculate_itm_status_def field_is_def field_text_def field_value_def Let_def
        signed_shares_def intrinsic_def max_def abs_if algebra_simps not_less)
qed

text \<open>On an object loaded from the database it raises.\<close>

lemma itm_of_loaded_row:
  assumes "dc_strike c = Some k" and "dc_put_call c = Some (Raw s)"
  shows "estimate_assignment mult c price quantity = Inl AttributeError"
  using assms by (simp add: estimate_assignment_def calculate_itm_status_def field_value_def Let_def)

section \<open>Contract months\<close>

lemma index_of_head [simp]: "index_of x (x # xs) = 0" by simp

lemma roll_code_found:
  assumes "j < length cs" and "distinct cs" and "set cs \<inter> set yr = {}" and "c = cs ! j"
  shows "roll_code i cs symbol u (c # yr) = take (length u) symbol @ [month_codes ! ((i + j + 1) mod 12)] @ drop (length u + 1) symbol"
  using assms
proof (induction cs arbitrary: i j)
  case (Cons x xs)
  show ?case
  proof (cases j)
    case 0
    then show ?thesis using Cons.prems by (simp add: Let_def)
  next
    case (Suc n)
    then have "c = xs ! n" "n < length xs" using Cons.prems by auto
    moreover have "x \<notin> set (c # yr)" using Cons.prems(2,3) calculation by auto
    ultimately show ?thesis using Cons.IH [of n "Suc i"] Cons.prems Suc by simp
  qed
qed simp

definition month_symbol :: "string \<Rightarrow> nat \<Rightarrow> string \<Rightarrow> string" where
  "month_symbol u i year = u @ [month_codes ! i] @ year"

lemma next_month:
  assumes "i < 12" and "dc_symbol c = month_symbol (dc_underlying c) i year" and "set month_codes \<inter> set year = {}"
  shows "next_contract_symbol c = month_symbol (dc_underlying c) ((i + 1) mod 12) year"
proof -
  have "prefix (py_upper (dc_underlying c)) (py_upper (dc_symbol c))" by (simp add: assms(2) month_symbol_def py_upper_def)
  moreover have "distinct month_codes" "length month_codes = 12" by (simp_all add: month_codes_def)
  ultimately show ?thesis
    using roll_code_found [of i month_codes year "month_codes ! i" 0 "dc_symbol c" "dc_underlying c"] assms
    by (simp add: next_contract_symbol_def Let_def month_symbol_def)
qed

text \<open>Twelve rolls lead back to the same contract: the year never advances.\<close>

lemma roll_is_cyclic:
  assumes "i < 12" and "set month_codes \<inter> set year = {}"
  shows "((\<lambda>s. next_contract_symbol (c\<lparr>dc_symbol := s, dc_underlying := u\<rparr>)) ^^ n) (month_symbol u i year) = month_symbol u ((i + n) mod 12) year"
proof (induction n)
  case (Suc n)
  have "next_contract_symbol (c\<lparr>dc_symbol := month_symbol u ((i + n) mod 12) year, dc_underlying := u\<rparr>)
      = month_symbol u (((i + n) mod 12 + 1) mod 12) year"
    using next_month [of "(i + n) mod 12" "c\<lparr>dc_symbol := month_symbol u ((i + n) mod 12) year, dc_underlying := u\<rparr>" year] assms(2) by simp
  with Suc show ?case by (simp add: mod_Suc_eq)
qed (use assms(1) in simp)

lemma year_never_advances:
  assumes "i < 12" and "set month_codes \<inter> set year = {}"
  shows "((\<lambda>s. next_contract_symbol (c\<lparr>dc_symbol := s, dc_underlying := u\<rparr>)) ^^ 12) (month_symbol u i year) = month_symbol u i year"
  using roll_is_cyclic [OF assms, where n = 12 and c = c and u = u] assms(1) by simp

section \<open>One warning per contract\<close>

text \<open>The deduplication key of the worker's alert does not depend on the days that are left.\<close>

lemma expiry_key:
  assumes "create_alert uuid now (expiry_request env w desc ctype pc a) = Inr ev" and "compute_dedupe_key ev = Inr k"
  shows "k = ''option_expiring::'' @ ea_symbol a @ '':threshold_'' @ show_int w @ '':permanent''"
proof -
  let ?d = "the (aq_details (expiry_request env w desc ctype pc a))"
  have len: "length ?d = 9" by (simp add: expiry_request_def)
  have det: "alert_details ev = sanitize_details max_details_bytes ?d"
    and fp: "alert_fingerprint ev = ''option_expiring::'' @ ea_symbol a" and ty: "alert_type ev = OPTION_EXPIRING"
    using assms(1) by (auto simp: create_alert_def res_bind_eq_Inr expiry_request_def build_fingerprint_def get_value_def or_empty_def)
  have all: "map_of (map (map_prod id to_json_safe) ?d) ''threshold_days'' = Some (SInt w)"
    by (simp add: expiry_request_def)
  have trunc: "map_of (map (map_prod id f) xs) x = map_option f (map_of xs x)" for f :: "scalar \<Rightarrow> scalar" and xs x
    by (induction xs) auto
  have "map_of (sanitize_details n ?d) ''threshold_days'' \<in> {None, Some (SInt w)}" for n
    using all len by (auto simp: sanitize_details_def Let_def max_keys_def trunc truncate_value_def details_too_large_def)
  from this [of max_details_bytes] have "map_of (alert_details ev) ''threshold_days'' = None \<or> map_of (alert_details ev) ''threshold_days'' = Some (SInt w)"
    unfolding det by simp
  moreover have "map_of (alert_details ev) ''threshold_days'' \<noteq> None"
    using assms(2) ty
    by (cases "map_of (alert_details ev) ''threshold_days''")
      (simp_all add: compute_dedupe_key_def recovery_types_def get_dedupe_strategy_def dedupe_strategies_def)
  ultimately have "map_of (alert_details ev) ''threshold_days'' = Some (SInt w)" by simp
  then show ?thesis using assms(2) ty fp
    by (simp add: compute_dedupe_key_def recovery_types_def get_dedupe_strategy_def dedupe_strategies_def)
qed

text \<open>Once an expiry alert for a contract is stored, no later alert for it is ever queued, however few
  days are left: the critical warning of the last day is suppressed by the notice sent before.\<close>

theorem worker_warns_once:
  assumes "''option_expiring::'' @ ea_symbol a @ '':threshold_'' @ show_int w @ '':permanent'' \<in> set (keys_in (hub_db h))"
    and "distinct (keys_in (hub_db h))"
  shows "hub_queue (fst (process_expiration_alert env w service a h)) = hub_queue h"
proof -
  have one: "hub_queue (fst (emit (we_hub env) (we_now env) True ev h)) = hub_queue h"
    if ev: "create_alert uuid (we_now env) (expiry_request env w desc ctype pc a) = Inr ev" for uuid desc ctype pc ev
  proof (cases "compute_dedupe_key ev")
    case (Inl e)
    then show ?thesis by (simp add: emit_def persist_alert_def split: sum.split)
  next
    case (Inr k)
    have "k \<in> set (keys_in (hub_db h))" using expiry_key [OF ev Inr] assms(1) by simp
    from persist_duplicate [OF Inr this assms(2), of "we_now env"] obtain db i where
      "persist_alert (we_now env) ev (hub_db h) = (db, Inr (False, i))" by blast
    moreover have "alert_type ev \<notin> recovery_types"
      using ev by (auto simp: create_alert_def res_bind_eq_Inr expiry_request_def recovery_types_def)
    ultimately show ?thesis by (simp add: emit_def split: sum.split)
  qed
  show ?thesis
    by (auto simp: process_expiration_alert_def one split: sum.split option.split)
qed

text \<open>A contract loaded from the database stops the whole run before its alert is made.\<close>

lemma loaded_contract_stops_run:
  assumes "0 \<le> w" and "table \<noteq> []" and "\<forall>c \<in> set table. (\<exists>s. dc_type c = Raw s) \<and> we_today env \<le> dc_expiry c \<and> dc_expiry c \<le> we_today env + w"
  shows "run_check env w service table h = (h, Inl AttributeError)"
proof -
  have all: "filter (\<lambda>c. we_today env \<le> dc_expiry c \<and> dc_expiry c \<le> we_today env + w) table = table"
    using assms(3) by (auto intro: filter_True)
  obtain c cs where cs: "sort_key dc_expiry table = c # cs"
    using assms(2) by (metis length_0_conv length_sort neq_Nil_conv)
  have "c \<in> set table" using cs by (metis list.set_intros(1) set_sort)
  then obtain s where "dc_type c = Raw s" using assms(3) by blast
  then show ?thesis using assms(1) cs
    by (simp add: run_check_def check_expirations_def get_expiring_positions_def all process_expiration_alert_def contract_desc_def
        field_value_def)
qed

section \<open>Concrete values\<close>

definition demo_option :: contract where
  "demo_option =
     \<lparr>dc_symbol = ''SPYP'', dc_underlying = ''SPY'', dc_type = Member OPTION_CONTRACT, dc_expiry = 10, dc_strike = Some 400,
      dc_put_call = Some (Member PUT)\<rparr>"

theorem assignment_conserves_value_witness:
  "\<exists>e. estimate_assignment 100 demo_option 390 (- 2) = Inr e
    \<and> ae_cash_impact e + of_int (signed_shares e) * 390 = of_int (- 2 * 100) * intrinsic PUT 400 390"
  by (rule assignment_conserves_value) (simp_all add: demo_option_def on_grid_def)

definition demo_expiry :: expiration_alert where
  "demo_expiry =
     \<lparr>ea_symbol = ''SPYP'', ea_underlying = ''SPY'', ea_expiry = 10, ea_days_to_expiry = 0, ea_contract_type = Member OPTION_CONTRACT,
      ea_put_call = Some (Member PUT), ea_strike = Some 400\<rparr>"

definition demo_env :: worker_env where
  "demo_env = \<lparr>we_hub = demo_hub_config, we_now = 0, we_today = 10, we_uuid = (\<lambda>n. replicate n (CHR ''u'')), we_iso_date = (\<lambda>_. ''d''),
     we_str_decimal = (\<lambda>_. ''400'')\<rparr>"

definition warned_db :: alert_db where
  "warned_db =
     \<lparr>adb_alerts = [\<lparr>ar_id = ''a'', ar_type = OPTION_EXPIRING, ar_severity = SEV3, ar_fingerprint = ''option_expiring::SPYP'',
        ar_dedupe_key = ''option_expiring::SPYP:threshold_5:permanent'', ar_summary = ''s'', ar_details = Some [], ar_account_id = None,
        ar_symbol = None, ar_strategy_id = None, ar_suppressed_count = 0, ar_event_timestamp = \<lparr>pt_micros = 0, pt_zone = Some UTC\<rparr>,
        ar_created_at = 0\<rparr>], adb_deliveries = []\<rparr>"

theorem worker_warns_once_witness:
  "hub_queue (fst (process_expiration_alert demo_env 5 True demo_expiry (hub_init warned_db))) = []"
proof -
  have five: "show_int 5 = ''5''" by (simp add: show_int_def show_nat.simps digit_char_def char_of_def bit_0)
  have "hub_queue (fst (process_expiration_alert demo_env 5 True demo_expiry (hub_init warned_db))) = hub_queue (hub_init warned_db)"
    by (rule worker_warns_once) (simp_all add: five hub_init_def warned_db_def keys_in_def demo_expiry_def)
  then show ?thesis by (simp add: hub_init_def)
qed

end
