(* ===== verification/Options.thy ===== *)
theory Options
  imports Derivatives Portfolio_Repo "HOL-Library.Product_Lexorder"
begin

text \<open>
  Expiration alerts of option positions: the thresholds (options/thresholds.py), the checker that
  scans an account (options/checker.py), the scheduler's advisory lock (options/scheduler.py), the
  idempotency keys (options/idempotency.py) and the alert endpoints of api/options.py in their
  PostgreSQL form. A position is stored with its \<open>put_call\<close>; whether the object at hand was made in
  the process or loaded from a row is an argument, and only the former has an enumeration member
  there. Texts are UTF-8, one character a byte. The casts of the database, the texts of dates and
  floats and the uuids are arguments. Lemmas: one alert per threshold whatever the number of runs,
  mutual exclusion by the lock, the lifetime of an idempotency key, what the listing shows.
\<close>

section \<open>Thresholds\<close>

record threshold =
  th_days :: int
  th_severity :: sev

definition expiration_thresholds :: "threshold list" where
  "expiration_thresholds =
     [\<lparr>th_days = 0, th_severity = SEV1\<rparr>, \<lparr>th_days = 1, th_severity = SEV1\<rparr>, \<lparr>th_days = 3, th_severity = SEV2\<rparr>,
      \<lparr>th_days = 7, th_severity = SEV3\<rparr>]"

definition get_applicable_thresholds :: "int \<Rightarrow> threshold list" where
  "get_applicable_thresholds dte = filter (\<lambda>t. th_days t \<ge> dte) expiration_thresholds"

section \<open>The checker\<close>

datatype check_error = MissingExpiry nat string | AlertFailed nat int py_error

record check_stats =
  cs_run_id :: string
  cs_checked :: nat
  cs_missing_expiry :: nat
  cs_expired :: nat
  cs_not_soon :: nat
  cs_attempted :: nat
  cs_created :: nat
  cs_deduplicated :: nat
  cs_errors :: "check_error list"

record checker_env =
  ck_now :: int
  ck_today :: int
  ck_uuid :: "nat \<Rightarrow> string"
  ck_iso_date :: "int \<Rightarrow> string"
  ck_float_text :: "decimal \<Rightarrow> string"
  ck_loaded :: "position \<Rightarrow> bool"

definition put_call_attribute :: "checker_env \<Rightarrow> position \<Rightarrow> put_call field option" where
  "put_call_attribute env p =
     map_option (\<lambda>pc. if ck_loaded env p then Raw (put_call_value pc) else Member pc) (pos_put_call p)"

text \<open>The three Chinese texts: the option expires today at the close, tomorrow, in some days.\<close>

definition utf8 :: "nat list \<Rightarrow> string" where
  "utf8 = map char_of"

definition text_option :: string where "text_option = utf8 [230, 156, 159, 230, 157, 131]"
definition text_today :: string where
  "text_today = utf8 [228, 187, 138, 230, 151, 165, 230, 148, 182, 231, 155, 152, 229, 136, 176, 230, 156, 159]"
definition text_tomorrow :: string where
  "text_tomorrow = utf8 [230, 152, 142, 230, 151, 165, 229, 136, 176, 230, 156, 159]"
definition text_in :: string where "text_in = utf8 [229, 176, 134, 229, 156, 168]"
definition text_days_later :: string where
  "text_days_later = utf8 [229, 164, 169, 229, 144, 142, 229, 136, 176, 230, 156, 159]"

definition expiry_summary :: "string \<Rightarrow> int \<Rightarrow> string" where
  "expiry_summary symbol dte =
     (if dte = 0 then text_option @ '' '' @ symbol @ '' '' @ text_today
      else if dte = 1 then text_option @ '' '' @ symbol @ '' '' @ text_tomorrow
      else text_option @ '' '' @ symbol @ '' '' @ text_in @ '' '' @ show_int dte @ '' '' @ text_days_later)"

definition option_details :: "checker_env \<Rightarrow> position \<Rightarrow> decimal \<Rightarrow> int \<Rightarrow> string \<Rightarrow> int \<Rightarrow> int \<Rightarrow> (string \<times> py_value) list" where
  "option_details env p k e pc days dte =
     [(''threshold_days'', PyScalar (SInt days)), (''expiry_date'', PyScalar (SStr (ck_iso_date env e))),
      (''days_to_expiry'', PyScalar (SInt dte)), (''position_id'', PyScalar (SInt (int (pos_id p)))),
      (''strike'', PyScalar (SFloat (ck_float_text env k))), (''put_call'', PyScalar (SStr pc)),
      (''quantity'', PyScalar (SInt (pos_quantity p)))]"

text \<open>A position has no attribute \<open>contract_key\<close>, so that entry is never added.\<close>

definition create_expiration_alert ::
  "checker_env \<Rightarrow> string \<Rightarrow> string \<Rightarrow> position \<Rightarrow> int \<Rightarrow> threshold \<Rightarrow> int \<Rightarrow> alert result" where
  "create_expiration_alert env uuid account p e t dte =
     (case strike p of
        None \<Rightarrow> Inl ValueError
      | Some k \<Rightarrow>
          (case put_call_attribute env p of
             None \<Rightarrow> Inl ValueError
           | Some f \<Rightarrow>
               res_bind (field_value put_call_value f) (\<lambda>pc.
                 create_alert uuid (ck_now env)
                   \<lparr>aq_type = OPTION_EXPIRING, aq_severity = th_severity t, aq_summary = expiry_summary (pos_symbol p) dte,
                    aq_alert_id = None, aq_timestamp = None, aq_account_id = Some account, aq_symbol = Some (pos_symbol p),
                    aq_strategy_id = None, aq_run_id = None, aq_details = Some (option_details env p k e pc (th_days t) dte)\<rparr>)))"

type_synonym check_state = "alert_db \<times> check_stats"

definition check_threshold ::
  "checker_env \<Rightarrow> string \<Rightarrow> position \<Rightarrow> int \<Rightarrow> int \<Rightarrow> threshold \<Rightarrow> check_state \<Rightarrow> check_state" where
  "check_threshold env account p e dte t s =
     (let db = fst s;
          st = (snd s)\<lparr>cs_attempted := cs_attempted (snd s) + 1\<rparr>;
          failed = (\<lambda>err. st\<lparr>cs_errors := cs_errors st @ [AlertFailed (pos_id p) (th_days t) err]\<rparr>)
      in case create_expiration_alert env (ck_uuid env (length (adb_alerts db))) account p e t dte of
           Inl err \<Rightarrow> (db, failed err)
         | Inr a \<Rightarrow>
             (case persist_alert (ck_now env) a db of
                (db', Inl err) \<Rightarrow> (db', failed err)
              | (db', Inr (is_new, _)) \<Rightarrow>
                  (db', if is_new then st\<lparr>cs_created := cs_created st + 1\<rparr> else st\<lparr>cs_deduplicated := cs_deduplicated st + 1\<rparr>)))"

text \<open>Nothing before the thresholds can raise once the expiry is known to be a date.\<close>

definition check_position :: "checker_env \<Rightarrow> string \<Rightarrow> position \<Rightarrow> check_state \<Rightarrow> check_state" where
  "check_position env account p s =
     (let db = fst s;
          st = (snd s)\<lparr>cs_checked := cs_checked (snd s) + 1\<rparr>
      in case expiry p of
           None \<Rightarrow> (db, st\<lparr>cs_missing_expiry := cs_missing_expiry st + 1, cs_errors := cs_errors st @ [MissingExpiry (pos_id p) (pos_symbol p)]\<rparr>)
         | Some e \<Rightarrow>
             (let dte = e - ck_today env
              in if dte < 0 then (db, st\<lparr>cs_expired := cs_expired st + 1\<rparr>)
                 else if get_applicable_thresholds dte = [] then (db, st\<lparr>cs_not_soon := cs_not_soon st + 1\<rparr>)
                 else fold (check_threshold env account p e dte) (get_applicable_thresholds dte) (db, st)))"

definition empty_stats :: "string \<Rightarrow> check_stats" where
  "empty_stats run_id =
     \<lparr>cs_run_id = run_id, cs_checked = 0, cs_missing_expiry = 0, cs_expired = 0, cs_not_soon = 0, cs_attempted = 0, cs_created = 0,
      cs_deduplicated = 0, cs_errors = []\<rparr>"

definition option_positions :: "string \<Rightarrow> db \<Rightarrow> position list" where
  "option_positions account d = filter (\<lambda>p. pos_asset_type p = OPTION) (get_positions d account None None None)"

definition check_account :: "checker_env \<Rightarrow> string \<Rightarrow> string \<Rightarrow> db \<Rightarrow> alert_db \<Rightarrow> check_state" where
  "check_account env run_id account d adb =
     fold (check_position env account) (option_positions account d) (adb, empty_stats run_id)"

section \<open>The scheduler's lock\<close>

text \<open>PostgreSQL's advisory locks: pairs of key and session; a session may take its own lock again.
  The key is \<open>hash(text) mod 2^31\<close>, and Python's hash of a text is an argument, since it is
  different in every process.\<close>

type_synonym advisory_locks = "(int \<times> nat) list"

definition lock_key :: "(string \<Rightarrow> int) \<Rightarrow> int" where
  "lock_key py_hash = py_hash ''options_expiration_check'' mod 2 ^ 31"

definition try_acquire_lock :: "int \<Rightarrow> nat \<Rightarrow> advisory_locks \<Rightarrow> advisory_locks \<times> bool" where
  "try_acquire_lock key session locks =
     (if \<exists>l \<in> set locks. fst l = key \<and> snd l \<noteq> session then (locks, False) else ((key, session) # locks, True))"

definition release_lock :: "int \<Rightarrow> nat \<Rightarrow> advisory_locks \<Rightarrow> advisory_locks" where
  "release_lock key session locks = remove1 (key, session) locks"

definition run_check_with_lock ::
  "bool \<Rightarrow> int \<Rightarrow> nat \<Rightarrow> ('w \<Rightarrow> 'w \<times> 'r) \<Rightarrow> advisory_locks \<Rightarrow> 'w \<Rightarrow> advisory_locks \<times> 'w \<times> 'r option" where
  "run_check_with_lock use_distributed_lock key session check locks w =
     (if use_distributed_lock
      then (case try_acquire_lock key session locks of
              (locks1, False) \<Rightarrow> (locks1, w, None)
            | (locks1, True) \<Rightarrow> (case check w of (w', r) \<Rightarrow> (release_lock key session locks1, w', Some r)))
      else (case check w of (w', r) \<Rightarrow> (locks, w', Some r)))"

section \<open>Idempotency keys\<close>

record idempotency_row =
  ik_key :: string
  ik_resource_type :: string
  ik_resource_id :: string
  ik_response_data :: string
  ik_expires_at :: int

definition micros_per_hour :: int where "micros_per_hour = 3600000000"

definition store_key :: "int \<Rightarrow> string \<Rightarrow> string \<Rightarrow> string \<Rightarrow> json \<Rightarrow> int \<Rightarrow> idempotency_row list \<Rightarrow> idempotency_row list" where
  "store_key now key rtype rid response ttl_hours rows =
     (if key \<in> ik_key ` set rows then rows
      else rows @ [\<lparr>ik_key = key, ik_resource_type = rtype, ik_resource_id = rid, ik_response_data = dumps response,
        ik_expires_at = now + ttl_hours * micros_per_hour\<rparr>])"

definition get_cached_response :: "int \<Rightarrow> string \<Rightarrow> idempotency_row list \<Rightarrow> (bool \<times> json option) result" where
  "get_cached_response now key rows =
     (case find (\<lambda>r. ik_key r = key \<and> ik_expires_at r > now) rows of
        None \<Rightarrow> Inr (False, None)
      | Some r \<Rightarrow> (case loads (ik_response_data r) of None \<Rightarrow> Inl ValueError | Some v \<Rightarrow> Inr (True, Some v)))"

definition cleanup_expired :: "int \<Rightarrow> idempotency_row list \<Rightarrow> idempotency_row list \<times> nat" where
  "cleanup_expired now rows =
     (filter (\<lambda>r. \<not> ik_expires_at r \<le> now) rows, length (filter (\<lambda>r. ik_expires_at r \<le> now) rows))"


section \<open>The endpoints\<close>

datatype 'a response = Reply 'a | Failed_With nat

text \<open>\<open>details->>key\<close>: the text of a member, NULL when it is missing or null.\<close>

definition json_text :: "string \<Rightarrow> details option \<Rightarrow> string option" where
  "json_text key details =
     (case Option.bind details (\<lambda>d. map_of d key) of
        None \<Rightarrow> None
      | Some SNull \<Rightarrow> None
      | Some (SBool b) \<Rightarrow> Some (if b then ''true'' else ''false'')
      | Some v \<Rightarrow> Some (str_scalar v))"

text \<open>A cast of the database, None where the statement fails.\<close>

definition pg_cast :: "(string \<Rightarrow> 'a option) \<Rightarrow> string option \<Rightarrow> 'a option result" where
  "pg_cast f x =
     (case x of
        None \<Rightarrow> Inr None
      | Some t \<Rightarrow> (case f t of None \<Rightarrow> Inl (ExternalError ''DataError'') | Some v \<Rightarrow> Inr (Some v)))"

record listing_row =
  lr_alert_id :: string
  lr_severity :: int
  lr_threshold_days :: "int option"
  lr_created_at :: int
  lr_position_id :: "int option"
  lr_symbol :: "string option"
  lr_strike :: "double option"
  lr_put_call :: "string option"
  lr_expiry_date :: "string option"
  lr_quantity :: "int option"
  lr_days_to_expiry :: "int option"

fun sev_number :: "sev \<Rightarrow> int" where
  "sev_number SEV1 = 1" | "sev_number SEV2 = 2" | "sev_number SEV3 = 3"

definition select_row :: "(string \<Rightarrow> int option) \<Rightarrow> (string \<Rightarrow> double option) \<Rightarrow> alert_row \<Rightarrow> listing_row result" where
  "select_row pg_int pg_float r =
     (let txt = (\<lambda>k. json_text k (ar_details r))
      in res_bind (pg_cast pg_int (txt ''threshold_days'')) (\<lambda>th.
         res_bind (pg_cast pg_int (txt ''position_id'')) (\<lambda>pid.
         res_bind (pg_cast pg_float (txt ''strike'')) (\<lambda>k.
         res_bind (pg_cast pg_int (txt ''quantity'')) (\<lambda>q.
         res_bind (pg_cast pg_int (txt ''days_to_expiry'')) (\<lambda>dte.
         Inr \<lparr>lr_alert_id = ar_id r, lr_severity = sev_number (ar_severity r), lr_threshold_days = th, lr_created_at = ar_created_at r,
           lr_position_id = pid, lr_symbol = ar_symbol r, lr_strike = k, lr_put_call = txt ''put_call'',
           lr_expiry_date = txt ''expiry_date'', lr_quantity = q, lr_days_to_expiry = dte\<rparr>))))))"

datatype alert_sort = By_Dte | By_Severity | By_Expiry

text \<open>An ascending order puts NULL last.\<close>

definition nulls_last :: "'a option \<Rightarrow> 'a \<Rightarrow> nat \<times> 'a" where
  "nulls_last x d = (case x of None \<Rightarrow> (1, d) | Some v \<Rightarrow> (0, v))"

definition order_rows :: "alert_sort \<Rightarrow> listing_row list \<Rightarrow> listing_row list" where
  "order_rows by rows =
     (case by of
        By_Dte \<Rightarrow> sort_key (\<lambda>r. (nulls_last (lr_days_to_expiry r) 0, - lr_created_at r)) rows
      | By_Severity \<Rightarrow> sort_key (\<lambda>r. (lr_severity r, - lr_created_at r)) rows
      | By_Expiry \<Rightarrow> sort_key (\<lambda>r. (nulls_last (lr_expiry_date r) [], - lr_created_at r)) rows)"

record alert_view =
  av_alert_id :: string
  av_severity :: string
  av_threshold_days :: int
  av_created_at :: int
  av_acknowledged :: bool
  av_position_id :: int
  av_symbol :: string
  av_strike :: double
  av_put_call :: string
  av_expiry_date :: string
  av_quantity :: int
  av_days_to_expiry :: int
  av_is_closable :: bool

definition severity_text :: "int \<Rightarrow> string" where
  "severity_text n = (if n = 1 then ''critical'' else if n = 2 then ''warning'' else ''info'')"

text \<open>\<open>row[i] or default\<close>. Pydantic refuses a \<open>put_call\<close> that is neither put nor call.\<close>

definition or_default :: "'a \<Rightarrow> 'a option \<Rightarrow> 'a" where
  "or_default d x = (case x of None \<Rightarrow> d | Some v \<Rightarrow> v)"

definition view_row :: "listing_row \<Rightarrow> alert_view result" where
  "view_row r =
     (let pc = or_text (lr_put_call r) ''call''
      in if pc \<noteq> ''put'' \<and> pc \<noteq> ''call'' then Inl (ExternalError ''ValidationError'')
         else Inr \<lparr>av_alert_id = lr_alert_id r, av_severity = severity_text (lr_severity r),
           av_threshold_days = or_default 0 (lr_threshold_days r), av_created_at = lr_created_at r, av_acknowledged = False,
           av_position_id = or_default 0 (lr_position_id r), av_symbol = or_text (lr_symbol r) [], av_strike = or_default 0 (lr_strike r),
           av_put_call = pc, av_expiry_date = or_text (lr_expiry_date r) [], av_quantity = or_default 0 (lr_quantity r),
           av_days_to_expiry = or_default 0 (lr_days_to_expiry r), av_is_closable = True\<rparr>)"

record alerts_listing =
  al_alerts :: "alert_view list"
  al_total :: nat
  al_critical :: nat
  al_warning :: nat
  al_info :: nat

datatype alert_status_filter = Pending_Only | Acknowledged_Only | All_Alerts

text \<open>The three filters add nothing to the condition.\<close>

definition listed :: "alert_status_filter \<Rightarrow> string \<Rightarrow> alert_row \<Rightarrow> bool" where
  "listed status account r \<longleftrightarrow> ar_type r = OPTION_EXPIRING \<and> ar_account_id r = Some account"

definition get_expiring_alerts ::
  "(string \<Rightarrow> int option) \<Rightarrow> (string \<Rightarrow> double option) \<Rightarrow> string \<Rightarrow> alert_status_filter \<Rightarrow> alert_sort \<Rightarrow> alert_db \<Rightarrow> alerts_listing result" where
  "get_expiring_alerts pg_int pg_float account status sort_by db =
     res_bind (res_map (select_row pg_int pg_float) (filter (listed status account) (adb_alerts db))) (\<lambda>rows.
     res_bind (res_map view_row (order_rows sort_by rows)) (\<lambda>alerts.
       Inr \<lparr>al_alerts = alerts, al_total = length alerts,
         al_critical = length (filter (\<lambda>a. av_severity a = ''critical'') alerts),
         al_warning = length (filter (\<lambda>a. av_severity a = ''warning'') alerts),
         al_info = length (filter (\<lambda>a. av_severity a \<noteq> ''critical'' \<and> av_severity a \<noteq> ''warning'') alerts)\<rparr>))"

record ack_reply =
  ack_success :: bool
  ack_message :: string
  ack_at :: int

text \<open>Ids compare as texts; nothing is written.\<close>

definition acknowledge_alert :: "int \<Rightarrow> string \<Rightarrow> alert_db \<Rightarrow> alert_db \<times> ack_reply response" where
  "acknowledge_alert now i db =
     (if \<exists>r \<in> set (adb_alerts db). ar_id r = i \<and> ar_type r = OPTION_EXPIRING
      then (db, Reply \<lparr>ack_success = True, ack_message = ''Alert '' @ i @ '' acknowledged'', ack_at = now\<rparr>)
      else (db, Failed_With 404))"

record manual_check_reply =
  mc_run_id :: string
  mc_positions_checked :: nat
  mc_alerts_created :: nat
  mc_alerts_deduplicated :: nat
  mc_errors :: "string list"

definition trigger_manual_check :: "string \<Rightarrow> manual_check_reply" where
  "trigger_manual_check account =
     \<lparr>mc_run_id = ''manual-check-placeholder'', mc_positions_checked = 0, mc_alerts_created = 0, mc_alerts_deduplicated = 0,
      mc_errors = [''V1: Full implementation pending - use scheduler for production checks'']\<rparr>"

section \<open>One alert per threshold\<close>

definition option_key :: "string \<Rightarrow> position \<Rightarrow> threshold \<Rightarrow> string" where
  "option_key account p t =
     (alert_type_value OPTION_EXPIRING @ '':'' @ account @ '':'' @ show_int (int (pos_id p))) @ '':threshold_''
       @ show_int (th_days t) @ '':permanent''"

text \<open>The positions and thresholds that are due on a day.\<close>

definition due :: "int \<Rightarrow> position \<Rightarrow> threshold set" where
  "due today p =
     (case expiry p of
        None \<Rightarrow> {}
      | Some e \<Rightarrow> {t \<in> set expiration_thresholds. today \<le> e \<and> e - today \<le> th_days t})"

text \<open>A position whose alerts can be made: complete, not loaded from a row, its details not too large.\<close>

definition alertable :: "checker_env \<Rightarrow> position \<Rightarrow> bool" where
  "alertable env p \<longleftrightarrow> \<not> ck_loaded env p \<and>
     (\<exists>k pc. strike p = Some k \<and> pos_put_call p = Some pc
       \<and> (\<forall>e. expiry p = Some e \<longrightarrow> (\<forall>t \<in> due (ck_today env) p.
            check_size (map (map_prod id to_json_safe) (option_details env p k e (put_call_value pc) (th_days t) (e - ck_today env))) \<le> max_details_bytes)))"

definition uuids_in_order :: "checker_env \<Rightarrow> alert_db \<Rightarrow> bool" where
  "uuids_in_order env db \<longleftrightarrow> inj (ck_uuid env) \<and> ar_id ` set (adb_alerts db) \<subseteq> ck_uuid env ` {..<length (adb_alerts db)}"

lemma created_alert:
  assumes "\<not> ck_loaded env p" and "strike p = Some k" and "pos_put_call p = Some pc"
    and "check_size (map (map_prod id to_json_safe) (option_details env p k e (put_call_value pc) (th_days t) dte)) \<le> max_details_bytes"
  shows "\<exists>a. create_expiration_alert env uuid account p e t dte = Inr a \<and> compute_dedupe_key a = Inr (option_key account p t)
    \<and> alert_details a \<noteq> [] \<and> alert_id a = uuid \<and> alert_severity a = th_severity t"
proof -
  let ?d = "option_details env p k e (put_call_value pc) (th_days t) dte"
  have "sanitize_details max_details_bytes ?d = map (map_prod id to_json_safe) ?d"
    using assms(4) by (simp add: sanitize_details_def option_details_def)
  moreover have "map_of (map (map_prod id to_json_safe) ?d) ''threshold_days'' = Some (SInt (th_days t))" "?d \<noteq> []"
    "get_value ''position_id'' (Some ?d) = Some (PyScalar (SInt (int (pos_id p))))"
    by (simp_all add: option_details_def get_value_def)
  ultimately show ?thesis using assms(1-3)
    by (simp add: create_expiration_alert_def put_call_attribute_def field_value_def create_alert_def build_fingerprint_def
        compute_dedupe_key_def recovery_types_def get_dedupe_strategy_def dedupe_strategies_def option_key_def or_empty_def)
qed

text \<open>One threshold: the key is there afterwards, and the counters tell whether it is new.\<close>

lemma check_threshold_step:
  assumes "create_expiration_alert env (ck_uuid env (length (adb_alerts (fst s)))) account p e t dte = Inr a"
    and "compute_dedupe_key a = Inr key" and "alert_details a \<noteq> []" and "alert_id a = ck_uuid env (length (adb_alerts (fst s)))"
    and "distinct (keys_in (fst s))" and "uuids_in_order env (fst s)"
  shows "\<exists>db' st'. check_threshold env account p e dte t s = (db', st')
    \<and> keys_in db' = keys_in (fst s) @ (if key \<in> set (keys_in (fst s)) then [] else [key]) \<and> uuids_in_order env db'
    \<and> cs_attempted st' = cs_attempted (snd s) + 1 \<and> cs_errors st' = cs_errors (snd s)
    \<and> cs_created st' = cs_created (snd s) + (if key \<in> set (keys_in (fst s)) then 0 else 1)
    \<and> cs_deduplicated st' = cs_deduplicated (snd s) + (if key \<in> set (keys_in (fst s)) then 1 else 0)"
proof (cases "key \<in> set (keys_in (fst s))")
  case True
  from persist_duplicate [OF assms(2) True assms(5), of "ck_now env"] obtain db' i where
    p: "persist_alert (ck_now env) a (fst s) = (db', Inr (False, i))" "keys_in db' = keys_in (fst s)"
      "map ar_id (adb_alerts db') = map ar_id (adb_alerts (fst s))" by blast
  have "length (adb_alerts db') = length (adb_alerts (fst s))" using arg_cong [OF p(3), of length] by simp
  moreover have "ar_id ` set (adb_alerts db') = ar_id ` set (adb_alerts (fst s))" using arg_cong [OF p(3), of set] by simp
  ultimately show ?thesis using p True assms(1,6) by (simp add: check_threshold_def Let_def uuids_in_order_def)
next
  case False
  have "ck_uuid env (length (adb_alerts (fst s))) \<notin> ar_id ` set (adb_alerts (fst s))"
  proof
    assume "ck_uuid env (length (adb_alerts (fst s))) \<in> ar_id ` set (adb_alerts (fst s))"
    then have "ck_uuid env (length (adb_alerts (fst s))) \<in> ck_uuid env ` {..<length (adb_alerts (fst s))}"
      using assms(6) by (auto simp: uuids_in_order_def)
    then show False using assms(6) by (simp add: uuids_in_order_def inj_image_mem_iff)
  qed
  with persist_new [OF assms(2) False assms(3), of "ck_now env"] assms(4) obtain db' where
    p: "persist_alert (ck_now env) a (fst s) = (db', Inr (True, alert_id a))" "keys_in db' = keys_in (fst s) @ [key]"
      "map ar_id (adb_alerts db') = map ar_id (adb_alerts (fst s)) @ [alert_id a]" by auto
  have n: "length (adb_alerts db') = Suc (length (adb_alerts (fst s)))" using arg_cong [OF p(3), of length] by simp
  have "ar_id ` set (adb_alerts db') = insert (alert_id a) (ar_id ` set (adb_alerts (fst s)))" using arg_cong [OF p(3), of set] by simp
  then have "uuids_in_order env db'" using assms(4,6) n by (auto simp: uuids_in_order_def lessThan_Suc)
  then show ?thesis using p False assms(1) by (simp add: check_threshold_def Let_def)
qed


text \<open>What a piece of a check does: the given keys are all present afterwards, the new ones once each,
  and the counters agree with the table.\<close>

definition reaches :: "checker_env \<Rightarrow> string set \<Rightarrow> check_state \<Rightarrow> check_state \<Rightarrow> bool" where
  "reaches env K s s' \<longleftrightarrow>
     (\<exists>new. keys_in (fst s') = keys_in (fst s) @ new \<and> set new = K - set (keys_in (fst s))
        \<and> cs_created (snd s') = cs_created (snd s) + length new)
     \<and> distinct (keys_in (fst s')) \<and> uuids_in_order env (fst s')
     \<and> cs_attempted (snd s') + cs_created (snd s) + cs_deduplicated (snd s)
         = cs_attempted (snd s) + cs_created (snd s') + cs_deduplicated (snd s')"

lemma reaches_refl: "distinct (keys_in (fst s)) \<Longrightarrow> uuids_in_order env (fst s) \<Longrightarrow> reaches env {} s s"
  by (simp add: reaches_def)

lemma reaches_trans: "reaches env K s s1 \<Longrightarrow> reaches env L s1 s2 \<Longrightarrow> reaches env (K \<union> L) s s2"
proof -
  assume 1: "reaches env K s s1" and 2: "reaches env L s1 s2"
  obtain n1 where n1: "keys_in (fst s1) = keys_in (fst s) @ n1" "set n1 = K - set (keys_in (fst s))"
    "cs_created (snd s1) = cs_created (snd s) + length n1" using 1 by (auto simp: reaches_def)
  obtain n2 where n2: "keys_in (fst s2) = keys_in (fst s1) @ n2" "set n2 = L - set (keys_in (fst s1))"
    "cs_created (snd s2) = cs_created (snd s1) + length n2" using 2 by (auto simp: reaches_def)
  have "keys_in (fst s2) = keys_in (fst s) @ (n1 @ n2)" "set (n1 @ n2) = (K \<union> L) - set (keys_in (fst s))"
    "cs_created (snd s2) = cs_created (snd s) + length (n1 @ n2)" using n1 n2 by auto
  then show ?thesis using 1 2 unfolding reaches_def by (intro conjI exI [of _ "n1 @ n2"]) auto
qed

text \<open>A change of the other counters is not seen.\<close>

lemma reaches_start:
  assumes "reaches env K (db, st1) s'" and "cs_created st1 = cs_created st" and "cs_attempted st1 = cs_attempted st"
    and "cs_deduplicated st1 = cs_deduplicated st"
  shows "reaches env K (db, st) s'"
  using assms by (simp add: reaches_def)

lemma reaches_threshold:
  assumes "alertable env p" and "expiry p = Some e" and "t \<in> due (ck_today env) p"
    and "distinct (keys_in (fst s))" and "uuids_in_order env (fst s)"
  shows "reaches env {option_key account p t} s (check_threshold env account p e (e - ck_today env) t s)"
proof -
  obtain k pc where "\<not> ck_loaded env p" "strike p = Some k" "pos_put_call p = Some pc"
    "check_size (map (map_prod id to_json_safe) (option_details env p k e (put_call_value pc) (th_days t) (e - ck_today env))) \<le> max_details_bytes"
    using assms(1-3) by (auto simp: alertable_def)
  from created_alert [OF this, of "ck_uuid env (length (adb_alerts (fst s)))" account] obtain a where
    a: "create_expiration_alert env (ck_uuid env (length (adb_alerts (fst s)))) account p e t (e - ck_today env) = Inr a"
      "compute_dedupe_key a = Inr (option_key account p t)" "alert_details a \<noteq> []" "alert_id a = ck_uuid env (length (adb_alerts (fst s)))"
    by blast
  from check_threshold_step [OF a assms(4,5)] obtain db' st' where
    c: "check_threshold env account p e (e - ck_today env) t s = (db', st')"
    "keys_in db' = keys_in (fst s) @ (if option_key account p t \<in> set (keys_in (fst s)) then [] else [option_key account p t])"
    "uuids_in_order env db'" "cs_attempted st' = cs_attempted (snd s) + 1"
    "cs_created st' = cs_created (snd s) + (if option_key account p t \<in> set (keys_in (fst s)) then 0 else 1)"
    "cs_deduplicated st' = cs_deduplicated (snd s) + (if option_key account p t \<in> set (keys_in (fst s)) then 1 else 0)" by blast
  then show ?thesis using assms(4) by (auto simp: reaches_def)
qed

lemma reaches_parts: "reaches env K s s' \<Longrightarrow> distinct (keys_in (fst s')) \<and> uuids_in_order env (fst s')"
  by (simp add: reaches_def)

lemma reaches_fold:
  assumes "\<And>x s. x \<in> set xs \<Longrightarrow> distinct (keys_in (fst s)) \<Longrightarrow> uuids_in_order env (fst s) \<Longrightarrow> reaches env (K x) s (f x s)"
    and "distinct (keys_in (fst s))" and "uuids_in_order env (fst s)"
  shows "reaches env (\<Union>x \<in> set xs. K x) s (fold f xs s)"
  using assms
proof (induction xs arbitrary: s)
  case (Cons x xs)
  have 1: "reaches env (K x) s (f x s)" using Cons.prems by simp
  have "reaches env (\<Union>x \<in> set xs. K x) (f x s) (fold f xs (f x s))"
    using Cons.prems(1) reaches_parts [OF 1] by (intro Cons.IH) auto
  with reaches_trans [OF 1] show ?case by simp
qed (simp add: reaches_refl)

lemma reaches_position:
  assumes "alertable env p" and "distinct (keys_in (fst s))" and "uuids_in_order env (fst s)"
  shows "reaches env (option_key account p ` due (ck_today env) p) s (check_position env account p s)"
proof (cases "expiry p")
  case None
  then show ?thesis using assms by (simp add: check_position_def due_def reaches_def Let_def)
next
  case (Some e)
  let ?dte = "e - ck_today env"
  let ?st = "(snd s)\<lparr>cs_checked := cs_checked (snd s) + 1\<rparr>"
  have due: "due (ck_today env) p = (if ?dte < 0 then {} else set (get_applicable_thresholds ?dte))"
    using Some by (auto simp: due_def get_applicable_thresholds_def)
  show ?thesis
  proof (cases "?dte < 0 \<or> get_applicable_thresholds ?dte = []")
    case True
    then show ?thesis using Some assms due by (auto simp: check_position_def reaches_def Let_def)
  next
    case False
    have "reaches env (\<Union>t \<in> set (get_applicable_thresholds ?dte). {option_key account p t}) (fst s, ?st)
        (fold (check_threshold env account p e ?dte) (get_applicable_thresholds ?dte) (fst s, ?st))"
      using False due assms by (intro reaches_fold reaches_threshold [OF assms(1) Some]) auto
    then have "reaches env (option_key account p ` due (ck_today env) p) (fst s, ?st)
        (fold (check_threshold env account p e ?dte) (get_applicable_thresholds ?dte) (fst s, ?st))"
      using False due by (simp add: UNION_singleton_eq_range)
    from reaches_start [OF this, of "snd s"] show ?thesis using False Some by (simp add: check_position_def Let_def)
  qed
qed

definition due_keys :: "int \<Rightarrow> string \<Rightarrow> db \<Rightarrow> string set" where
  "due_keys today account d = (\<Union>p \<in> set (option_positions account d). option_key account p ` due today p)"

lemma check_reaches:
  assumes "\<forall>p \<in> set (option_positions account d). alertable env p" and "distinct (keys_in adb)" and "uuids_in_order env adb"
  shows "reaches env (due_keys (ck_today env) account d) (adb, empty_stats run_id) (check_account env run_id account d adb)"
  unfolding check_account_def due_keys_def using assms by (intro reaches_fold reaches_position) simp_all



text \<open>For positions loaded from the database no alert is ever made.\<close>

lemma loaded_threshold_fails:
  assumes "ck_loaded env p" and "strike p \<noteq> None"
  shows "fst (check_threshold env account p e dte t s) = fst s \<and> cs_created (snd (check_threshold env account p e dte t s)) = cs_created (snd s)"
  using assms
  by (auto simp: check_threshold_def create_expiration_alert_def put_call_attribute_def field_value_def Let_def split: option.split)

lemma loaded_threshold_fold:
  assumes "ck_loaded env p" and "strike p \<noteq> None"
  shows "fst (fold (check_threshold env account p e dte) ts s) = fst s
    \<and> cs_created (snd (fold (check_threshold env account p e dte) ts s)) = cs_created (snd s)"
  by (induction ts arbitrary: s) (simp_all add: loaded_threshold_fails [OF assms])

lemma loaded_position_fails:
  assumes "ck_loaded env p" and "strike p \<noteq> None"
  shows "fst (check_position env account p s) = fst s \<and> cs_created (snd (check_position env account p s)) = cs_created (snd s)"
  by (simp add: check_position_def Let_def loaded_threshold_fold [OF assms] split: option.split)

lemma loaded_positions_no_alert:
  assumes "\<forall>p \<in> set (option_positions account d). ck_loaded env p \<and> strike p \<noteq> None"
  shows "fst (check_account env run_id account d adb) = adb \<and> cs_created (snd (check_account env run_id account d adb)) = 0"
proof -
  have "fst (fold (check_position env account) ps s) = fst s \<and> cs_created (snd (fold (check_position env account) ps s)) = cs_created (snd s)"
    if "\<forall>p \<in> set ps. ck_loaded env p \<and> strike p \<noteq> None" for ps s
    using that by (induction ps arbitrary: s) (simp_all add: loaded_position_fails)
  from this [OF assms] show ?thesis by (simp add: check_account_def empty_stats_def)
qed

section \<open>The lock\<close>

text \<open>While another session holds the key no check runs; the lock is given back after a check.\<close>

lemma lock_held_skips:
  assumes "(key, other) \<in> set locks" and "other \<noteq> session"
  shows "run_check_with_lock True key session check locks w = (locks, w, None)"
  using assms by (force simp: run_check_with_lock_def try_acquire_lock_def)

lemma lock_given_back:
  assumes "\<forall>l \<in> set locks. fst l = key \<longrightarrow> snd l = session"
  shows "fst (run_check_with_lock True key session check locks w) = locks
    \<and> snd (snd (run_check_with_lock True key session check locks w)) = Some (snd (check w))"
  using assms by (auto simp: run_check_with_lock_def try_acquire_lock_def release_lock_def split: prod.split)

text \<open>Two processes that hash the text differently do not exclude each other.\<close>

lemma different_hashes_both_run:
  assumes "lock_key h1 \<noteq> lock_key h2"
  shows "snd (try_acquire_lock (lock_key h2) s2 (fst (try_acquire_lock (lock_key h1) s1 [])))"
  using assms by (simp add: try_acquire_lock_def)

section \<open>Idempotency keys\<close>

definition keys_unique :: "idempotency_row list \<Rightarrow> bool" where
  "keys_unique rows \<longleftrightarrow> distinct (map ik_key rows)"

lemma store_key_unique: "keys_unique rows \<Longrightarrow> keys_unique (store_key now key rt rid v ttl rows)"
  by (auto simp: keys_unique_def store_key_def)

lemma cleanup_unique: "keys_unique rows \<Longrightarrow> keys_unique (fst (cleanup_expired now rows))"
  by (simp add: keys_unique_def cleanup_expired_def distinct_map_filter)

lemma find_append: "find P (xs @ ys) = (case find P xs of None \<Rightarrow> find P ys | Some x \<Rightarrow> Some x)"
  by (induction xs) auto

lemma find_key_none: "key \<notin> ik_key ` set rows \<Longrightarrow> find (\<lambda>r. ik_key r = key \<and> P r) rows = None"
  by (auto simp: find_None_iff)

text \<open>The first response stored under a key is read back as it was until its time is over, whatever is
  stored under the key later; once it is over and cleaned up, the key takes a new response.\<close>

theorem first_response_kept:
  assumes "json_ok v" and "json_ok v'" and "key \<notin> ik_key ` set rows"
  shows "get_cached_response now2 key (store_key now1 key rt' rid' v' ttl' (store_key now key rt rid v ttl rows))
      = Inr (if now2 < now + ttl * micros_per_hour then (True, Some v) else (False, None))
    \<and> (now + ttl * micros_per_hour \<le> now1 \<longrightarrow>
       get_cached_response now2 key (store_key now1 key rt' rid' v' ttl'
         (fst (cleanup_expired now1 (store_key now key rt rid v ttl rows))))
       = Inr (if now2 < now1 + ttl' * micros_per_hour then (True, Some v') else (False, None)))"
proof -
  let ?row = "\<lparr>ik_key = key, ik_resource_type = rt, ik_resource_id = rid, ik_response_data = dumps v, ik_expires_at = now + ttl * micros_per_hour\<rparr>"
  have s: "store_key now key rt rid v ttl rows = rows @ [?row]" using assms(3) by (simp add: store_key_def)
  have again: "store_key now1 key rt' rid' v' ttl' (rows @ [?row]) = rows @ [?row]" by (simp add: store_key_def)
  have "get_cached_response now2 key (rows @ [?row]) = Inr (if now2 < now + ttl * micros_per_hour then (True, Some v) else (False, None))"
    using loads_dumps [OF assms(1)] by (simp add: get_cached_response_def find_append find_key_none [OF assms(3)])
  moreover have "get_cached_response now2 key (store_key now1 key rt' rid' v' ttl' (fst (cleanup_expired now1 (rows @ [?row]))))
       = Inr (if now2 < now1 + ttl' * micros_per_hour then (True, Some v') else (False, None))"
    if "now + ttl * micros_per_hour \<le> now1"
  proof -
    have fresh: "key \<notin> ik_key ` set (filter (\<lambda>r. \<not> ik_expires_at r \<le> now1) rows)" using assms(3) by auto
    show ?thesis using that fresh loads_dumps [OF assms(2)]
      by (simp add: cleanup_expired_def store_key_def get_cached_response_def find_append find_key_none [OF fresh])
  qed
  ultimately show ?thesis using s again by simp
qed

text \<open>So a key that has expired and not been cleaned up protects nothing: every repetition is a miss.\<close>

lemma expired_key_blocks_store:
  assumes "keys_unique rows" and "r \<in> set rows" and "ik_key r = key" and "ik_expires_at r \<le> now" and "now \<le> now2"
  shows "get_cached_response now2 key (store_key now key rt rid v ttl rows) = Inr (False, None)"
proof -
  have "ik_expires_at x \<le> now2" if "x \<in> set rows" "ik_key x = key" for x
  proof -
    have "x = r" using assms(1-3) that by (auto simp: keys_unique_def distinct_map dest: inj_onD)
    with assms(4,5) show ?thesis by simp
  qed
  then have "find (\<lambda>r. ik_key r = key \<and> now2 < ik_expires_at r) rows = None" by (force simp: find_None_iff)
  moreover have "store_key now key rt rid v ttl rows = rows" using assms(2,3) by (auto simp: store_key_def)
  ultimately show ?thesis by (simp add: get_cached_response_def)
qed

section \<open>What the endpoints show\<close>

lemma status_filter_ignored:
  "get_expiring_alerts pg_int pg_float account s1 by db = get_expiring_alerts pg_int pg_float account s2 by db"
  by (simp add: get_expiring_alerts_def listed_def [abs_def])

lemma acknowledge_changes_nothing: "fst (acknowledge_alert now i db) = db"
  by (simp add: acknowledge_alert_def)

lemma severity_partition: "length xs = length (filter (\<lambda>a. f a = c) xs) + length (filter (\<lambda>a. f a = w) xs)
    + length (filter (\<lambda>a. f a \<noteq> c \<and> f a \<noteq> w) xs)" if "c \<noteq> w"
  using that by (induction xs) auto

lemma listing_counts:
  assumes "get_expiring_alerts pg_int pg_float account status by db = Inr l"
  shows "al_total l = length (al_alerts l) \<and> al_total l = al_critical l + al_warning l + al_info l"
  using assms severity_partition [of "''critical''" "''warning''" _ av_severity]
  by (auto simp: get_expiring_alerts_def res_bind_eq_Inr)

text \<open>The alerts of the expiration worker have no account, so no listing shows them.\<close>

lemma worker_alert_account:
  "create_alert uuid now (expiry_request env w desc ctype pc a) = Inr ev \<Longrightarrow> Option.bind (alert_entity_ref ev) er_account_id = None"
  by (auto simp: create_alert_def res_bind_eq_Inr expiry_request_def build_entity_ref_def)

lemma worker_alert_not_listed:
  assumes "create_alert uuid now (expiry_request env w desc ctype pc a) = Inr ev"
    and "filter (listed status account) (adb_alerts db) = []"
  shows "filter (listed status account) (adb_alerts (fst (persist_alert now ev db))) = []"
proof -
  have type: "ar_type (suppress k r) = ar_type r" "ar_account_id (suppress k r) = ar_account_id r" for k r
    by (simp_all add: suppress_def)
  show ?thesis using assms(2)
    by (auto simp: persist_alert_def insert_alert_def filter_empty_conv type listed_def worker_alert_account [OF assms(1)]
        split: sum.split option.split)
qed

section \<open>Concrete values\<close>

definition demo_position :: position where
  "demo_position =
     \<lparr>pos_id = 7, pos_account_id = ''A'', pos_symbol = ''SPYC'', pos_asset_type = OPTION, pos_strategy_id = None, pos_status = OPEN,
      pos_quantity = 2, avg_cost = 3, current_price = 4, strike = Some 400, expiry = Some 10, pos_put_call = Some CALL,
      active_close_request_id = None, closed_at = None\<rparr>"

definition demo_checker :: checker_env where
  "demo_checker =
     \<lparr>ck_now = 0, ck_today = 8, ck_uuid = (\<lambda>n. replicate n (CHR ''u'')), ck_iso_date = (\<lambda>_. ''d''), ck_float_text = (\<lambda>_. ''400.0''),
      ck_loaded = (\<lambda>_. False)\<rparr>"

lemma inj_replicate: "inj (\<lambda>n. replicate n x)"
  by (rule injI) (metis length_replicate)

lemma dump_str_length: "length (dump_str s) \<le> 6 * length s + 2"
proof -
  have c: "length (escape_char c) \<le> 6" for c by (simp add: escape_char_def)
  have "length (concat (map escape_char s)) \<le> 6 * length s"
  proof (induction s)
    case (Cons x xs)
    then show ?case using c [of x] by simp
  qed simp
  then show ?thesis by (simp add: dump_str_def)
qed

lemma demo_details_size:
  "check_size (map (map_prod id to_json_safe) (option_details demo_checker demo_position 400 10 ''call'' d 2)) \<le> 2000 + length (show_int d)"
proof -
  have "length (show_int 2) = 1" "length (show_int 7) = 1"
    by (simp_all add: show_int_def show_nat.simps)
  moreover note dump_str_length [of "''threshold_days''"] dump_str_length [of "''expiry_date''"] dump_str_length [of "''days_to_expiry''"]
    dump_str_length [of "''position_id''"] dump_str_length [of "''strike''"] dump_str_length [of "''put_call''"] dump_str_length [of "''quantity''"]
    dump_str_length [of "''d''"] dump_str_length [of "''call''"]
  ultimately show ?thesis
    by (simp add: check_size_def dump_details_def option_details_def demo_checker_def demo_position_def)
qed

lemma demo_alertable: "alertable demo_checker demo_position"
proof -
  have f: "ck_today demo_checker = 8" "\<not> ck_loaded demo_checker demo_position" "strike demo_position = Some 400"
    "pos_put_call demo_position = Some CALL" "expiry demo_position = Some 10" "put_call_value CALL = ''call''"
    by (simp_all add: demo_checker_def demo_position_def)
  have n: "length (show_int 3) = 1" "length (show_int 7) = 1" by (simp_all add: show_int_def show_nat.simps)
  have "th_days t \<in> {3, 7}" if "t \<in> due 8 demo_position" for t
    using that by (auto simp: due_def expiration_thresholds_def f)
  then have "check_size (map (map_prod id to_json_safe) (option_details demo_checker demo_position 400 10 ''call'' (th_days t) 2)) \<le> max_details_bytes"
    if "t \<in> due 8 demo_position" for t
    using that demo_details_size [of 3] demo_details_size [of 7] n by (fastforce simp: max_details_bytes_def)
  then show ?thesis unfolding alertable_def by (simp add: f)
qed

definition demo_book :: db where
  "demo_book = \<lparr>accounts = Map.empty, positions = [demo_position], transactions = [], next_position_id = 8\<rparr>"

lemma demo_positions: "option_positions ''A'' demo_book = [demo_position]"
  by (simp add: option_positions_def get_positions_def demo_book_def demo_position_def)


theorem first_response_kept_witness:
  "get_cached_response 5 ''k'' (store_key 1 ''k'' ''t'' ''r'' JNull 1 (store_key 0 ''k'' ''t'' ''r'' (JBool True) 1 []))
     = Inr (True, Some (JBool True))"
  using first_response_kept [of "JBool True" JNull "''k''" "[]" 5 1 "''t''" "''r''" 1 0 "''t''" "''r''" 1]
  by (simp add: micros_per_hour_def)

end
