(* ===== verification/Decimal_Root.thy ===== *)
theory Decimal_Root
  imports Decimal_Error
begin

text \<open>
  Powers and square roots of decimals. \<open>dec_power\<close> is \<open>x ** n\<close> of Python's decimal module for a
  natural exponent: binary exponentiation with a few guard digits, then the context's 28. \<open>dec_sqrt\<close>
  is \<open>Decimal.sqrt\<close>, the correctly rounded root, from an integer root. \<open>decimal_sqrt\<close> is the Newton
  iteration of strategies/indicators/volume.py. Lemmas: signs, and the accuracy of the iteration.
\<close>

section \<open>Powers\<close>

text \<open>From the highest bit of the exponent down: square, then multiply when the bit is set.\<close>

fun power_work :: "nat \<Rightarrow> rat \<Rightarrow> nat \<Rightarrow> rat" where
  "power_work w x n =
     (if n = 0 then 1 else if n = 1 then x
      else let r = power_work w x (n div 2);
               s = sig_round 10 w (r * r)
           in if odd n then sig_round 10 w (s * x) else s)"

declare power_work.simps [simp del]

definition dec_power :: "decimal \<Rightarrow> nat \<Rightarrow> decimal" where
  "dec_power x n = dec (power_work (28 + Suc (ilog 10 n) + 2) x n)"

lemma sig_round_nonneg: "0 \<le> q \<Longrightarrow> 0 \<le> sig_round 10 (Suc w) q"
  using sig_round_mono [of 10 "Suc w" 0 q] by (simp add: sig_round_def)

lemma power_work_nonneg: "0 \<le> x \<Longrightarrow> 0 \<le> power_work (Suc w) x n"
proof (induction "Suc w" x n rule: power_work.induct)
  case (1 x n)
  then show ?case by (subst power_work.simps) (auto simp: Let_def intro!: sig_round_nonneg mult_nonneg_nonneg)
qed

lemma dec_power_nonneg: "0 \<le> x \<Longrightarrow> 0 \<le> dec_power x n"
  using power_work_nonneg [of x "30 + ilog 10 n" n] by (simp add: dec_power_def dec_nonneg)

text \<open>The square, the only power that the statistics use.\<close>

lemma dec_power_two: "dec_power x 2 = dec (sig_round 10 31 (x * x))"
  by (simp add: dec_power_def power_work.simps)

lemma dec_square_nonneg: "0 \<le> dec_power x 2"
  using sig_round_nonneg [of "x * x" 30] by (simp add: dec_power_two dec_nonneg)

section \<open>Square roots\<close>

text \<open>The integer root, two bits at a time.\<close>

fun isqrt :: "nat \<Rightarrow> nat" where
  "isqrt n = (if n = 0 then 0 else let r = 2 * isqrt (n div 4) in if (r + 1) * (r + 1) \<le> n then r + 1 else r)"

declare isqrt.simps [simp del]

lemma isqrt_bounds: "isqrt n * isqrt n \<le> n \<and> n < (isqrt n + 1) * (isqrt n + 1)"
proof (induction n rule: isqrt.induct)
  case (1 n)
  show ?case
  proof (cases "n = 0")
    case False
    let ?r = "isqrt (n div 4)"
    have ih: "?r * ?r \<le> n div 4" "n div 4 < (?r + 1) * (?r + 1)" using 1 False by simp_all
    have "4 * (?r * ?r) \<le> n" using ih(1) by linarith
    moreover have "n < 4 * ((?r + 1) * (?r + 1))" using ih(2) by linarith
    ultimately show ?thesis
      by (subst (1 2 3 4) isqrt.simps) (auto simp: Let_def False algebra_simps)
  qed (simp add: isqrt.simps)
qed

text \<open>\<open>Decimal.sqrt\<close>: 28 digits, rounded half to even. A negative operand is an invalid operation.\<close>

definition dec_sqrt :: "decimal \<Rightarrow> decimal result" where
  "dec_sqrt q =
     (if q < 0 then Inl InvalidOperation
      else if q = 0 then Inr 0
      else let e = lead_exp 10 q div 2;
               k = 27 - e;
               t = q * 100 powi k;
               s = isqrt (nat \<lfloor>t\<rfloor>);
               half = of_nat s + 1 / 2;
               m = (if t < half * half then s else if t > half * half then s + 1 else if even s then s else s + 1)
           in Inr (of_nat m * 10 powi (- k)))"

lemma dec_sqrt_nonneg: "dec_sqrt q = Inr r \<Longrightarrow> 0 \<le> r"
  by (auto simp: dec_sqrt_def Let_def split: if_splits)

lemma dec_sqrt_total: "0 \<le> q \<Longrightarrow> \<exists>r. dec_sqrt q = Inr r"
  by (simp add: dec_sqrt_def Let_def)

text \<open>The result is within half a unit of its last digit.\<close>

lemma isqrt_round:
  fixes t :: rat
  assumes "0 \<le> t" and "s = isqrt (nat \<lfloor>t\<rfloor>)"
    and "m = (if t < (of_nat s + 1 / 2) * (of_nat s + 1 / 2) then s else if t > (of_nat s + 1 / 2) * (of_nat s + 1 / 2) then s + 1
      else if even s then s else s + 1)"
  shows "t \<le> (of_nat m + 1 / 2) * (of_nat m + 1 / 2) \<and> (m = 0 \<or> (of_nat m - 1 / 2) * (of_nat m - 1 / 2) \<le> t)"
proof -
  have f: "of_nat (nat \<lfloor>t\<rfloor>) \<le> t" "t < of_nat (nat \<lfloor>t\<rfloor>) + 1" using assms(1) by (simp_all, linarith)
  have n: "s * s \<le> nat \<lfloor>t\<rfloor>" "nat \<lfloor>t\<rfloor> + 1 \<le> (s + 1) * (s + 1)"
    using isqrt_bounds [of "nat \<lfloor>t\<rfloor>"] unfolding assms(2) by simp_all
  have "of_nat (s * s) \<le> (of_nat (nat \<lfloor>t\<rfloor>) :: rat)" "of_nat (nat \<lfloor>t\<rfloor> + 1) \<le> (of_nat ((s + 1) * (s + 1)) :: rat)"
    using n by (simp_all only: of_nat_le_iff)
  with f have b: "of_nat s * of_nat s \<le> t" "t < (of_nat s + 1) * (of_nat s + 1)" by (simp_all add: algebra_simps)
  show ?thesis
  proof (cases "m = s")
    case True
    then have "t \<le> (of_nat s + 1 / 2) * (of_nat s + 1 / 2)" using assms(3) by (auto split: if_splits)
    moreover have "(of_nat s - 1 / 2) * (of_nat s - 1 / 2) \<le> (of_nat s * of_nat s :: rat)" if "s \<noteq> 0"
      using that by (simp add: algebra_simps)
    ultimately show ?thesis using True b(1) by (auto intro: order_trans)
  next
    case False
    then have m: "m = s + 1" and "(of_nat s + 1 / 2) * (of_nat s + 1 / 2) \<le> t" using assms(3) by (auto split: if_splits)
    moreover have "(of_nat s + 1) * (of_nat s + 1) \<le> ((of_nat s + 3 / 2) * (of_nat s + 3 / 2) :: rat)" by (simp add: algebra_simps)
    ultimately show ?thesis using b(2) by (auto simp: algebra_simps)
  qed
qed

section \<open>The Newton iteration\<close>

fun newton :: "nat \<Rightarrow> decimal \<Rightarrow> decimal \<Rightarrow> decimal result" where
  "newton 0 v x = Inr x"
| "newton (Suc n) v x =
     res_bind (dec_div v x) (\<lambda>q.
     res_bind (dec_div (dec_add x q) 2) (\<lambda>x_new.
       if dec_abs (dec_sub x_new x) < 1 / 10 ^ 10 then Inr x_new else newton n v x_new))"

definition decimal_sqrt :: "decimal \<Rightarrow> decimal result" where
  "decimal_sqrt v = (if v < 0 then Inl ValueError else if v = 0 then Inr 0 else newton 100 v v)"

text \<open>One exact step and half its length; a rounded step is close to the exact one.\<close>

definition mean_step :: "rat \<Rightarrow> rat \<Rightarrow> rat" where
  "mean_step v x = (x + v / x) / 2"

definition half_gap :: "rat \<Rightarrow> rat \<Rightarrow> rat" where
  "half_gap v x = (x - v / x) / 2"

abbreviation step_noise :: rat where
  "step_noise \<equiv> 4 / 10 ^ 27"

lemma approx3:
  assumes "approx 3 x y" and "0 \<le> x" and "0 \<le> y"
  shows "(1 - step_noise) * y \<le> x \<and> x \<le> (1 + step_noise) * y"
proof -
  have f: "round_factor ^ 3 \<le> 1 + step_noise" by (simp add: round_factor_def power3_eq_cube)
  have "x \<le> (1 + step_noise) * y" "y \<le> (1 + step_noise) * x"
    using assms mult_right_mono [OF f] unfolding approx_def by (meson order_trans)+
  then show ?thesis using assms(2,3) by (simp add: field_simps)
qed

lemma approx_half: "approx k x y \<Longrightarrow> approx k (x / 2) (y / 2)"
  by (simp add: approx_def)

lemma newton_step:
  assumes "0 < v" and "0 < x"
  shows "\<exists>q y. dec_div v x = Inr q \<and> dec_div (dec_add x q) 2 = Inr y \<and> 0 < y
    \<and> (1 - step_noise) * mean_step v x \<le> y \<and> y \<le> (1 + step_noise) * mean_step v x"
proof -
  let ?q = "dec (v / x)" and ?s = "dec (x + dec (v / x))"
  have pos: "0 < v / x" "0 < ?q" using assms by (simp_all add: dec_pos)
  then have sum: "0 < x + ?q" "0 < ?s" using assms by (simp_all add: dec_pos add_pos_pos)
  have "approx 1 (x + ?q) (x + v / x)"
    using approx_plus [OF approx_mono [OF approx_refl [of x], of 1] approx_dec [of "v / x"]] assms pos by simp
  then have "approx 2 ?s (x + v / x)" using approx_trans [OF approx_dec [of "x + ?q"]] sum by (simp add: numeral_2_eq_2)
  then have "approx 2 (?s / 2) (mean_step v x)" unfolding mean_step_def by (rule approx_half)
  then have "approx 3 (dec (?s / 2)) (mean_step v x)" using approx_trans [OF approx_dec [of "?s / 2"], of 2 "mean_step v x"] sum by (simp add: numeral_3_eq_3 numeral_2_eq_2)
  moreover have "0 < dec (?s / 2)" using sum by (simp add: dec_pos)
  moreover have "0 \<le> mean_step v x" using assms by (simp add: mean_step_def)
  ultimately show ?thesis using approx3 [of "dec (?s / 2)" "mean_step v x"] assms by (simp add: dec_div_def dec_add_def)
qed

lemma mean_gap:
  assumes "0 < v" and "0 < x"
  shows "mean_step v x = x - half_gap v x" "mean_step v x * mean_step v x = v + half_gap v x * half_gap v x"
    "\<bar>half_gap v x\<bar> \<le> mean_step v x" "0 < mean_step v x"
  using assms by (simp_all add: mean_step_def half_gap_def field_simps abs_le_iff add_pos_pos)

lemma dec_abs_value: "\<bar>dec q\<bar> = dec \<bar>q\<bar>"
  using dec_nonneg [of q] dec_nonneg [of "- q"] dec_minus [of q] by (cases "0 \<le> q") simp_all

lemma near_bound: "(1 - c) * n \<le> y \<Longrightarrow> y \<le> (1 + c) * n \<Longrightarrow> \<bar>y - n\<bar> \<le> c * (n :: rat)"
  by (simp add: abs_le_iff algebra_simps)

text \<open>For variances up to \<open>10 ^ 18\<close> the gap is at least almost halved, up to the noise of rounding.\<close>

lemma mean_bound:
  assumes "0 < v" and "0 < x" and "v \<le> 10 ^ 18"
  shows "mean_step v x \<le> 10 ^ 9 + \<bar>half_gap v x\<bar>"
proof (rule ccontr)
  let ?N = "mean_step v x" and ?d = "\<bar>half_gap v x\<bar>"
  assume "\<not> ?N \<le> 10 ^ 9 + ?d"
  then have "(10 ^ 9 + ?d) * (10 ^ 9 + ?d) < ?N * ?N" by (intro mult_strict_mono) (auto intro: order_le_less_trans)
  moreover have "(10 ^ 9 + ?d) * (10 ^ 9 + ?d) \<ge> 10 ^ 18 + ?d * ?d" by (simp add: algebra_simps)
  moreover have "?N * ?N = v + ?d * ?d" using mean_gap(2) [OF assms(1,2)] by (simp add: abs_mult [symmetric])
  ultimately show False using assms(3) by simp
qed

lemma combine_noise:
  "\<bar>a\<bar> \<le> c * n \<Longrightarrow> \<bar>b\<bar> \<le> 2 * c * n \<Longrightarrow> g = a / 2 + b / 2 + h \<Longrightarrow> 0 \<le> h \<Longrightarrow> h \<le> e \<Longrightarrow> \<bar>g\<bar> \<le> e + 2 * c * (n :: rat)"
  by linarith

lemma gap_step:
  assumes "0 < v" and "0 < x" and "v \<le> 10 ^ 18"
    and "(1 - step_noise) * mean_step v x \<le> y" and "y \<le> (1 + step_noise) * mean_step v x" and "0 < y"
  shows "\<bar>half_gap v y\<bar> \<le> 51 / 100 * \<bar>half_gap v x\<bar> + 1 / 10 ^ 17"
proof -
  let ?N = "mean_step v x" and ?d = "half_gap v x"
  note m = mean_gap [OF assms(1,2)]
  have vN: "v \<le> ?N * ?N" using m(2) by simp
  have diff: "\<bar>y - ?N\<bar> \<le> step_noise * ?N" by (rule near_bound [OF assms(4,5)])
  have low: "?N / 2 \<le> y" using assms(4) m(4) by simp
  have inv: "\<bar>v / ?N - v / y\<bar> \<le> 2 * step_noise * ?N"
  proof -
    have "v / ?N - v / y = v * (y - ?N) / (?N * y)" using assms(6) m(4) by (simp add: field_simps)
    then have "\<bar>v / ?N - v / y\<bar> = v * \<bar>y - ?N\<bar> / (?N * y)"
      using assms(1,6) m(4) by (simp add: abs_mult)
    also have "\<dots> \<le> (?N * ?N) * (step_noise * ?N) / (?N * (?N / 2))"
      using vN diff low m(4) assms(1,6) by (intro frac_le mult_mono) simp_all
    also have "\<dots> = 2 * step_noise * ?N" using m(4) by (simp add: field_simps)
    finally show ?thesis .
  qed
  have "half_gap v ?N = (?N * ?N - v) / (2 * ?N)" using m(4) by (simp add: half_gap_def field_simps)
  then have "half_gap v ?N = ?d * ?d / (2 * ?N)" using m(2) by simp
  moreover have "?d * ?d / (2 * ?N) \<le> \<bar>?d\<bar> / 2"
    using mult_left_mono [OF m(3), of "\<bar>?d\<bar>"] m(4) by (simp add: field_simps)
  moreover have "0 \<le> ?d * ?d / (2 * ?N)" using m(4) by simp
  moreover have "half_gap v y = (y - ?N) / 2 + (v / ?N - v / y) / 2 + half_gap v ?N" by (simp add: half_gap_def field_simps)
  ultimately have "\<bar>half_gap v y\<bar> \<le> \<bar>?d\<bar> / 2 + 2 * step_noise * ?N"
    using combine_noise [OF diff inv, of "half_gap v y" "half_gap v ?N" "\<bar>?d\<bar> / 2"] by argo
  with mean_bound [OF assms(1-3)] show ?thesis by simp
qed

text \<open>A step that is taken to be the last is accurate, and a small gap makes it the last.\<close>

lemma last_step_accurate:
  assumes "0 < v" and "0 < x" and "v \<le> 10 ^ 18"
    and "(1 - step_noise) * mean_step v x \<le> y" and "y \<le> (1 + step_noise) * mean_step v x" and "0 < y"
    and "dec_abs (dec_sub y x) < 1 / 10 ^ 10"
  shows "v \<le> (1 + 1 / 10 ^ 26) * (y * y) \<and> y * y \<le> (1 + 1 / 10 ^ 26) * v + 2 / 10 ^ 20"
proof -
  let ?N = "mean_step v x" and ?d = "half_gap v x"
  note m = mean_gap [OF assms(1,2)]
  have "approx 1 (dec_abs (dec_sub y x)) \<bar>dec_sub y x\<bar>" unfolding dec_abs_def by (rule approx_dec) simp
  then have "\<bar>dec_sub y x\<bar> \<le> round_factor * dec_abs (dec_sub y x)" by (simp add: approx_def)
  also have "\<dots> \<le> round_factor * (1 / 10 ^ 10)" using assms(7) by (intro mult_left_mono) simp_all
  finally have 1: "\<bar>dec_sub y x\<bar> \<le> round_factor * (1 / 10 ^ 10)" .
  have "\<bar>dec_sub y x\<bar> = dec \<bar>y - x\<bar>" unfolding dec_sub_def by (rule dec_abs_value)
  then have "approx 1 \<bar>dec_sub y x\<bar> \<bar>y - x\<bar>" by (metis abs_ge_zero approx_dec)
  then have "\<bar>y - x\<bar> \<le> round_factor * \<bar>dec_sub y x\<bar>" by (simp add: approx_def)
  also have "\<dots> \<le> round_factor * (round_factor * (1 / 10 ^ 10))" using 1 by (intro mult_left_mono) simp_all
  finally have "\<bar>y - x\<bar> \<le> round_factor * (round_factor * (1 / 10 ^ 10))" .
  then have yx: "\<bar>y - x\<bar> \<le> 101 / 10 ^ 12" by (simp add: round_factor_def)
  have diff: "\<bar>y - ?N\<bar> \<le> step_noise * ?N" by (rule near_bound [OF assms(4,5)])
  have "\<bar>?d\<bar> \<le> \<bar>y - x\<bar> + \<bar>y - ?N\<bar>" using m(1) by linarith
  with yx diff mean_bound [OF assms(1-3)] have d: "\<bar>?d\<bar> \<le> 102 / 10 ^ 12" by simp
  then have "?d * ?d \<le> (102 / 10 ^ 12) * (102 / 10 ^ 12)" using mult_mono [OF d d] by (simp add: abs_mult [symmetric])
  then have N: "?N * ?N \<le> v + 11 / 10 ^ 21" using m(2) by simp
  have "y * y \<le> (1 + step_noise) * (1 + step_noise) * (?N * ?N)"
    using mult_mono [OF assms(5,5)] m(4) assms(6) by (simp add: algebra_simps)
  also have "\<dots> \<le> (1 + 1 / 10 ^ 26) * (?N * ?N)" using m(4) by (intro mult_right_mono) simp_all
  also have "\<dots> \<le> (1 + 1 / 10 ^ 26) * (v + 11 / 10 ^ 21)" using N by (intro mult_left_mono) simp_all
  finally have "y * y \<le> (1 + 1 / 10 ^ 26) * v + 2 / 10 ^ 20" by simp
  moreover have "v \<le> (1 + 1 / 10 ^ 26) * (y * y)"
  proof -
    have "?N \<le> (1 + 11 / 10 * step_noise) * y" using assms(4,6) m(4) by simp
    then have "?N * ?N \<le> ((1 + 11 / 10 * step_noise) * y) * ((1 + 11 / 10 * step_noise) * y)" using m(4) assms(6) by (intro mult_mono) simp_all
    also have "\<dots> = ((1 + 11 / 10 * step_noise) * (1 + 11 / 10 * step_noise)) * (y * y)" by (simp only: ac_simps)
    also have "\<dots> \<le> (1 + 1 / 10 ^ 26) * (y * y)" by (intro mult_right_mono) simp_all
    finally have "?N * ?N \<le> (1 + 1 / 10 ^ 26) * (y * y)" .
    moreover have "v \<le> ?N * ?N" using m(2) by simp
    ultimately show ?thesis by (rule order_trans [rotated])
  qed
  ultimately show ?thesis by simp
qed

text \<open>The remaining steps bring the gap below the tolerance before they run out.\<close>

lemma newton_accurate:
  assumes "0 < v" and "v \<le> 10 ^ 18" and "0 < x" and "\<bar>half_gap v x\<bar> \<le> b + 3 / 10 ^ 17" and "(51 / 100) ^ n * b \<le> 8 / 10 ^ 11"
  shows "\<exists>r. newton (Suc n) v x = Inr r \<and> 0 < r \<and> v \<le> (1 + 1 / 10 ^ 26) * (r * r) \<and> r * r \<le> (1 + 1 / 10 ^ 26) * v + 2 / 10 ^ 20"
  using assms(3-)
proof (induction n arbitrary: x b)
  case (0 x b)
  obtain q y where y: "dec_div v x = Inr q" "dec_div (dec_add x q) 2 = Inr y" "0 < y"
    "(1 - step_noise) * mean_step v x \<le> y" "y \<le> (1 + step_noise) * mean_step v x"
    using newton_step [OF assms(1) 0(1)] by blast
  have d: "\<bar>half_gap v x\<bar> \<le> 81 / 10 ^ 12" using 0(2,3) by simp
  have "\<bar>y - x\<bar> \<le> \<bar>half_gap v x\<bar> + step_noise * mean_step v x"
    using near_bound [OF y(4,5)] mean_gap(1) [OF assms(1) 0(1)] by linarith
  with d mean_bound [OF assms(1) 0(1) assms(2)] have yx: "\<bar>y - x\<bar> \<le> 82 / 10 ^ 12" by simp
  have exact: "dec (82 / 10 ^ 12) = 82 / 10 ^ 12" using dec_exact [of "82 / 10 ^ 12" 82 "- 12"] by (simp add: power_int_minus field_simps)
  have "dec_abs (dec_sub y x) = dec (dec \<bar>y - x\<bar>)" by (simp add: dec_abs_def dec_sub_def dec_abs_value)
  also have "\<dots> \<le> dec (dec (82 / 10 ^ 12))" using yx by (intro dec_mono)
  also have "\<dots> = 82 / 10 ^ 12" unfolding exact exact ..
  finally have small: "dec_abs (dec_sub y x) < 1 / 10 ^ 10" by simp
  show ?case using last_step_accurate [OF assms(1) 0(1) assms(2) y(4,5,3) small] y small by simp
next
  case (Suc n x b)
  obtain q y where y: "dec_div v x = Inr q" "dec_div (dec_add x q) 2 = Inr y" "0 < y"
    "(1 - step_noise) * mean_step v x \<le> y" "y \<le> (1 + step_noise) * mean_step v x"
    using newton_step [OF assms(1) Suc.prems(1)] by blast
  show ?case
  proof (cases "dec_abs (dec_sub y x) < 1 / 10 ^ 10")
    case True
    then show ?thesis using last_step_accurate [OF assms(1) Suc.prems(1) assms(2) y(4,5,3) True] y by simp
  next
    case False
    have "\<bar>half_gap v y\<bar> \<le> 51 / 100 * b + 3 / 10 ^ 17"
      using gap_step [OF assms(1) Suc.prems(1) assms(2) y(4,5,3)] Suc.prems(2) by simp
    moreover have "(51 / 100) ^ n * (51 / 100 * b) \<le> 8 / 10 ^ 11" using Suc.prems(3) by (simp add: ac_simps)
    ultimately show ?thesis using Suc.IH [OF y(3)] y(1,2) False by simp
  qed
qed

text \<open>For every variance up to \<open>10 ^ 18\<close> the iteration stops within its hundred steps at a number that
  is the square root up to the context's rounding and an absolute error of about \<open>10 ^ -10\<close>.\<close>

theorem decimal_sqrt_accurate:
  assumes "0 < v" and "v \<le> 10 ^ 18"
  shows "\<exists>r. decimal_sqrt v = Inr r \<and> 0 < r \<and> v \<le> (1 + 1 / 10 ^ 26) * (r * r) \<and> r * r \<le> (1 + 1 / 10 ^ 26) * v + 2 / 10 ^ 20"
proof -
  have "half_gap v v = (v - 1) / 2" using assms(1) by (simp add: half_gap_def)
  then have "\<bar>half_gap v v\<bar> \<le> 10 ^ 18 + 3 / 10 ^ 17" using assms by simp
  moreover have "(51 / 100) ^ 99 * 10 ^ 18 \<le> (8 / 10 ^ 11 :: rat)" by (simp add: power_divide)
  ultimately show ?thesis
    using newton_accurate [OF assms assms(1), of "10 ^ 18" 99] assms(1) by (simp add: decimal_sqrt_def)
qed

text \<open>The iteration never divides by zero, whatever the variance.\<close>

lemma newton_total: "0 < v \<Longrightarrow> 0 < x \<Longrightarrow> \<exists>r. newton n v x = Inr r \<and> 0 < r"
proof (induction n arbitrary: x)
  case (Suc n)
  then obtain q y where "dec_div v x = Inr q" "dec_div (dec_add x q) 2 = Inr y" "0 < y" using newton_step by blast
  then show ?case using Suc by auto
qed simp

lemma decimal_sqrt_total:
  assumes "0 \<le> v"
  obtains r where "decimal_sqrt v = Inr r" and "0 \<le> r" and "r = 0 \<longleftrightarrow> v = 0"
  using assms newton_total [of v v 100] by (cases "v = 0") (force simp: decimal_sqrt_def)+

theorem decimal_sqrt_accurate_witness:
  "\<exists>r. decimal_sqrt 2 = Inr r \<and> 0 < r \<and> 2 \<le> (1 + 1 / 10 ^ 26) * (r * r) \<and> r * r \<le> (1 + 1 / 10 ^ 26) * 2 + 2 / 10 ^ 20"
  using decimal_sqrt_accurate [of 2] by simp

end
