(* ===== verification/Indicators.thy ===== *)
theory Indicators
  imports Decimal_Root
begin

text \<open>
  Technical indicators and factors: strategies/indicators/ (rate of change, price against moving
  average and against recent high, volume z-score, volatility) and strategies/factors/ (momentum,
  breakout, composite, and the rolling z-score normaliser), on exact decimal arithmetic. A value
  of None means not enough data or no variation. Lemmas: the indicators look at a fixed number of
  the last bars only, none of them raises, and the normaliser's history is the last part of what
  it was given.
\<close>

section \<open>Indicator basics\<close>

definition indicator_init :: "int \<Rightarrow> nat result" where
  "indicator_init lookback = (if lookback < 1 then Inl ValueError else Inr (nat lookback))"

definition check_warmup :: "nat \<Rightarrow> 'a list \<Rightarrow> bool" where
  "check_warmup n data \<longleftrightarrow> length data \<ge> n"

definition safe_divide :: "decimal \<Rightarrow> decimal \<Rightarrow> decimal option" where
  "safe_divide x y = (if y = 0 then None else Some (dec (x / y)))"

text \<open>\<open>xs[-n:]\<close>.\<close>

definition py_last :: "nat \<Rightarrow> 'a list \<Rightarrow> 'a list" where
  "py_last n xs = (if n = 0 then xs else drop (length xs - n) xs)"

definition dec_mean :: "decimal list \<Rightarrow> decimal result" where
  "dec_mean xs = dec_div (dec_sum xs) (of_nat (length xs))"

text \<open>The population standard deviation about a mean, by the Newton iteration.\<close>

definition dec_std :: "decimal list \<Rightarrow> decimal \<Rightarrow> decimal result" where
  "dec_std xs mean =
     res_bind (dec_div (dec_sum (map (\<lambda>v. dec_power (dec_sub v mean) 2) xs)) (of_nat (length xs))) decimal_sqrt"

section \<open>The indicators\<close>

definition roc :: "nat \<Rightarrow> decimal list \<Rightarrow> decimal option" where
  "roc n prices =
     (if length prices < n + 1 then None
      else let past_price = prices ! (length prices - (n + 1))
           in safe_divide (dec_sub (last prices) past_price) past_price)"

definition price_vs_ma :: "nat \<Rightarrow> decimal list \<Rightarrow> decimal option result" where
  "price_vs_ma n prices =
     (if \<not> check_warmup n prices then Inr None
      else res_bind (dec_mean (py_last n prices)) (\<lambda>sma. Inr (safe_divide (dec_sub (last prices) sma) sma)))"

definition price_vs_high :: "nat \<Rightarrow> decimal list \<Rightarrow> decimal list option \<Rightarrow> decimal option" where
  "price_vs_high n prices highs =
     (if length prices < n + 1 then None
      else (case highs of
              None \<Rightarrow> None
            | Some hs \<Rightarrow>
                if length hs < n + 1 then None
                else let past = butlast (py_last (n + 1) hs);
                         max_high = fold max (tl past) (hd past)
                     in safe_divide (dec_sub (last prices) max_high) max_high))"

definition volume_zscore :: "nat \<Rightarrow> int list option \<Rightarrow> decimal option result" where
  "volume_zscore n volumes =
     (case volumes of
        None \<Rightarrow> Inr None
      | Some vs \<Rightarrow>
          if length vs < n + 1 then Inr None
          else let past = map of_int (butlast (py_last (n + 1) vs))
               in res_bind (dec_mean past) (\<lambda>mean.
                  res_bind (dec_std past mean) (\<lambda>std.
                    if std = 0 then Inr None
                    else res_bind (dec_div (dec_sub (of_int (last vs)) mean) std) (\<lambda>z. Inr (Some z)))))"

text \<open>The returns of consecutive prices, None when an earlier price is zero.\<close>

fun returns_of :: "decimal list \<Rightarrow> decimal list option" where
  "returns_of (p # q # ps) =
     (if p = 0 then None else map_option ((#) (dec (dec_sub q p / p))) (returns_of (q # ps)))"
| "returns_of _ = Some []"

definition volatility :: "nat \<Rightarrow> decimal list \<Rightarrow> decimal option result" where
  "volatility n prices =
     (if length prices < n + 1 then Inr None
      else (case returns_of (py_last (n + 1) prices) of
              None \<Rightarrow> Inr None
            | Some rs \<Rightarrow>
                res_bind (dec_mean rs) (\<lambda>mean. res_bind (dec_std rs mean) (\<lambda>v. Inr (Some v)))))"

section \<open>Factors\<close>

type_synonym 'v dict = "(string \<times> 'v) list"

record factor_result =
  fr_score :: decimal
  fr_components :: "decimal dict"
  fr_weights :: "decimal dict"

definition weighted_sum :: "decimal dict \<Rightarrow> decimal dict \<Rightarrow> decimal result" where
  "weighted_sum values weights =
     res_bind (res_map (\<lambda>(k, v). case map_of weights k of None \<Rightarrow> Inl KeyError | Some w \<Rightarrow> Inr (dec_mul v w)) values)
       (\<lambda>xs. Inr (dec_sum xs))"

text \<open>\<open>indicators.get(key)\<close>, where a stored None is a missing value.\<close>

definition get_indicator :: "decimal option dict \<Rightarrow> string \<Rightarrow> decimal option" where
  "get_indicator inds k = (case map_of inds k of None \<Rightarrow> None | Some v \<Rightarrow> v)"

definition two_factor :: "string \<Rightarrow> string \<Rightarrow> decimal \<Rightarrow> decimal \<Rightarrow> decimal option dict \<Rightarrow> factor_result option result" where
  "two_factor k1 k2 w1 w2 inds =
     (case (get_indicator inds k1, get_indicator inds k2) of
        (Some v1, Some v2) \<Rightarrow>
          (let components = [(k1, v1), (k2, v2)]; weights = [(k1, w1), (k2, w2)]
           in res_bind (weighted_sum components weights)
                (\<lambda>s. Inr (Some \<lparr>fr_score = s, fr_components = components, fr_weights = weights\<rparr>)))
      | _ \<Rightarrow> Inr None)"

definition momentum_factor :: "decimal \<Rightarrow> decimal \<Rightarrow> decimal option dict \<Rightarrow> factor_result option result" where
  "momentum_factor roc_weight price_vs_ma_weight = two_factor ''roc_20'' ''price_vs_ma_20'' roc_weight price_vs_ma_weight"

definition breakout_factor :: "decimal \<Rightarrow> decimal \<Rightarrow> decimal option dict \<Rightarrow> factor_result option result" where
  "breakout_factor price_vs_high_weight volume_zscore_weight =
     two_factor ''price_vs_high_20'' ''volume_zscore'' price_vs_high_weight volume_zscore_weight"

section \<open>The normaliser and the composite factor\<close>

record score_normalizer =
  sn_min_periods :: nat
  sn_window_size :: nat
  sn_history :: "decimal list dict"

definition normalizer_update :: "string \<Rightarrow> decimal \<Rightarrow> score_normalizer \<Rightarrow> score_normalizer" where
  "normalizer_update name v n =
     (let h = (case map_of (sn_history n) name of None \<Rightarrow> [] | Some h \<Rightarrow> h) @ [v]
      in n\<lparr>sn_history := AList.update name (if length h > sn_window_size n then tl h else h) (sn_history n)\<rparr>)"

definition normalize_score :: "string \<Rightarrow> decimal \<Rightarrow> score_normalizer \<Rightarrow> decimal option result" where
  "normalize_score name v n =
     (case map_of (sn_history n) name of
        None \<Rightarrow> Inr None
      | Some h \<Rightarrow>
          if length h < sn_min_periods n then Inr None
          else res_bind (dec_mean h) (\<lambda>mean.
               res_bind (dec_std h mean) (\<lambda>std.
                 if std = 0 then Inr (Some 0)
                 else res_bind (dec_div (dec_sub v mean) std) (\<lambda>z. Inr (Some z)))))"

record composite_factor =
  cf_momentum_weight :: decimal
  cf_breakout_weight :: decimal
  cf_normalizer :: "score_normalizer option"

definition composite_init :: "decimal \<Rightarrow> decimal \<Rightarrow> bool \<Rightarrow> nat \<Rightarrow> nat \<Rightarrow> composite_factor" where
  "composite_init mw bw normalizing min_periods window_size =
     \<lparr>cf_momentum_weight = mw, cf_breakout_weight = bw,
      cf_normalizer = (if normalizing
        then Some \<lparr>sn_min_periods = min_periods, sn_window_size = window_size, sn_history = []\<rparr> else None)\<rparr>"

definition update_weights :: "decimal option \<Rightarrow> decimal option \<Rightarrow> composite_factor \<Rightarrow> composite_factor" where
  "update_weights mw bw c =
     (let c1 = (case mw of None \<Rightarrow> c | Some w \<Rightarrow> c\<lparr>cf_momentum_weight := w\<rparr>)
      in case bw of None \<Rightarrow> c1 | Some w \<Rightarrow> c1\<lparr>cf_breakout_weight := w\<rparr>)"

definition update_normalizer :: "decimal dict \<Rightarrow> composite_factor \<Rightarrow> composite_factor" where
  "update_normalizer scores c =
     (case cf_normalizer c of
        None \<Rightarrow> c
      | Some n \<Rightarrow> c\<lparr>cf_normalizer := Some (fold (\<lambda>(k, v). normalizer_update k v) scores n)\<rparr>)"

definition composite_calculate :: "decimal option dict \<Rightarrow> composite_factor \<Rightarrow> factor_result option result" where
  "composite_calculate inds c =
     (case (get_indicator inds ''momentum_factor'', get_indicator inds ''breakout_factor'') of
        (Some m, Some b) \<Rightarrow>
          (let components = [(''momentum_factor'', m), (''breakout_factor'', b)];
               weights = [(''momentum_factor'', cf_momentum_weight c), (''breakout_factor'', cf_breakout_weight c)]
           in res_bind
                (case cf_normalizer c of
                   None \<Rightarrow> Inr components
                 | Some n \<Rightarrow>
                     res_bind (normalize_score ''momentum_factor'' m n) (\<lambda>nm.
                     res_bind (normalize_score ''breakout_factor'' b n) (\<lambda>nb.
                       Inr (case (nm, nb) of
                              (Some x, Some y) \<Rightarrow> [(''momentum_factor'', x), (''breakout_factor'', y)]
                            | _ \<Rightarrow> components))))
                (\<lambda>calc. res_bind (weighted_sum calc weights)
                   (\<lambda>s. Inr (Some \<lparr>fr_score = s, fr_components = components, fr_weights = weights\<rparr>))))
      | _ \<Rightarrow> Inr None)"

section \<open>Only the last bars matter\<close>

lemma py_last_length [simp]: "0 < n \<Longrightarrow> length (py_last n xs) = min n (length xs)"
  by (simp add: py_last_def)

lemma py_last_last [simp]: "0 < n \<Longrightarrow> last (py_last n xs) = last xs"
  by (cases xs rule: rev_cases) (auto simp: py_last_def)

lemma py_last_last_of: "0 < m \<Longrightarrow> m \<le> n \<Longrightarrow> py_last m (py_last n xs) = py_last m xs"
  by (cases "length xs \<le> n") (auto simp: py_last_def)

lemma py_last_nth_from_end: "0 < m \<Longrightarrow> m \<le> n \<Longrightarrow> m \<le> length xs \<Longrightarrow> py_last n xs ! (length (py_last n xs) - m) = xs ! (length xs - m)"
  by (cases "length xs \<le> n") (auto simp: py_last_def)

text \<open>Appending and dropping the first element keeps a window of the last ones.\<close>

lemma py_last_snoc:
  assumes "0 < w"
  shows "py_last w (vs @ [v]) = (if length (py_last w vs @ [v]) > w then tl (py_last w vs @ [v]) else py_last w vs @ [v])"
proof (cases "length vs < w")
  case False
  then have ne: "drop (length vs - w) vs \<noteq> []" using assms by simp
  have "drop (Suc (length vs - w)) vs = tl (drop (length vs - w) vs)" by (simp add: drop_Suc tl_drop)
  then show ?thesis using False assms ne by (simp add: py_last_def Suc_diff_le)
qed (use assms in \<open>simp add: py_last_def\<close>)

lemma roc_local: "roc n (py_last (Suc n) prices) = roc n prices"
  using py_last_nth_from_end [of "Suc n" "Suc n" prices] by (simp add: roc_def Let_def)

lemma price_vs_ma_local: "0 < n \<Longrightarrow> price_vs_ma n (py_last (Suc n) prices) = price_vs_ma n prices"
  by (auto simp: price_vs_ma_def check_warmup_def py_last_last_of)

lemma price_vs_high_local:
  "price_vs_high n (py_last (Suc n) prices) (Some (py_last (Suc n) highs)) = price_vs_high n prices (Some highs)"
  by (auto simp: price_vs_high_def Let_def py_last_last_of)

lemma volume_zscore_local: "volume_zscore n (Some (py_last (Suc n) volumes)) = volume_zscore n (Some volumes)"
  by (auto simp: volume_zscore_def Let_def py_last_last_of cong: if_cong)

lemma volatility_local: "volatility n (py_last (Suc n) prices) = volatility n prices"
  by (auto simp: volatility_def py_last_last_of)

section \<open>No indicator raises\<close>

lemma dec_mean_total: "xs \<noteq> [] \<Longrightarrow> \<exists>m. dec_mean xs = Inr m"
  by (simp add: dec_mean_def dec_div_def)

lemma dec_std_total:
  assumes "xs \<noteq> []"
  shows "\<exists>s. dec_std xs mean = Inr s \<and> 0 \<le> s"
proof -
  have "0 \<le> dec_sum (map (\<lambda>v. dec_power (dec_sub v mean) 2) xs)"
    by (rule dec_sum_nonneg) (auto simp: dec_square_nonneg)
  then have "0 \<le> dec (dec_sum (map (\<lambda>v. dec_power (dec_sub v mean) 2) xs) / of_nat (length xs))" by (simp add: dec_nonneg)
  then show ?thesis using assms by (auto simp: dec_std_def dec_div_def elim: decimal_sqrt_total)
qed

lemma price_vs_ma_total: "0 < n \<Longrightarrow> \<exists>r. price_vs_ma n prices = Inr r"
proof (cases "check_warmup n prices")
  case True
  assume n: "0 < n"
  then have "py_last n prices \<noteq> []" using True py_last_length [of n prices] unfolding check_warmup_def
    by (metis list.size(3) min.absorb1 not_gr_zero)
  then obtain m where "dec_mean (py_last n prices) = Inr m" using dec_mean_total by blast
  then show ?thesis by (simp add: price_vs_ma_def)
qed (simp add: price_vs_ma_def)

lemma volume_zscore_total: "0 < n \<Longrightarrow> \<exists>r. volume_zscore n volumes = Inr r"
proof (cases volumes)
  case (Some vs)
  assume n: "0 < n"
  show ?thesis
  proof (cases "length vs < n + 1")
    case False
    let ?p = "map of_int (butlast (py_last (n + 1) vs)) :: decimal list"
    have "length ?p = n" using False by simp
    then have ne: "?p \<noteq> []" using n by (metis list.size(3) not_gr_zero)
    obtain m where m: "dec_mean ?p = Inr m" using dec_mean_total [OF ne] ..
    obtain s where "dec_std ?p m = Inr s" using dec_std_total [OF ne] by blast
    then show ?thesis using Some False m by (simp add: volume_zscore_def dec_div_def Let_def)
  qed (simp add: volume_zscore_def Some)
qed (simp add: volume_zscore_def)

lemma returns_length: "returns_of ps = Some rs \<Longrightarrow> length rs = length ps - 1"
  by (induction ps arbitrary: rs rule: returns_of.induct) (auto split: if_splits)

lemma volatility_total: "0 < n \<Longrightarrow> \<exists>r. volatility n prices = Inr r \<and> (\<forall>v. r = Some v \<longrightarrow> 0 \<le> v)"
proof (cases "length prices < n + 1")
  case False
  assume n: "0 < n"
  show ?thesis
  proof (cases "returns_of (py_last (n + 1) prices)")
    case (Some rs)
    then have ne: "rs \<noteq> []" using returns_length [OF Some] False n by auto
    obtain m where m: "dec_mean rs = Inr m" using dec_mean_total [OF ne] ..
    obtain s where "dec_std rs m = Inr s" "0 \<le> s" using dec_std_total [OF ne] by blast
    then show ?thesis using Some False m by (simp add: volatility_def)
  qed (use False in \<open>simp add: volatility_def\<close>)
qed (simp add: volatility_def)

lemma two_factor_score:
  assumes "k1 \<noteq> k2"
  shows "two_factor k1 k2 w1 w2 inds =
    (case (get_indicator inds k1, get_indicator inds k2) of
       (Some v1, Some v2) \<Rightarrow> Inr (Some \<lparr>fr_score = dec_add (dec (dec_mul v1 w1)) (dec_mul v2 w2), fr_components = [(k1, v1), (k2, v2)],
          fr_weights = [(k1, w1), (k2, w2)]\<rparr>)
     | _ \<Rightarrow> Inr None)"
  using assms by (auto simp: two_factor_def weighted_sum_def dec_sum_def dec_add_def split: option.split)

section \<open>The normaliser keeps the last scores\<close>

lemma normalizer_update_history:
  "map_of (sn_history (normalizer_update k v n)) k' =
     (if k' = k then Some (let h = (case map_of (sn_history n) k of None \<Rightarrow> [] | Some h \<Rightarrow> h) @ [v]
        in if length h > sn_window_size n then tl h else h) else map_of (sn_history n) k')"
  by (simp add: normalizer_update_def Let_def update_conv)

lemma normalizer_update_sizes [simp]:
  "sn_window_size (normalizer_update k v n) = sn_window_size n" "sn_min_periods (normalizer_update k v n) = sn_min_periods n"
  by (simp_all add: normalizer_update_def Let_def)

lemma normalizer_window:
  assumes "0 < sn_window_size n" and "vs \<noteq> []" and "map_of (sn_history n) k = None"
  shows "map_of (sn_history (fold (normalizer_update k) vs n)) k = Some (py_last (sn_window_size n) vs)"
  using assms(2)
proof (induction vs rule: rev_nonempty_induct)
  case (single v)
  then show ?case using assms by (simp add: normalizer_update_history py_last_def)
next
  case (snoc v vs)
  have w: "sn_window_size (fold (normalizer_update k) vs n) = sn_window_size n" by (induction vs arbitrary: n) simp_all
  let ?w = "sn_window_size n"
  have "py_last ?w (vs @ [v]) = (if length (py_last ?w vs @ [v]) > ?w then tl (py_last ?w vs @ [v]) else py_last ?w vs @ [v])"
    by (rule py_last_snoc [OF assms(1)])
  then show ?case using snoc.IH w by (simp add: normalizer_update_history Let_def)
qed

end
