(* ===== verification/Ic_Weights.thy ===== *)
theory Ic_Weights
  imports Indicators
begin

text \<open>
  The weight calculator of backtest/ic_weight_calculator.py: the information coefficient (a Pearson
  correlation in decimals), its information ratio, the exponentially weighted variant, and weights
  proportional to the absolute values. Every division, power and root may raise as Python's does.
  Lemmas: weights are never negative and add up to one but for rounding, short histories and a span
  of one raise.
\<close>

record ic_calculator =
  ic_lookback_window :: nat
  ic_ewma_span :: "nat option"
  ic_history_periods :: nat

definition ic_init :: "int \<Rightarrow> int option \<Rightarrow> int \<Rightarrow> ic_calculator result" where
  "ic_init lookback_window ewma_span periods =
     (if lookback_window < 3 then Inl ValueError
      else if (case ewma_span of None \<Rightarrow> False | Some s \<Rightarrow> s < 1) then Inl ValueError
      else if periods < 1 then Inl ValueError
      else Inr \<lparr>ic_lookback_window = nat lookback_window, ic_ewma_span = map_option nat ewma_span, ic_history_periods = nat periods\<rparr>)"

text \<open>\<open>0 ** 0\<close> is an invalid operation.\<close>

definition dec_pow :: "decimal \<Rightarrow> nat \<Rightarrow> decimal result" where
  "dec_pow x n = (if x = 0 \<and> n = 0 then Inl InvalidOperation else Inr (dec_power x n))"

definition correlation :: "decimal \<Rightarrow> decimal \<Rightarrow> decimal \<Rightarrow> decimal result" where
  "correlation var_x var_y cov_xy =
     (if var_x = 0 \<or> var_y = 0 then Inr 0
      else res_bind (dec_sqrt var_x) (\<lambda>sx. res_bind (dec_sqrt var_y) (\<lambda>sy. dec_div cov_xy (dec_mul sx sy))))"

definition calculate_ic :: "decimal list \<Rightarrow> decimal list \<Rightarrow> decimal result" where
  "calculate_ic xs ys =
     (if length xs \<noteq> length ys then Inl ValueError
      else if length xs < 3 then Inl ValueError
      else res_bind (dec_mean xs) (\<lambda>mean_x. res_bind (dec_mean ys) (\<lambda>mean_y.
             correlation (dec_sum (map (\<lambda>x. dec_power (dec_sub x mean_x) 2) xs))
               (dec_sum (map (\<lambda>y. dec_power (dec_sub y mean_y) 2) ys))
               (dec_sum (map (\<lambda>(x, y). dec_mul (dec_sub x mean_x) (dec_sub y mean_y)) (zip xs ys))))))"

definition calculate_ic_ir :: "decimal list \<Rightarrow> decimal result" where
  "calculate_ic_ir ics =
     (if length ics < 3 then Inl ValueError
      else res_bind (dec_mean ics) (\<lambda>mean_ic.
           res_bind (dec_div (dec_sum (map (\<lambda>ic. dec_power (dec_sub ic mean_ic) 2) ics)) (dec_sub (of_nat (length ics)) 1)) (\<lambda>variance.
           res_bind (dec_sqrt variance) (\<lambda>std. if std = 0 then Inr 0 else dec_div mean_ic std))))"

definition ewma_weight :: "decimal \<Rightarrow> nat \<Rightarrow> nat \<Rightarrow> decimal result" where
  "ewma_weight alpha n i = res_bind (dec_pow (dec_sub 1 alpha) (n - 1 - i)) (\<lambda>p. Inr (dec_mul alpha p))"

definition ewma_ic_from_window :: "ic_calculator \<Rightarrow> decimal list \<Rightarrow> decimal list \<Rightarrow> decimal result" where
  "ewma_ic_from_window c fs rs =
     (let n = length fs;
          span = (case ic_ewma_span c of None \<Rightarrow> n | Some s \<Rightarrow> if s = 0 then n else s)
      in res_bind (dec_div 2 (dec_add (of_nat span) 1)) (\<lambda>alpha.
         res_bind (res_map (ewma_weight alpha n) [0..<n]) (\<lambda>raw.
         res_bind (res_map (\<lambda>w. dec_div w (dec_sum raw)) raw) (\<lambda>ws.
           if length ws \<noteq> length rs then Inl ValueError
           else let mean_x = dec_sum (map (\<lambda>(w, x). dec_mul w x) (zip ws fs));
                    mean_y = dec_sum (map (\<lambda>(w, y). dec_mul w y) (zip ws rs));
                    var_x = dec_sum (map (\<lambda>(w, x). dec_mul w (dec_power (dec_sub x mean_x) 2)) (zip ws fs));
                    var_y = dec_sum (map (\<lambda>(w, y). dec_mul w (dec_power (dec_sub y mean_y) 2)) (zip ws rs));
                    cov_xy = dec_sum (map (\<lambda>(w, x, y). dec_mul (dec_mul w (dec_sub x mean_x)) (dec_sub y mean_y)) (zip ws (zip fs rs)))
                in correlation var_x var_y cov_xy))))"

definition calculate_ewma_ic :: "ic_calculator \<Rightarrow> decimal list \<Rightarrow> decimal list \<Rightarrow> decimal result" where
  "calculate_ewma_ic c fs rs =
     (if length fs \<noteq> length rs then Inl ValueError
      else if length fs < ic_lookback_window c then Inl ValueError
      else ewma_ic_from_window c (py_last (ic_lookback_window c) fs) (py_last (ic_lookback_window c) rs))"

definition weights_from_ic :: "decimal dict \<Rightarrow> decimal dict result" where
  "weights_from_ic ics =
     (if ics = [] then Inl ValueError
      else let abs_ics = map (map_prod id dec_abs) ics;
               total = dec_sum (map snd abs_ics)
           in if total = 0
              then res_bind (dec_div 1 (of_nat (length ics))) (\<lambda>w. Inr (map (\<lambda>(k, _). (k, w)) ics))
              else res_map (\<lambda>(k, a). res_bind (dec_div a total) (\<lambda>w. Inr (k, w))) abs_ics)"

definition calculate_rolling_ic :: "ic_calculator \<Rightarrow> decimal list \<Rightarrow> decimal list \<Rightarrow> decimal result" where
  "calculate_rolling_ic c fs rs =
     (if length fs < ic_lookback_window c then Inl ValueError
      else calculate_ic (py_last (ic_lookback_window c) fs) (py_last (ic_lookback_window c) rs))"

definition history_ic :: "ic_calculator \<Rightarrow> decimal list \<Rightarrow> string \<times> decimal list \<Rightarrow> (string \<times> decimal) result" where
  "history_ic c rs p =
     (case p of (name, fs) \<Rightarrow>
        let n = min (length fs) (length rs);
            fs' = py_last n fs; rs' = py_last n rs
        in res_bind (if n \<ge> ic_lookback_window c then calculate_rolling_ic c fs' rs'
             else if n \<ge> 3 then calculate_ic fs' rs' else Inr 0) (\<lambda>ic. Inr (name, ic)))"

definition weights_from_history :: "ic_calculator \<Rightarrow> decimal list dict \<Rightarrow> decimal list \<Rightarrow> decimal dict result" where
  "weights_from_history c fh rs = res_bind (res_map (history_ic c rs) fh) weights_from_ic"

text \<open>The periods of the series: the loop breaks when a window would start before the data.\<close>

definition period_ic :: "ic_calculator \<Rightarrow> decimal list \<Rightarrow> decimal list \<Rightarrow> nat \<Rightarrow> decimal result" where
  "period_ic c fs rs i =
     (let start_idx = length rs - i - ic_lookback_window c;
          wf = take (ic_lookback_window c) (drop start_idx fs); wr = take (ic_lookback_window c) (drop start_idx rs)
      in if ic_ewma_span c \<noteq> None \<and> ic_ewma_span c \<noteq> Some 0 then ewma_ic_from_window c wf wr else calculate_ic wf wr)"

definition ic_series :: "ic_calculator \<Rightarrow> decimal list \<Rightarrow> decimal list \<Rightarrow> decimal list result" where
  "ic_series c fs rs =
     res_map (period_ic c fs rs) (takeWhile (\<lambda>i. i + ic_lookback_window c \<le> length rs) [0..<ic_history_periods c])"

definition pipeline_ir :: "ic_calculator \<Rightarrow> decimal list \<Rightarrow> string \<times> decimal list \<Rightarrow> (string \<times> decimal) result" where
  "pipeline_ir c rs p =
     (case p of (name, fs) \<Rightarrow>
        res_bind
          (if length fs < ic_lookback_window c + ic_history_periods c - 1
           then if length fs \<ge> 3
                then calculate_ic (if length fs \<ge> ic_lookback_window c then py_last (ic_lookback_window c) fs else fs) (py_last (length fs) rs)
                else Inr 0
           else res_bind (ic_series c fs rs) (\<lambda>ics.
                  if length ics \<ge> 3 then calculate_ic_ir ics
                  else if ics \<noteq> [] then dec_mean ics else Inr 0))
          (\<lambda>ir. Inr (name, ir)))"

definition weights_full_pipeline :: "ic_calculator \<Rightarrow> decimal list dict \<Rightarrow> decimal list \<Rightarrow> decimal dict result" where
  "weights_full_pipeline c fh rs = res_bind (res_map (pipeline_ir c rs) fh) weights_from_ic"

section \<open>Weights\<close>

lemma res_map_length: "res_map f xs = Inr ys \<Longrightarrow> length ys = length xs"
  by (induction xs arbitrary: ys) (auto simp: res_bind_eq_Inr)

lemma weights_keys: "weights_from_ic ics = Inr ws \<Longrightarrow> map fst ws = map fst ics"
proof -
  have "map fst ws' = map fst xs" if "res_map (\<lambda>(k, a). res_bind (dec_div a t) (\<lambda>w. Inr (k, w))) xs = Inr ws'"
    for t xs and ws' :: "decimal dict"
    using that by (induction xs arbitrary: ws') (auto simp: res_bind_eq_Inr)
  then show "weights_from_ic ics = Inr ws \<Longrightarrow> ?thesis"
    by (auto simp: weights_from_ic_def Let_def res_bind_eq_Inr split: if_splits)
qed

text \<open>The weights of a non-zero total are the rounded shares.\<close>

lemma weights_shares:
  assumes "ics \<noteq> []" and "dec_sum (map (\<lambda>p. dec_abs (snd p)) ics) = t" and "t \<noteq> 0"
  shows "weights_from_ic ics = Inr (map (\<lambda>(k, ic). (k, dec (dec_abs ic / t))) ics)"
proof -
  have "res_map (\<lambda>(k, a). res_bind (dec_div a t) (\<lambda>w. Inr (k, w))) (map (map_prod id dec_abs) xs)
    = Inr (map (\<lambda>(k, ic). (k, dec (dec_abs ic / t))) xs)" for xs :: "decimal dict"
    using assms(3) by (induction xs) (auto simp: dec_div_def)
  then show ?thesis using assms by (simp add: weights_from_ic_def Let_def comp_def)
qed

lemma weights_equal:
  assumes "ics \<noteq> []" and "dec_sum (map (\<lambda>p. dec_abs (snd p)) ics) = 0"
  shows "weights_from_ic ics = Inr (map (\<lambda>(k, _). (k, dec (1 / of_nat (length ics)))) ics)"
  using assms by (simp add: weights_from_ic_def Let_def comp_def dec_div_def)

lemma sum_list_divide: "sum_list (map (\<lambda>x. f x / c) xs) = sum_list (map f xs) / (c :: rat)"
  by (induction xs) (simp_all add: add_divide_distrib)

lemma approx_scale: "0 \<le> c \<Longrightarrow> approx k x y \<Longrightarrow> approx k (c * x) (c * y)"
proof -
  assume c: "0 \<le> c" and a: "approx k x y"
  have "c * x \<le> c * (round_factor ^ k * y)" "c * y \<le> c * (round_factor ^ k * x)"
    using a c by (auto simp: approx_def intro: mult_left_mono)
  then show ?thesis by (simp add: approx_def ac_simps)
qed

text \<open>The weights keep the order of the factors, are never negative, grow with the absolute value of
  the coefficient, and add up to one but for one rounding for every factor and one for the total.\<close>

theorem ic_weights_correct:
  assumes "ics \<noteq> []"
  shows "\<exists>w. weights_from_ic ics = Inr (map (\<lambda>(k, ic). (k, w ic)) ics) \<and> (\<forall>x. 0 \<le> w x)
    \<and> (\<forall>x y. \<bar>x\<bar> \<le> \<bar>y\<bar> \<longrightarrow> w x \<le> w y)
    \<and> approx (Suc (length ics)) (sum_list (map (\<lambda>p. w (snd p)) ics)) 1"
proof -
  let ?t = "dec_sum (map (\<lambda>p. dec_abs (snd p)) ics)"
  have nn: "0 \<le> dec_abs x" for x by (simp add: dec_abs_def dec_nonneg)
  have tpos: "0 \<le> ?t" by (rule dec_sum_nonneg) (auto simp: nn)
  show ?thesis
  proof (cases "?t = 0")
    case True
    let ?w = "dec (1 / of_nat (length ics))"
    have n: "0 < length ics" using assms by simp
    have w: "0 \<le> ?w" by (simp add: dec_nonneg)
    have "approx 1 ?w (1 / of_nat (length ics))" by (rule approx_dec) simp
    then have "approx 1 (of_nat (length ics) * ?w) (of_nat (length ics) * (1 / of_nat (length ics)))"
      by (rule approx_scale [rotated]) simp
    moreover have "of_nat (length ics) * (1 / of_nat (length ics) :: rat) = 1" using n by simp
    moreover have "sum_list (map (\<lambda>p. ?w) ics) = of_nat (length ics) * ?w" by (simp add: sum_list_triv)
    ultimately have one: "approx 1 (sum_list (map (\<lambda>p. ?w) ics)) 1" by simp
    have "0 \<le> sum_list (map (\<lambda>p. ?w) ics)" using w by (intro sum_list_nonneg) auto
    from approx_mono [OF one _ this zero_le_one] have "approx (Suc (length ics)) (sum_list (map (\<lambda>p. ?w) ics)) 1" by simp
    then show ?thesis using weights_equal [OF assms True] w by (intro exI [of _ "\<lambda>_. ?w"]) simp
  next
    case False
    then have t: "0 < ?t" using tpos by simp
    let ?w = "\<lambda>x. dec (dec_abs x / ?t)"
    have w: "0 \<le> ?w x" for x using nn t by (simp add: dec_nonneg)
    have mono: "?w x \<le> ?w y" if "\<bar>x\<bar> \<le> \<bar>y\<bar>" for x y
      using that t by (intro dec_mono divide_right_mono) (simp_all add: dec_abs_def dec_mono)
    have "approx 1 (sum_list (map (\<lambda>p. ?w (snd p)) ics)) (sum_list (map (\<lambda>p. dec_abs (snd p) / ?t) ics))"
      using nn t by (intro approx_sum_list approx_dec) simp
    moreover have "sum_list (map (\<lambda>p. dec_abs (snd p) / ?t) ics) = sum_list (map (\<lambda>p. dec_abs (snd p)) ics) / ?t"
      by (rule sum_list_divide)
    moreover have "approx (length ics) (sum_list (map (\<lambda>p. dec_abs (snd p)) ics) / ?t) 1"
      using approx_dec_sum [of "map (\<lambda>p. dec_abs (snd p)) ics"] nn t by (auto simp: approx_def field_simps)
    ultimately have "approx (Suc (length ics)) (sum_list (map (\<lambda>p. ?w (snd p)) ics)) 1"
      using approx_trans [of 1 _ _ "length ics" 1] by simp
    then show ?thesis using weights_shares [OF assms refl False] w mono by (intro exI [of _ ?w]) simp
  qed
qed

section \<open>What raises\<close>

lemma res_map_raises:
  assumes "x \<in> set xs" and "f x = Inl e" and "\<And>y e'. y \<in> set xs \<Longrightarrow> f y = Inl e' \<Longrightarrow> e' = e"
  shows "res_map f xs = Inl e"
  using assms
proof (induction xs)
  case (Cons y ys)
  show ?case
  proof (cases "f y")
    case (Inl e')
    then have "e' = e" using Cons.prems(3) [of y e'] by simp
    with Inl show ?thesis by simp
  next
    case (Inr z)
    then have "x \<in> set ys" using Cons.prems(1,2) by auto
    from Cons.IH [OF this Cons.prems(2)] have "res_map f ys = Inl e" by (rule meta_mp) (rule Cons.prems(3), simp_all)
    with Inr show ?thesis by simp
  qed
qed simp

lemma ewma_weight_one:
  "ewma_weight 1 n i = (if n - 1 - i = 0 then Inl InvalidOperation else Inr (dec_mul 1 (dec_power 0 (n - 1 - i))))"
  by (simp add: ewma_weight_def dec_sub_def dec_pow_def)

text \<open>A span of one is allowed, gives a smoothing factor of one, and raises 0 to the power 0.\<close>

lemma ewma_span_one_raises:
  assumes "ic_ewma_span c = Some 1" and "fs \<noteq> []"
  shows "ewma_ic_from_window c fs rs = Inl InvalidOperation"
proof -
  have one: "dec (1 :: rat) = 1" "dec (2 :: rat) = 2" using dec_exact [of 1 1 0] dec_exact [of 2 2 0] by simp_all
  have "res_map (ewma_weight 1 (length fs)) [0..<length fs] = Inl InvalidOperation"
    using assms(2) by (intro res_map_raises [of "length fs - 1"]) (auto simp: ewma_weight_one split: if_splits)
  then show ?thesis using assms(1) by (simp add: ewma_ic_from_window_def dec_div_def dec_add_def one)
qed

text \<open>A history longer than the window but too short for the series is compared with longer returns.\<close>

lemma pipeline_short_history_raises:
  assumes "3 \<le> ic_lookback_window c" and "ic_lookback_window c < length fs"
    and "length fs < ic_lookback_window c + ic_history_periods c - 1" and "length rs = length fs"
  shows "weights_full_pipeline c ((name, fs) # rest) rs = Inl ValueError"
proof -
  have "length (py_last (length fs) rs) = length fs" "length (py_last (ic_lookback_window c) fs) = ic_lookback_window c"
    using assms by (simp_all add: py_last_def)
  then have "calculate_ic (py_last (ic_lookback_window c) fs) (py_last (length fs) rs) = Inl ValueError"
    using assms by (simp add: calculate_ic_def)
  then show ?thesis using assms by (simp add: weights_full_pipeline_def pipeline_ir_def)
qed

theorem ic_weights_correct_witness:
  "\<exists>u v. weights_from_ic [(''a'', 1 / 2), (''b'', - 1)] = Inr [(''a'', u), (''b'', v)] \<and> u \<le> v"
proof -
  let ?ics = "[(''a'', 1 / 2), (''b'', - 1)] :: decimal dict"
  from ic_weights_correct [of ?ics] obtain w where
    "weights_from_ic ?ics = Inr (map (\<lambda>(k, ic). (k, w ic)) ?ics)" "\<forall>x y. \<bar>x\<bar> \<le> \<bar>y\<bar> \<longrightarrow> w x \<le> w y" by auto
  moreover from this(2) have "w (1 / 2) \<le> w (- 1)" by simp
  ultimately show ?thesis by auto
qed

end
