(* ===== verification/Trend_Breakout.thy ===== *)
theory Trend_Breakout
  imports Ic_Weights Backtest_Engine
begin

text \<open>
  The strategies of strategies/examples/: trend_breakout.py (history buffers, indicators, factors,
  dynamic weights by information coefficient, position sizing, entry and exit signals) and
  momentum.py, as strategies of the backtest engine's type. Per-symbol dictionaries with default
  lists are functions. The four-decimals text of a number, and the time stamp of a signal, are
  arguments; \<open>MarketData\<close> has no high, so its price stands for it. Lemmas: the buffers refine the
  full history of the symbol, the strategy never raises, its signals are sound, the size bounds
  the risk, and which returns the coefficients are computed from.
\<close>

section \<open>Parameters and state\<close>

record trend_config =
  tc_name :: string
  tc_symbols :: "string list"
  tc_entry_threshold :: double
  tc_exit_threshold :: double
  tc_position_sizing :: string
  tc_position_size :: int
  tc_risk_per_trade :: double
  tc_feature_weights :: "double dict"
  tc_factor_weights :: "double dict"
  tc_weight_method :: string
  tc_ic_lookback_window :: int
  tc_ic_ewma_span :: "int option"
  tc_ic_history_periods :: int
  tc_normalize_scores :: bool
  tc_normalize_min_periods :: nat
  tc_normalize_window_size :: nat

record trend_params =
  tp_name :: string
  tp_symbols :: "string list"
  tp_entry_threshold :: decimal
  tp_exit_threshold :: decimal
  tp_position_sizing :: string
  tp_position_size :: int
  tp_risk_per_trade :: decimal
  tp_roc_weight :: decimal
  tp_price_vs_ma_weight :: decimal
  tp_price_vs_high_weight :: decimal
  tp_volume_zscore_weight :: decimal
  tp_manual_weights :: "decimal \<times> decimal"
  tp_weight_method :: string
  tp_ic_calculator :: "ic_calculator option"

record trend_state =
  ts_price_history :: "string \<Rightarrow> decimal list"
  ts_volume_history :: "string \<Rightarrow> int list"
  ts_high_history :: "string \<Rightarrow> decimal list"
  ts_composite :: composite_factor
  ts_momentum_scores :: "string \<Rightarrow> decimal list"
  ts_breakout_scores :: "string \<Rightarrow> decimal list"
  ts_return_history :: "string \<Rightarrow> decimal list"
  ts_last_price :: "string \<Rightarrow> decimal option"
  ts_ic_bar_count :: nat
  ts_ic_weights_initialized :: bool
  ts_last_ic_update_bar :: "nat option"
  ts_dynamic_weights :: "decimal \<times> decimal"

definition default_lookback :: nat where "default_lookback = 20"
definition max_history_size :: nat where "max_history_size = default_lookback + 1"

text \<open>\<open>Decimal(str(d.get(key, 0.5)))\<close>.\<close>

definition weight_or_half :: "double dict \<Rightarrow> string \<Rightarrow> decimal" where
  "weight_or_half d k = float_repr (case map_of d k of None \<Rightarrow> 1 / 2 | Some x \<Rightarrow> x)"

definition trend_init :: "trend_config \<Rightarrow> (trend_params \<times> trend_state) result" where
  "trend_init c =
     (let mw = weight_or_half (tc_factor_weights c) ''momentum_factor'';
          bw = weight_or_half (tc_factor_weights c) ''breakout_factor''
      in res_bind
           (if tc_weight_method c = ''ic''
            then map_sum id Some (ic_init (tc_ic_lookback_window c) (tc_ic_ewma_span c) (tc_ic_history_periods c))
            else Inr None)
           (\<lambda>calc. Inr
             (\<lparr>tp_name = tc_name c, tp_symbols = tc_symbols c, tp_entry_threshold = float_repr (tc_entry_threshold c),
               tp_exit_threshold = float_repr (tc_exit_threshold c), tp_position_sizing = tc_position_sizing c,
               tp_position_size = tc_position_size c, tp_risk_per_trade = float_repr (tc_risk_per_trade c),
               tp_roc_weight = weight_or_half (tc_feature_weights c) ''roc_20'',
               tp_price_vs_ma_weight = weight_or_half (tc_feature_weights c) ''price_vs_ma_20'',
               tp_price_vs_high_weight = weight_or_half (tc_feature_weights c) ''price_vs_high_20'',
               tp_volume_zscore_weight = weight_or_half (tc_feature_weights c) ''volume_zscore'',
               tp_manual_weights = (mw, bw), tp_weight_method = tc_weight_method c, tp_ic_calculator = calc\<rparr>,
              \<lparr>ts_price_history = (\<lambda>_. []), ts_volume_history = (\<lambda>_. []), ts_high_history = (\<lambda>_. []),
               ts_composite = composite_init mw bw (tc_normalize_scores c) (tc_normalize_min_periods c) (tc_normalize_window_size c),
               ts_momentum_scores = (\<lambda>_. []), ts_breakout_scores = (\<lambda>_. []), ts_return_history = (\<lambda>_. []),
               ts_last_price = (\<lambda>_. None), ts_ic_bar_count = 0, ts_ic_weights_initialized = False, ts_last_ic_update_bar = None,
               ts_dynamic_weights = (mw, bw)\<rparr>)))"

text \<open>The normaliser's history is not among what a start clears.\<close>

definition trend_on_start :: "trend_params \<Rightarrow> trend_state \<Rightarrow> trend_state" where
  "trend_on_start p s =
     s\<lparr>ts_price_history := (\<lambda>_. []), ts_volume_history := (\<lambda>_. []), ts_high_history := (\<lambda>_. []),
       ts_momentum_scores := (\<lambda>_. []), ts_breakout_scores := (\<lambda>_. []), ts_return_history := (\<lambda>_. []),
       ts_last_price := (\<lambda>_. None), ts_ic_bar_count := 0, ts_ic_weights_initialized := False, ts_last_ic_update_bar := None,
       ts_dynamic_weights := tp_manual_weights p,
       ts_composite := update_weights (Some (fst (tp_manual_weights p))) (Some (snd (tp_manual_weights p))) (ts_composite s)\<rparr>"

section \<open>Buffers, indicators, factors\<close>

definition push_window :: "nat \<Rightarrow> 'a \<Rightarrow> 'a list \<Rightarrow> 'a list" where
  "push_window n x xs = (let ys = xs @ [x] in if length ys > n then tl ys else ys)"

definition update_history_buffers :: "market_data \<Rightarrow> trend_state \<Rightarrow> trend_state" where
  "update_history_buffers d s =
     (let sy = md_symbol d; high_value = md_price d
      in s\<lparr>ts_price_history := (ts_price_history s)(sy := push_window max_history_size (md_price d) (ts_price_history s sy)),
           ts_volume_history := (ts_volume_history s)(sy := push_window max_history_size (md_volume d) (ts_volume_history s sy)),
           ts_high_history := (ts_high_history s)(sy := push_window max_history_size high_value (ts_high_history s sy))\<rparr>)"

definition calculate_indicators :: "decimal list \<Rightarrow> int list \<Rightarrow> decimal list \<Rightarrow> decimal option dict result" where
  "calculate_indicators prices volumes highs =
     res_bind (price_vs_ma default_lookback prices) (\<lambda>ma.
     res_bind (volume_zscore default_lookback (Some volumes)) (\<lambda>z.
       Inr [(''roc_20'', roc default_lookback prices), (''price_vs_ma_20'', ma),
            (''price_vs_high_20'', price_vs_high default_lookback prices (Some highs)), (''volume_zscore'', z)]))"

definition calculate_factors ::
  "trend_params \<Rightarrow> decimal option dict \<Rightarrow> composite_factor \<Rightarrow> (composite_factor \<times> (decimal \<times> decimal \<times> decimal) option) result" where
  "calculate_factors p inds c =
     res_bind (momentum_factor (tp_roc_weight p) (tp_price_vs_ma_weight p) inds) (\<lambda>m.
       case m of
         None \<Rightarrow> Inr (c, None)
       | Some mr \<Rightarrow>
           res_bind (breakout_factor (tp_price_vs_high_weight p) (tp_volume_zscore_weight p) inds) (\<lambda>b.
             case b of
               None \<Rightarrow> Inr (c, None)
             | Some br \<Rightarrow>
                 (let raw = [(''momentum_factor'', fr_score mr), (''breakout_factor'', fr_score br)];
                      c1 = update_normalizer raw c
                  in res_bind (composite_calculate (map (map_prod id Some) raw) c1) (\<lambda>r.
                       Inr (c1, case r of None \<Rightarrow> None | Some cr \<Rightarrow> Some (fr_score mr, fr_score br, fr_score cr))))))"

section \<open>Weights by information coefficient\<close>

definition ic_max_history :: "ic_calculator \<Rightarrow> nat" where
  "ic_max_history c = ic_lookback_window c + ic_history_periods c + 10"

definition update_ic_weight_history :: "trend_params \<Rightarrow> string \<Rightarrow> decimal \<Rightarrow> decimal \<Rightarrow> decimal \<Rightarrow> trend_state \<Rightarrow> trend_state" where
  "update_ic_weight_history p sy price m b s =
     (case tp_ic_calculator p of
        None \<Rightarrow> s
      | Some c \<Rightarrow>
          (let rets = (case ts_last_price s sy of
                         None \<Rightarrow> ts_return_history s sy
                       | Some prev \<Rightarrow> if prev = 0 then ts_return_history s sy
                           else ts_return_history s sy @ [dec (dec_sub price prev / prev)]);
               cap = (\<lambda>xs. if length xs > ic_max_history c then tl xs else xs)
           in s\<lparr>ts_momentum_scores := (ts_momentum_scores s)(sy := cap (ts_momentum_scores s sy @ [m])),
                ts_breakout_scores := (ts_breakout_scores s)(sy := cap (ts_breakout_scores s sy @ [b])),
                ts_return_history := (ts_return_history s)(sy := cap rets),
                ts_last_price := (ts_last_price s)(sy := Some price),
                ts_ic_bar_count := ts_ic_bar_count s + 1\<rparr>))"

text \<open>The aligned histories of a symbol, if they are long enough, and the weights they give.\<close>

definition aligned_histories ::
  "ic_calculator \<Rightarrow> decimal list \<Rightarrow> decimal list \<Rightarrow> decimal list \<Rightarrow> (decimal list \<times> decimal list \<times> decimal list) option" where
  "aligned_histories c ms bs rs =
     (let min_len = min (min (length ms) (length bs)) (length rs + 1)
      in if min_len < ic_lookback_window c + ic_history_periods c then None
         else Some (take (min_len - 1) ms, take (min_len - 1) bs, take (min_len - 1) rs))"

definition symbol_ic_weights :: "ic_calculator \<Rightarrow> trend_state \<Rightarrow> string \<Rightarrow> decimal dict option" where
  "symbol_ic_weights c s sy =
     (case aligned_histories c (ts_momentum_scores s sy) (ts_breakout_scores s sy) (ts_return_history s sy) of
        None \<Rightarrow> None
      | Some (ms, bs, rs) \<Rightarrow>
          (case weights_full_pipeline c [(''momentum_factor'', ms), (''breakout_factor'', bs)] rs of
             Inl _ \<Rightarrow> None
           | Inr w \<Rightarrow> Some w))"

definition get_weight :: "string \<Rightarrow> decimal dict \<Rightarrow> decimal" where
  "get_weight k d = (case map_of d k of None \<Rightarrow> 0 | Some w \<Rightarrow> w)"

definition average_weights :: "decimal dict list \<Rightarrow> (decimal \<times> decimal) result" where
  "average_weights ws =
     res_bind (dec_div (dec_sum (map (get_weight ''momentum_factor'') ws)) (of_nat (length ws))) (\<lambda>mw.
     res_bind (dec_div (dec_sum (map (get_weight ''breakout_factor'') ws)) (of_nat (length ws))) (\<lambda>bw.
       let total = dec_add mw bw
       in if total > 0
          then res_bind (dec_div mw total) (\<lambda>x. res_bind (dec_div bw total) (\<lambda>y. Inr (x, y)))
          else Inr (mw, bw)))"

definition maybe_update_ic_weights :: "trend_params \<Rightarrow> trend_state \<Rightarrow> trend_state result" where
  "maybe_update_ic_weights p s =
     (case tp_ic_calculator p of
        None \<Rightarrow> Inr s
      | Some c \<Rightarrow>
          (let update_interval = max (ic_lookback_window c div 4) 10;
               skip = (case ts_last_ic_update_bar s of
                         None \<Rightarrow> False
                       | Some b \<Rightarrow> ts_ic_bar_count s - b < update_interval \<and> ts_ic_weights_initialized s)
           in if skip then Inr s
              else let s1 = s\<lparr>ts_last_ic_update_bar := Some (ts_ic_bar_count s)\<rparr>;
                       ws = fold (\<lambda>sy d. case symbol_ic_weights c s1 sy of None \<Rightarrow> d | Some w \<Rightarrow> AList.update sy w d) (tp_symbols p) []
                   in if ws = [] then Inr s1
                      else res_bind (average_weights (map snd ws)) (\<lambda>(mw, bw).
                             Inr (s1\<lparr>ts_composite := update_weights (Some mw) (Some bw) (ts_composite s1),
                                     ts_dynamic_weights := (mw, bw), ts_ic_weights_initialized := True\<rparr>))))"

section \<open>Sizes and signals\<close>

definition calculate_fixed_risk_size :: "trend_params \<Rightarrow> decimal \<Rightarrow> decimal list \<Rightarrow> int result" where
  "calculate_fixed_risk_size p price prices =
     res_bind (volatility default_lookback prices) (\<lambda>v.
       case v of
         None \<Rightarrow> Inr (tp_position_size p)
       | Some vol \<Rightarrow>
           if vol = 0 then Inr (tp_position_size p)
           else let notional_base = dec_mul (of_int (tp_position_size p)) price;
                    risk_capital = dec_mul notional_base (tp_risk_per_trade p)
                in res_bind (dec_div risk_capital vol) (\<lambda>position_value.
                     if price = 0 then Inr (tp_position_size p)
                     else res_bind (dec_div position_value price) (\<lambda>shares. Inr (max 1 (trunc_int shares)))))"

definition calculate_position_size :: "trend_params \<Rightarrow> market_data \<Rightarrow> decimal list \<Rightarrow> int result" where
  "calculate_position_size p d prices =
     (if tp_position_sizing p = ''equal_weight'' then Inr (tp_position_size p)
      else calculate_fixed_risk_size p (md_price d) prices)"

record signal_texts =
  st_four_decimals :: "decimal \<Rightarrow> string"
  st_percent :: "decimal \<Rightarrow> string"
  st_now :: "market_data \<Rightarrow> int"

definition held_quantity :: "(int \<times> decimal) option \<Rightarrow> int" where
  "held_quantity pos = (case pos of None \<Rightarrow> 0 | Some (q, _) \<Rightarrow> q)"

definition trend_signal :: "trend_params \<Rightarrow> signal_texts \<Rightarrow> market_data \<Rightarrow> side \<Rightarrow> int \<Rightarrow> string \<Rightarrow> decimal dict \<Rightarrow> signal" where
  "trend_signal p tx d action qty reason scores =
     \<lparr>sig_strategy_id = tp_name p, sig_symbol = md_symbol d, sig_action = action, sig_quantity = qty, sig_order_type = Market,
      sig_limit_price = None, sig_reason = reason, sig_timestamp = st_now tx d, sig_factor_scores = scores\<rparr>"


text \<open>Entry and exit, given the scores.\<close>

definition trend_signals ::
  "trend_params \<Rightarrow> signal_texts \<Rightarrow> market_data \<Rightarrow> (int \<times> decimal) option \<Rightarrow> decimal list \<Rightarrow> decimal \<times> decimal \<times> decimal \<Rightarrow> signal list result" where
  "trend_signals p tx d pos prices scores =
     (case scores of (m, b, c) \<Rightarrow>
        let has_position = held_quantity pos > 0;
            factor_scores = [(''momentum_factor'', m), (''breakout_factor'', b), (''composite'', c)];
            text = st_four_decimals tx
        in if \<not> has_position \<and> c > tp_entry_threshold p
           then res_bind (calculate_position_size p d prices) (\<lambda>q.
                  Inr [trend_signal p tx d Buy q (''Entry: composite '' @ text c @ '' > threshold '' @ text (tp_entry_threshold p)) factor_scores])
           else if has_position \<and> c < tp_exit_threshold p
           then Inr [trend_signal p tx d Sell (held_quantity pos)
                  (''Exit: composite '' @ text c @ '' < threshold '' @ text (tp_exit_threshold p)) factor_scores]
           else Inr [])"

text \<open>The part of the handler behind the buffers, on the histories it reads from them.\<close>

definition trend_decide ::
  "trend_params \<Rightarrow> signal_texts \<Rightarrow> market_data \<Rightarrow> (string \<Rightarrow> (int \<times> decimal) option)
   \<Rightarrow> decimal list \<Rightarrow> int list \<Rightarrow> decimal list \<Rightarrow> trend_state \<Rightarrow> (signal list \<times> trend_state) result" where
  "trend_decide p tx d ctx prices volumes highs s =
     (if length prices < max_history_size then Inr ([], s)
      else res_bind (calculate_indicators prices volumes highs) (\<lambda>inds.
             if \<exists>v \<in> set (map snd inds). v = None then Inr ([], s)
             else res_bind (calculate_factors p inds (ts_composite s)) (\<lambda>(c1, factors).
                    let s1 = s\<lparr>ts_composite := c1\<rparr>
                    in case factors of
                         None \<Rightarrow> Inr ([], s1)
                       | Some (m, b, c) \<Rightarrow>
                           res_bind
                             (if tp_weight_method p = ''ic''
                              then maybe_update_ic_weights p (update_ic_weight_history p (md_symbol d) (md_price d) m b s1)
                              else Inr s1)
                             (\<lambda>s2. res_bind (trend_signals p tx d (ctx (md_symbol d)) prices (m, b, c)) (\<lambda>sigs. Inr (sigs, s2))))))"

definition trend_on_market_data :: "trend_params \<Rightarrow> signal_texts \<Rightarrow> trend_state strategy" where
  "trend_on_market_data p tx d ctx s =
     (let s1 = update_history_buffers d s; sy = md_symbol d
      in trend_decide p tx d ctx (ts_price_history s1 sy) (ts_volume_history s1 sy) (ts_high_history s1 sy) s1)"

definition trend_warmup_bars :: nat where "trend_warmup_bars = default_lookback"

section \<open>The example momentum strategy\<close>

record momentum_params =
  mp_name :: string
  mp_lookback_period :: nat
  mp_threshold :: decimal
  mp_position_size :: int

definition momentum_init :: "string \<Rightarrow> nat \<Rightarrow> double \<Rightarrow> int \<Rightarrow> momentum_params" where
  "momentum_init name lookback threshold sz =
     \<lparr>mp_name = name, mp_lookback_period = lookback, mp_threshold = float_repr threshold, mp_position_size = sz\<rparr>"

text \<open>A zero price in the window raises; a lookback of zero leaves no element to read.\<close>

definition momentum_on_market_data :: "momentum_params \<Rightarrow> signal_texts \<Rightarrow> (string \<Rightarrow> decimal list) strategy" where
  "momentum_on_market_data p tx d ctx s =
     (let sy = md_symbol d;
          history = push_window (mp_lookback_period p) (md_price d) (s sy);
          s1 = s(sy := history);
          sig = (\<lambda>action q reason. \<lparr>sig_strategy_id = mp_name p, sig_symbol = sy, sig_action = action, sig_quantity = q,
            sig_order_type = Market, sig_limit_price = None, sig_reason = reason, sig_timestamp = st_now tx d, sig_factor_scores = []\<rparr>)
      in if length history < mp_lookback_period p then Inr ([], s1)
         else if history = [] then Inl (ExternalError ''IndexError'')
         else res_bind (dec_div (dec_sub (md_price d) (hd history)) (hd history)) (\<lambda>momentum.
                let q = held_quantity (ctx sy)
                in Inr (if \<not> q > 0 \<and> momentum > mp_threshold p
                        then [sig Buy (mp_position_size p) (''Momentum '' @ st_percent tx momentum @ '' > '' @ st_percent tx (mp_threshold p))]
                        else if q > 0 \<and> momentum < dec (- mp_threshold p)
                        then [sig Sell q (''Momentum '' @ st_percent tx momentum @ '' < -'' @ st_percent tx (mp_threshold p))]
                        else [], s1)))"

section \<open>The strategy never raises\<close>

lemma indicators_total: "\<exists>inds. calculate_indicators prices volumes highs = Inr inds"
  using price_vs_ma_total [of default_lookback prices] volume_zscore_total [of default_lookback "Some volumes"]
  by (auto simp: calculate_indicators_def default_lookback_def)

lemma normalize_total:
  assumes "0 < sn_min_periods n \<or> 0 < sn_window_size n" and "\<forall>h \<in> set (map snd (sn_history n)). h \<noteq> []"
  shows "\<exists>r. normalize_score k v n = Inr r"
proof (cases "map_of (sn_history n) k")
  case (Some h)
  then have ne: "h \<noteq> []" using assms(2) by (force dest: map_of_SomeD)
  obtain m where m: "dec_mean h = Inr m" using dec_mean_total [OF ne] ..
  obtain s where "dec_std h m = Inr s" using dec_std_total [OF ne] by blast
  then show ?thesis using Some m by (simp add: normalize_score_def dec_div_def)
qed (simp add: normalize_score_def)

text \<open>The normaliser, where there is one, keeps at least one score of each factor it knows.\<close>

definition scores_kept :: "score_normalizer \<Rightarrow> bool" where
  "scores_kept n \<longleftrightarrow> 0 < sn_window_size n \<and> (\<forall>h \<in> set (map snd (sn_history n)). h \<noteq> [])"

definition normalizer_ok :: "composite_factor \<Rightarrow> bool" where
  "normalizer_ok c \<longleftrightarrow> (case cf_normalizer c of None \<Rightarrow> True | Some n \<Rightarrow> scores_kept n)"

lemma set_update: "x \<in> set (AList.update k v xs) \<Longrightarrow> x = (k, v) \<or> x \<in> set xs"
  by (induction xs) (auto split: if_splits)

lemma normalizer_update_ok:
  assumes "scores_kept n"
  shows "scores_kept (normalizer_update k v n)"
proof -
  let ?h = "(case map_of (sn_history n) k of None \<Rightarrow> [] | Some h \<Rightarrow> h) @ [v]"
  let ?w = "if length ?h > sn_window_size n then tl ?h else ?h"
  have "?w \<noteq> []"
  proof (cases "length ?h > sn_window_size n")
    case True
    have "0 < length (tl ?h)" using True assms unfolding scores_kept_def length_tl by linarith
    with True show ?thesis by simp
  qed simp
  then show ?thesis using assms set_update [of _ k ?w "sn_history n"]
    by (fastforce simp: normalizer_update_def Let_def scores_kept_def)
qed

lemma update_normalizer_ok: "normalizer_ok c \<Longrightarrow> normalizer_ok (update_normalizer [(k1, v1), (k2, v2)] c)"
  by (cases "cf_normalizer c") (simp_all add: normalizer_ok_def update_normalizer_def normalizer_update_ok)

lemma composite_total:
  assumes "normalizer_ok c"
  shows "\<exists>r. composite_calculate inds c = Inr r"
proof (cases "cf_normalizer c")
  case None
  then show ?thesis by (auto simp: composite_calculate_def weighted_sum_def split: option.split)
next
  case (Some n)
  then have "0 < sn_min_periods n \<or> 0 < sn_window_size n" "\<forall>h \<in> set (map snd (sn_history n)). h \<noteq> []"
    using assms by (auto simp: normalizer_ok_def scores_kept_def)
  note t = normalize_total [OF this]
  show ?thesis
  proof (cases "(get_indicator inds ''momentum_factor'', get_indicator inds ''breakout_factor'')")
    case (Pair mo bo)
    obtain x y where "\<And>v. mo = Some v \<Longrightarrow> normalize_score ''momentum_factor'' v n = Inr x"
      "\<And>v. bo = Some v \<Longrightarrow> normalize_score ''breakout_factor'' v n = Inr y"
      using t [of "''momentum_factor''" "the mo"] t [of "''breakout_factor''" "the bo"] by (metis option.sel)
    then show ?thesis using Pair Some
      by (cases mo; cases bo; cases x; cases y) (simp_all add: composite_calculate_def weighted_sum_def)
  qed
qed

lemma factors_total:
  assumes "normalizer_ok c"
  shows "\<exists>c1 r. calculate_factors p inds c = Inr (c1, r) \<and> normalizer_ok c1"
proof -
  have two: "\<exists>r. two_factor k1 k2 w1 w2 i = Inr r" if "k1 \<noteq> k2" for k1 k2 w1 w2 i
    by (simp add: two_factor_score [OF that] split: option.split)
  obtain m where m: "momentum_factor (tp_roc_weight p) (tp_price_vs_ma_weight p) inds = Inr m"
    using two by (force simp: momentum_factor_def)
  obtain b where b: "breakout_factor (tp_price_vs_high_weight p) (tp_volume_zscore_weight p) inds = Inr b"
    using two by (force simp: breakout_factor_def)
  show ?thesis
  proof (cases "m = None \<or> b = None")
    case True
    then show ?thesis using m b assms by (cases m) (auto simp: calculate_factors_def)
  next
    case False
    then obtain mr br where mb: "m = Some mr" "b = Some br" by auto
    let ?raw = "[(''momentum_factor'', fr_score mr), (''breakout_factor'', fr_score br)]"
    have ok: "normalizer_ok (update_normalizer ?raw c)" by (rule update_normalizer_ok [OF assms])
    obtain r where "composite_calculate (map (map_prod id Some) ?raw) (update_normalizer ?raw c) = Inr r"
      using composite_total [OF ok] by blast
    then show ?thesis using m b mb ok by (simp add: calculate_factors_def Let_def)
  qed
qed


lemma average_total: "ws \<noteq> [] \<Longrightarrow> \<exists>x y. average_weights ws = Inr (x, y)"
  by (auto simp: average_weights_def dec_div_def Let_def)

lemma update_weights_normalizer [simp]: "cf_normalizer (update_weights mw bw c) = cf_normalizer c"
  by (simp add: update_weights_def Let_def split: option.split)

lemma maybe_update_total: "\<exists>s'. maybe_update_ic_weights p s = Inr s' \<and> cf_normalizer (ts_composite s') = cf_normalizer (ts_composite s)"
proof (cases "tp_ic_calculator p")
  case (Some c)
  let ?s1 = "s\<lparr>ts_last_ic_update_bar := Some (ts_ic_bar_count s)\<rparr>"
  let ?ws = "fold (\<lambda>sy d. case symbol_ic_weights c ?s1 sy of None \<Rightarrow> d | Some w \<Rightarrow> AList.update sy w d) (tp_symbols p) []"
  show ?thesis
  proof (cases "?ws = []")
    case False
    then obtain x y where "average_weights (map snd ?ws) = Inr (x, y)" using average_total [of "map snd ?ws"] by auto
    then show ?thesis using Some False by (simp add: maybe_update_ic_weights_def Let_def split: option.split)
  qed (simp add: maybe_update_ic_weights_def Let_def Some split: option.split)
qed (simp add: maybe_update_ic_weights_def)

lemma update_ic_normalizer [simp]: "ts_composite (update_ic_weight_history p sy price m b s) = ts_composite s"
  by (simp add: update_ic_weight_history_def Let_def split: option.split)

text \<open>The size is at least one share whenever the configured size is, and never fails.\<close>

lemma position_size_total: "\<exists>q. calculate_position_size p d prices = Inr q \<and> (1 \<le> tp_position_size p \<longrightarrow> 1 \<le> q)"
proof -
  obtain r where "volatility default_lookback prices = Inr r"
    using volatility_total [of default_lookback prices] by (auto simp: default_lookback_def)
  then show ?thesis
    by (cases r) (simp_all add: calculate_position_size_def calculate_fixed_risk_size_def dec_div_def Let_def)
qed

text \<open>What a list of signals may be: empty, an entry without a position, or the exit of a whole position.\<close>

definition sound_signals :: "trend_params \<Rightarrow> market_data \<Rightarrow> (int \<times> decimal) option \<Rightarrow> signal list \<Rightarrow> bool" where
  "sound_signals p d pos sigs \<longleftrightarrow> sigs = [] \<or>
     (\<exists>sg c. sigs = [sg] \<and> sig_symbol sg = md_symbol d \<and> sig_strategy_id sg = tp_name p
        \<and> map_of (sig_factor_scores sg) ''composite'' = Some c
        \<and> (sig_action sg = Buy \<and> held_quantity pos \<le> 0 \<and> tp_entry_threshold p < c \<and> (1 \<le> tp_position_size p \<longrightarrow> 1 \<le> sig_quantity sg)
           \<or> sig_action sg = Sell \<and> 0 < held_quantity pos \<and> c < tp_exit_threshold p \<and> sig_quantity sg = held_quantity pos))"

lemma signals_sound: "\<exists>sigs. trend_signals p tx d pos prices scores = Inr sigs \<and> sound_signals p d pos sigs"
proof -
  obtain m b c where sc: "scores = (m, b, c)" by (metis prod_cases3)
  obtain q where q: "calculate_position_size p d prices = Inr q" "1 \<le> tp_position_size p \<longrightarrow> 1 \<le> q"
    using position_size_total by blast
  show ?thesis
    by (cases "held_quantity pos > 0"; cases "c > tp_entry_threshold p"; cases "c < tp_exit_threshold p")
      (use q sc in \<open>simp_all add: trend_signals_def sound_signals_def trend_signal_def Let_def\<close>)
qed

lemma decide_sound:
  assumes "normalizer_ok (ts_composite s)"
  shows "\<exists>sigs s'. trend_decide p tx d ctx prices volumes highs s = Inr (sigs, s') \<and> normalizer_ok (ts_composite s')
    \<and> sound_signals p d (ctx (md_symbol d)) sigs"
proof -
  obtain inds where i: "calculate_indicators prices volumes highs = Inr inds" using indicators_total by blast
  obtain c1 r where f: "calculate_factors p inds (ts_composite s) = Inr (c1, r)" "normalizer_ok c1"
    using factors_total [OF assms] by blast
  show ?thesis
  proof (cases r)
    case None
    then show ?thesis using i f assms by (simp add: trend_decide_def sound_signals_def)
  next
    case (Some mbc)
    obtain m b c where mbc: "mbc = (m, b, c)" by (metis prod_cases3)
    let ?s1 = "s\<lparr>ts_composite := c1\<rparr>"
    have "\<exists>s2. (if tp_weight_method p = ''ic'' then maybe_update_ic_weights p (update_ic_weight_history p (md_symbol d) (md_price d) m b ?s1)
        else Inr ?s1) = Inr s2 \<and> normalizer_ok (ts_composite s2)"
      using maybe_update_total [of p "update_ic_weight_history p (md_symbol d) (md_price d) m b ?s1"] f(2)
      by (auto simp: normalizer_ok_def)
    then obtain s2 where s2: "(if tp_weight_method p = ''ic'' then maybe_update_ic_weights p (update_ic_weight_history p (md_symbol d) (md_price d) m b ?s1)
        else Inr ?s1) = Inr s2" "normalizer_ok (ts_composite s2)" by blast
    obtain sigs where g: "trend_signals p tx d (ctx (md_symbol d)) prices (m, b, c) = Inr sigs" "sound_signals p d (ctx (md_symbol d)) sigs"
      using signals_sound by blast
    show ?thesis using i f Some mbc s2 g assms by (simp add: trend_decide_def sound_signals_def Let_def)
  qed
qed

text \<open>C32. On any market data the strategy returns: no signal, or one for the symbol at hand, which is a purchase
  of at least one share only without a position and above the entry threshold, and otherwise the sale of
  exactly the whole position below the exit threshold.\<close>

theorem trend_signals_sound:
  assumes "normalizer_ok (ts_composite s)"
  shows "\<exists>sigs s'. trend_on_market_data p tx d ctx s = Inr (sigs, s') \<and> normalizer_ok (ts_composite s')
    \<and> sound_signals p d (ctx (md_symbol d)) sigs"
  using decide_sound [of "update_history_buffers d s" p tx d ctx] assms
  by (simp add: trend_on_market_data_def Let_def update_history_buffers_def)

lemma trend_init_normalizer_ok:
  "trend_init c = Inr (p, s) \<Longrightarrow> 0 < tc_normalize_window_size c \<Longrightarrow> normalizer_ok (ts_composite s)"
  by (auto simp: trend_init_def res_bind_eq_Inr Let_def composite_init_def normalizer_ok_def scores_kept_def)

section \<open>The buffers stand for the full history\<close>

text \<open>The strategy with unbounded histories: the specification of the buffers.\<close>

definition ticks_of :: "string \<Rightarrow> market_data list \<Rightarrow> market_data list" where
  "ticks_of sy ds = filter (\<lambda>d. md_symbol d = sy) ds"

fun full_run ::
  "trend_params \<Rightarrow> signal_texts \<Rightarrow> market_data list \<Rightarrow> (market_data \<times> (string \<Rightarrow> (int \<times> decimal) option)) list
   \<Rightarrow> trend_state \<Rightarrow> (signal list list \<times> trend_state) result" where
  "full_run p tx seen [] s = Inr ([], s)"
| "full_run p tx seen ((d, ctx) # rest) s =
     (let seen' = seen @ [d]; ts = ticks_of (md_symbol d) seen'
      in res_bind (trend_decide p tx d ctx (map md_price ts) (map md_volume ts) (map md_price ts) s) (\<lambda>(sigs, s').
           res_bind (full_run p tx seen' rest s') (\<lambda>(out, s2). Inr (sigs # out, s2))))"

fun trend_run ::
  "trend_params \<Rightarrow> signal_texts \<Rightarrow> (market_data \<times> (string \<Rightarrow> (int \<times> decimal) option)) list
   \<Rightarrow> trend_state \<Rightarrow> (signal list list \<times> trend_state) result" where
  "trend_run p tx [] s = Inr ([], s)"
| "trend_run p tx ((d, ctx) # rest) s =
     res_bind (trend_on_market_data p tx d ctx s) (\<lambda>(sigs, s').
       res_bind (trend_run p tx rest s') (\<lambda>(out, s2). Inr (sigs # out, s2)))"

text \<open>The abstraction: forget the buffers; the invariant: they are the ends of the histories.\<close>

definition forget_buffers :: "trend_state \<Rightarrow> trend_state" where
  "forget_buffers s = s\<lparr>ts_price_history := (\<lambda>_. []), ts_volume_history := (\<lambda>_. []), ts_high_history := (\<lambda>_. [])\<rparr>"

definition buffers_hold :: "market_data list \<Rightarrow> trend_state \<Rightarrow> bool" where
  "buffers_hold seen s \<longleftrightarrow> (\<forall>sy.
     ts_price_history s sy = py_last max_history_size (map md_price (ticks_of sy seen))
     \<and> ts_volume_history s sy = py_last max_history_size (map md_volume (ticks_of sy seen))
     \<and> ts_high_history s sy = py_last max_history_size (map md_price (ticks_of sy seen)))"

lemma push_window_py_last: "0 < n \<Longrightarrow> push_window n x (py_last n xs) = py_last n (xs @ [x])"
  using py_last_snoc [of n xs x] by (simp add: push_window_def Let_def)

lemma update_buffers_hold: "buffers_hold seen s \<Longrightarrow> buffers_hold (seen @ [d]) (update_history_buffers d s)"
  by (auto simp: buffers_hold_def update_history_buffers_def Let_def ticks_of_def max_history_size_def push_window_py_last)

lemma decide_local:
  "trend_decide p tx d ctx (py_last max_history_size prices) (py_last max_history_size volumes) (py_last max_history_size highs) s
    = trend_decide p tx d ctx prices volumes highs s"
proof -
  have len: "(length (py_last max_history_size prices) < max_history_size) = (length prices < max_history_size)"
    by (auto simp: max_history_size_def)
  have inds: "calculate_indicators (py_last max_history_size prices) (py_last max_history_size volumes) (py_last max_history_size highs)
      = calculate_indicators prices volumes highs"
    by (simp add: calculate_indicators_def max_history_size_def default_lookback_def roc_local [of 20, simplified] price_vs_ma_local [of 20, simplified]
        price_vs_high_local [of 20, simplified] volume_zscore_local [of 20, simplified])
  have "volatility default_lookback (py_last max_history_size prices) = volatility default_lookback prices"
    using volatility_local [of default_lookback prices] by (simp add: max_history_size_def)
  then have "calculate_position_size p d (py_last max_history_size prices) = calculate_position_size p d prices"
    by (simp add: calculate_position_size_def calculate_fixed_risk_size_def)
  then have sigs: "trend_signals p tx d pos (py_last max_history_size prices) sc = trend_signals p tx d pos prices sc" for pos sc
    by (simp only: trend_signals_def)
  show ?thesis by (simp only: trend_decide_def len inds sigs)
qed


text \<open>Deciding neither reads nor writes the buffers.\<close>

definition set_buffers :: "trend_state \<Rightarrow> trend_state \<Rightarrow> trend_state" where
  "set_buffers b s = s\<lparr>ts_price_history := ts_price_history b, ts_volume_history := ts_volume_history b,
     ts_high_history := ts_high_history b\<rparr>"

lemma set_buffers_composite [simp]:
  "ts_composite (set_buffers b s) = ts_composite s" "set_buffers b s\<lparr>ts_composite := c\<rparr> = set_buffers b (s\<lparr>ts_composite := c\<rparr>)"
  by (simp_all add: set_buffers_def)

lemma set_buffers_idem: "set_buffers s (forget_buffers s) = s"
  by (simp add: set_buffers_def forget_buffers_def)

lemma forget_set_buffers: "forget_buffers (set_buffers b s) = forget_buffers s"
  by (simp add: set_buffers_def forget_buffers_def)

lemma set_buffers_fields [simp]:
  "ts_price_history (set_buffers b s) = ts_price_history b" "ts_volume_history (set_buffers b s) = ts_volume_history b"
  "ts_high_history (set_buffers b s) = ts_high_history b"
  by (simp_all add: set_buffers_def)

lemma update_ic_set_buffers:
  "update_ic_weight_history p sy price m b (set_buffers bf s) = set_buffers bf (update_ic_weight_history p sy price m b s)"
  by (simp add: update_ic_weight_history_def set_buffers_def Let_def split: option.split)

lemma maybe_update_set_buffers: "maybe_update_ic_weights p (set_buffers bf s) = map_sum id (set_buffers bf) (maybe_update_ic_weights p s)"
proof -
  have w: "symbol_ic_weights c (set_buffers bf t) = symbol_ic_weights c t" for c t
    by (rule ext) (simp add: symbol_ic_weights_def set_buffers_def)
  have f: "ts_last_ic_update_bar (set_buffers bf s) = ts_last_ic_update_bar s" "ts_ic_bar_count (set_buffers bf s) = ts_ic_bar_count s"
    "ts_ic_weights_initialized (set_buffers bf s) = ts_ic_weights_initialized s"
    by (simp_all add: set_buffers_def)
  show ?thesis
  proof (cases "tp_ic_calculator p")
    case (Some c)
    let ?s1 = "s\<lparr>ts_last_ic_update_bar := Some (ts_ic_bar_count s)\<rparr>"
    let ?ws = "fold (\<lambda>sy d. case symbol_ic_weights c ?s1 sy of None \<Rightarrow> d | Some w \<Rightarrow> AList.update sy w d) (tp_symbols p) []"
    have u: "set_buffers bf s\<lparr>ts_last_ic_update_bar := x\<rparr> = set_buffers bf (s\<lparr>ts_last_ic_update_bar := x\<rparr>)"
      "set_buffers bf t\<lparr>ts_composite := y, ts_dynamic_weights := z, ts_ic_weights_initialized := v\<rparr>
        = set_buffers bf (t\<lparr>ts_composite := y, ts_dynamic_weights := z, ts_ic_weights_initialized := v\<rparr>)" for x t y z v
      by (simp_all add: set_buffers_def)
    show ?thesis
      by (cases "average_weights (map snd ?ws)")
        (auto simp: maybe_update_ic_weights_def Some w f u Let_def simp del: set_buffers_composite(2) split: option.split)
  qed (simp add: maybe_update_ic_weights_def)
qed

lemma decide_set_buffers:
  "trend_decide p tx d ctx prices volumes highs (set_buffers bf s)
    = map_sum id (map_prod id (set_buffers bf)) (trend_decide p tx d ctx prices volumes highs s)"
proof -
  let ?g = "\<lambda>s1 m b. if tp_weight_method p = ''ic'' then maybe_update_ic_weights p (update_ic_weight_history p (md_symbol d) (md_price d) m b s1) else Inr s1"
  have g: "?g (set_buffers bf st) m b = map_sum id (set_buffers bf) (?g st m b)" for st m b
    by (simp add: update_ic_set_buffers maybe_update_set_buffers)
  show ?thesis
  proof (cases "calculate_indicators prices volumes highs")
    case (Inr inds)
    show ?thesis
    proof (cases "calculate_factors p inds (ts_composite s)")
      case Factors: (Inr r)
      obtain c1 f where r: "r = (c1, f)" by fastforce
      show ?thesis
      proof (cases f)
        case (Some mbc)
        obtain m b c where mbc: "mbc = (m, b, c)" by (metis prod_cases3)
        show ?thesis
          using Inr Factors r Some mbc g [where st = "s\<lparr>ts_composite := c1\<rparr>" and m = m and b = b]
          by (cases "?g (s\<lparr>ts_composite := c1\<rparr>) m b"; cases "trend_signals p tx d (ctx (md_symbol d)) prices (m, b, c)")
            (simp_all add: trend_decide_def Let_def)
      qed (use Inr Factors r in \<open>simp add: trend_decide_def Let_def\<close>)
    qed (use Inr in \<open>simp add: trend_decide_def Let_def\<close>)
  qed (simp add: trend_decide_def)
qed

lemma decide_buffers:
  assumes "trend_decide p tx d ctx prices volumes highs s = Inr (sigs, s')"
  shows "set_buffers s s' = s'"
proof -
  have "trend_decide p tx d ctx prices volumes highs s
      = map_sum id (map_prod id (set_buffers s)) (trend_decide p tx d ctx prices volumes highs (forget_buffers s))"
    using decide_set_buffers [of p tx d ctx prices volumes highs s "forget_buffers s"] by (simp add: set_buffers_idem)
  with assms show ?thesis
    by (cases "trend_decide p tx d ctx prices volumes highs (forget_buffers s)") (auto simp: set_buffers_def)
qed

lemma decide_related:
  assumes "forget_buffers s = forget_buffers t"
  shows "map_sum id (map_prod id forget_buffers) (trend_decide p tx d ctx prices volumes highs s)
    = map_sum id (map_prod id forget_buffers) (trend_decide p tx d ctx prices volumes highs t)"
proof -
  have "map_sum id (map_prod id forget_buffers) (trend_decide p tx d ctx prices volumes highs s)
    = map_sum id (map_prod id forget_buffers) (trend_decide p tx d ctx prices volumes highs (forget_buffers s))" for s
    using decide_set_buffers [of p tx d ctx prices volumes highs s "forget_buffers s"]
    by (simp add: set_buffers_idem sum.map_comp prod.map_comp comp_def forget_set_buffers id_def)
  with assms show ?thesis by metis
qed

text \<open>C33. On any stream of market data with any contexts, the strategy on its buffers of 21 bars gives the same
  signals as the strategy that keeps every tick, and leaves the same remaining state.\<close>

theorem trend_refines_full_history:
  assumes "buffers_hold seen s" and "forget_buffers s = forget_buffers t"
  shows "map_sum id (map_prod id forget_buffers) (trend_run p tx ds s) = map_sum id (map_prod id forget_buffers) (full_run p tx seen ds t)"
  using assms
proof (induction ds arbitrary: seen s t)
  case (Cons dc ds)
  obtain d ctx where dc: "dc = (d, ctx)" by fastforce
  let ?s1 = "update_history_buffers d s" and ?ts = "ticks_of (md_symbol d) (seen @ [d])"
  have h: "buffers_hold (seen @ [d]) ?s1" by (rule update_buffers_hold [OF Cons.prems(1)])
  have step: "trend_on_market_data p tx d ctx s = trend_decide p tx d ctx (map md_price ?ts) (map md_volume ?ts) (map md_price ?ts) ?s1"
    using h by (simp add: trend_on_market_data_def Let_def buffers_hold_def decide_local)
  have "forget_buffers ?s1 = forget_buffers t"
    using Cons.prems(2) by (simp add: update_history_buffers_def forget_buffers_def Let_def)
  note rel = decide_related [OF this, of p tx d ctx "map md_price ?ts" "map md_volume ?ts" "map md_price ?ts"]
  show ?case
  proof (cases "trend_decide p tx d ctx (map md_price ?ts) (map md_volume ?ts) (map md_price ?ts) ?s1")
    case (Inl e)
    with rel obtain e' where "trend_decide p tx d ctx (map md_price ?ts) (map md_volume ?ts) (map md_price ?ts) t = Inl e'" "e' = e"
      by (cases "trend_decide p tx d ctx (map md_price ?ts) (map md_volume ?ts) (map md_price ?ts) t") auto
    with Inl show ?thesis by (simp add: dc step Let_def)
  next
    case (Inr r)
    obtain sigs s' where r: "r = (sigs, s')" by fastforce
    from rel Inr r obtain t' where t': "trend_decide p tx d ctx (map md_price ?ts) (map md_volume ?ts) (map md_price ?ts) t = Inr (sigs, t')"
      "forget_buffers s' = forget_buffers t'"
      by (cases "trend_decide p tx d ctx (map md_price ?ts) (map md_volume ?ts) (map md_price ?ts) t") auto
    have b: "set_buffers ?s1 s' = s'" using decide_buffers Inr r by blast
    have "buffers_hold (seen @ [d]) s'" using h unfolding buffers_hold_def by (subst (1 2 3) b [symmetric]) simp
    from Cons.IH [OF this t'(2)] show ?thesis using Inr r t'(1)
      by (cases "trend_run p tx ds s'"; cases "full_run p tx (seen @ [d]) ds t'") (auto simp: dc step Let_def)
  qed
qed simp


section \<open>Fixed-risk sizes\<close>

lemma approx_divide: "0 < c \<Longrightarrow> approx k x y \<Longrightarrow> approx k (x / c) (y / c)"
  using approx_scale [of "1 / c" k x y] by simp

text \<open>C34. The fixed-risk size is the largest number of shares whose loss at a move of one standard deviation stays
  within the risk budget of the configured position, up to four roundings, and at least one share.\<close>

theorem fixed_risk_bounds:
  assumes "tp_position_sizing p \<noteq> ''equal_weight''" and "0 < md_price d" and "1 \<le> tp_position_size p" and "0 \<le> tp_risk_per_trade p"
    and "volatility default_lookback prices = Inr (Some v)" and "v \<noteq> 0"
  shows "\<exists>n. calculate_position_size p d prices = Inr n \<and> 1 \<le> n
    \<and> (n = 1 \<or> of_int n * v \<le> round_factor ^ 4 * (of_int (tp_position_size p) * tp_risk_per_trade p))
    \<and> of_int (tp_position_size p) * tp_risk_per_trade p \<le> round_factor ^ 4 * (of_int (n + 1) * v)"
proof -
  let ?q = "of_int (tp_position_size p) :: rat" and ?r = "tp_risk_per_trade p" and ?x = "md_price d"
  have v: "0 < v" using volatility_total [of default_lookback prices] assms(5,6) by (force simp: default_lookback_def)
  let ?a = "dec (?q * ?x)"
  let ?b = "dec (?a * ?r)"
  let ?c = "dec (?b / v)"
  let ?s = "dec (?c / ?x)"
  have nn: "0 \<le> ?q * ?x" "0 \<le> ?a" "0 \<le> ?a * ?r" "0 \<le> ?b" "0 \<le> ?b / v" "0 \<le> ?c" "0 \<le> ?c / ?x" "0 \<le> ?s"
    using assms(2-4) v by (simp_all add: dec_nonneg)
  have "approx 1 ?a (?q * ?x)" using nn by (intro approx_dec)
  then have "approx 1 (?a * ?r) (?q * ?x * ?r)" using approx_scale [OF assms(4), of 1 ?a "?q * ?x"] by (simp add: ac_simps)
  from approx_dec_of [OF this] nn have "approx 2 ?b (?q * ?x * ?r)" by (simp add: numeral_2_eq_2)
  from approx_divide [OF v this] have "approx 2 (?b / v) (?q * ?x * ?r / v)" .
  from approx_dec_of [OF this] nn have "approx 3 ?c (?q * ?x * ?r / v)" by (simp add: numeral_3_eq_3)
  from approx_divide [OF assms(2) this] have "approx 3 (?c / ?x) (?q * ?x * ?r / v / ?x)" .
  moreover have "?q * ?x * ?r / v / ?x = ?q * ?r / v" using assms(2) by simp
  ultimately have "approx (Suc 3) ?s (?q * ?r / v)" using approx_dec_of [of 3 "?c / ?x"] nn by simp
  then have up: "?s * v \<le> round_factor ^ 4 * (?q * ?r)" and low: "?q * ?r \<le> round_factor ^ 4 * (?s * v)"
    using v by (simp_all add: approx_def pos_le_divide_eq pos_divide_le_eq mult.assoc)
  let ?n = "max 1 (trunc_int ?s)"
  have t: "trunc_int ?s = \<lfloor>?s\<rfloor>" using nn by (simp add: trunc_int_def)
  have n: "calculate_position_size p d prices = Inr ?n"
    using assms v by (simp add: calculate_position_size_def calculate_fixed_risk_size_def dec_div_def dec_mul_def Let_def)
  have "of_int ?n \<le> ?s" if "?n \<noteq> 1"
  proof -
    have "?n = \<lfloor>?s\<rfloor>" using that unfolding t by (metis max_def)
    then show ?thesis using of_int_floor_le [of ?s] by simp
  qed
  then have "of_int ?n * v \<le> ?s * v" if "?n \<noteq> 1" using that v by (intro mult_right_mono) simp_all
  with up have 1: "?n = 1 \<or> of_int ?n * v \<le> round_factor ^ 4 * (?q * ?r)" by fastforce
  have "?s \<le> of_int (?n + 1)" using t floor_correct [of ?s] by (simp add: max_def)
  then have "?s * v \<le> of_int (?n + 1) * v" using v by (intro mult_right_mono) simp_all
  then have "round_factor ^ 4 * (?s * v) \<le> round_factor ^ 4 * (of_int (?n + 1) * v)" by (intro mult_left_mono) simp_all
  with low have "?q * ?r \<le> round_factor ^ 4 * (of_int (?n + 1) * v)" by simp
  with n 1 show ?thesis by (intro exI [of _ ?n]) simp
qed

section \<open>Which returns the coefficients see\<close>

text \<open>The returns from each price to the next.\<close>

definition price_returns :: "decimal list \<Rightarrow> decimal list" where
  "price_returns ps = map (\<lambda>(p, q). dec (dec_sub q p / p)) (zip ps (tl ps))"

lemma price_returns_snoc:
  "ps \<noteq> [] \<Longrightarrow> price_returns (ps @ [q]) = price_returns ps @ [dec (dec_sub q (last ps) / last ps)]"
  by (induction ps rule: induct_list012) (auto simp: price_returns_def)

lemma price_returns_length [simp]: "length (price_returns ps) = length ps - 1"
  by (simp add: price_returns_def)

definition feed_ic :: "trend_params \<Rightarrow> string \<Rightarrow> (decimal \<times> decimal \<times> decimal) list \<Rightarrow> trend_state \<Rightarrow> trend_state" where
  "feed_ic p sy ticks s = fold (\<lambda>(x, m, b). update_ic_weight_history p sy x m b) ticks s"

lemma cap_py_last: "0 < n \<Longrightarrow> (if length (py_last n xs @ [x]) > n then tl (py_last n xs @ [x]) else py_last n xs @ [x]) = py_last n (xs @ [x])"
  using py_last_snoc [of n xs x] by simp

lemma ic_histories:
  assumes "tp_ic_calculator p = Some c" and "ts_momentum_scores s sy = []" and "ts_breakout_scores s sy = []" and "ts_return_history s sy = []"
    and "ts_last_price s sy = None" and "ticks \<noteq> []" and "\<forall>t \<in> set ticks. fst t \<noteq> 0"
  shows "ts_momentum_scores (feed_ic p sy ticks s) sy = py_last (ic_max_history c) (map (fst \<circ> snd) ticks)
    \<and> ts_breakout_scores (feed_ic p sy ticks s) sy = py_last (ic_max_history c) (map (snd \<circ> snd) ticks)
    \<and> ts_return_history (feed_ic p sy ticks s) sy = py_last (ic_max_history c) (price_returns (map fst ticks))
    \<and> ts_last_price (feed_ic p sy ticks s) sy = Some (fst (last ticks))"
  using assms(6,7)
proof (induction ticks rule: rev_nonempty_induct)
  case (single t)
  obtain x m b where "t = (x, m, b)" by (metis prod_cases3)
  then show ?case using assms by (simp add: feed_ic_def update_ic_weight_history_def Let_def py_last_def ic_max_history_def price_returns_def)
next
  case (snoc t ts)
  obtain x m b where t: "t = (x, m, b)" by (metis prod_cases3)
  have pos: "0 < ic_max_history c" by (simp add: ic_max_history_def)
  have nz: "fst (last ts) \<noteq> 0" using snoc by simp
  have "feed_ic p sy (ts @ [t]) s = update_ic_weight_history p sy x m b (feed_ic p sy ts s)" by (simp add: feed_ic_def t)
  moreover have "price_returns (map fst (ts @ [t])) = price_returns (map fst ts) @ [dec (dec_sub x (fst (last ts)) / fst (last ts))]"
    using price_returns_snoc [of "map fst ts" x] snoc(1) by (simp add: t last_map)
  ultimately show ?case
    using snoc.IH snoc.prems nz assms(1)
    by (simp add: update_ic_weight_history_def Let_def t cap_py_last [OF pos] del: length_append)
qed

text \<open>While everything is kept, a score is compared with the return of the next bar, as documented.\<close>

lemma coefficients_forward_before_cap:
  assumes "length ticks \<le> ic_max_history c" and "ic_lookback_window c + ic_history_periods c \<le> length ticks" and "ticks \<noteq> []"
  shows "aligned_histories c (py_last (ic_max_history c) (map (fst \<circ> snd) ticks)) (py_last (ic_max_history c) (map (snd \<circ> snd) ticks))
      (py_last (ic_max_history c) (price_returns (map fst ticks)))
    = Some (butlast (map (fst \<circ> snd) ticks), butlast (map (snd \<circ> snd) ticks), price_returns (map fst ticks))"
  using assms by (simp add: aligned_histories_def py_last_def ic_max_history_def butlast_conv_take Let_def)

text \<open>Once the histories are full, a score is compared with the return that ends at its own bar.\<close>

lemma coefficients_lag_after_cap:
  assumes "ic_max_history c < length ticks" and "i < ic_max_history c - 1"
  shows "\<exists>ms bs rs. aligned_histories c (py_last (ic_max_history c) (map (fst \<circ> snd) ticks)) (py_last (ic_max_history c) (map (snd \<circ> snd) ticks))
      (py_last (ic_max_history c) (price_returns (map fst ticks))) = Some (ms, bs, rs)
    \<and> (let j = length ticks - ic_max_history c + i
       in ms ! i = fst (snd (ticks ! j)) \<and> rs ! i = dec (dec_sub (fst (ticks ! j)) (fst (ticks ! (j - 1))) / fst (ticks ! (j - 1))))"
proof -
  let ?M = "ic_max_history c" and ?n = "length ticks"
  have M: "0 < ?M" "ic_lookback_window c + ic_history_periods c \<le> ?M" by (simp_all add: ic_max_history_def)
  have al: "aligned_histories c (py_last ?M (map (fst \<circ> snd) ticks)) (py_last ?M (map (snd \<circ> snd) ticks)) (py_last ?M (price_returns (map fst ticks)))
    = Some (take (?M - 1) (drop (?n - ?M) (map (fst \<circ> snd) ticks)), take (?M - 1) (drop (?n - ?M) (map (snd \<circ> snd) ticks)),
        take (?M - 1) (drop (?n - 1 - ?M) (price_returns (map fst ticks))))"
    using assms M by (simp add: aligned_histories_def py_last_def Let_def)
  have "price_returns (map fst ticks) ! (?n - 1 - ?M + i)
    = dec (dec_sub (fst (ticks ! (?n - ?M + i))) (fst (ticks ! (?n - ?M + i - 1))) / fst (ticks ! (?n - ?M + i - 1)))"
    using assms by (simp add: price_returns_def nth_tl Suc_diff_le Suc_diff_Suc numeral_2_eq_2)
  with al assms show ?thesis by (simp add: Let_def)
qed

text \<open>A restart keeps the scores of the run before in the normaliser.\<close>

lemma restart_keeps_normalizer: "cf_normalizer (ts_composite (trend_on_start p s)) = cf_normalizer (ts_composite s)"
  by (simp add: trend_on_start_def)

section \<open>Concrete values\<close>

lemma dec_sum_pos: "(\<And>x. x \<in> set xs \<Longrightarrow> 0 \<le> x) \<Longrightarrow> y \<in> set xs \<Longrightarrow> 0 < y \<Longrightarrow> 0 < dec_sum xs"
proof (induction xs rule: rev_induct)
  case (snoc x xs)
  have nn: "0 \<le> dec_sum xs" "0 \<le> x" using snoc.prems(1) by (auto intro!: dec_sum_nonneg)
  have "0 < dec_sum xs + x"
  proof (cases "y = x")
    case False
    then have "0 < dec_sum xs" using snoc by auto
    then show ?thesis using nn by simp
  qed (use nn snoc.prems(3) in simp)
  then show ?case by (simp add: dec_sum_snoc dec_pos)
qed simp

lemma dec_square_pos: "x \<noteq> y \<Longrightarrow> 0 < dec_power (dec_sub x y) 2"
proof -
  assume ne: "x \<noteq> y"
  have "dec (x - y) \<noteq> 0" using ne dec_pos [of "x - y"] dec_pos [of "y - x"] dec_minus [of "x - y"] by (cases "x < y") force+
  then have "0 < dec (x - y) * dec (x - y)" by (auto simp: zero_less_mult_iff linorder_neq_iff)
  then have "0 < sig_round 10 31 (dec (x - y) * dec (x - y))" by (intro sig_round_pos) simp_all
  then show ?thesis by (simp add: dec_power_two dec_sub_def dec_pos)
qed

lemma dec_std_pos:
  assumes "x \<in> set xs" and "x \<noteq> m" and "dec_std xs m = Inr s"
  shows "s \<noteq> 0"
proof -
  let ?qs = "map (\<lambda>v. dec_power (dec_sub v m) 2) xs"
  have "0 < dec_sum ?qs"
    using assms(1) dec_square_pos [OF assms(2)] by (intro dec_sum_pos [of _ "dec_power (dec_sub x m) 2"]) (auto simp: dec_square_nonneg)
  moreover have "xs \<noteq> []" using assms(1) by auto
  ultimately have v: "0 < dec (dec_sum ?qs / of_nat (length xs))" by (intro dec_pos divide_pos_pos) simp_all
  obtain r where "decimal_sqrt (dec (dec_sum ?qs / of_nat (length xs))) = Inr r" "r \<noteq> 0"
    using decimal_sqrt_total [OF less_imp_le [OF v]] v by (metis less_irrefl)
  then show ?thesis using assms(3) \<open>xs \<noteq> []\<close> by (simp add: dec_std_def dec_div_def)
qed

definition demo_trend :: trend_params where
  "demo_trend =
     \<lparr>tp_name = ''t'', tp_symbols = [''SPY''], tp_entry_threshold = 0, tp_exit_threshold = - 1 / 50, tp_position_sizing = ''fixed_risk'',
      tp_position_size = 100, tp_risk_per_trade = 1 / 50, tp_roc_weight = 1 / 2, tp_price_vs_ma_weight = 1 / 2,
      tp_price_vs_high_weight = 1 / 2, tp_volume_zscore_weight = 1 / 2, tp_manual_weights = (1 / 2, 1 / 2), tp_weight_method = ''manual'',
      tp_ic_calculator = None\<rparr>"

definition demo_trend_state :: trend_state where
  "demo_trend_state =
     \<lparr>ts_price_history = (\<lambda>_. []), ts_volume_history = (\<lambda>_. []), ts_high_history = (\<lambda>_. []),
      ts_composite = composite_init (1 / 2) (1 / 2) True 20 60, ts_momentum_scores = (\<lambda>_. []), ts_breakout_scores = (\<lambda>_. []),
      ts_return_history = (\<lambda>_. []), ts_last_price = (\<lambda>_. None), ts_ic_bar_count = 0, ts_ic_weights_initialized = False,
      ts_last_ic_update_bar = None, ts_dynamic_weights = (1 / 2, 1 / 2)\<rparr>"

definition demo_tick :: market_data where
  "demo_tick = \<lparr>md_symbol = ''SPY'', md_price = 400, md_bid = 400, md_ask = 400, md_volume = 1000, md_timestamp = 0\<rparr>"

definition demo_texts :: signal_texts where
  "demo_texts = \<lparr>st_four_decimals = (\<lambda>_. ''x''), st_percent = (\<lambda>_. ''x''), st_now = md_timestamp\<rparr>"

theorem trend_signals_sound_witness:
  "\<exists>sigs s'. trend_on_market_data demo_trend demo_texts demo_tick (\<lambda>_. Some (10, 390)) demo_trend_state = Inr (sigs, s')
     \<and> sound_signals demo_trend demo_tick (Some (10, 390)) sigs"
  using trend_signals_sound [of demo_trend_state demo_trend demo_texts demo_tick "\<lambda>_. Some (10, 390)"]
  by (auto simp: demo_trend_state_def composite_init_def normalizer_ok_def scores_kept_def)

theorem trend_refines_full_history_witness:
  "map_sum id (map_prod id forget_buffers) (trend_run demo_trend demo_texts [(demo_tick, \<lambda>_. None), (demo_tick, \<lambda>_. None)] demo_trend_state)
   = map_sum id (map_prod id forget_buffers) (full_run demo_trend demo_texts [] [(demo_tick, \<lambda>_. None), (demo_tick, \<lambda>_. None)] demo_trend_state)"
  by (rule trend_refines_full_history) (simp_all add: buffers_hold_def demo_trend_state_def ticks_of_def py_last_def)

definition demo_prices :: "decimal list" where
  "demo_prices = [1, 2, 1] @ replicate 18 1"

lemma demo_volatility: "\<exists>v. volatility default_lookback demo_prices = Inr (Some v) \<and> v \<noteq> 0"
proof -
  have ev: "length demo_prices = 21" "py_last 21 demo_prices = demo_prices" by (simp_all add: demo_prices_def py_last_def)
  have one: "dec (1 :: rat) = 1" using dec_exact [of 1 1 0] by simp
  obtain rs where rs: "returns_of demo_prices = Some rs" "1 \<in> set rs" "0 \<in> set rs"
    by (simp add: demo_prices_def numeral_eq_Suc dec_sub_def one)
  then have ne: "rs \<noteq> []" by auto
  obtain m where m: "dec_mean rs = Inr m" using dec_mean_total [OF ne] ..
  obtain s where s: "dec_std rs m = Inr s" using dec_std_total [OF ne] by blast
  have "s \<noteq> 0" using dec_std_pos [OF rs(2) _ s] dec_std_pos [OF rs(3) _ s] by fastforce
  then show ?thesis using ev rs(1) m s by (simp add: volatility_def default_lookback_def)
qed

theorem fixed_risk_bounds_witness:
  "\<exists>n v. calculate_position_size demo_trend demo_tick demo_prices = Inr n \<and> v \<noteq> 0 \<and> volatility default_lookback demo_prices = Inr (Some v)
     \<and> (n = 1 \<or> of_int n * v \<le> round_factor ^ 4 * 2)"
proof -
  obtain v where v: "volatility default_lookback demo_prices = Inr (Some v)" "v \<noteq> 0" using demo_volatility by blast
  show ?thesis using fixed_risk_bounds [OF _ _ _ _ v, of demo_trend demo_tick] v by (auto simp: demo_trend_def demo_tick_def)
qed

end
