(* ===== verification/Greeks_Models.thy ===== *)
theory Greeks_Models
  imports Decimal_Root "HOL-Library.Multiset"
begin

text \<open>
  Greeks of option positions: the models of greeks/models.py, the Black-Scholes formulas of
  greeks/black_scholes.py, and the calculator of greeks/calculator.py with its two providers. The
  transcendental functions of the math module are a record of float functions, the client of the
  quote service is the answers it gives, and a date is the number of its day. The locale
  \<open>greeks_source_contract\<close> is what the calculator relies on. Lemmas: bounds of the model's values,
  one result for each position, and a position is valid exactly when a provider knows it.
\<close>

section \<open>Enumerations\<close>

datatype greeks_source = SRC_FUTU | SRC_MODEL | SRC_CACHED
datatype greeks_model = MODEL_FUTU | MODEL_BS | MODEL_BJERKSUND
datatype greeks_level = GL_NORMAL | GL_WARN | GL_CRIT | GL_HARD
datatype metric_category = CAT_GREEK | CAT_VOLATILITY | CAT_DATA_QUALITY
datatype risk_metric = DELTA | GAMMA | VEGA | THETA | IMPLIED_VOLATILITY | COVERAGE
datatype threshold_direction = DIR_ABS | DIR_MAX | DIR_MIN
datatype scope = ACCOUNT | STRATEGY

fun greeks_level_value :: "greeks_level \<Rightarrow> string" where
  "greeks_level_value GL_NORMAL = ''normal''"
| "greeks_level_value GL_WARN = ''warn''"
| "greeks_level_value GL_CRIT = ''crit''"
| "greeks_level_value GL_HARD = ''hard''"

fun risk_metric_value :: "risk_metric \<Rightarrow> string" where
  "risk_metric_value DELTA = ''delta''"
| "risk_metric_value GAMMA = ''gamma''"
| "risk_metric_value VEGA = ''vega''"
| "risk_metric_value THETA = ''theta''"
| "risk_metric_value IMPLIED_VOLATILITY = ''iv''"
| "risk_metric_value COVERAGE = ''coverage''"

definition metric_category :: "risk_metric \<Rightarrow> metric_category" where
  "metric_category m =
     (if m \<in> {DELTA, GAMMA, VEGA, THETA} then CAT_GREEK
      else if m \<in> {IMPLIED_VOLATILITY} then CAT_VOLATILITY else CAT_DATA_QUALITY)"

definition is_greek :: "risk_metric \<Rightarrow> bool" where
  "is_greek m \<longleftrightarrow> metric_category m = CAT_GREEK"

section \<open>Positions\<close>

record position_info =
  pi_position_id :: int
  pi_symbol :: string
  pi_underlying_symbol :: string
  pi_quantity :: int
  pi_multiplier :: int
  pi_option_type :: string
  pi_strike :: decimal
  pi_expiry :: string

record raw_greeks =
  rg_delta :: decimal
  rg_gamma :: decimal
  rg_vega :: decimal
  rg_theta :: decimal
  rg_implied_vol :: decimal
  rg_underlying_price :: decimal

record position_greeks =
  pg_position_id :: int
  pg_symbol :: string
  pg_underlying_symbol :: string
  pg_quantity :: int
  pg_multiplier :: int
  pg_underlying_price :: decimal
  pg_option_type :: string
  pg_strike :: decimal
  pg_expiry :: string
  pg_dollar_delta :: decimal
  pg_gamma_dollar :: decimal
  pg_gamma_pnl_1pct :: decimal
  pg_vega_per_1pct :: decimal
  pg_theta_per_day :: decimal
  pg_source :: greeks_source
  pg_model :: "greeks_model option"
  pg_cached_from_source :: "greeks_source option"
  pg_cached_from_model :: "greeks_model option"
  pg_valid :: bool
  pg_quality_warnings :: "string list"
  pg_staleness_seconds :: int
  pg_as_of_ts :: int
  pg_strategy_id :: "string option"

definition pg_notional :: "position_greeks \<Rightarrow> decimal" where
  "pg_notional p = dec_mul (dec_mul (of_int \<bar>pg_quantity p\<bar>) (pg_underlying_price p)) (of_int (pg_multiplier p))"

section \<open>Black-Scholes\<close>

text \<open>\<open>math.log\<close> and \<open>math.exp\<close> raise outside their domain and range.\<close>

record bs_math =
  bm_log :: "double \<Rightarrow> double result"
  bm_exp :: "double \<Rightarrow> double result"
  bm_erf :: "double \<Rightarrow> double"
  bm_sqrt :: "double \<Rightarrow> double"

record bs_greeks =
  bs_delta :: decimal
  bs_gamma :: decimal
  bs_vega :: decimal
  bs_theta :: decimal

definition math_pi :: double where "math_pi = 884279719003555 / 281474976710656"
definition days_per_year :: double where "days_per_year = 365"

definition fl_div :: "double \<Rightarrow> double \<Rightarrow> double result" where
  "fl_div x y = (if y = 0 then Inl DivisionByZero else Inr (fl (x / y)))"

text \<open>\<open>Decimal(str(round(x, n)))\<close>.\<close>

definition round_digits :: "nat \<Rightarrow> double \<Rightarrow> decimal" where
  "round_digits n x = float_repr (fl (of_int (round_half_even (x * 10 ^ n)) / 10 ^ n))"

definition norm_cdf :: "bs_math \<Rightarrow> double \<Rightarrow> double result" where
  "norm_cdf bm x = res_bind (fl_div x (bm_sqrt bm 2)) (\<lambda>y. Inr (fl (1 / 2 * fl (1 + bm_erf bm y))))"

definition norm_pdf :: "bs_math \<Rightarrow> double \<Rightarrow> double result" where
  "norm_pdf bm x = res_bind (bm_exp bm (fl (fl (- 1 / 2 * x) * x))) (\<lambda>e. fl_div e (bm_sqrt bm (fl (2 * math_pi))))"

definition calculate_bs_greeks ::
  "bs_math \<Rightarrow> decimal \<Rightarrow> decimal \<Rightarrow> decimal \<Rightarrow> decimal \<Rightarrow> decimal \<Rightarrow> bool \<Rightarrow> bs_greeks result" where
  "calculate_bs_greeks bm spot strike time_to_expiry_years risk_free_rate volatility is_call =
     (let S = fl spot; K = fl strike; T = fl time_to_expiry_years; r = fl risk_free_rate; sigma = fl volatility
      in if T \<le> 0 \<or> sigma \<le> 0 \<or> S \<le> 0 \<or> K \<le> 0 then Inr \<lparr>bs_delta = 0, bs_gamma = 0, bs_vega = 0, bs_theta = 0\<rparr>
         else let sqrt_T = bm_sqrt bm T; sigma_sqrt_T = fl (sigma * sqrt_T)
              in res_bind (fl_div S K) (\<lambda>sk.
                 res_bind (bm_log bm sk) (\<lambda>l.
                 res_bind (fl_div (fl (l + fl (fl (r + fl (fl (1 / 2 * sigma) * sigma)) * T))) sigma_sqrt_T) (\<lambda>d1.
                 let d2 = fl (d1 - sigma_sqrt_T) in
                 res_bind (norm_cdf bm d1) (\<lambda>N_d1.
                 res_bind (norm_cdf bm d2) (\<lambda>N_d2.
                 res_bind (norm_pdf bm d1) (\<lambda>phi_d1.
                 let delta = (if is_call then N_d1 else fl (N_d1 - 1)) in
                 res_bind (fl_div phi_d1 (fl (S * sigma_sqrt_T))) (\<lambda>gamma.
                 res_bind (fl_div (fl (fl (S * phi_d1) * sqrt_T)) 100) (\<lambda>vega.
                 res_bind (bm_exp bm (fl (- r * T))) (\<lambda>discount.
                 res_bind (fl_div (fl (fl (- S * phi_d1) * sigma)) (fl (2 * sqrt_T))) (\<lambda>decay.
                 res_bind
                   (if is_call then fl_div (fl (decay - fl (fl (fl (r * K) * discount) * N_d2))) days_per_year
                    else res_bind (norm_cdf bm (- d2)) (\<lambda>N. fl_div (fl (decay + fl (fl (fl (r * K) * discount) * N))) days_per_year))
                   (\<lambda>theta.
                   Inr \<lparr>bs_delta = round_digits 6 delta, bs_gamma = round_digits 8 gamma,
                        bs_vega = round_digits 6 vega, bs_theta = round_digits 6 theta\<rparr>))))))))))))"

section \<open>Providers\<close>

record greeks_provider =
  gp_source :: greeks_source
  gp_fetch :: "position_info list \<Rightarrow> (int \<times> raw_greeks) list"

text \<open>The answers of the quote client: connecting, prices of underlyings, Greeks by symbol.\<close>

record futu_greeks =
  fg_delta :: decimal
  fg_gamma :: decimal
  fg_vega :: decimal
  fg_theta :: decimal
  fg_implied_volatility :: decimal
  fg_underlying_price :: decimal

record futu_client =
  fc_underlying_price :: "string list \<Rightarrow> (string \<times> decimal) list result"
  fc_option_greeks :: "string list \<Rightarrow> (string \<times> futu_greeks) list result"

definition symbol_to_futu :: "string \<Rightarrow> string" where
  "symbol_to_futu symbol = ''US.'' @ symbol"

definition futu_raw ::
  "(string \<times> position_info) list \<Rightarrow> (string \<times> decimal) list \<Rightarrow> string \<times> futu_greeks
   \<Rightarrow> (int \<times> raw_greeks) list \<Rightarrow> (int \<times> raw_greeks) list" where
  "futu_raw symbol_map underlying_prices sg result =
     (case sg of (futu_sym, g) \<Rightarrow>
        (case map_of symbol_map futu_sym of
           None \<Rightarrow> result
         | Some pos \<Rightarrow>
             let underlying_price = (case map_of underlying_prices (''US.'' @ pi_underlying_symbol pos) of
                   None \<Rightarrow> fg_underlying_price g | Some p \<Rightarrow> p)
             in if underlying_price \<le> 0 then result
                else AList.update (pi_position_id pos)
                  \<lparr>rg_delta = fg_delta g, rg_gamma = fg_gamma g, rg_vega = fg_vega g, rg_theta = fg_theta g,
                   rg_implied_vol = fg_implied_volatility g, rg_underlying_price = underlying_price\<rparr> result))"

definition futu_symbol_map :: "position_info list \<Rightarrow> (string \<times> position_info) list" where
  "futu_symbol_map positions = fold (\<lambda>p. AList.update (symbol_to_futu (pi_symbol p)) p) positions []"

definition futu_fetch :: "futu_client result \<Rightarrow> position_info list \<Rightarrow> (int \<times> raw_greeks) list" where
  "futu_fetch client positions =
     (if positions = [] then []
      else (case client of
              Inl _ \<Rightarrow> []
            | Inr c \<Rightarrow>
                (case res_bind (fc_underlying_price c (remdups (map (\<lambda>p. ''US.'' @ pi_underlying_symbol p) positions))) (\<lambda>ups.
                      res_bind (fc_option_greeks c (map (\<lambda>p. symbol_to_futu (pi_symbol p)) positions)) (\<lambda>gs.
                        Inr (fold (futu_raw (futu_symbol_map positions) ups) gs []))) of
                   Inl _ \<Rightarrow> []
                 | Inr r \<Rightarrow> r)))"

record model_env =
  me_math :: bs_math
  me_default_iv :: decimal
  me_risk_free_rate :: decimal
  me_underlying_prices :: "(string \<times> decimal) list"
  me_parse_date :: "string \<Rightarrow> int option"
  me_today :: int

definition time_to_expiry_years :: "int \<Rightarrow> int \<Rightarrow> decimal result" where
  "time_to_expiry_years today expiry_date =
     (let days = expiry_date - today in if days \<le> 0 then Inr (1 / 1000) else dec_div (of_int days) 365)"

definition model_raw :: "model_env \<Rightarrow> position_info \<Rightarrow> (int \<times> raw_greeks) list \<Rightarrow> (int \<times> raw_greeks) list" where
  "model_raw me pos result =
     (case map_of (me_underlying_prices me) (pi_underlying_symbol pos) of
        None \<Rightarrow> result
      | Some underlying_price \<Rightarrow>
          if underlying_price \<le> 0 then result
          else let iv = me_default_iv me
               in (case me_parse_date me (pi_expiry pos) of
                     None \<Rightarrow> result
                   | Some expiry_date \<Rightarrow>
                       (case res_bind (time_to_expiry_years (me_today me) expiry_date) (\<lambda>t.
                              calculate_bs_greeks (me_math me) underlying_price (pi_strike pos) t (me_risk_free_rate me) iv
                                (pi_option_type pos = ''call'')) of
                          Inl _ \<Rightarrow> result
                        | Inr b \<Rightarrow>
                            AList.update (pi_position_id pos)
                              \<lparr>rg_delta = bs_delta b, rg_gamma = bs_gamma b, rg_vega = bs_vega b, rg_theta = bs_theta b,
                               rg_implied_vol = iv, rg_underlying_price = underlying_price\<rparr> result)))"

definition model_fetch :: "model_env \<Rightarrow> position_info list \<Rightarrow> (int \<times> raw_greeks) list" where
  "model_fetch me positions = fold (model_raw me) positions []"

section \<open>The calculator\<close>

definition convert_to_dollar_greeks :: "int \<Rightarrow> position_info \<Rightarrow> raw_greeks \<Rightarrow> greeks_source \<Rightarrow> greeks_model option \<Rightarrow> position_greeks" where
  "convert_to_dollar_greeks now pos raw source model =
     (let qty = of_int (pi_quantity pos); mult = of_int (pi_multiplier pos); price = rg_underlying_price raw
      in \<lparr>pg_position_id = pi_position_id pos, pg_symbol = pi_symbol pos, pg_underlying_symbol = pi_underlying_symbol pos,
          pg_quantity = pi_quantity pos, pg_multiplier = pi_multiplier pos, pg_underlying_price = price,
          pg_option_type = pi_option_type pos, pg_strike = pi_strike pos, pg_expiry = pi_expiry pos,
          pg_dollar_delta = dec_mul (dec_mul (dec_mul (rg_delta raw) qty) mult) price,
          pg_gamma_dollar = dec_mul (dec_mul (dec_mul (dec_mul (rg_gamma raw) qty) mult) price) price,
          pg_gamma_pnl_1pct = dec_mul (dec_mul (dec_mul (dec_mul (1 / 2) (rg_gamma raw)) qty) mult) (dec_power (dec_mul (1 / 100) price) 2),
          pg_vega_per_1pct = dec_mul (dec_mul (rg_vega raw) qty) mult,
          pg_theta_per_day = dec_mul (dec_mul (rg_theta raw) qty) mult,
          pg_source = source, pg_model = model, pg_cached_from_source = None, pg_cached_from_model = None,
          pg_valid = True, pg_quality_warnings = [], pg_staleness_seconds = 0, pg_as_of_ts = now, pg_strategy_id = None\<rparr>)"

definition create_invalid_position_greeks :: "int \<Rightarrow> position_info \<Rightarrow> greeks_source \<Rightarrow> position_greeks" where
  "create_invalid_position_greeks now pos source =
     \<lparr>pg_position_id = pi_position_id pos, pg_symbol = pi_symbol pos, pg_underlying_symbol = pi_underlying_symbol pos,
      pg_quantity = pi_quantity pos, pg_multiplier = pi_multiplier pos, pg_underlying_price = 0,
      pg_option_type = pi_option_type pos, pg_strike = pi_strike pos, pg_expiry = pi_expiry pos,
      pg_dollar_delta = 0, pg_gamma_dollar = 0, pg_gamma_pnl_1pct = 0, pg_vega_per_1pct = 0, pg_theta_per_day = 0,
      pg_source = source, pg_model = None, pg_cached_from_source = None, pg_cached_from_model = None,
      pg_valid = False, pg_quality_warnings = [''No Greeks data available''], pg_staleness_seconds = 0, pg_as_of_ts = now,
      pg_strategy_id = None\<rparr>"

text \<open>The positions that a provider answered, converted, and those it did not.\<close>

definition split_answered ::
  "int \<Rightarrow> greeks_provider \<Rightarrow> position_info list \<Rightarrow> position_greeks list \<times> position_info list" where
  "split_answered now gp positions =
     (let greeks = gp_fetch gp positions
      in (List.map_filter (\<lambda>p. map_option (\<lambda>raw. convert_to_dollar_greeks now p raw (gp_source gp) None) (map_of greeks (pi_position_id p))) positions,
          filter (\<lambda>p. map_of greeks (pi_position_id p) = None) positions))"

definition calculate_greeks :: "int \<Rightarrow> greeks_provider \<Rightarrow> greeks_provider option \<Rightarrow> position_info list \<Rightarrow> position_greeks list" where
  "calculate_greeks now primary fallback positions =
     (if positions = [] then []
      else (case split_answered now primary positions of (results, missing) \<Rightarrow>
              (case (case fallback of
                       Some fb \<Rightarrow> if missing \<noteq> [] then split_answered now fb missing else ([], missing)
                     | None \<Rightarrow> ([], missing)) of
                 (second, remaining) \<Rightarrow>
                   results @ second @ map (\<lambda>p. create_invalid_position_greeks now p (gp_source primary)) remaining)))"

definition calculate_single :: "int \<Rightarrow> greeks_provider \<Rightarrow> greeks_provider option \<Rightarrow> position_info \<Rightarrow> position_greeks" where
  "calculate_single now primary fallback pos = hd (calculate_greeks now primary fallback [pos])"

section \<open>Bounds of the model\<close>

lemma fl_0 [simp]: "fl 0 = 0"
  by (simp add: fl_def)

lemma fl_pos: "0 < q \<Longrightarrow> 0 < fl q"
  by (simp add: fl_def sig_round_pos)

lemma fl_nonneg: "0 \<le> q \<Longrightarrow> 0 \<le> fl q"
  using fl_mono [of 0 q] by simp

lemma fl_between: "of_int a \<le> q \<Longrightarrow> q \<le> of_int b \<Longrightarrow> \<bar>a\<bar> < 2 ^ 53 \<Longrightarrow> \<bar>b\<bar> < 2 ^ 53 \<Longrightarrow> of_int a \<le> fl q \<and> fl q \<le> of_int b"
  using fl_mono [of "of_int a" q] fl_mono [of q "of_int b"] by (simp add: fl_of_int)

lemma float_repr_digits: "\<exists>n > 0. float_repr x = sig_round 10 n x"
proof (cases "filter (\<lambda>n. fl (sig_round 10 n x) = x) [1..<17]")
  case Nil
  then show ?thesis by (intro exI [of _ 17]) (simp add: float_repr_def)
next
  case (Cons n ns)
  then have "n \<in> set (filter (\<lambda>n. fl (sig_round 10 n x) = x) [1..<17])" by simp
  then show ?thesis using Cons by (intro exI [of _ n]) (simp add: float_repr_def)
qed

text \<open>Rounding for display keeps a float between two integers there.\<close>

lemma float_repr_between:
  assumes "of_int a \<le> x" and "x \<le> of_int b" and "a \<in> {- 1, 0, 1}" and "b \<in> {- 1, 0, 1}"
  shows "of_int a \<le> float_repr x \<and> float_repr x \<le> of_int b"
proof -
  have one: "sig_round 10 (Suc n) (of_int k) = of_int k" if "k \<in> {- 1, 0, 1}" for n k
  proof (rule sig_round_exact [of _ _ k _ 0])
    show "\<bar>k\<bar> < int 10 ^ Suc n" using that one_less_power [of "10 :: int" "Suc n"] by auto
  qed simp_all
  have "of_int a \<le> sig_round 10 (Suc n) x \<and> sig_round 10 (Suc n) x \<le> of_int b" for n
    using sig_round_mono [of 10 "Suc n" "of_int a" x] sig_round_mono [of 10 "Suc n" x "of_int b"] assms
    by (auto simp: one simp del: of_int_eq_iff)
  then have s: "of_int a \<le> sig_round 10 n x \<and> sig_round 10 n x \<le> of_int b" if "0 < n" for n
    using that by (cases n) auto
  then show ?thesis using float_repr_digits [of x] by auto
qed

lemma round_digits_between:
  assumes "of_int a \<le> x" and "x \<le> of_int b" and "a \<in> {- 1, 0, 1}" and "b \<in> {- 1, 0, 1}"
  shows "of_int a \<le> round_digits n x \<and> round_digits n x \<le> of_int b"
proof -
  have "a * 10 ^ n \<le> round_half_even (x * 10 ^ n)" using assms(1) by (intro round_half_even_ge) (simp add: mult_right_mono)
  moreover have "round_half_even (x * 10 ^ n) \<le> b * 10 ^ n" using assms(2) by (intro round_half_even_le) (simp add: mult_right_mono)
  ultimately have "of_int (a * 10 ^ n) / 10 ^ n \<le> (of_int (round_half_even (x * 10 ^ n)) / 10 ^ n :: rat)"
    "of_int (round_half_even (x * 10 ^ n)) / 10 ^ n \<le> (of_int (b * 10 ^ n) / 10 ^ n :: rat)"
    by (simp_all only: divide_right_mono of_int_le_iff zero_le_power zero_le_numeral)
  then have "of_int a \<le> fl (of_int (round_half_even (x * 10 ^ n)) / 10 ^ n) \<and> fl (of_int (round_half_even (x * 10 ^ n)) / 10 ^ n) \<le> of_int b"
    using assms(3,4) by (intro fl_between) auto
  then show ?thesis unfolding round_digits_def using assms(3,4) by (intro float_repr_between) auto
qed

lemma round_digits_nonneg: "0 \<le> x \<Longrightarrow> 0 \<le> round_digits n x"
proof -
  assume x: "0 \<le> x"
  have fr: "0 \<le> float_repr y" if y: "0 \<le> y" for y
    using float_repr_digits [of y] sig_round_mono [of 10 _ 0 y] y by auto
  have "0 \<le> round_half_even (x * 10 ^ n)" using x round_half_even_ge [of 0 "x * 10 ^ n"] by simp
  then show ?thesis unfolding round_digits_def by (intro fr fl_nonneg) simp
qed

text \<open>What the functions of the math module promise.\<close>

definition math_ok :: "bs_math \<Rightarrow> bool" where
  "math_ok bm \<longleftrightarrow> (\<forall>x. - 1 \<le> bm_erf bm x \<and> bm_erf bm x \<le> 1) \<and> (\<forall>x > 0. 0 < bm_sqrt bm x)
     \<and> (\<forall>x > 0. \<exists>l. bm_log bm x = Inr l) \<and> (\<forall>x \<le> 0. \<exists>e. bm_exp bm x = Inr e \<and> 0 \<le> e)"

lemma norm_cdf_bounds: "math_ok bm \<Longrightarrow> \<exists>n. norm_cdf bm x = Inr n \<and> 0 \<le> n \<and> n \<le> 1"
proof -
  assume m: "math_ok bm"
  then have "bm_sqrt bm 2 \<noteq> 0" unfolding math_ok_def by (metis order_less_irrefl zero_less_numeral)
  then have y: "fl_div x (bm_sqrt bm 2) = Inr (fl (x / bm_sqrt bm 2))" by (simp add: fl_div_def)
  let ?e = "bm_erf bm (fl (x / bm_sqrt bm 2))"
  have "- 1 \<le> ?e \<and> ?e \<le> 1" using m by (simp add: math_ok_def)
  then have "0 \<le> 1 + ?e" "1 + ?e \<le> 2" by linarith+
  then have "0 \<le> fl (1 + ?e) \<and> fl (1 + ?e) \<le> 2" using fl_between [of 0 "1 + ?e" 2] by simp
  then have "0 \<le> fl (1 / 2 * fl (1 + ?e)) \<and> fl (1 / 2 * fl (1 + ?e)) \<le> 1" using fl_between [of 0 "1 / 2 * fl (1 + ?e)" 1] by simp
  then show ?thesis by (simp add: norm_cdf_def y)
qed

lemma norm_pdf_nonneg: "math_ok bm \<Longrightarrow> \<exists>n. norm_pdf bm x = Inr n \<and> 0 \<le> n"
proof -
  assume m: "math_ok bm"
  have p: "0 < fl (2 * math_pi)" by (rule fl_pos) (simp add: math_pi_def)
  then have s: "0 < bm_sqrt bm (fl (2 * math_pi))" using m by (simp add: math_ok_def)
  have "fl (fl (- 1 / 2 * x) * x) \<le> 0"
  proof -
    have "fl (- 1 / 2 * x) * x \<le> 0"
      using fl_mono [of "- 1 / 2 * x" 0] fl_mono [of 0 "- 1 / 2 * x"] by (cases "0 \<le> x") (auto simp: mult_le_0_iff)
    then show ?thesis using fl_mono [of _ 0] by fastforce
  qed
  then obtain e where e: "bm_exp bm (fl (fl (- 1 / 2 * x) * x)) = Inr e" "0 \<le> e" using m unfolding math_ok_def by blast
  then show ?thesis using s by (auto simp: norm_pdf_def fl_div_def intro: fl_nonneg)
qed

lemma fl_div_pos: "0 < y \<Longrightarrow> fl_div x y = Inr (fl (x / y))"
  by (simp add: fl_div_def)

lemma fl_le_0: "x \<le> 0 \<Longrightarrow> fl x \<le> 0"
  using fl_mono [of x 0] by simp


section \<open>One result for each position\<close>

lemma convert_fields [simp]:
  "pg_position_id (convert_to_dollar_greeks now p raw s m) = pi_position_id p" "pg_valid (convert_to_dollar_greeks now p raw s m)"
  "pg_underlying_price (convert_to_dollar_greeks now p raw s m) = rg_underlying_price raw"
  "pg_quantity (convert_to_dollar_greeks now p raw s m) = pi_quantity p"
  "pg_multiplier (convert_to_dollar_greeks now p raw s m) = pi_multiplier p"
  by (simp_all add: convert_to_dollar_greeks_def Let_def)

lemma invalid_fields [simp]:
  "pg_position_id (create_invalid_position_greeks now p s) = pi_position_id p" "\<not> pg_valid (create_invalid_position_greeks now p s)"
  "pg_underlying_price (create_invalid_position_greeks now p s) = 0" "pg_gamma_dollar (create_invalid_position_greeks now p s) = 0"
  "pg_vega_per_1pct (create_invalid_position_greeks now p s) = 0"
  by (simp_all add: create_invalid_position_greeks_def)

lemma map_filter_ids:
  "map pg_position_id (List.map_filter (\<lambda>p. map_option (\<lambda>raw. convert_to_dollar_greeks now p raw s m) (g p)) ps)
     = map pi_position_id (filter (\<lambda>p. g p \<noteq> None) ps)"
  by (induction ps) (auto simp: map_filter_simps split: option.split)

lemma mset_filter_split: "mset (map f (filter P ps)) + mset (map f (filter (\<lambda>p. \<not> P p) ps)) = mset (map f ps)"
  by (induction ps) auto

lemma split_answered_ids:
  assumes "split_answered now gp ps = (rs, ms)"
  shows "mset (map pg_position_id rs) + mset (map pi_position_id ms) = mset (map pi_position_id ps)"
proof -
  let ?P = "\<lambda>p. map_of (gp_fetch gp ps) (pi_position_id p) \<noteq> None"
  have "map pg_position_id rs = map pi_position_id (filter ?P ps)" and "ms = filter (\<lambda>p. \<not> ?P p) ps"
    using assms by (auto simp: split_answered_def Let_def map_filter_ids simp del: not_None_eq)
  then show ?thesis using mset_filter_split [of pi_position_id ?P ps] by metis
qed

lemma split_answered_valid:
  assumes "split_answered now gp ps = (rs, ms)"
  shows "g \<in> set rs \<Longrightarrow> pg_valid g \<and> map_of (gp_fetch gp ps) (pg_position_id g) \<noteq> None"
    and "p \<in> set ms \<Longrightarrow> p \<in> set ps \<and> map_of (gp_fetch gp ps) (pi_position_id p) = None"
proof -
  show "g \<in> set rs \<Longrightarrow> pg_valid g \<and> map_of (gp_fetch gp ps) (pg_position_id g) \<noteq> None"
    using assms by (auto simp: split_answered_def Let_def map_filter_def)
  show "p \<in> set ms \<Longrightarrow> p \<in> set ps \<and> map_of (gp_fetch gp ps) (pi_position_id p) = None"
    using assms by (auto simp: split_answered_def Let_def)
qed

text \<open>The calculator returns one result for each position, duplicates included; a result is valid exactly when
  the primary provider knows the position, or the fallback does when asked for the positions the primary does not know.\<close>

theorem calculate_covers:
  fixes primary :: greeks_provider
  defines "missing \<equiv> \<lambda>ps. filter (\<lambda>p. map_of (gp_fetch primary ps) (pi_position_id p) = None) ps"
  shows "mset (map pg_position_id (calculate_greeks now primary fallback ps)) = mset (map pi_position_id ps)
    \<and> (\<forall>g \<in> set (calculate_greeks now primary fallback ps).
         pg_valid g = (map_of (gp_fetch primary ps) (pg_position_id g) \<noteq> None
           \<or> (\<exists>fb. fallback = Some fb \<and> map_of (gp_fetch fb (missing ps)) (pg_position_id g) \<noteq> None)))"
proof (cases "ps = []")
  case False
  obtain rs ms where s1: "split_answered now primary ps = (rs, ms)" by fastforce
  have ms: "ms = missing ps" using s1 by (auto simp: split_answered_def Let_def missing_def)
  note i1 = split_answered_ids [OF s1] and v1 = split_answered_valid [OF s1]
  show ?thesis
  proof (cases "\<exists>fb. fallback = Some fb \<and> ms \<noteq> []")
    case True
    then obtain fb where fb: "fallback = Some fb" "ms \<noteq> []" by blast
    obtain rs2 ms2 where s2: "split_answered now fb ms = (rs2, ms2)" by fastforce
    note i2 = split_answered_ids [OF s2] and v2 = split_answered_valid [OF s2]
    have c: "calculate_greeks now primary fallback ps = rs @ rs2 @ map (\<lambda>p. create_invalid_position_greeks now p (gp_source primary)) ms2"
      using False fb s1 s2 by (simp add: calculate_greeks_def)
    have "mset (map pg_position_id (calculate_greeks now primary fallback ps)) = mset (map pi_position_id ps)"
      using i1 i2 by (simp add: c comp_def)
    moreover have "pg_valid g = (map_of (gp_fetch primary ps) (pg_position_id g) \<noteq> None
        \<or> (\<exists>fb. fallback = Some fb \<and> map_of (gp_fetch fb (missing ps)) (pg_position_id g) \<noteq> None))"
      if "g \<in> set (calculate_greeks now primary fallback ps)" for g
    proof -
      consider "g \<in> set rs" | "g \<in> set rs2" | p where "p \<in> set ms2" "g = create_invalid_position_greeks now p (gp_source primary)"
        using \<open>g \<in> _\<close> unfolding c by auto
      then show ?thesis
      proof cases
        case 3
        then show ?thesis using v2(2) [of p] v1(2) [of p] fb ms by auto
      qed (use v1(1) v2(1) fb ms in auto)
    qed
    ultimately show ?thesis by blast
  next
    case nofb: False
    have c: "calculate_greeks now primary fallback ps = rs @ map (\<lambda>p. create_invalid_position_greeks now p (gp_source primary)) ms"
      using False nofb s1 by (cases fallback) (auto simp: calculate_greeks_def)
    have "mset (map pg_position_id (calculate_greeks now primary fallback ps)) = mset (map pi_position_id ps)"
      using i1 by (simp add: c comp_def)
    moreover have "pg_valid g = (map_of (gp_fetch primary ps) (pg_position_id g) \<noteq> None
        \<or> (\<exists>fb. fallback = Some fb \<and> map_of (gp_fetch fb (missing ps)) (pg_position_id g) \<noteq> None))"
      if "g \<in> set (calculate_greeks now primary fallback ps)" for g
    proof -
      consider "g \<in> set rs" | p where "p \<in> set ms" "g = create_invalid_position_greeks now p (gp_source primary)"
        using \<open>g \<in> _\<close> unfolding c by auto
      then show ?thesis
      proof cases
        case 2
        then have "fallback = None" using nofb by (cases fallback) auto
        then show ?thesis using 2 v1(2) [of p] by auto
      qed (use v1(1) in auto)
    qed
    ultimately show ?thesis by blast
  qed
qed (simp add: calculate_greeks_def)

lemma calculate_cases:
  assumes "g \<in> set (calculate_greeks now primary fallback ps)"
  obtains (primary) rs ms where "split_answered now primary ps = (rs, ms)" "g \<in> set rs"
  | (fallback) fb ms rs' ms' where "fallback = Some fb" "split_answered now fb ms = (rs', ms')" "g \<in> set rs'"
  | (invalid) p where "g = create_invalid_position_greeks now p (gp_source primary)"
proof -
  obtain rs ms where s: "split_answered now primary ps = (rs, ms)" by fastforce
  show thesis
  proof (cases "\<exists>fb. fallback = Some fb \<and> ms \<noteq> []")
    case True
    then obtain fb where fb: "fallback = Some fb" "ms \<noteq> []" by blast
    obtain rs' ms' where s': "split_answered now fb ms = (rs', ms')" by fastforce
    show thesis using assms s s' fb that by (auto simp: calculate_greeks_def split: if_splits)
  next
    case False
    then have c: "ps \<noteq> [] \<Longrightarrow> calculate_greeks now primary fallback ps
      = rs @ map (\<lambda>p. create_invalid_position_greeks now p (gp_source primary)) ms"
      using s by (cases fallback) (auto simp: calculate_greeks_def)
    have "ps \<noteq> []" using assms by (auto simp: calculate_greeks_def)
    then show thesis using assms s c that by auto
  qed
qed

lemma calculate_invalid:
  assumes "g \<in> set (calculate_greeks now primary fallback ps)" and "\<not> pg_valid g"
  shows "pg_underlying_price g = 0 \<and> pg_gamma_dollar g = 0 \<and> pg_vega_per_1pct g = 0"
  using assms(1)
proof (cases rule: calculate_cases)
  case (primary rs ms)
  then show ?thesis using split_answered_valid(1) assms(2) by blast
next
  case (fallback fb ms rs' ms')
  then show ?thesis using split_answered_valid(1) assms(2) by blast
qed simp

section \<open>What a provider promises\<close>

locale greeks_source_contract =
  fixes fetch :: "position_info list \<Rightarrow> (int \<times> raw_greeks) list"
  assumes asked: "(k, raw) \<in> set (fetch ps) \<Longrightarrow> k \<in> pi_position_id ` set ps"
    and priced: "(k, raw) \<in> set (fetch ps) \<Longrightarrow> 0 < rg_underlying_price raw"
begin

lemma nothing_asked: "fetch [] = []"
  using asked [of _ _ "[]"] by (cases "fetch []") auto

lemma answered_priced:
  assumes "split_answered now \<lparr>gp_source = s, gp_fetch = fetch\<rparr> ps = (rs, ms)" and "g \<in> set rs"
  shows "pg_valid g \<and> 0 < pg_underlying_price g"
  using assms priced [where ps = ps] by (fastforce simp: split_answered_def Let_def map_filter_def dest: map_of_SomeD)

end

text \<open>A loop that only ever stores such entries.\<close>

lemma fold_update_entries:
  assumes "\<And>x r k v. x \<in> set xs \<Longrightarrow> (k, v) \<in> set (step x r) \<Longrightarrow> (k, v) \<in> set r \<or> P k v"
  shows "(k, v) \<in> set (fold step xs r) \<Longrightarrow> (k, v) \<in> set r \<or> P k v"
  using assms
proof (induction xs arbitrary: r)
  case (Cons x xs)
  from Cons.IH [of "step x r"] Cons.prems have "(k, v) \<in> set (step x r) \<or> P k v" by auto
  then show ?case using Cons.prems(2) [of x k v r] by auto
qed simp

lemma in_set_update: "(k, v) \<in> set (AList.update k' v' r) \<Longrightarrow> (k, v) \<in> set r \<or> k = k' \<and> v = v'"
  by (induction r) (auto split: if_splits)

lemma symbol_map_positions: "map_of (futu_symbol_map ps) s = Some p \<Longrightarrow> p \<in> set ps"
proof -
  have "(s, p) \<in> set (fold (\<lambda>p. AList.update (symbol_to_futu (pi_symbol p)) p) ps []) \<Longrightarrow> (s, p) \<in> set [] \<or> p \<in> set ps"
    by (rule fold_update_entries) (auto dest: in_set_update)
  then show "map_of (futu_symbol_map ps) s = Some p \<Longrightarrow> p \<in> set ps" by (auto simp: futu_symbol_map_def dest: map_of_SomeD)
qed

lemma futu_raw_entry:
  assumes "(k, v) \<in> set (futu_raw sm ups sg r)"
  shows "(k, v) \<in> set r \<or> (\<exists>pos. map_of sm (fst sg) = Some pos \<and> k = pi_position_id pos \<and> 0 < rg_underlying_price v)"
proof (cases sg)
  case (Pair s g)
  show ?thesis
  proof (cases "map_of sm s")
    case (Some pos)
    let ?p = "case map_of ups (''US.'' @ pi_underlying_symbol pos) of None \<Rightarrow> fg_underlying_price g | Some p \<Rightarrow> p"
    show ?thesis
    proof (cases "?p \<le> 0")
      case True
      then show ?thesis using assms Pair Some by (simp add: futu_raw_def Let_def del: append.simps)
    next
      case False
      then show ?thesis using assms Pair Some by (auto simp: futu_raw_def Let_def not_le simp del: append.simps dest!: in_set_update)
    qed
  qed (use assms Pair in \<open>simp add: futu_raw_def\<close>)
qed

lemma futu_fetch_fold:
  assumes "x \<in> set (futu_fetch client ps)"
  shows "\<exists>ups gs. x \<in> set (fold (futu_raw (futu_symbol_map ps) ups) gs [])"
proof (cases client)
  case (Inr c)
  let ?r = "res_bind (fc_underlying_price c (remdups (map (\<lambda>p. ''US.'' @ pi_underlying_symbol p) ps))) (\<lambda>ups.
    res_bind (fc_option_greeks c (map (\<lambda>p. symbol_to_futu (pi_symbol p)) ps)) (\<lambda>gs. Inr (fold (futu_raw (futu_symbol_map ps) ups) gs [])))"
  have "x \<in> set (case ?r of Inl _ \<Rightarrow> [] | Inr r \<Rightarrow> r)" using assms Inr unfolding futu_fetch_def by (simp split: if_splits)
  then obtain r where "?r = Inr r" "x \<in> set r" by (cases ?r) simp_all
  then show ?thesis by (auto simp: res_bind_eq_Inr)
qed (use assms in \<open>simp add: futu_fetch_def split: if_splits\<close>)

interpretation futu: greeks_source_contract "futu_fetch client" for client
proof -
  have *: "k \<in> pi_position_id ` set ps \<and> 0 < rg_underlying_price raw" if "(k, raw) \<in> set (futu_fetch client ps)" for k raw ps
  proof -
    note futu_fetch_fold [OF that]
    then obtain ups gs where "(k, raw) \<in> set (fold (futu_raw (futu_symbol_map ps) ups) gs [])" by blast
    then have "(k, raw) \<in> set [] \<or> (k \<in> pi_position_id ` set ps \<and> 0 < rg_underlying_price raw)"
      by (rule fold_update_entries [rotated])
        (auto dest!: futu_raw_entry dest: symbol_map_positions)
    then show ?thesis by simp
  qed
  show "greeks_source_contract (futu_fetch client)" by unfold_locales (use * in blast)+
qed

interpretation model: greeks_source_contract "model_fetch me" for me
proof -
  have *: "k \<in> pi_position_id ` set ps \<and> 0 < rg_underlying_price raw" if "(k, raw) \<in> set (model_fetch me ps)" for k raw ps
  proof -
    have "(k, raw) \<in> set [] \<or> (k \<in> pi_position_id ` set ps \<and> 0 < rg_underlying_price raw)"
      using that unfolding model_fetch_def
      by (rule fold_update_entries [rotated])
        (auto simp: model_raw_def Let_def not_le dest!: in_set_update split: option.splits if_splits sum.splits)
    then show ?thesis by simp
  qed
  show "greeks_source_contract (model_fetch me)" by unfold_locales (use * in blast)+
qed

text \<open>With the two providers of the code a result is valid exactly when it has a price.\<close>

lemma valid_iff_priced:
  assumes "g \<in> set (calculate_greeks now \<lparr>gp_source = SRC_FUTU, gp_fetch = futu_fetch client\<rparr>
    (Some \<lparr>gp_source = SRC_MODEL, gp_fetch = model_fetch me\<rparr>) ps)"
  shows "pg_valid g = (0 < pg_underlying_price g)"
  using assms
proof (cases rule: calculate_cases)
  case (primary rs ms)
  then show ?thesis using futu.answered_priced by blast
next
  case (fallback fb ms rs' ms')
  then show ?thesis using model.answered_priced by blast
qed simp

text \<open>Of two positions in the same contract the quote service's provider answers only for the last.\<close>

lemma same_symbol_lost:
  assumes "pi_symbol p = pi_symbol q" and "pi_position_id p \<noteq> pi_position_id q"
  shows "map_of (futu_fetch client [p, q]) (pi_position_id p) = None"
proof (cases "map_of (futu_fetch client [p, q]) (pi_position_id p)")
  case (Some raw)
  let ?m = "futu_symbol_map [p, q]"
  have m: "map_of ?m s = Some x \<Longrightarrow> x = q" for s x
    using assms(1) by (auto simp: futu_symbol_map_def split: if_splits)
  from futu_fetch_fold [OF map_of_SomeD [OF Some]] obtain ups gs where "(pi_position_id p, raw) \<in> set (fold (futu_raw ?m ups) gs [])"
    by blast
  then have "(pi_position_id p, raw) \<in> set [] \<or> pi_position_id p = pi_position_id q"
    by (rule fold_update_entries [rotated])
      (auto dest!: futu_raw_entry dest: m)
  then show ?thesis using assms(2) by simp
qed simp

section \<open>Concrete runs\<close>

definition demo_math :: bs_math where
  "demo_math = \<lparr>bm_log = (\<lambda>x. if 0 < x then Inr (x - 1) else Inl ValueError), bm_exp = (\<lambda>x. Inr 1), bm_erf = (\<lambda>x. 0),
     bm_sqrt = (\<lambda>x. if 0 < x then 1 else 0)\<rparr>"


definition demo_info :: "int \<Rightarrow> string \<Rightarrow> int \<Rightarrow> position_info" where
  "demo_info i sy q = \<lparr>pi_position_id = i, pi_symbol = sy, pi_underlying_symbol = ''AAPL'', pi_quantity = q, pi_multiplier = 100,
     pi_option_type = ''call'', pi_strike = 150, pi_expiry = ''2024-01-19''\<rparr>"

definition demo_raw :: raw_greeks where
  "demo_raw = \<lparr>rg_delta = 1 / 2, rg_gamma = 1 / 50, rg_vega = 1 / 5, rg_theta = - 1 / 10, rg_implied_vol = 1 / 4, rg_underlying_price = 150\<rparr>"

definition demo_provider :: greeks_provider where
  "demo_provider = \<lparr>gp_source = SRC_FUTU,
     gp_fetch = (\<lambda>ps. map (\<lambda>p. (pi_position_id p, demo_raw)) (filter (\<lambda>p. pi_symbol p = ''A'') ps))\<rparr>"

text \<open>The first position is answered, the second is not and no fallback is configured.\<close>

theorem calculate_covers_witness:
  "mset (map pg_position_id (calculate_greeks 0 demo_provider None [demo_info 1 ''A'' 2, demo_info 2 ''B'' 3])) = {#1, 2#}
    \<and> map pg_valid (calculate_greeks 0 demo_provider None [demo_info 1 ''A'' 2, demo_info 2 ''B'' 3]) = [True, False]"
proof -
  have "mset (map pg_position_id (calculate_greeks 0 demo_provider None [demo_info 1 ''A'' 2, demo_info 2 ''B'' 3])) = {#1, 2#}"
    using calculate_covers [of 0 demo_provider None "[demo_info 1 ''A'' 2, demo_info 2 ''B'' 3]"] by (simp add: demo_info_def)
  then show ?thesis
    by (simp add: calculate_greeks_def split_answered_def map_filter_simps demo_provider_def demo_info_def)
qed

end
