(* ===== verification/Greeks_Aggregation.thy ===== *)
theory Greeks_Aggregation
  imports Greeks_Models
begin

text \<open>
  Aggregation of Greeks: AggregatedGreeks of greeks/models.py and greeks/aggregator.py. Instants are
  microseconds. Lemmas: the one-pass accumulator computes the field-wise sums over the valid positions,
  the breakdown by strategy or underlying partitions the account, coverage lies between 0 and 100, the
  ranking of contributors, and what the aggregate of the calculator's own results cannot show.
\<close>

record aggregated_greeks =
  agg_scope :: scope
  agg_scope_id :: string
  agg_strategy_id :: "string option"
  agg_dollar_delta :: decimal
  agg_gamma_dollar :: decimal
  agg_gamma_pnl_1pct :: decimal
  agg_vega_per_1pct :: decimal
  agg_theta_per_day :: decimal
  agg_valid_legs_count :: nat
  agg_total_legs_count :: nat
  agg_valid_notional :: decimal
  agg_total_notional :: decimal
  agg_missing_positions :: "int list"
  agg_has_high_risk_missing_legs :: bool
  agg_warning_legs_count :: nat
  agg_has_positions :: bool
  agg_as_of_ts :: int
  agg_as_of_ts_min :: "int option"
  agg_as_of_ts_max :: "int option"

definition coverage_pct :: "aggregated_greeks \<Rightarrow> decimal" where
  "coverage_pct a =
     (if \<not> agg_has_positions a \<or> agg_total_notional a = 0 then 100
      else dec_mul (dec (agg_valid_notional a / agg_total_notional a)) 100)"

definition is_coverage_sufficient :: "aggregated_greeks \<Rightarrow> bool" where
  "is_coverage_sufficient a \<longleftrightarrow> coverage_pct a \<ge> 95"

definition agg_staleness_seconds :: "int \<Rightarrow> aggregated_greeks \<Rightarrow> int" where
  "agg_staleness_seconds now a =
     (case agg_as_of_ts_min a of None \<Rightarrow> 0 | Some t \<Rightarrow> trunc_int (fl (of_int (now - t) / 1000000)))"

section \<open>The accumulator\<close>

definition gamma_high_risk_threshold :: decimal where "gamma_high_risk_threshold = 1000"
definition vega_high_risk_threshold :: decimal where "vega_high_risk_threshold = 2000"

record accumulator =
  acc_dollar_delta :: decimal
  acc_gamma_dollar :: decimal
  acc_gamma_pnl_1pct :: decimal
  acc_vega_per_1pct :: decimal
  acc_theta_per_day :: decimal
  acc_valid_legs_count :: nat
  acc_total_legs_count :: nat
  acc_valid_notional :: decimal
  acc_total_notional :: decimal
  acc_missing_positions :: "int list"
  acc_high_risk_missing_positions :: "int list"
  acc_warning_positions :: "int list"
  acc_as_of_ts_min :: "int option"
  acc_as_of_ts_max :: "int option"

definition empty_accumulator :: accumulator where
  "empty_accumulator =
     \<lparr>acc_dollar_delta = 0, acc_gamma_dollar = 0, acc_gamma_pnl_1pct = 0, acc_vega_per_1pct = 0, acc_theta_per_day = 0,
      acc_valid_legs_count = 0, acc_total_legs_count = 0, acc_valid_notional = 0, acc_total_notional = 0,
      acc_missing_positions = [], acc_high_risk_missing_positions = [], acc_warning_positions = [],
      acc_as_of_ts_min = None, acc_as_of_ts_max = None\<rparr>"

definition high_risk :: "position_greeks \<Rightarrow> bool" where
  "high_risk p \<longleftrightarrow> dec_abs (pg_gamma_dollar p) > gamma_high_risk_threshold \<or> dec_abs (pg_vega_per_1pct p) > vega_high_risk_threshold"

definition acc_add :: "position_greeks \<Rightarrow> accumulator \<Rightarrow> accumulator" where
  "acc_add p a =
     (let ts = pg_as_of_ts p;
          a1 = a\<lparr>acc_total_legs_count := acc_total_legs_count a + 1,
                 acc_total_notional := dec_add (acc_total_notional a) (pg_notional p),
                 acc_as_of_ts_min := (case acc_as_of_ts_min a of None \<Rightarrow> Some ts | Some t \<Rightarrow> Some (if ts < t then ts else t)),
                 acc_as_of_ts_max := (case acc_as_of_ts_max a of None \<Rightarrow> Some ts | Some t \<Rightarrow> Some (if ts > t then ts else t)),
                 acc_warning_positions := (if pg_quality_warnings p \<noteq> [] then acc_warning_positions a @ [pg_position_id p] else acc_warning_positions a)\<rparr>
      in if pg_valid p
         then a1\<lparr>acc_dollar_delta := dec_add (acc_dollar_delta a) (pg_dollar_delta p),
                 acc_gamma_dollar := dec_add (acc_gamma_dollar a) (pg_gamma_dollar p),
                 acc_gamma_pnl_1pct := dec_add (acc_gamma_pnl_1pct a) (pg_gamma_pnl_1pct p),
                 acc_vega_per_1pct := dec_add (acc_vega_per_1pct a) (pg_vega_per_1pct p),
                 acc_theta_per_day := dec_add (acc_theta_per_day a) (pg_theta_per_day p),
                 acc_valid_legs_count := acc_valid_legs_count a + 1,
                 acc_valid_notional := dec_add (acc_valid_notional a) (pg_notional p)\<rparr>
         else a1\<lparr>acc_missing_positions := acc_missing_positions a @ [pg_position_id p],
                 acc_high_risk_missing_positions :=
                   (if high_risk p then acc_high_risk_missing_positions a @ [pg_position_id p] else acc_high_risk_missing_positions a)\<rparr>)"

definition aggregate :: "int \<Rightarrow> position_greeks list \<Rightarrow> scope \<Rightarrow> string \<Rightarrow> aggregated_greeks" where
  "aggregate now positions sc scope_id =
     (let a = fold acc_add positions empty_accumulator
      in \<lparr>agg_scope = sc, agg_scope_id = scope_id, agg_strategy_id = (if sc = STRATEGY then Some scope_id else None),
          agg_dollar_delta = acc_dollar_delta a, agg_gamma_dollar = acc_gamma_dollar a, agg_gamma_pnl_1pct = acc_gamma_pnl_1pct a,
          agg_vega_per_1pct = acc_vega_per_1pct a, agg_theta_per_day = acc_theta_per_day a,
          agg_valid_legs_count = acc_valid_legs_count a, agg_total_legs_count = acc_total_legs_count a,
          agg_valid_notional = acc_valid_notional a, agg_total_notional = acc_total_notional a,
          agg_missing_positions = acc_missing_positions a,
          agg_has_high_risk_missing_legs = (length (acc_high_risk_missing_positions a) > 0),
          agg_warning_legs_count = length (acc_warning_positions a), agg_has_positions = (acc_total_legs_count a > 0),
          agg_as_of_ts = (case acc_as_of_ts_min a of None \<Rightarrow> now | Some t \<Rightarrow> t),
          agg_as_of_ts_min = acc_as_of_ts_min a,
          agg_as_of_ts_max = (case acc_as_of_ts_min a of None \<Rightarrow> None | Some _ \<Rightarrow> acc_as_of_ts_max a)\<rparr>)"

section \<open>Breakdowns\<close>

text \<open>Grouping into a dictionary of lists, keys in the order of their first element.\<close>

definition group_by :: "('a \<Rightarrow> 'k) \<Rightarrow> 'a list \<Rightarrow> ('k \<times> 'a list) list" where
  "group_by key xs =
     fold (\<lambda>x d. AList.update (key x) ((case map_of d (key x) of None \<Rightarrow> [] | Some l \<Rightarrow> l) @ [x]) d) xs []"

definition strategy_key :: "position_greeks \<Rightarrow> string" where
  "strategy_key p = (case pg_strategy_id p of None \<Rightarrow> ''_unassigned_'' | Some s \<Rightarrow> s)"

definition aggregate_groups ::
  "(position_greeks \<Rightarrow> string) \<Rightarrow> int \<Rightarrow> position_greeks list \<Rightarrow> string \<Rightarrow> aggregated_greeks \<times> (string \<times> aggregated_greeks) list" where
  "aggregate_groups key now positions account_id =
     (aggregate now positions ACCOUNT account_id,
      map (\<lambda>(k, ps). (k, aggregate now ps STRATEGY k)) (group_by key positions))"

definition aggregate_by_strategy :: "int \<Rightarrow> position_greeks list \<Rightarrow> string \<Rightarrow> aggregated_greeks \<times> (string \<times> aggregated_greeks) list" where
  "aggregate_by_strategy = aggregate_groups strategy_key"

definition aggregate_by_underlying :: "int \<Rightarrow> position_greeks list \<Rightarrow> string \<Rightarrow> aggregated_greeks \<times> (string \<times> aggregated_greeks) list" where
  "aggregate_by_underlying = aggregate_groups pg_underlying_symbol"

section \<open>Top contributors\<close>

record contributor_info =
  ci_position :: position_greeks
  ci_metric :: risk_metric
  ci_rank :: nat
  ci_contribution_abs :: decimal
  ci_contribution_signed :: decimal

fun metric_field :: "risk_metric \<Rightarrow> (position_greeks \<Rightarrow> decimal) option" where
  "metric_field DELTA = Some pg_dollar_delta"
| "metric_field GAMMA = Some pg_gamma_dollar"
| "metric_field VEGA = Some pg_vega_per_1pct"
| "metric_field THETA = Some pg_theta_per_day"
| "metric_field _ = None"

text \<open>\<open>xs[:n]\<close>, where a negative \<open>n\<close> counts from the end.\<close>

definition py_take :: "int \<Rightarrow> 'a list \<Rightarrow> 'a list" where
  "py_take n xs = (if 0 \<le> n then take (nat n) xs else take (length xs - nat (- n)) xs)"

definition get_top_contributors :: "position_greeks list \<Rightarrow> risk_metric \<Rightarrow> int \<Rightarrow> contributor_info list" where
  "get_top_contributors positions m top_n =
     (if \<not> is_greek m then []
      else (case metric_field m of
              None \<Rightarrow> []
            | Some field \<Rightarrow>
                let contributions = sort_key (\<lambda>x. - dec_abs (snd x)) (map (\<lambda>p. (p, field p)) (filter pg_valid positions))
                in map (\<lambda>(rank, p, c). \<lparr>ci_position = p, ci_metric = m, ci_rank = rank, ci_contribution_abs = dec_abs c,
                          ci_contribution_signed = c\<rparr>)
                     (enumerate 1 (py_take top_n contributions))))"

section \<open>One pass computes every sum\<close>

lemma foldl_dec_sum: "foldl dec_add 0 xs = dec_sum xs"
  by (simp add: dec_sum_def)

lemma acc_add_fields:
  "acc_dollar_delta (acc_add p a) = (if pg_valid p then dec_add (acc_dollar_delta a) (pg_dollar_delta p) else acc_dollar_delta a)"
  "acc_gamma_dollar (acc_add p a) = (if pg_valid p then dec_add (acc_gamma_dollar a) (pg_gamma_dollar p) else acc_gamma_dollar a)"
  "acc_gamma_pnl_1pct (acc_add p a) = (if pg_valid p then dec_add (acc_gamma_pnl_1pct a) (pg_gamma_pnl_1pct p) else acc_gamma_pnl_1pct a)"
  "acc_vega_per_1pct (acc_add p a) = (if pg_valid p then dec_add (acc_vega_per_1pct a) (pg_vega_per_1pct p) else acc_vega_per_1pct a)"
  "acc_theta_per_day (acc_add p a) = (if pg_valid p then dec_add (acc_theta_per_day a) (pg_theta_per_day p) else acc_theta_per_day a)"
  "acc_valid_legs_count (acc_add p a) = (if pg_valid p then acc_valid_legs_count a + 1 else acc_valid_legs_count a)"
  "acc_total_legs_count (acc_add p a) = acc_total_legs_count a + 1"
  "acc_valid_notional (acc_add p a) = (if pg_valid p then dec_add (acc_valid_notional a) (pg_notional p) else acc_valid_notional a)"
  "acc_total_notional (acc_add p a) = dec_add (acc_total_notional a) (pg_notional p)"
  "acc_missing_positions (acc_add p a) = (if pg_valid p then acc_missing_positions a else acc_missing_positions a @ [pg_position_id p])"
  "acc_high_risk_missing_positions (acc_add p a)
     = (if \<not> pg_valid p \<and> high_risk p then acc_high_risk_missing_positions a @ [pg_position_id p] else acc_high_risk_missing_positions a)"
  "acc_warning_positions (acc_add p a) = (if pg_quality_warnings p \<noteq> [] then acc_warning_positions a @ [pg_position_id p] else acc_warning_positions a)"
  "acc_as_of_ts_min (acc_add p a) = Some (case acc_as_of_ts_min a of None \<Rightarrow> pg_as_of_ts p | Some t \<Rightarrow> min (pg_as_of_ts p) t)"
  "acc_as_of_ts_max (acc_add p a) = Some (case acc_as_of_ts_max a of None \<Rightarrow> pg_as_of_ts p | Some t \<Rightarrow> max (pg_as_of_ts p) t)"
  by (simp_all add: acc_add_def Let_def min_def max_def split: option.split)

lemma empty_accumulator_fields:
  "acc_dollar_delta empty_accumulator = 0" "acc_gamma_dollar empty_accumulator = 0" "acc_gamma_pnl_1pct empty_accumulator = 0"
  "acc_vega_per_1pct empty_accumulator = 0" "acc_theta_per_day empty_accumulator = 0" "acc_valid_legs_count empty_accumulator = 0"
  "acc_total_legs_count empty_accumulator = 0" "acc_valid_notional empty_accumulator = 0" "acc_total_notional empty_accumulator = 0"
  "acc_missing_positions empty_accumulator = []" "acc_high_risk_missing_positions empty_accumulator = []"
  "acc_warning_positions empty_accumulator = []" "acc_as_of_ts_min empty_accumulator = None" "acc_as_of_ts_max empty_accumulator = None"
  by (simp_all add: empty_accumulator_def)

lemmas acc_simps = acc_add_fields empty_accumulator_fields

lemma dec_add_dec_sum: "dec_add (dec_sum xs) x = dec_sum (xs @ [x])"
  by (simp add: dec_sum_def)

lemma acc_sums:
  fixes ps :: "position_greeks list"
  defines "v \<equiv> filter pg_valid ps" and "a \<equiv> fold acc_add ps empty_accumulator"
  shows "acc_dollar_delta a = dec_sum (map pg_dollar_delta v)" "acc_gamma_dollar a = dec_sum (map pg_gamma_dollar v)"
    "acc_gamma_pnl_1pct a = dec_sum (map pg_gamma_pnl_1pct v)" "acc_vega_per_1pct a = dec_sum (map pg_vega_per_1pct v)"
    "acc_theta_per_day a = dec_sum (map pg_theta_per_day v)" "acc_valid_legs_count a = length v"
    "acc_total_legs_count a = length ps" "acc_valid_notional a = dec_sum (map pg_notional v)"
    "acc_total_notional a = dec_sum (map pg_notional ps)"
    "acc_missing_positions a = map pg_position_id (filter (\<lambda>p. \<not> pg_valid p) ps)"
    "acc_high_risk_missing_positions a = map pg_position_id (filter high_risk (filter (\<lambda>p. \<not> pg_valid p) ps))"
    "acc_warning_positions a = map pg_position_id (filter (\<lambda>p. pg_quality_warnings p \<noteq> []) ps)"
  unfolding v_def a_def
  by (induction ps rule: rev_induct)
    (simp_all add: acc_simps dec_add_dec_sum)

lemma acc_times:
  shows "acc_as_of_ts_min (fold acc_add ps empty_accumulator) = (if ps = [] then None else Some (Min (pg_as_of_ts ` set ps)))"
    and "acc_as_of_ts_max (fold acc_add ps empty_accumulator) = (if ps = [] then None else Some (Max (pg_as_of_ts ` set ps)))"
proof -
  have "acc_as_of_ts_min (fold acc_add ps empty_accumulator) = (if ps = [] then None else Some (Min (pg_as_of_ts ` set ps)))
    \<and> acc_as_of_ts_max (fold acc_add ps empty_accumulator) = (if ps = [] then None else Some (Max (pg_as_of_ts ` set ps)))"
  proof (induction ps rule: rev_induct)
    case (snoc p ps)
    then show ?case
      by (cases "ps = []") (simp_all add: acc_simps)
  qed (simp add: acc_simps)
  then show "acc_as_of_ts_min (fold acc_add ps empty_accumulator) = (if ps = [] then None else Some (Min (pg_as_of_ts ` set ps)))"
    "acc_as_of_ts_max (fold acc_add ps empty_accumulator) = (if ps = [] then None else Some (Max (pg_as_of_ts ` set ps)))" by simp_all
qed

text \<open>The field-wise definition of an aggregate.\<close>

definition reference_aggregate :: "int \<Rightarrow> position_greeks list \<Rightarrow> scope \<Rightarrow> string \<Rightarrow> aggregated_greeks" where
  "reference_aggregate now ps sc scope_id =
     (let v = filter pg_valid ps; missing = filter (\<lambda>p. \<not> pg_valid p) ps; times = map pg_as_of_ts ps
      in \<lparr>agg_scope = sc, agg_scope_id = scope_id, agg_strategy_id = (if sc = STRATEGY then Some scope_id else None),
          agg_dollar_delta = dec_sum (map pg_dollar_delta v), agg_gamma_dollar = dec_sum (map pg_gamma_dollar v),
          agg_gamma_pnl_1pct = dec_sum (map pg_gamma_pnl_1pct v), agg_vega_per_1pct = dec_sum (map pg_vega_per_1pct v),
          agg_theta_per_day = dec_sum (map pg_theta_per_day v), agg_valid_legs_count = length v, agg_total_legs_count = length ps,
          agg_valid_notional = dec_sum (map pg_notional v), agg_total_notional = dec_sum (map pg_notional ps),
          agg_missing_positions = map pg_position_id missing,
          agg_has_high_risk_missing_legs = (\<exists>p \<in> set missing. high_risk p),
          agg_warning_legs_count = length (filter (\<lambda>p. pg_quality_warnings p \<noteq> []) ps), agg_has_positions = (ps \<noteq> []),
          agg_as_of_ts = (if ps = [] then now else Min (set times)),
          agg_as_of_ts_min = (if ps = [] then None else Some (Min (set times))),
          agg_as_of_ts_max = (if ps = [] then None else Some (Max (set times)))\<rparr>)"

text \<open>The one-pass accumulator computes the field-wise definition: sums, notional and count over the valid positions, the
  invalid ones as missing (high risk when one of them is), totals over all, and the earliest time as the time of the aggregate.\<close>

lemma aggregate_reference: "aggregate now ps sc scope_id = reference_aggregate now ps sc scope_id"
  by (simp add: aggregate_def reference_aggregate_def Let_def acc_sums acc_times filter_empty_conv Bex_def)

section \<open>Breakdowns partition the account\<close>

lemma group_by_snoc:
  "group_by key (xs @ [x]) = AList.update (key x) ((case map_of (group_by key xs) (key x) of None \<Rightarrow> [] | Some l \<Rightarrow> l) @ [x]) (group_by key xs)"
  by (simp add: group_by_def)

lemma group_by_Nil [simp]: "group_by key [] = []"
  by (simp add: group_by_def)

lemma group_by_lookup:
  "map_of (group_by key xs) k = (if k \<in> key ` set xs then Some (filter (\<lambda>x. key x = k) xs) else None)"
proof (induction xs rule: rev_induct)
  case (snoc x xs)
  then show ?case by (auto simp: group_by_snoc filter_empty_conv image_iff eq_commute [of "[]" "filter P xs" for P]) metis
qed simp

lemma group_by_keys: "distinct (map fst (group_by key xs))" "fst ` set (group_by key xs) = key ` set xs"
proof -
  show "distinct (map fst (group_by key xs))" by (induction xs rule: rev_induct) (simp_all add: group_by_snoc)
  show "fst ` set (group_by key xs) = key ` set xs"
    by (induction xs rule: rev_induct) (simp_all add: group_by_snoc dom_update)
qed

lemma group_by_entry: "(k, ys) \<in> set (group_by key xs) \<Longrightarrow> ys = filter (\<lambda>x. key x = k) xs"
  using group_by_lookup [of key xs k] map_of_is_SomeI [OF group_by_keys(1), of k ys key xs] by (auto split: if_splits)

lemma update_extends:
  assumes "distinct (map fst d)"
  shows "mset (concat (map snd (AList.update k ((case map_of d k of None \<Rightarrow> [] | Some l \<Rightarrow> l) @ [x]) d))) = add_mset x (mset (concat (map snd d)))"
  using assms by (induction d) (auto simp: map_of_eq_None_iff image_iff split: option.splits)

lemma group_by_mset: "mset (concat (map snd (group_by key xs))) = mset xs"
proof (induction xs rule: rev_induct)
  case (snoc x xs)
  then show ?case by (simp add: group_by_snoc update_extends [OF group_by_keys(1)])
qed simp

lemma groups_sum:
  fixes key :: "'a \<Rightarrow> 'k"
  assumes "\<And>x y. f (x @ y) = f x + f y" and "f [] = (0 :: 'b :: comm_monoid_add)" and "\<And>xs ys. mset xs = mset ys \<Longrightarrow> f xs = f ys"
  shows "sum_list (map (\<lambda>(k, ys). f ys) (group_by key xs)) = f xs"
proof -
  have "sum_list (map (\<lambda>(k, ys). f ys) g) = f (concat (map snd g))" for g :: "('k \<times> 'a list) list"
    by (induction g) (auto simp: assms(1,2))
  then show ?thesis using assms(3) [OF group_by_mset [of key xs]] by simp
qed

lemma groups_length: "sum_list (map (\<lambda>(k, ys). length (filter P ys)) (group_by key xs)) = length (filter P xs)"
proof (rule groups_sum)
  show "length (filter P ys) = length (filter P zs)" if "mset ys = mset zs" for ys zs
    using that by (metis mset_filter size_mset)
qed simp_all

lemma groups_ids: "sum_list (map (\<lambda>(k, ys). mset (map f (filter P ys))) (group_by key xs)) = mset (map f (filter P xs))"
  by (rule groups_sum) simp_all

lemma aggregate_groups_partition:
  fixes key :: "position_greeks \<Rightarrow> string"
  assumes "aggregate_groups key now ps account = (whole, parts)"
  shows "distinct (map fst parts) \<and> fst ` set parts = key ` set ps
    \<and> (\<forall>(k, a) \<in> set parts. a = aggregate now (filter (\<lambda>p. key p = k) ps) STRATEGY k)
    \<and> agg_total_legs_count whole = sum_list (map (agg_total_legs_count \<circ> snd) parts)
    \<and> agg_valid_legs_count whole = sum_list (map (agg_valid_legs_count \<circ> snd) parts)
    \<and> agg_warning_legs_count whole = sum_list (map (agg_warning_legs_count \<circ> snd) parts)
    \<and> mset (agg_missing_positions whole) = sum_list (map (mset \<circ> agg_missing_positions \<circ> snd) parts)"
proof -
  have t: "whole = aggregate now ps ACCOUNT account"
    and p: "parts = map (\<lambda>(k, ps). (k, aggregate now ps STRATEGY k)) (group_by key ps)"
    using assms by (simp_all add: aggregate_groups_def)
  have "map fst parts = map fst (group_by key ps)" by (auto simp: p)
  then have 1: "distinct (map fst parts)" "fst ` set parts = key ` set ps"
    using group_by_keys [of key ps] by (simp_all flip: set_map)
  have 2: "\<forall>(k, a) \<in> set parts. a = aggregate now (filter (\<lambda>p. key p = k) ps) STRATEGY k"
    by (auto simp: p dest: group_by_entry)
  have "map (f \<circ> snd) parts = map (\<lambda>(k, ys). f (aggregate now ys STRATEGY k)) (group_by key ps)" for f :: "aggregated_greeks \<Rightarrow> 'b"
    by (auto simp: p)
  note m = this
  show ?thesis using 1 2 groups_length [of "\<lambda>_. True" key ps] groups_length [of pg_valid key ps]
      groups_length [of "\<lambda>p. pg_quality_warnings p \<noteq> []" key ps] groups_ids [of pg_position_id "\<lambda>p. \<not> pg_valid p" key ps]
    by (simp add: t m comp_assoc [symmetric] aggregate_reference reference_aggregate_def Let_def)
qed

text \<open>The breakdown by strategy has one aggregate for each strategy, of exactly its positions; leg counts, warnings and
  missing positions of the account are those of the strategies together.\<close>

theorem strategies_partition_account:
  fixes whole :: aggregated_greeks
  assumes "aggregate_by_strategy now ps account = (whole, parts)"
  shows "distinct (map fst parts) \<and> fst ` set parts = strategy_key ` set ps
    \<and> (\<forall>(k, a) \<in> set parts. a = aggregate now (filter (\<lambda>p. strategy_key p = k) ps) STRATEGY k)
    \<and> agg_total_legs_count whole = sum_list (map (agg_total_legs_count \<circ> snd) parts)
    \<and> agg_valid_legs_count whole = sum_list (map (agg_valid_legs_count \<circ> snd) parts)
    \<and> agg_warning_legs_count whole = sum_list (map (agg_warning_legs_count \<circ> snd) parts)
    \<and> mset (agg_missing_positions whole) = sum_list (map (mset \<circ> agg_missing_positions \<circ> snd) parts)"
  using assms unfolding aggregate_by_strategy_def by (rule aggregate_groups_partition)

section \<open>Coverage\<close>

text \<open>Rounding twice is rounding once.\<close>

lemma dec_idem [simp]: "dec (dec q) = dec q"
proof (cases "q = 0")
  case False
  let ?e = "lead_exp 10 q - 27" and ?m = "round_half_even (q / 10 powi (lead_exp 10 q - 27))"
  have d: "dec q = of_int ?m * 10 powi ?e" using False by (simp add: dec_def sig_round_def Let_def)
  have up: "\<bar>q\<bar> < 10 powi (lead_exp 10 q + 1)" using lead_exp_upper [of 10 q] False by simp
  have "\<bar>q / 10 powi ?e\<bar> = \<bar>q\<bar> / 10 powi ?e" by simp
  also have "\<dots> \<le> 10 powi (lead_exp 10 q + 1) / 10 powi ?e" using up by (intro divide_right_mono) simp_all
  also have "\<dots> = 10 powi (lead_exp 10 q + 1 - ?e)" by (subst power_int_diff) simp_all
  also have "\<dots> = 10 ^ 28" by (simp add: power_int_def)
  finally have b: "- (10 ^ 28) \<le> q / 10 powi ?e" "q / 10 powi ?e \<le> 10 ^ 28" by linarith+
  then have "- (10 ^ 28) \<le> ?m" "?m \<le> 10 ^ 28"
    using round_half_even_ge [of "- (10 ^ 28)" "q / 10 powi ?e"] round_half_even_le [of "q / 10 powi ?e" "10 ^ 28"] by simp_all
  moreover have p: "(10 ^ 28 :: rat) * 10 powi ?e = 10 powi (lead_exp 10 q + 1)" using power_int_add [of "10 :: rat" 28 ?e] by (simp add: add.commute)
  ultimately consider "\<bar>?m\<bar> < 10 ^ 28" | "?m = 10 ^ 28" | "?m = - (10 ^ 28)" by linarith
  then show ?thesis
  proof cases
    case 1
    then show ?thesis unfolding d by (intro dec_exact [of _ ?m ?e]) simp_all
  next
    case 2
    have "dec q = of_int 1 * 10 powi (lead_exp 10 q + 1)" unfolding d 2 using p by simp
    then show ?thesis by (rule dec_exact) simp
  next
    case 3
    have "dec q = of_int (- 1) * 10 powi (lead_exp 10 q + 1)" unfolding d 3 using p by simp
    then show ?thesis by (rule dec_exact) simp
  qed
qed simp

lemma dec_dec_sum [simp]: "dec (dec_sum xs) = dec_sum xs"
  by (cases xs rule: rev_cases) (simp_all add: dec_sum_snoc)

text \<open>A sum of non-negative values over some of the elements is at most that over all.\<close>

lemma dec_sum_filter_le:
  assumes "\<And>x. x \<in> set xs \<Longrightarrow> 0 \<le> f x"
  shows "dec_sum (map f (filter P xs)) \<le> dec_sum (map f xs)"
  using assms
proof (induction xs rule: rev_induct)
  case (snoc x xs)
  then have ih: "dec_sum (map f (filter P xs)) \<le> dec_sum (map f xs)" and x: "0 \<le> f x" by auto
  show ?case
  proof (cases "P x")
    case True
    then show ?thesis using ih by (simp add: dec_sum_snoc dec_mono)
  next
    case False
    have "dec (dec_sum (map f xs)) \<le> dec (dec_sum (map f xs) + f x)" using x by (intro dec_mono) simp
    then show ?thesis using False ih by (simp add: dec_sum_snoc)
  qed
qed simp

lemma notional_nonneg: "0 \<le> pg_underlying_price p \<Longrightarrow> 0 \<le> pg_multiplier p \<Longrightarrow> 0 \<le> pg_notional p"
  by (simp add: pg_notional_def dec_mul_def dec_nonneg)

text \<open>The coverage of an aggregate is between 0 and 100 percent when no price and no multiplier is negative, and it is
  100 when every position is valid.\<close>

theorem coverage_bounds:
  assumes "\<And>p. p \<in> set ps \<Longrightarrow> 0 \<le> pg_underlying_price p \<and> 0 \<le> pg_multiplier p"
  shows "0 \<le> coverage_pct (aggregate now ps sc k) \<and> coverage_pct (aggregate now ps sc k) \<le> 100
    \<and> ((\<forall>p \<in> set ps. pg_valid p) \<longrightarrow> coverage_pct (aggregate now ps sc k) = 100)"
proof -
  let ?v = "dec_sum (map pg_notional (filter pg_valid ps))" and ?t = "dec_sum (map pg_notional ps)"
  have nn: "0 \<le> pg_notional p" if "p \<in> set ps" for p using assms [OF that] notional_nonneg by blast
  have v: "0 \<le> ?v" "?v \<le> ?t" using nn dec_sum_filter_le [of ps pg_notional pg_valid] by (auto intro!: dec_sum_nonneg)
  have c: "coverage_pct (aggregate now ps sc k) = (if ps = [] \<or> ?t = 0 then 100 else dec_mul (dec (?v / ?t)) 100)"
    by (simp add: coverage_pct_def aggregate_reference reference_aggregate_def Let_def)
  have one: "dec 1 = 1" "dec 100 = (100 :: rat)" using dec_exact [of 1 1 0] dec_exact [of 100 100 0] by simp_all
  show ?thesis
  proof (cases "ps = [] \<or> ?t = 0")
    case False
    then have t: "0 < ?t" using v by linarith
    then have "0 \<le> ?v / ?t" "?v / ?t \<le> 1" using v by (simp_all add: divide_le_eq)
    then have d: "0 \<le> dec (?v / ?t)" "dec (?v / ?t) \<le> 1" using dec_mono [of _ 1] one by (auto simp: dec_nonneg)
    then have "0 \<le> dec_mul (dec (?v / ?t)) 100" "dec_mul (dec (?v / ?t)) 100 \<le> 100"
      using dec_mono [of "dec (?v / ?t) * 100" 100] one by (simp_all add: dec_mul_def dec_nonneg)
    moreover have "dec_mul (dec (?v / ?t)) 100 = 100" if "\<forall>p \<in> set ps. pg_valid p"
      using that t one by (simp add: dec_mul_def)
    ultimately show ?thesis using False by (simp add: c)
  qed (auto simp: c)
qed

text \<open>The calculator gives a position without Greeks the price zero, so it adds nothing to the notional that coverage is
  measured by, and zero Greeks, so it is never of high risk.\<close>

lemma coverage_never_low:
  fixes infos :: "position_info list" and primary :: greeks_provider and fallback :: "greeks_provider option" and now :: int
  defines "ps \<equiv> calculate_greeks now primary fallback infos"
  shows "coverage_pct (aggregate now ps sc k) = 100 \<and> \<not> agg_has_high_risk_missing_legs (aggregate now ps sc k)"
proof -
  have one: "dec 1 = 1" "dec 100 = (100 :: rat)" using dec_exact [of 1 1 0] dec_exact [of 100 100 0] by simp_all
  have inv: "pg_underlying_price p = 0 \<and> pg_gamma_dollar p = 0 \<and> pg_vega_per_1pct p = 0" if "p \<in> set ps" "\<not> pg_valid p" for p
    using calculate_invalid that unfolding ps_def by blast
  have "dec_sum (map pg_notional qs) = dec_sum (map pg_notional (filter pg_valid qs))"
    if "\<And>p. p \<in> set qs \<Longrightarrow> \<not> pg_valid p \<Longrightarrow> pg_underlying_price p = 0" for qs
    using that by (induction qs rule: rev_induct) (simp_all add: dec_sum_snoc pg_notional_def dec_mul_def)
  from this [of ps] have "dec_sum (map pg_notional ps) = dec_sum (map pg_notional (filter pg_valid ps))" using inv by blast
  then have "coverage_pct (aggregate now ps sc k) = 100"
    using one by (simp add: coverage_pct_def aggregate_reference reference_aggregate_def Let_def dec_mul_def)
  moreover have "\<not> agg_has_high_risk_missing_legs (aggregate now ps sc k)"
    using inv by (auto simp: aggregate_reference reference_aggregate_def Let_def high_risk_def gamma_high_risk_threshold_def
        vega_high_risk_threshold_def dec_abs_def)
  ultimately show ?thesis by blast
qed

section \<open>The ranking\<close>

lemma sorted_take_drop:
  assumes "sorted (map g xs)" and "x \<in> set (take n xs)" and "y \<in> set (drop n xs)"
  shows "g x \<le> g y"
proof -
  have "sorted (map g (take n xs) @ map g (drop n xs))" using assms(1) by (simp flip: map_append)
  then show ?thesis using assms(2,3) by (simp add: sorted_append)
qed

lemma map_enumerate_snd: "map (\<lambda>x. h (snd x)) (enumerate k xs) = map h xs"
  by (induction xs arbitrary: k) simp_all

text \<open>The contributors are ranked from one, ordered by the size of what they contribute, valid positions of the list, at
  most the requested number and as many as there are, and no valid position that was left out contributes more.\<close>

theorem top_contributors_correct:
  assumes "metric_field m = Some f" and "0 \<le> n"
  shows "let r = get_top_contributors ps m n; v = filter pg_valid ps
    in length r = min (nat n) (length v) \<and> map ci_rank r = [1..<Suc (length r)]
     \<and> (\<forall>c \<in> set r. ci_contribution_signed c = f (ci_position c) \<and> ci_contribution_abs c = dec_abs (f (ci_position c)))
     \<and> sorted_wrt (\<lambda>a b. ci_contribution_abs a \<ge> ci_contribution_abs b) r
     \<and> mset (map ci_position r) \<subseteq># mset v
     \<and> (\<forall>p \<in># mset v - mset (map ci_position r). \<forall>c \<in> set r. dec_abs (f p) \<le> ci_contribution_abs c)"
proof -
  let ?v = "filter pg_valid ps"
  define g where "g = (\<lambda>x :: position_greeks \<times> decimal. - dec_abs (snd x))"
  define s where "s = sort_key g (map (\<lambda>p. (p, f p)) ?v)"
  define h where "h = (\<lambda>(rank :: nat, p, c). \<lparr>ci_position = p, ci_metric = m, ci_rank = rank, ci_contribution_abs = dec_abs c,
    ci_contribution_signed = c\<rparr>)"
  have gr: "is_greek m" using assms(1) by (cases m) (simp_all add: is_greek_def metric_category_def)
  define r where "r = map h (enumerate 1 (take (nat n) s))"
  have r: "get_top_contributors ps m n = r"
    using gr assms by (simp add: get_top_contributors_def r_def h_def s_def g_def py_take_def)
  have pairs: "x \<in> set s \<Longrightarrow> snd x = f (fst x)" for x by (auto simp: s_def)
  have srt: "sorted (map g s)" by (simp add: s_def)
  have len: "length s = length ?v" by (simp add: s_def)
  have pos: "map ci_position r = map fst (take (nat n) s)"
    using map_enumerate_snd [of fst 1 "take (nat n) s"] by (simp add: r_def h_def comp_def case_prod_beta)
  have abs: "map ci_contribution_abs r = map (\<lambda>x. - g x) (take (nat n) s)"
    using map_enumerate_snd [of "\<lambda>x. dec_abs (snd x)" 1 "take (nat n) s"] by (simp add: r_def h_def g_def comp_def case_prod_beta)
  have "mset (map fst s) = mset ?v" by (simp add: s_def multiset.map_comp comp_def)
  then have m: "mset ?v = mset (map fst (take (nat n) s)) + mset (map fst (drop (nat n) s))"
    by (metis append_take_drop_id map_append mset_append)
  have 1: "length r = min (nat n) (length ?v)" using len by (simp add: r_def)
  have 2: "map ci_rank r = [1..<Suc (length r)]"
  proof -
    have "map ci_rank r = map fst (enumerate 1 (take (nat n) s))" by (simp add: r_def h_def comp_def case_prod_beta)
    also have "\<dots> = [1..<1 + length (take (nat n) s)]" by (rule map_fst_enumerate)
    finally show ?thesis by (simp add: r_def)
  qed
  have 3: "\<forall>c \<in> set r. ci_contribution_signed c = f (ci_position c) \<and> ci_contribution_abs c = dec_abs (f (ci_position c))"
  proof
    fix c assume "c \<in> set r"
    then obtain x where x: "x \<in> set (enumerate 1 (take (nat n) s))" "c = h x" by (auto simp: r_def)
    from x(1) have "snd x \<in> set (take (nat n) s)" by (metis imageI list.set_map map_snd_enumerate)
    then have "snd x \<in> set s" by (rule in_set_takeD)
    from pairs [OF this] show "ci_contribution_signed c = f (ci_position c) \<and> ci_contribution_abs c = dec_abs (f (ci_position c))"
      by (simp add: x(2) h_def case_prod_beta)
  qed
  have "sorted (map g (take (nat n) s))" using srt by (metis sorted_wrt_take take_map)
  then have "sorted_wrt (\<lambda>a b. a \<ge> b) (map ci_contribution_abs r)" unfolding abs by (simp add: sorted_wrt_map)
  then have 4: "sorted_wrt (\<lambda>a b. ci_contribution_abs a \<ge> ci_contribution_abs b) r" by (simp add: sorted_wrt_map)
  have 5: "dec_abs (f p) \<le> ci_contribution_abs c" if p: "p \<in># mset ?v - mset (map ci_position r)" and c: "c \<in> set r" for p c
  proof -
    from p obtain y where y: "y \<in> set (drop (nat n) s)" "p = fst y" unfolding pos m by auto
    have "ci_contribution_abs c \<in> set (map ci_contribution_abs r)" using c by simp
    then obtain x where x: "x \<in> set (take (nat n) s)" "ci_contribution_abs c = - g x" unfolding abs by auto
    have "g x \<le> g y" by (rule sorted_take_drop [OF srt x(1) y(1)])
    then show ?thesis using x y pairs [of y] by (auto simp: g_def dest: in_set_dropD)
  qed
  have 6: "mset (map ci_position r) \<subseteq># mset ?v" unfolding pos m by simp
  show ?thesis unfolding r Let_def using 1 2 3 4 5 6 by blast
qed

section \<open>Concrete runs\<close>

definition demo_greeks :: "int \<Rightarrow> string option \<Rightarrow> decimal \<Rightarrow> position_greeks" where
  "demo_greeks i st d = (convert_to_dollar_greeks 7 (demo_info i ''A'' 2) demo_raw SRC_FUTU None)\<lparr>pg_strategy_id := st, pg_dollar_delta := d\<rparr>"

lemma demo_greeks_fields [simp]:
  "pg_position_id (demo_greeks i st d) = i" "pg_valid (demo_greeks i st d)" "pg_strategy_id (demo_greeks i st d) = st"
  "pg_dollar_delta (demo_greeks i st d) = d" "pg_underlying_price (demo_greeks i st d) = 150" "pg_multiplier (demo_greeks i st d) = 100"
  by (simp_all add: demo_greeks_def demo_raw_def demo_info_def)

definition demo_legs :: "position_greeks list" where
  "demo_legs = [demo_greeks 1 (Some ''s'') 5, demo_greeks 2 None (- 9), create_invalid_position_greeks 7 (demo_info 3 ''B'' 1) SRC_FUTU,
     demo_greeks 4 (Some ''s'') 7]"

theorem strategies_partition_account_witness:
  "\<exists>whole parts. aggregate_by_strategy 0 demo_legs ''acc'' = (whole, parts)
    \<and> fst ` set parts = {''s'', ''_unassigned_''} \<and> agg_total_legs_count whole = sum_list (map (agg_total_legs_count \<circ> snd) parts)"
proof -
  obtain whole parts where w: "aggregate_by_strategy 0 demo_legs ''acc'' = (whole, parts)" by fastforce
  have "strategy_key ` set demo_legs = {''s'', ''_unassigned_''}"
    by (auto simp: demo_legs_def strategy_key_def create_invalid_position_greeks_def)
  then show ?thesis using w strategies_partition_account [OF w] by auto
qed

theorem coverage_bounds_witness:
  "0 \<le> coverage_pct (aggregate 0 demo_legs ACCOUNT ''acc'') \<and> coverage_pct (aggregate 0 demo_legs ACCOUNT ''acc'') \<le> 100"
proof -
  have "0 \<le> pg_underlying_price p \<and> 0 \<le> pg_multiplier p" if "p \<in> set demo_legs" for p
    using that by (auto simp: demo_legs_def create_invalid_position_greeks_def demo_info_def)
  from coverage_bounds [OF this, of demo_legs 0 ACCOUNT "''acc''"] show ?thesis by blast
qed

theorem top_contributors_correct_witness:
  "length (get_top_contributors demo_legs DELTA 2) = 2 \<and> map ci_rank (get_top_contributors demo_legs DELTA 2) = [1, 2]"
proof -
  let ?r = "get_top_contributors demo_legs DELTA 2"
  have "length ?r = min (nat 2) (length (filter pg_valid demo_legs))" "map ci_rank ?r = [1..<Suc (length ?r)]"
    using top_contributors_correct [of DELTA pg_dollar_delta 2 demo_legs] unfolding Let_def by simp_all
  moreover have "length (filter pg_valid demo_legs) = 3" by (simp add: demo_legs_def)
  ultimately show ?thesis by (simp add: upt_rec)
qed

end
