(* ===== verification/Greeks_Alerts.thy ===== *)
theory Greeks_Alerts
  imports Greeks_Aggregation
begin

text \<open>
  Limits on Greeks: the threshold configuration of greeks/models.py, the alert engine of greeks/alerts.py
  with its hysteresis, deduplication and rates of change, and of greeks/v2_models.py, limits_store.py,
  greeks_gate.py and scenario.py the limit sets, the check of an order before it is sent, and scenario shocks.
  Texts of numbers and uuids are arguments, instants are microseconds. Lemmas: levels respect the thresholds
  and do not flap, alerts at one level keep the deduplication window, the gate is fail-closed, and stored
  limits are valid and read back.
\<close>

section \<open>Configuration\<close>

record threshold_config =
  gt_metric :: risk_metric
  gt_direction :: threshold_direction
  gt_limit :: decimal
  gt_warn_pct :: decimal
  gt_crit_pct :: decimal
  gt_hard_pct :: decimal
  gt_warn_recover_pct :: decimal
  gt_crit_recover_pct :: decimal
  gt_rate_window_seconds :: int
  gt_rate_change_pct :: decimal
  gt_rate_change_abs :: decimal

definition default_threshold :: "risk_metric \<Rightarrow> decimal \<Rightarrow> decimal \<Rightarrow> threshold_config" where
  "default_threshold m limit rate_change_abs =
     \<lparr>gt_metric = m, gt_direction = DIR_ABS, gt_limit = limit, gt_warn_pct = 80 / 100, gt_crit_pct = 1, gt_hard_pct = 120 / 100,
      gt_warn_recover_pct = 75 / 100, gt_crit_recover_pct = 90 / 100, gt_rate_window_seconds = 300,
      gt_rate_change_pct = 20 / 100, gt_rate_change_abs = rate_change_abs\<rparr>"

definition warn_threshold :: "threshold_config \<Rightarrow> decimal" where
  "warn_threshold c = dec_mul (gt_limit c) (gt_warn_pct c)"

definition crit_threshold :: "threshold_config \<Rightarrow> decimal" where
  "crit_threshold c = dec_mul (gt_limit c) (gt_crit_pct c)"

definition hard_threshold :: "threshold_config \<Rightarrow> decimal" where
  "hard_threshold c = dec_mul (gt_limit c) (gt_hard_pct c)"

record limits_config =
  lc_scope :: scope
  lc_scope_id :: string
  lc_thresholds :: "(risk_metric \<times> threshold_config) list"
  lc_min_coverage_pct :: decimal
  lc_dedupe_window_seconds :: "(greeks_level \<times> int) list"

definition default_account_config :: "string \<Rightarrow> limits_config" where
  "default_account_config account_id =
     \<lparr>lc_scope = ACCOUNT, lc_scope_id = account_id,
      lc_thresholds = [(DELTA, default_threshold DELTA 50000 5000), (GAMMA, default_threshold GAMMA 10000 1000),
        (VEGA, default_threshold VEGA 20000 2000), (THETA, default_threshold THETA 5000 500),
        (IMPLIED_VOLATILITY, (default_threshold IMPLIED_VOLATILITY 2 (3 / 10))\<lparr>gt_direction := DIR_MAX\<rparr>)],
      lc_min_coverage_pct = 95, lc_dedupe_window_seconds = [(GL_WARN, 900), (GL_CRIT, 300), (GL_HARD, 60)]\<rparr>"

section \<open>The alert engine\<close>

record alert_state =
  as_scope :: scope
  as_scope_id :: string
  as_metric :: risk_metric
  as_current_level :: greeks_level
  as_current_value :: decimal
  as_threshold_config :: threshold_config
  as_entered_at :: int
  as_last_alert_at :: "int option"
  as_ttl_seconds :: int

definition elapsed_seconds :: "int \<Rightarrow> int \<Rightarrow> double" where
  "elapsed_seconds now t = fl (of_int (now - t) / 1000000)"

definition state_is_expired :: "int \<Rightarrow> alert_state \<Rightarrow> bool" where
  "state_is_expired now s \<longleftrightarrow> elapsed_seconds now (as_entered_at s) > of_int (as_ttl_seconds s)"

definition can_send_alert :: "int \<Rightarrow> int \<Rightarrow> alert_state \<Rightarrow> bool" where
  "can_send_alert now dedupe_window s =
     (case as_last_alert_at s of None \<Rightarrow> True | Some t \<Rightarrow> elapsed_seconds now t \<ge> of_int dedupe_window)"

datatype greeks_alert_type = THRESHOLD | ROC

record greeks_alert =
  ga_alert_id :: string
  ga_alert_type :: greeks_alert_type
  ga_scope :: scope
  ga_scope_id :: string
  ga_metric :: risk_metric
  ga_level :: greeks_level
  ga_current_value :: decimal
  ga_threshold_value :: decimal
  ga_message :: string
  ga_created_at :: int
  ga_prev_value :: "decimal option"
  ga_change_pct :: "decimal option"

text \<open>\<open>{x}\<close>, \<open>{x:+.1f}\<close> and \<open>{x:.0f}\<close> of a Decimal, and the uuid of the n-th alert of a check.\<close>

record alert_texts =
  at_plain :: "decimal \<Rightarrow> string"
  at_signed1 :: "decimal \<Rightarrow> string"
  at_whole :: "decimal \<Rightarrow> string"
  at_uuid :: "nat \<Rightarrow> string"

fun unit_suffix :: "risk_metric \<Rightarrow> string" where
  "unit_suffix VEGA = ''/1% IV''"
| "unit_suffix THETA = ''/trading day''"
| "unit_suffix COVERAGE = ''%''"
| "unit_suffix _ = []"

definition format_metric_value :: "alert_texts \<Rightarrow> risk_metric \<Rightarrow> decimal \<Rightarrow> string" where
  "format_metric_value tx m v = ''$'' @ at_plain tx v @ unit_suffix m"

type_synonym alert_states = "((scope \<times> string \<times> risk_metric) \<times> alert_state) list"

fun effective_value :: "decimal \<Rightarrow> threshold_direction \<Rightarrow> decimal" where
  "effective_value v DIR_ABS = dec_abs v"
| "effective_value v DIR_MAX = v"
| "effective_value v DIR_MIN = dec (- v)"

definition base_level :: "decimal \<Rightarrow> threshold_config \<Rightarrow> greeks_level" where
  "base_level e c =
     (if e \<ge> hard_threshold c then GL_HARD else if e \<ge> crit_threshold c then GL_CRIT
      else if e \<ge> warn_threshold c then GL_WARN else GL_NORMAL)"

definition check_greeks_threshold :: "decimal \<Rightarrow> threshold_config \<Rightarrow> alert_state option \<Rightarrow> greeks_level" where
  "check_greeks_threshold v c current_state =
     (let e = effective_value v (gt_direction c);
          warn_recover = dec_mul (gt_limit c) (gt_warn_recover_pct c);
          crit_recover = dec_mul (gt_limit c) (gt_crit_recover_pct c);
          recovered = (if e \<ge> hard_threshold c then GL_HARD else if e \<ge> crit_recover then GL_CRIT
                       else if e \<ge> warn_recover then GL_WARN else GL_NORMAL)
      in case current_state of
           None \<Rightarrow> base_level e c
         | Some s \<Rightarrow>
             (case as_current_level s of
                GL_HARD \<Rightarrow> recovered
              | GL_CRIT \<Rightarrow> recovered
              | GL_WARN \<Rightarrow> (if e \<ge> hard_threshold c then GL_HARD else if e \<ge> crit_threshold c then GL_CRIT
                          else if e \<ge> warn_recover then GL_WARN else GL_NORMAL)
              | GL_NORMAL \<Rightarrow> base_level e c))"

definition check_rate_of_change ::
  "int \<Rightarrow> alert_texts \<Rightarrow> string \<Rightarrow> risk_metric \<Rightarrow> decimal \<Rightarrow> decimal \<Rightarrow> threshold_config \<Rightarrow> greeks_alert option" where
  "check_rate_of_change now tx uuid m current_value prev_value c =
     (let change = dec_abs (dec_sub current_value prev_value);
          abs_breached = (gt_rate_change_abs c > 0 \<and> change > gt_rate_change_abs c);
          pct_change = (if gt_limit c > 0 then dec (change / gt_limit c) else 0);
          pct_breached = (pct_change > gt_rate_change_pct c);
          change_pct_display = dec_mul pct_change 100
      in if abs_breached \<or> pct_breached
         then Some \<lparr>ga_alert_id = uuid, ga_alert_type = ROC, ga_scope = ACCOUNT, ga_scope_id = [], ga_metric = m, ga_level = GL_WARN,
                ga_current_value = current_value,
                ga_threshold_value = (if abs_breached then gt_rate_change_abs c else dec_mul (gt_limit c) (gt_rate_change_pct c)),
                ga_message = py_upper (risk_metric_value m) @ '' changed from '' @ format_metric_value tx m prev_value @ '' to ''
                  @ format_metric_value tx m current_value @ '' ('' @ at_signed1 tx change_pct_display @ ''%, threshold: ''
                  @ at_whole tx (dec_mul (gt_rate_change_pct c) 100) @ ''%)'',
                ga_created_at = now, ga_prev_value = Some prev_value, ga_change_pct = Some change_pct_display\<rparr>
         else None)"

fun agg_metric_value :: "aggregated_greeks \<Rightarrow> risk_metric \<Rightarrow> decimal option" where
  "agg_metric_value a DELTA = Some (agg_dollar_delta a)"
| "agg_metric_value a GAMMA = Some (agg_gamma_dollar a)"
| "agg_metric_value a VEGA = Some (agg_vega_per_1pct a)"
| "agg_metric_value a THETA = Some (agg_theta_per_day a)"
| "agg_metric_value a _ = None"

fun level_order :: "greeks_level \<Rightarrow> nat" where
  "level_order GL_NORMAL = 0"
| "level_order GL_WARN = 1"
| "level_order GL_CRIT = 2"
| "level_order GL_HARD = 3"

definition dedupe_window :: "limits_config \<Rightarrow> greeks_level \<Rightarrow> int" where
  "dedupe_window cfg l = (case map_of (lc_dedupe_window_seconds cfg) l of None \<Rightarrow> 900 | Some w \<Rightarrow> w)"

text \<open>Whether to alert, from the previous state and the new level.\<close>

definition should_alert :: "int \<Rightarrow> limits_config \<Rightarrow> alert_state option \<Rightarrow> greeks_level \<Rightarrow> bool" where
  "should_alert now cfg current_state new_level =
     (case current_state of
        None \<Rightarrow> new_level \<noteq> GL_NORMAL
      | Some s \<Rightarrow>
          if new_level \<noteq> as_current_level s then level_order new_level > level_order (as_current_level s)
          else if new_level \<noteq> GL_NORMAL then can_send_alert now (dedupe_window cfg new_level) s
          else False)"

definition level_threshold :: "threshold_config \<Rightarrow> greeks_level \<Rightarrow> decimal" where
  "level_threshold c l = (if l = GL_CRIT then crit_threshold c else if l = GL_HARD then hard_threshold c else warn_threshold c)"

definition threshold_alert ::
  "int \<Rightarrow> alert_texts \<Rightarrow> string \<Rightarrow> aggregated_greeks \<Rightarrow> risk_metric \<Rightarrow> threshold_config \<Rightarrow> decimal \<Rightarrow> greeks_level \<Rightarrow> greeks_alert" where
  "threshold_alert now tx uuid a m c v l =
     \<lparr>ga_alert_id = uuid, ga_alert_type = THRESHOLD, ga_scope = agg_scope a, ga_scope_id = agg_scope_id a, ga_metric = m, ga_level = l,
      ga_current_value = v, ga_threshold_value = level_threshold c l,
      ga_message = py_upper (risk_metric_value m) @ '' exceeded '' @ py_upper (greeks_level_value l) @ '' threshold: ''
        @ format_metric_value tx m v @ '' > '' @ format_metric_value tx m (level_threshold c l),
      ga_created_at = now, ga_prev_value = None, ga_change_pct = None\<rparr>"

text \<open>A new state when the level changed or there was none, else the old one with the new value.\<close>

definition next_alert_state ::
  "int \<Rightarrow> int \<Rightarrow> aggregated_greeks \<Rightarrow> risk_metric \<Rightarrow> threshold_config \<Rightarrow> decimal \<Rightarrow> greeks_level \<Rightarrow> bool \<Rightarrow> alert_state option \<Rightarrow> alert_state" where
  "next_alert_state ttl now a m c v new_level alerting current_state =
     (let fresh = \<lparr>as_scope = agg_scope a, as_scope_id = agg_scope_id a, as_metric = m, as_current_level = new_level,
            as_current_value = v, as_threshold_config = c, as_entered_at = now,
            as_last_alert_at = (if alerting then Some now else None), as_ttl_seconds = ttl\<rparr>
      in case current_state of
           None \<Rightarrow> fresh
         | Some s \<Rightarrow>
             if new_level \<noteq> as_current_level s then fresh
             else s\<lparr>as_current_value := v, as_last_alert_at := (if alerting then Some now else as_last_alert_at s)\<rparr>)"

text \<open>The loop body for one metric.\<close>

definition check_metric ::
  "int \<Rightarrow> int \<Rightarrow> alert_texts \<Rightarrow> limits_config \<Rightarrow> aggregated_greeks \<Rightarrow> aggregated_greeks option \<Rightarrow> risk_metric \<times> threshold_config
   \<Rightarrow> greeks_alert list \<times> alert_states \<Rightarrow> greeks_alert list \<times> alert_states" where
  "check_metric ttl now tx cfg a prev mc s =
     (case (mc, s) of ((m, c), (alerts, states)) \<Rightarrow>
        case agg_metric_value a m of
          None \<Rightarrow> s
        | Some v \<Rightarrow>
            let key = (agg_scope a, agg_scope_id a, m);
                current_state = map_of states key;
                new_level = check_greeks_threshold v c current_state;
                alerting = should_alert now cfg current_state new_level;
                alerts1 = (if alerting \<and> new_level \<noteq> GL_NORMAL
                           then alerts @ [threshold_alert now tx (at_uuid tx (length alerts)) a m c v new_level] else alerts);
                state1 = next_alert_state ttl now a m c v new_level alerting current_state;
                roc = (case prev of
                         None \<Rightarrow> None
                       | Some p \<Rightarrow> (case agg_metric_value p m of
                                     None \<Rightarrow> None
                                   | Some pv \<Rightarrow> check_rate_of_change now tx (at_uuid tx (length alerts1)) m v pv c))
            in (case roc of None \<Rightarrow> alerts1
                | Some r \<Rightarrow> alerts1 @ [r\<lparr>ga_scope := agg_scope a, ga_scope_id := agg_scope_id a\<rparr>],
                AList.update key state1 states))"

definition check_alerts ::
  "int \<Rightarrow> int \<Rightarrow> alert_texts \<Rightarrow> aggregated_greeks \<Rightarrow> limits_config \<Rightarrow> aggregated_greeks option \<Rightarrow> alert_states
   \<Rightarrow> greeks_alert list \<times> alert_states" where
  "check_alerts ttl now tx a cfg prev states = fold (check_metric ttl now tx cfg a prev) (lc_thresholds cfg) ([], states)"

definition cleanup_expired_states :: "int \<Rightarrow> alert_states \<Rightarrow> alert_states \<times> nat" where
  "cleanup_expired_states now states =
     (filter (\<lambda>(_, s). \<not> state_is_expired now s) states, length (filter (\<lambda>(_, s). state_is_expired now s) states))"

definition get_alert_state :: "scope \<Rightarrow> string \<Rightarrow> risk_metric \<Rightarrow> alert_states \<Rightarrow> alert_state option" where
  "get_alert_state sc sid m states = map_of states (sc, sid, m)"

section \<open>Levels respect the thresholds\<close>

definition thresholds_ordered :: "threshold_config \<Rightarrow> bool" where
  "thresholds_ordered c \<longleftrightarrow> 0 \<le> gt_limit c \<and> gt_warn_recover_pct c \<le> gt_warn_pct c \<and> gt_warn_pct c \<le> gt_crit_pct c
     \<and> gt_crit_pct c \<le> gt_hard_pct c \<and> gt_warn_recover_pct c \<le> gt_crit_recover_pct c \<and> gt_crit_recover_pct c \<le> gt_crit_pct c"

definition recovery_threshold :: "threshold_config \<Rightarrow> greeks_level \<Rightarrow> decimal" where
  "recovery_threshold c l =
     (if l = GL_HARD then hard_threshold c
      else dec_mul (gt_limit c) (if l = GL_CRIT then gt_crit_recover_pct c else gt_warn_recover_pct c))"

lemma dec_mul_left_mono: "0 \<le> x \<Longrightarrow> y \<le> z \<Longrightarrow> dec_mul x y \<le> dec_mul x z"
  by (simp add: dec_mul_def dec_mono mult_left_mono)

lemma threshold_order:
  assumes "thresholds_ordered c"
  shows "dec_mul (gt_limit c) (gt_warn_recover_pct c) \<le> warn_threshold c" "warn_threshold c \<le> crit_threshold c"
    "crit_threshold c \<le> hard_threshold c" "dec_mul (gt_limit c) (gt_warn_recover_pct c) \<le> dec_mul (gt_limit c) (gt_crit_recover_pct c)"
    "dec_mul (gt_limit c) (gt_crit_recover_pct c) \<le> crit_threshold c"
  using assms by (simp_all add: thresholds_ordered_def warn_threshold_def crit_threshold_def hard_threshold_def dec_mul_left_mono)

fun current_level :: "alert_state option \<Rightarrow> greeks_level" where
  "current_level None = GL_NORMAL"
| "current_level (Some s) = as_current_level s"

lemma check_greeks_threshold_cases:
  "check_greeks_threshold v c st =
     (let e = effective_value v (gt_direction c); w = recovery_threshold c GL_WARN; r = recovery_threshold c GL_CRIT; h = hard_threshold c
      in case current_level st of
           GL_NORMAL \<Rightarrow> base_level e c
         | GL_WARN \<Rightarrow> (if e \<ge> h then GL_HARD else if e \<ge> crit_threshold c then GL_CRIT else if e \<ge> w then GL_WARN else GL_NORMAL)
         | _ \<Rightarrow> (if e \<ge> h then GL_HARD else if e \<ge> r then GL_CRIT else if e \<ge> w then GL_WARN else GL_NORMAL))"
  by (cases st; simp add: check_greeks_threshold_def recovery_threshold_def Let_def split: greeks_level.split)


section \<open>One metric of the engine\<close>

definition state_key :: "aggregated_greeks \<Rightarrow> risk_metric \<Rightarrow> scope \<times> string \<times> risk_metric" where
  "state_key a m = (agg_scope a, agg_scope_id a, m)"

text \<open>The threshold alerts of a metric.\<close>

definition threshold_alerts :: "risk_metric \<Rightarrow> greeks_alert list \<Rightarrow> greeks_alert list" where
  "threshold_alerts m = filter (\<lambda>g. ga_alert_type g = THRESHOLD \<and> ga_metric g = m)"

lemma threshold_alerts_append [simp]: "threshold_alerts m (xs @ ys) = threshold_alerts m xs @ threshold_alerts m ys"
  by (simp add: threshold_alerts_def)

lemma threshold_alert_fields [simp]:
  "ga_alert_type (threshold_alert now tx u a m c v l) = THRESHOLD" "ga_metric (threshold_alert now tx u a m c v l) = m"
  "ga_created_at (threshold_alert now tx u a m c v l) = now" "ga_level (threshold_alert now tx u a m c v l) = l"
  "ga_current_value (threshold_alert now tx u a m c v l) = v" "ga_threshold_value (threshold_alert now tx u a m c v l) = level_threshold c l"
  by (simp_all add: threshold_alert_def)

lemma roc_type: "check_rate_of_change now tx u m v pv c = Some r \<Longrightarrow> ga_alert_type r = ROC"
  by (auto simp: check_rate_of_change_def Let_def split: if_splits)

text \<open>The step of one metric on its own state: the alert, if any, and the next state.\<close>

definition metric_step ::
  "int \<Rightarrow> int \<Rightarrow> limits_config \<Rightarrow> aggregated_greeks \<Rightarrow> risk_metric \<Rightarrow> threshold_config \<Rightarrow> decimal \<Rightarrow> alert_state option
   \<Rightarrow> greeks_level option \<times> alert_state" where
  "metric_step ttl now cfg a m c v st =
     (let l = check_greeks_threshold v c st; alerting = should_alert now cfg st l
      in (if alerting \<and> l \<noteq> GL_NORMAL then Some l else None, next_alert_state ttl now a m c v l alerting st))"

lemma check_metric_own:
  assumes "agg_metric_value a m = Some v" and "check_metric ttl now tx cfg a prev (m, c) (alerts, states) = (alerts', states')"
    and "metric_step ttl now cfg a m c v (map_of states (state_key a m)) = (out, s)"
  shows "map_of states' = (map_of states)(state_key a m \<mapsto> s)
    \<and> (\<exists>u. threshold_alerts m alerts' = threshold_alerts m alerts @ (case out of None \<Rightarrow> [] | Some l \<Rightarrow> [threshold_alert now tx u a m c v l]))"
proof -
  let ?st = "map_of states (state_key a m)"
  let ?l = "check_greeks_threshold v c ?st"
  let ?alerting = "should_alert now cfg ?st ?l"
  let ?a1 = "if ?alerting \<and> ?l \<noteq> GL_NORMAL then alerts @ [threshold_alert now tx (at_uuid tx (length alerts)) a m c v ?l] else alerts"
  let ?roc = "case prev of None \<Rightarrow> None | Some p \<Rightarrow> (case agg_metric_value p m of None \<Rightarrow> None
    | Some pv \<Rightarrow> check_rate_of_change now tx (at_uuid tx (length ?a1)) m v pv c)"
  have e: "states' = AList.update (state_key a m) s states"
    "alerts' = (case ?roc of None \<Rightarrow> ?a1 | Some r \<Rightarrow> ?a1 @ [r\<lparr>ga_scope := agg_scope a, ga_scope_id := agg_scope_id a\<rparr>])"
    using assms unfolding check_metric_def metric_step_def state_key_def Let_def by simp_all
  have "ga_alert_type r = ROC" if "?roc = Some r" for r using that by (auto simp: roc_type split: option.splits)
  then have r: "threshold_alerts m alerts' = threshold_alerts m ?a1"
    unfolding e(2) by (cases ?roc) (simp_all add: threshold_alerts_def)
  have "out = (if ?alerting \<and> ?l \<noteq> GL_NORMAL then Some ?l else None)" using assms(3) by (simp add: metric_step_def Let_def)
  then have "\<exists>u. threshold_alerts m ?a1 = threshold_alerts m alerts @ (case out of None \<Rightarrow> [] | Some l \<Rightarrow> [threshold_alert now tx u a m c v l])"
    by (intro exI [of _ "at_uuid tx (length alerts)"]) (simp add: threshold_alerts_def)
  then show ?thesis by (simp add: e(1) r)
qed

lemma check_metric_other:
  assumes "m' \<noteq> m" and "check_metric ttl now tx cfg a prev (m', c) (alerts, states) = (alerts', states')"
  shows "map_of states' (state_key a m) = map_of states (state_key a m) \<and> threshold_alerts m alerts' = threshold_alerts m alerts"
proof (cases "agg_metric_value a m'")
  case None
  then show ?thesis using assms by (simp add: check_metric_def)
next
  case (Some v)
  let ?st = "map_of states (state_key a m')"
  let ?l = "check_greeks_threshold v c ?st"
  let ?alerting = "should_alert now cfg ?st ?l"
  let ?a1 = "if ?alerting \<and> ?l \<noteq> GL_NORMAL then alerts @ [threshold_alert now tx (at_uuid tx (length alerts)) a m' c v ?l] else alerts"
  let ?roc = "case prev of None \<Rightarrow> None | Some p \<Rightarrow> (case agg_metric_value p m' of None \<Rightarrow> None
    | Some pv \<Rightarrow> check_rate_of_change now tx (at_uuid tx (length ?a1)) m' v pv c)"
  have e: "states' = AList.update (state_key a m') (next_alert_state ttl now a m' c v ?l ?alerting ?st) states"
    "alerts' = (case ?roc of None \<Rightarrow> ?a1 | Some r \<Rightarrow> ?a1 @ [r\<lparr>ga_scope := agg_scope a, ga_scope_id := agg_scope_id a\<rparr>])"
    using assms Some unfolding check_metric_def state_key_def Let_def by simp_all
  have "ga_alert_type r = ROC" if "?roc = Some r" for r using that by (auto simp: roc_type split: option.splits)
  then have "threshold_alerts m alerts' = threshold_alerts m ?a1"
    unfolding e(2) by (cases ?roc) (simp_all add: threshold_alerts_def)
  moreover have "threshold_alerts m ?a1 = threshold_alerts m alerts" using assms(1) by (simp add: threshold_alerts_def)
  ultimately show ?thesis using assms(1) by (simp add: e(1) state_key_def)
qed

lemma check_fold_other:
  assumes "m \<notin> fst ` set cs" and "fold (check_metric ttl now tx cfg a prev) cs (alerts, states) = (alerts', states')"
  shows "map_of states' (state_key a m) = map_of states (state_key a m) \<and> threshold_alerts m alerts' = threshold_alerts m alerts"
  using assms
proof (induction cs arbitrary: alerts states)
  case (Cons mc cs)
  obtain m' c where mc: "mc = (m', c)" by fastforce
  obtain a1 s1 where s: "check_metric ttl now tx cfg a prev (m', c) (alerts, states) = (a1, s1)" by fastforce
  have "m' \<noteq> m" "m \<notin> fst ` set cs" using Cons.prems(1) mc by auto
  with check_metric_other [OF this(1) s] Cons.IH [of a1 s1] Cons.prems(2) s mc show ?case by simp
qed simp

text \<open>A check moves the state of each configured metric by its own step, and adds its alert.\<close>

lemma check_alerts_metric:
  assumes "distinct (map fst (lc_thresholds cfg))" and "(m, c) \<in> set (lc_thresholds cfg)" and "agg_metric_value a m = Some v"
    and "check_alerts ttl now tx a cfg prev states = (alerts, states')"
    and "metric_step ttl now cfg a m c v (map_of states (state_key a m)) = (out, s)"
  shows "map_of states' (state_key a m) = Some s
    \<and> (\<exists>u. threshold_alerts m alerts = (case out of None \<Rightarrow> [] | Some l \<Rightarrow> [threshold_alert now tx u a m c v l]))"
proof -
  obtain xs ys where cs: "lc_thresholds cfg = xs @ (m, c) # ys" using assms(2) by (metis split_list)
  then have nin: "m \<notin> fst ` set xs" "m \<notin> fst ` set ys" using assms(1) by auto
  let ?f = "check_metric ttl now tx cfg a prev"
  obtain a1 s1 where f1: "fold ?f xs ([], states) = (a1, s1)" by fastforce
  obtain a2 s2 where f2: "?f (m, c) (a1, s1) = (a2, s2)" by fastforce
  have f3: "fold ?f ys (a2, s2) = (alerts, states')" using assms(4) f1 f2 by (simp add: check_alerts_def cs)
  note o1 = check_fold_other [OF nin(1) f1] and o3 = check_fold_other [OF nin(2) f3]
  have "threshold_alerts m a1 = []" using o1 by (simp add: threshold_alerts_def)
  with check_metric_own [OF assms(3) f2, of out s] o1 o3 assms(5) show ?thesis by auto
qed

section \<open>Alerts at one level are spaced\<close>

text \<open>A run of checks of one scope, with the alerts of all of them.\<close>

fun alert_run ::
  "int \<Rightarrow> alert_texts \<Rightarrow> limits_config \<Rightarrow> (int \<times> aggregated_greeks \<times> aggregated_greeks option) list \<Rightarrow> alert_states
   \<Rightarrow> greeks_alert list \<times> alert_states" where
  "alert_run ttl tx cfg [] states = ([], states)"
| "alert_run ttl tx cfg ((now, a, prev) # checks) states =
     (case check_alerts ttl now tx a cfg prev states of (alerts, states1) \<Rightarrow>
        case alert_run ttl tx cfg checks states1 of (later, states2) \<Rightarrow> (alerts @ later, states2))"

text \<open>The values of a run keep a metric at a level.\<close>

definition stays_at :: "scope \<Rightarrow> string \<Rightarrow> risk_metric \<Rightarrow> threshold_config \<Rightarrow> greeks_level
    \<Rightarrow> (int \<times> aggregated_greeks \<times> aggregated_greeks option) list \<Rightarrow> bool" where
  "stays_at sc sid m c l checks \<longleftrightarrow>
     (\<forall>(now, a, prev) \<in> set checks. agg_scope a = sc \<and> agg_scope_id a = sid
        \<and> (\<exists>v. agg_metric_value a m = Some v \<and> (\<forall>s. as_current_level s = l \<longrightarrow> check_greeks_threshold v c (Some s) = l)))"

lemma metric_step_stay:
  assumes "as_current_level s = l" and "l \<noteq> GL_NORMAL" and "check_greeks_threshold v c (Some s) = l" and "as_last_alert_at s = Some t"
    and "metric_step ttl now cfg a m c v (Some s) = (out, s')"
  shows "as_current_level s' = l \<and> (if elapsed_seconds now t \<ge> of_int (dedupe_window cfg l) then out = Some l \<and> as_last_alert_at s' = Some now
    else out = None \<and> as_last_alert_at s' = Some t)"
  using assms by (auto simp: metric_step_def Let_def should_alert_def next_alert_state_def can_send_alert_def)

text \<open>C39. While a metric stays at a level, two threshold alerts for it are at least the deduplication window of the level apart,
  counting from the alert before the run.\<close>

theorem alerts_spaced:
  assumes "distinct (map fst (lc_thresholds cfg))" and "(m, c) \<in> set (lc_thresholds cfg)" and "l \<noteq> GL_NORMAL"
    and "stays_at sc sid m c l checks"
    and "map_of states (sc, sid, m) = Some s" and "as_current_level s = l" and "as_last_alert_at s = Some t"
    and "alert_run ttl tx cfg checks states = (alerts, states')"
  shows "successively (\<lambda>t1 t2. elapsed_seconds t2 t1 \<ge> of_int (dedupe_window cfg l)) (t # map ga_created_at (threshold_alerts m alerts))
    \<and> (\<forall>g \<in> set (threshold_alerts m alerts). ga_level g = l)
    \<and> (\<exists>s'. map_of states' (sc, sid, m) = Some s' \<and> as_current_level s' = l)"
  using assms(4-)
proof (induction checks arbitrary: states s t alerts)
  case Nil
  then show ?case by (simp add: threshold_alerts_def)
next
  case (Cons x checks)
  obtain now a prev where x: "x = (now, a, prev)" by (metis prod_cases3)
  obtain a1 s1 where c1: "check_alerts ttl now tx a cfg prev states = (a1, s1)" by fastforce
  obtain a2 where c2: "alert_run ttl tx cfg checks s1 = (a2, states')" "alerts = a1 @ a2"
    using Cons.prems(5) c1 by (auto simp: x split: prod.splits)
  have k: "agg_scope a = sc" "agg_scope_id a = sid" "stays_at sc sid m c l checks" using Cons.prems(1) by (auto simp: stays_at_def x)
  obtain v where v: "agg_metric_value a m = Some v" "check_greeks_threshold v c (Some s) = l"
    using Cons.prems(1,3) by (auto simp: stays_at_def x)
  obtain out s' where st: "metric_step ttl now cfg a m c v (Some s) = (out, s')" by fastforce
  note ms = metric_step_stay [OF Cons.prems(3) assms(3) v(2) Cons.prems(4) st]
  have "map_of states (state_key a m) = Some s" using Cons.prems(2) k by (simp add: state_key_def)
  with check_alerts_metric [OF assms(1,2) v(1) c1, of out s'] st obtain u where
    e: "map_of s1 (sc, sid, m) = Some s'" "threshold_alerts m a1 = (case out of None \<Rightarrow> [] | Some l \<Rightarrow> [threshold_alert now tx u a m c v l])"
    using k by (auto simp: state_key_def)
  show ?case
  proof (cases "elapsed_seconds now t \<ge> of_int (dedupe_window cfg l)")
    case True
    then have o: "out = Some l" "as_last_alert_at s' = Some now" "as_current_level s' = l" using ms by auto
    from Cons.IH [OF k(3) e(1) o(3,2) c2(1)] show ?thesis using True by (simp add: c2(2) e(2) o(1))
  next
    case False
    then have o: "out = None" "as_last_alert_at s' = Some t" "as_current_level s' = l" using ms by auto
    from Cons.IH [OF k(3) e(1) o(3,2) c2(1)] show ?thesis by (simp add: c2(2) e(2) o(1))
  qed
qed

section \<open>What the engine does not do\<close>

text \<open>After a fall from CRIT the next check alerts again, and says that a threshold is exceeded that the value is below.\<close>

lemma recovery_realerts:
  assumes "thresholds_ordered c" and "as_current_level s = GL_CRIT" and "as_last_alert_at s = Some t"
    and "recovery_threshold c GL_WARN \<le> e" and "e < recovery_threshold c GL_CRIT" and "e = effective_value v (gt_direction c)"
  shows "\<exists>s1 s2. metric_step ttl now cfg a m c v (Some s) = (None, s1) \<and> as_current_level s1 = GL_WARN
    \<and> metric_step ttl now' cfg a m c v (Some s1) = (Some GL_WARN, s2)
    \<and> ga_threshold_value (threshold_alert now' tx u a m c v GL_WARN) = warn_threshold c"
proof -
  have o: "recovery_threshold c GL_CRIT \<le> crit_threshold c" "crit_threshold c \<le> hard_threshold c"
    using threshold_order [OF assms(1)] by (simp_all add: recovery_threshold_def)
  have l: "check_greeks_threshold v c (Some s) = GL_WARN" using assms o by (simp add: check_greeks_threshold_cases Let_def)
  obtain s1 where s1: "metric_step ttl now cfg a m c v (Some s) = (None, s1)" "as_current_level s1 = GL_WARN" "as_last_alert_at s1 = None"
    using l assms(2) by (simp add: metric_step_def Let_def should_alert_def next_alert_state_def)
  have l2: "check_greeks_threshold v c (Some s1) = GL_WARN" using assms(4-6) o s1(2) by (simp add: check_greeks_threshold_cases Let_def)
  have "\<exists>s2. metric_step ttl now' cfg a m c v (Some s1) = (Some GL_WARN, s2)"
    using l2 s1(2,3) by (simp add: metric_step_def Let_def should_alert_def can_send_alert_def)
  then show ?thesis using s1 by (auto simp: level_threshold_def)
qed

text \<open>A limit in the direction MIN with a positive bound does not alert on a value under the bound.\<close>

lemma min_direction_silent:
  assumes "gt_direction c = DIR_MIN" and "0 < gt_limit c" and "0 < gt_warn_pct c" "0 < gt_crit_pct c" "0 < gt_hard_pct c" and "0 \<le> v"
  shows "check_greeks_threshold v c None = GL_NORMAL"
proof -
  have "0 < warn_threshold c" "0 < crit_threshold c" "0 < hard_threshold c"
    using assms(2-5) by (simp_all add: warn_threshold_def crit_threshold_def hard_threshold_def dec_mul_def dec_pos)
  moreover have "dec (- v) \<le> 0" using dec_mono [of "- v" 0] assms(6) by simp
  ultimately show ?thesis using assms(1) by (simp add: check_greeks_threshold_def base_level_def)
qed

text \<open>The threshold for implied volatility of the default configuration is never evaluated.\<close>

lemma iv_never_checked: "check_metric ttl now tx cfg a prev (IMPLIED_VOLATILITY, c) s = s"
  by (simp add: check_metric_def split: prod.split)

section \<open>Limit sets\<close>

record threshold_levels =
  tl_warn :: decimal
  tl_crit :: decimal
  tl_hard :: decimal

record greeks_limit_set =
  ls_dollar_delta :: threshold_levels
  ls_gamma_dollar :: threshold_levels
  ls_vega_per_1pct :: threshold_levels
  ls_theta_per_day :: threshold_levels

definition levels_validate :: "threshold_levels \<Rightarrow> string list" where
  "levels_validate l =
     (if \<not> (0 < tl_warn l \<and> tl_warn l < tl_crit l \<and> tl_crit l < tl_hard l) then [''must satisfy 0 < warn < crit < hard''] else [])"

definition limit_set_validate :: "greeks_limit_set \<Rightarrow> string list" where
  "limit_set_validate s =
     concat (map (\<lambda>(name, l). map (\<lambda>err. name @ '': '' @ err) (levels_validate l))
       [(''dollar_delta'', ls_dollar_delta s), (''gamma_dollar'', ls_gamma_dollar s),
        (''vega_per_1pct'', ls_vega_per_1pct s), (''theta_per_day'', ls_theta_per_day s)])"

definition default_limit_set :: greeks_limit_set where
  "default_limit_set =
     \<lparr>ls_dollar_delta = \<lparr>tl_warn = 100000, tl_crit = 150000, tl_hard = 200000\<rparr>,
      ls_gamma_dollar = \<lparr>tl_warn = 5000, tl_crit = 7500, tl_hard = 10000\<rparr>,
      ls_vega_per_1pct = \<lparr>tl_warn = 20000, tl_crit = 30000, tl_hard = 40000\<rparr>,
      ls_theta_per_day = \<lparr>tl_warn = 3000, tl_crit = 4500, tl_hard = 6000\<rparr>\<rparr>"

record limits_store =
  lm_limits :: "(string \<times> greeks_limit_set) list"
  lm_metadata :: "(string \<times> int \<times> string) list"

record limits_response =
  lr_account_id :: string
  lr_strategy_id :: "string option"
  lr_limits :: greeks_limit_set
  lr_updated_at :: int
  lr_updated_by :: string
  lr_effective_scope :: scope

datatype limits_error = NotImplementedError | InvalidLimits "string list"

definition empty_limits_store :: limits_store where
  "empty_limits_store = \<lparr>lm_limits = [], lm_metadata = []\<rparr>"

definition get_limits :: "string \<Rightarrow> limits_store \<Rightarrow> greeks_limit_set" where
  "get_limits account_id st = (case map_of (lm_limits st) account_id of None \<Rightarrow> default_limit_set | Some l \<Rightarrow> l)"

definition set_limits ::
  "int \<Rightarrow> string \<Rightarrow> greeks_limit_set \<Rightarrow> string \<Rightarrow> string option \<Rightarrow> limits_store \<Rightarrow> limits_error + limits_response \<times> limits_store" where
  "set_limits now account_id limits updated_by strategy_id st =
     (if strategy_id \<noteq> None then Inl NotImplementedError
      else if limit_set_validate limits \<noteq> [] then Inl (InvalidLimits (limit_set_validate limits))
      else Inr (\<lparr>lr_account_id = account_id, lr_strategy_id = None, lr_limits = limits, lr_updated_at = now, lr_updated_by = updated_by,
                 lr_effective_scope = ACCOUNT\<rparr>,
               \<lparr>lm_limits = AList.update account_id limits (lm_limits st),
                lm_metadata = AList.update account_id (now, updated_by) (lm_metadata st)\<rparr>))"

section \<open>Scenario shocks\<close>

record current_greeks =
  cg_dollar_delta :: decimal
  cg_gamma_dollar :: decimal
  cg_gamma_pnl_1pct :: decimal
  cg_vega_per_1pct :: decimal
  cg_theta_per_day :: decimal

datatype shock_direction = UP | DOWN
datatype breach_level = BREACH_NONE | BREACH_WARN | BREACH_CRIT | BREACH_HARD

record scenario_result =
  sr_shock_pct :: decimal
  sr_direction :: shock_direction
  sr_pnl_from_delta :: decimal
  sr_pnl_from_gamma :: decimal
  sr_pnl_impact :: decimal
  sr_delta_change :: decimal
  sr_new_dollar_delta :: decimal
  sr_breach_level :: breach_level
  sr_breach_dims :: "string list"

definition check_breach :: "decimal \<Rightarrow> (string \<times> decimal) list \<Rightarrow> breach_level \<times> string list" where
  "check_breach new_dollar_delta limits =
     (let breach_dims = (case map_of limits ''dollar_delta'' of
                           None \<Rightarrow> []
                         | Some l \<Rightarrow> if dec_abs new_dollar_delta > l then [''dollar_delta''] else [])
      in if breach_dims \<noteq> [] then (BREACH_HARD, breach_dims) else (BREACH_NONE, []))"

definition calculate_scenario :: "current_greeks \<Rightarrow> decimal \<Rightarrow> shock_direction \<Rightarrow> (string \<times> decimal) list \<Rightarrow> scenario_result" where
  "calculate_scenario c shock_pct direction limits =
     (let sgn = (if direction = UP then 1 else - 1);
          shock = dec (shock_pct / 100);
          pnl_from_delta = dec_mul (dec_mul (cg_dollar_delta c) shock) sgn;
          pnl_from_gamma = dec_mul (cg_gamma_pnl_1pct c) (dec_power shock_pct 2);
          delta_change = dec_mul (dec_mul (cg_gamma_dollar c) shock) sgn;
          new_dollar_delta = dec_add (cg_dollar_delta c) delta_change;
          breach = check_breach new_dollar_delta limits
      in \<lparr>sr_shock_pct = shock_pct, sr_direction = direction, sr_pnl_from_delta = pnl_from_delta, sr_pnl_from_gamma = pnl_from_gamma,
          sr_pnl_impact = dec_add pnl_from_delta pnl_from_gamma, sr_delta_change = delta_change, sr_new_dollar_delta = new_dollar_delta,
          sr_breach_level = fst breach, sr_breach_dims = snd breach\<rparr>)"

definition get_scenario_shocks ::
  "alert_texts \<Rightarrow> current_greeks \<Rightarrow> (string \<times> decimal) list \<Rightarrow> decimal list option \<Rightarrow> (string \<times> scenario_result) list" where
  "get_scenario_shocks tx c limits shock_pcts =
     fold (\<lambda>pct d. AList.update (''-'' @ at_plain tx pct @ ''%'') (calculate_scenario c pct DOWN limits)
            (AList.update (''+'' @ at_plain tx pct @ ''%'') (calculate_scenario c pct UP limits) d))
       (case shock_pcts of None \<Rightarrow> [1, 2] | Some ps \<Rightarrow> ps) []"

section \<open>The check before an order\<close>

definition greeks_fields :: "string list" where
  "greeks_fields = [''dollar_delta'', ''gamma_dollar'', ''vega_per_1pct'', ''theta_per_day'']"

record check_details =
  cd_asof_ts :: int
  cd_staleness_seconds :: int
  cd_current :: "(string \<times> decimal) list"
  cd_impact :: "(string \<times> decimal) list"
  cd_projected :: "(string \<times> decimal) list"
  cd_limits :: "(string \<times> decimal) list"
  cd_breach_dims :: "string list"

datatype gate_reason = REASON_APPROVED | HARD_BREACH | DATA_UNAVAILABLE | DATA_STALE

record gate_result =
  ck_ok :: bool
  ck_reason_code :: gate_reason
  ck_details :: "check_details option"

record gate_config =
  gc_max_staleness_seconds :: int
  gc_fail_mode :: string
  gc_hard_limits :: "(string \<times> decimal) list"

definition default_gate_config :: gate_config where
  "default_gate_config =
     \<lparr>gc_max_staleness_seconds = 60, gc_fail_mode = ''closed'',
      gc_hard_limits = [(''dollar_delta'', 200000), (''gamma_dollar'', 10000), (''vega_per_1pct'', 40000), (''theta_per_day'', 6000)]\<rparr>"

definition greeks_to_dict :: "aggregated_greeks \<Rightarrow> (string \<times> decimal) list" where
  "greeks_to_dict g =
     [(''dollar_delta'', agg_dollar_delta g), (''gamma_dollar'', agg_gamma_dollar g), (''vega_per_1pct'', agg_vega_per_1pct g),
      (''theta_per_day'', agg_theta_per_day g)]"

definition get_or_zero :: "(string \<times> decimal) list \<Rightarrow> string \<Rightarrow> decimal" where
  "get_or_zero d k = (case map_of d k of None \<Rightarrow> 0 | Some v \<Rightarrow> v)"

text \<open>Both handlers of bad data.\<close>

definition handle_bad_data :: "gate_config \<Rightarrow> gate_reason \<Rightarrow> gate_result" where
  "handle_bad_data cfg why =
     (if gc_fail_mode cfg = ''open'' then \<lparr>ck_ok = True, ck_reason_code = REASON_APPROVED, ck_details = None\<rparr>
      else \<lparr>ck_ok = False, ck_reason_code = why, ck_details = None\<rparr>)"

definition is_breach :: "gate_config \<Rightarrow> (string \<times> decimal) list \<Rightarrow> string \<Rightarrow> bool" where
  "is_breach cfg projected f = (case map_of (gc_hard_limits cfg) f of None \<Rightarrow> False | Some limit \<Rightarrow> dec_abs (get_or_zero projected f) > limit)"

definition check_order ::
  "int \<Rightarrow> gate_config \<Rightarrow> aggregated_greeks option \<Rightarrow> ('o \<Rightarrow> (string \<times> decimal) list result) \<Rightarrow> 'o \<Rightarrow> gate_result result" where
  "check_order now cfg current_greeks calculate_order_impact order =
     (case current_greeks of
        None \<Rightarrow> Inr (handle_bad_data cfg DATA_UNAVAILABLE)
      | Some g \<Rightarrow>
          let staleness = elapsed_seconds now (agg_as_of_ts g)
          in if staleness > of_int (gc_max_staleness_seconds cfg) then Inr (handle_bad_data cfg DATA_STALE)
             else res_bind (calculate_order_impact order) (\<lambda>impact.
               let current = greeks_to_dict g;
                   projected = map (\<lambda>f. (f, dec_add (get_or_zero current f) (get_or_zero impact f))) greeks_fields;
                   breach_dims = filter (is_breach cfg projected) greeks_fields;
                   details = \<lparr>cd_asof_ts = agg_as_of_ts g, cd_staleness_seconds = trunc_int staleness, cd_current = current,
                     cd_impact = impact, cd_projected = projected, cd_limits = gc_hard_limits cfg, cd_breach_dims = breach_dims\<rparr>
               in Inr (if breach_dims \<noteq> [] then \<lparr>ck_ok = False, ck_reason_code = HARD_BREACH, ck_details = Some details\<rparr>
                       else \<lparr>ck_ok = True, ck_reason_code = REASON_APPROVED, ck_details = Some details\<rparr>)))"

section \<open>What the limits guarantee\<close>

lemma projected_value:
  "f \<in> set greeks_fields \<Longrightarrow> get_or_zero (map (\<lambda>f. (f, h f)) greeks_fields) f = h f"
  by (auto simp: greeks_fields_def get_or_zero_def)

text \<open>Unless it is configured to fail open, the gate lets an order pass exactly when there are Greeks no older than allowed, the
  impact of the order is known, and every projected Greek with a hard limit is within it.\<close>

lemma gate_decides:
  assumes "gc_fail_mode cfg \<noteq> ''open''"
  shows "(\<exists>r. check_order now cfg current impact order = Inr r \<and> ck_ok r)
    \<longleftrightarrow> (\<exists>g i. current = Some g \<and> elapsed_seconds now (agg_as_of_ts g) \<le> of_int (gc_max_staleness_seconds cfg) \<and> impact order = Inr i
         \<and> (\<forall>f \<in> set greeks_fields. \<forall>l. map_of (gc_hard_limits cfg) f = Some l
              \<longrightarrow> dec_abs (dec_add (get_or_zero (greeks_to_dict g) f) (get_or_zero i f)) \<le> l))"
proof (cases current)
  case None
  then show ?thesis using assms by (simp add: check_order_def handle_bad_data_def)
next
  case (Some g)
  show ?thesis
  proof (cases "elapsed_seconds now (agg_as_of_ts g) > of_int (gc_max_staleness_seconds cfg)")
    case True
    then show ?thesis using assms Some by (auto simp: check_order_def handle_bad_data_def)
  next
    case False
    show ?thesis
    proof (cases "impact order")
      case (Inl e)
      then show ?thesis using False Some by (simp add: check_order_def)
    next
      case (Inr i)
      let ?p = "map (\<lambda>f. (f, dec_add (get_or_zero (greeks_to_dict g) f) (get_or_zero i f))) greeks_fields"
      have b: "is_breach cfg ?p f \<longleftrightarrow> (\<exists>l. map_of (gc_hard_limits cfg) f = Some l
          \<and> dec_abs (dec_add (get_or_zero (greeks_to_dict g) f) (get_or_zero i f)) > l)" if "f \<in> set greeks_fields" for f
        using projected_value [OF that] by (simp add: is_breach_def split: option.split)
      have "(filter (is_breach cfg ?p) greeks_fields = []) \<longleftrightarrow> (\<forall>f \<in> set greeks_fields. \<forall>l. map_of (gc_hard_limits cfg) f = Some l
          \<longrightarrow> dec_abs (dec_add (get_or_zero (greeks_to_dict g) f) (get_or_zero i f)) \<le> l)"
        using b by (auto simp: filter_empty_conv not_less)
      moreover have "(\<exists>r. check_order now cfg current impact order = Inr r \<and> ck_ok r) \<longleftrightarrow> filter (is_breach cfg ?p) greeks_fields = []"
        using False Some Inr by (simp add: check_order_def Let_def)
      ultimately show ?thesis using False Some Inr by simp
    qed
  qed
qed

text \<open>A sequence of requests; a refused one leaves the store as it is.\<close>

definition limits_request :: "int \<times> string \<times> greeks_limit_set \<times> string \<times> string option \<Rightarrow> limits_store \<Rightarrow> limits_store" where
  "limits_request op st =
     (case op of (now, account, limits, by, strat) \<Rightarrow>
        case set_limits now account limits by strat st of Inl _ \<Rightarrow> st | Inr (_, st') \<Rightarrow> st')"

lemma get_limits_request:
  "get_limits a (limits_request (now, account, limits, by, strat) st)
     = (if account = a \<and> strat = None \<and> limit_set_validate limits = [] then limits else get_limits a st)"
  by (auto simp: limits_request_def set_limits_def get_limits_def)

text \<open>The limits of an account are those of the last accepted request for it, or the default ones, and they always satisfy
  0 < warn < crit < hard for every Greek.\<close>

theorem limits_of_last_request:
  fixes ops :: "(int \<times> string \<times> greeks_limit_set \<times> string \<times> string option) list"
  defines "accepted a \<equiv> filter (\<lambda>(now, account, limits, by, strat). account = a \<and> strat = None \<and> limit_set_validate limits = [])"
  shows "get_limits a (fold limits_request ops empty_limits_store)
      = (if accepted a ops = [] then default_limit_set else fst (snd (snd (last (accepted a ops)))))
    \<and> limit_set_validate (get_limits a (fold limits_request ops empty_limits_store)) = []"
proof (induction ops rule: rev_induct)
  case Nil
  show ?case by (simp add: accepted_def get_limits_def empty_limits_store_def default_limit_set_def limit_set_validate_def levels_validate_def)
next
  case (snoc op ops)
  obtain now account limits by' strat where op: "op = (now, account, limits, by', strat)" by (metis prod_cases5)
  show ?case
  proof (cases "account = a \<and> strat = None \<and> limit_set_validate limits = []")
    case True
    then show ?thesis by (simp add: op get_limits_request accepted_def)
  next
    case False
    then have acc: "accepted a (ops @ [op]) = accepted a ops" by (auto simp: op accepted_def)
    have "get_limits a (limits_request op st) = get_limits a st" for st
      unfolding op get_limits_request using False by (simp only: if_False)
    then have e: "get_limits a (fold limits_request (ops @ [op]) empty_limits_store) = get_limits a (fold limits_request ops empty_limits_store)"
      by simp
    show ?thesis unfolding e acc by (rule snoc.IH)
  qed
qed

text \<open>A shock in the other direction has the opposite first-order effect and the same second-order one, whose sign is that of the
  position's gamma: a short gamma loses both ways.\<close>

lemma scenario_symmetric:
  "sr_pnl_from_delta (calculate_scenario c p DOWN limits) = - sr_pnl_from_delta (calculate_scenario c p UP limits)"
  "sr_delta_change (calculate_scenario c p DOWN limits) = - sr_delta_change (calculate_scenario c p UP limits)"
  "sr_pnl_from_gamma (calculate_scenario c p DOWN limits) = sr_pnl_from_gamma (calculate_scenario c p UP limits)"
  by (simp_all add: calculate_scenario_def Let_def dec_mul_def dec_minus)

lemma scenario_breach:
  "sr_breach_level (calculate_scenario c p d limits) = BREACH_HARD
     \<longleftrightarrow> (\<exists>l. map_of limits ''dollar_delta'' = Some l \<and> dec_abs (sr_new_dollar_delta (calculate_scenario c p d limits)) > l)"
  by (simp add: calculate_scenario_def Let_def check_breach_def split: option.split)

lemma short_gamma_loses:
  assumes "cg_gamma_pnl_1pct c < 0" and "0 < p"
  shows "sr_pnl_from_gamma (calculate_scenario c p d limits) < 0"
proof -
  have "0 < sig_round 10 31 (p * p)" using assms(2) by (intro sig_round_pos) simp_all
  then have "0 < dec_power p 2" by (simp add: dec_power_two dec_pos)
  then have "0 < - cg_gamma_pnl_1pct c * dec_power p 2" using assms(1) by (simp add: mult_neg_pos)
  then have "0 < dec (- (cg_gamma_pnl_1pct c * dec_power p 2))" by (intro dec_pos) simp
  then show ?thesis by (simp add: calculate_scenario_def Let_def dec_mul_def dec_minus)
qed

section \<open>Concrete runs\<close>

definition demo_alert_texts :: alert_texts where
  "demo_alert_texts = \<lparr>at_plain = (\<lambda>_. ''x''), at_signed1 = (\<lambda>_. ''x''), at_whole = (\<lambda>_. ''x''), at_uuid = show_nat\<rparr>"

definition demo_threshold :: threshold_config where "demo_threshold = default_threshold DELTA 100 0"

lemma dec_small: "dec 80 = 80" "dec 100 = 100" "dec 120 = 120" "dec 75 = 75" "dec 90 = 90" "dec 95 = 95" "dec 130 = 130" "dec 150 = 150"
  using dec_exact [of 80 80 0] dec_exact [of 100 100 0] dec_exact [of 120 120 0] dec_exact [of 75 75 0] dec_exact [of 90 90 0]
    dec_exact [of 95 95 0] dec_exact [of 130 130 0] dec_exact [of 150 150 0] by simp_all

lemma demo_thresholds:
  "warn_threshold demo_threshold = 80" "crit_threshold demo_threshold = 100" "hard_threshold demo_threshold = 120"
  "recovery_threshold demo_threshold GL_WARN = 75" "recovery_threshold demo_threshold GL_CRIT = 90" "gt_direction demo_threshold = DIR_ABS"
  by (simp_all add: warn_threshold_def crit_threshold_def hard_threshold_def recovery_threshold_def demo_threshold_def default_threshold_def
      dec_mul_def dec_small)

lemma demo_ordered: "thresholds_ordered demo_threshold"
  by (simp add: thresholds_ordered_def demo_threshold_def default_threshold_def)

definition demo_state :: alert_state where
  "demo_state = \<lparr>as_scope = ACCOUNT, as_scope_id = ''a'', as_metric = DELTA, as_current_level = GL_CRIT, as_current_value = 110,
     as_threshold_config = demo_threshold, as_entered_at = 0, as_last_alert_at = Some 0, as_ttl_seconds = 86400\<rparr>"


definition demo_limits :: limits_config where
  "demo_limits = \<lparr>lc_scope = ACCOUNT, lc_scope_id = ''a'', lc_thresholds = [(DELTA, demo_threshold)], lc_min_coverage_pct = 95,
     lc_dedupe_window_seconds = [(GL_CRIT, 300)]\<rparr>"

definition demo_exposure :: "decimal \<Rightarrow> aggregated_greeks" where
  "demo_exposure d = (aggregate 0 [] ACCOUNT ''a'')\<lparr>agg_dollar_delta := d\<rparr>"

lemma demo_exposure_fields [simp]:
  "agg_scope (demo_exposure d) = ACCOUNT" "agg_scope_id (demo_exposure d) = ''a''" "agg_dollar_delta (demo_exposure d) = d"
  "agg_gamma_dollar (demo_exposure d) = 0" "agg_vega_per_1pct (demo_exposure d) = 0" "agg_theta_per_day (demo_exposure d) = 0"
  "agg_as_of_ts (demo_exposure d) = 0"
  by (simp_all add: demo_exposure_def aggregate_def empty_accumulator_def)

theorem alerts_spaced_witness:
  "\<exists>alerts states. alert_run 86400 demo_alert_texts demo_limits [(60000000, demo_exposure 95, None), (360000000, demo_exposure 95, None)]
      [((ACCOUNT, ''a'', DELTA), demo_state)] = (alerts, states)
    \<and> successively (\<lambda>t1 t2. elapsed_seconds t2 t1 \<ge> 300) (0 # map ga_created_at (threshold_alerts DELTA alerts))"
proof -
  obtain alerts states where r: "alert_run 86400 demo_alert_texts demo_limits [(60000000, demo_exposure 95, None), (360000000, demo_exposure 95, None)]
      [((ACCOUNT, ''a'', DELTA), demo_state)] = (alerts, states)" by fastforce
  have "successively (\<lambda>t1 t2. elapsed_seconds t2 t1 \<ge> of_int (dedupe_window demo_limits GL_CRIT))
    (0 # map ga_created_at (threshold_alerts DELTA alerts))"
    using alerts_spaced [OF _ _ _ _ _ _ _ r, of DELTA demo_threshold GL_CRIT ACCOUNT "''a''" demo_state 0]
    by (simp add: demo_limits_def stays_at_def check_greeks_threshold_cases demo_thresholds dec_abs_def dec_small demo_state_def)
  then show ?thesis using r by (auto simp: demo_limits_def dedupe_window_def)
qed

text \<open>An order that adds 30 to a delta of 100 under a limit of 150.\<close>

definition demo_gate :: gate_config where
  "demo_gate = \<lparr>gc_max_staleness_seconds = 60, gc_fail_mode = ''closed'', gc_hard_limits = [(''dollar_delta'', 150)]\<rparr>"

lemma gate_decides_demo:
  "(\<exists>r. check_order 0 demo_gate (Some (demo_exposure 100)) (\<lambda>_. Inr [(''dollar_delta'', 30)]) () = Inr r \<and> ck_ok r)
    \<and> \<not> (\<exists>r. check_order 0 demo_gate None (\<lambda>_. Inr [(''dollar_delta'', 30)]) () = Inr r \<and> ck_ok r)"
proof -
  have c: "gc_fail_mode demo_gate \<noteq> ''open''" by (simp add: demo_gate_def)
  show ?thesis unfolding gate_decides [OF c]
    by (simp add: demo_gate_def elapsed_seconds_def greeks_fields_def greeks_to_dict_def get_or_zero_def dec_add_def dec_abs_def dec_small)
qed

end
