(* ===== verification/Greeks_Monitor.thy ===== *)
theory Greeks_Monitor
  imports Greeks_Alerts Risk_Manager
begin

text \<open>
  The monitoring cycle of Greeks: the tables and queries of models/greeks.py and greeks/repository.py, the
  connections of greeks/websocket.py, and greeks/monitor.py, which loads option positions, calculates,
  aggregates, alerts, stores and broadcasts; at the end the risk manager with the gate on the monitor's
  current Greeks. What a numeric column does to a value, uuids, and which sends succeed are arguments. Lemmas:
  histories are partitioned into buckets, acknowledged alerts leave the list, what a cycle stores and alerts on,
  and what an order that passes the risk manager guarantees.
\<close>

section \<open>Snapshots and alert records\<close>

record greeks_snapshot =
  gs_id :: nat
  gs_scope :: scope
  gs_scope_id :: string
  gs_strategy_id :: "string option"
  gs_dollar_delta :: decimal
  gs_gamma_dollar :: decimal
  gs_gamma_pnl_1pct :: decimal
  gs_vega_per_1pct :: decimal
  gs_theta_per_day :: decimal
  gs_valid_legs_count :: nat
  gs_total_legs_count :: nat
  gs_valid_notional :: decimal
  gs_total_notional :: decimal
  gs_coverage_pct :: decimal
  gs_has_high_risk_missing_legs :: bool
  gs_as_of_ts :: int

record greeks_alert_record =
  gr_id :: nat
  gr_alert_id :: string
  gr_alert_type :: greeks_alert_type
  gr_scope :: scope
  gr_scope_id :: string
  gr_metric :: string
  gr_level :: string
  gr_current_value :: decimal
  gr_threshold_value :: "decimal option"
  gr_prev_value :: "decimal option"
  gr_change_pct :: "decimal option"
  gr_message :: string
  gr_created_at :: int
  gr_acknowledged_at :: "int option"
  gr_acknowledged_by :: "string option"

text \<open>What \<open>Numeric(18, 4)\<close>, \<open>Numeric(8, 4)\<close> and \<open>Numeric(5, 2)\<close> columns do to a value.\<close>

record greeks_columns =
  co_value :: "decimal \<Rightarrow> decimal"
  co_percent :: "decimal \<Rightarrow> decimal"
  co_coverage :: "decimal \<Rightarrow> decimal"

definition save_snapshot :: "greeks_columns \<Rightarrow> aggregated_greeks \<Rightarrow> greeks_snapshot list \<Rightarrow> greeks_snapshot list" where
  "save_snapshot co g rows =
     (let f = co_value co
      in rows @ [\<lparr>gs_id = length rows + 1, gs_scope = agg_scope g, gs_scope_id = agg_scope_id g, gs_strategy_id = agg_strategy_id g,
          gs_dollar_delta = f (agg_dollar_delta g), gs_gamma_dollar = f (agg_gamma_dollar g), gs_gamma_pnl_1pct = f (agg_gamma_pnl_1pct g),
          gs_vega_per_1pct = f (agg_vega_per_1pct g), gs_theta_per_day = f (agg_theta_per_day g),
          gs_valid_legs_count = agg_valid_legs_count g, gs_total_legs_count = agg_total_legs_count g,
          gs_valid_notional = f (agg_valid_notional g), gs_total_notional = f (agg_total_notional g),
          gs_coverage_pct = co_coverage co (coverage_pct g), gs_has_high_risk_missing_legs = agg_has_high_risk_missing_legs g,
          gs_as_of_ts = agg_as_of_ts g\<rparr>])"

definition snapshot_to_aggregated :: "greeks_snapshot \<Rightarrow> aggregated_greeks" where
  "snapshot_to_aggregated s =
     \<lparr>agg_scope = gs_scope s, agg_scope_id = gs_scope_id s, agg_strategy_id = gs_strategy_id s,
      agg_dollar_delta = gs_dollar_delta s, agg_gamma_dollar = gs_gamma_dollar s, agg_gamma_pnl_1pct = gs_gamma_pnl_1pct s,
      agg_vega_per_1pct = gs_vega_per_1pct s, agg_theta_per_day = gs_theta_per_day s,
      agg_valid_legs_count = gs_valid_legs_count s, agg_total_legs_count = gs_total_legs_count s,
      agg_valid_notional = gs_valid_notional s, agg_total_notional = gs_total_notional s, agg_missing_positions = [],
      agg_has_high_risk_missing_legs = gs_has_high_risk_missing_legs s, agg_warning_legs_count = 0,
      agg_has_positions = (gs_total_legs_count s > 0), agg_as_of_ts = gs_as_of_ts s, agg_as_of_ts_min = None, agg_as_of_ts_max = None\<rparr>"

text \<open>Newest first, one row; rows of the same instant in the order of insertion.\<close>

definition newest_snapshot :: "greeks_snapshot list \<Rightarrow> aggregated_greeks option" where
  "newest_snapshot rows =
     (case sort_key (\<lambda>r. - gs_as_of_ts r) rows of [] \<Rightarrow> None | r # _ \<Rightarrow> Some (snapshot_to_aggregated r))"

definition get_latest_snapshot :: "scope \<Rightarrow> string \<Rightarrow> greeks_snapshot list \<Rightarrow> aggregated_greeks option" where
  "get_latest_snapshot sc sid rows = newest_snapshot (filter (\<lambda>r. gs_scope r = sc \<and> gs_scope_id r = sid) rows)"

definition get_prev_snapshot :: "int \<Rightarrow> scope \<Rightarrow> string \<Rightarrow> int \<Rightarrow> greeks_snapshot list \<Rightarrow> aggregated_greeks option" where
  "get_prev_snapshot now sc sid window_seconds rows =
     newest_snapshot (filter (\<lambda>r. gs_scope r = sc \<and> gs_scope_id r = sid \<and> gs_as_of_ts r < now - window_seconds * 1000000) rows)"

definition save_greeks_alert :: "greeks_columns \<Rightarrow> greeks_alert \<Rightarrow> greeks_alert_record list \<Rightarrow> greeks_alert_record list" where
  "save_greeks_alert co g rows =
     rows @ [\<lparr>gr_id = length rows + 1, gr_alert_id = ga_alert_id g, gr_alert_type = ga_alert_type g, gr_scope = ga_scope g,
       gr_scope_id = ga_scope_id g, gr_metric = risk_metric_value (ga_metric g), gr_level = greeks_level_value (ga_level g),
       gr_current_value = co_value co (ga_current_value g), gr_threshold_value = Some (co_value co (ga_threshold_value g)),
       gr_prev_value = map_option (co_value co) (ga_prev_value g), gr_change_pct = map_option (co_percent co) (ga_change_pct g),
       gr_message = ga_message g, gr_created_at = ga_created_at g, gr_acknowledged_at = None, gr_acknowledged_by = None\<rparr>]"

definition get_unacknowledged_alerts :: "scope option \<Rightarrow> string option \<Rightarrow> greeks_alert_record list \<Rightarrow> greeks_alert_record list" where
  "get_unacknowledged_alerts sc sid rows =
     sort_key (\<lambda>r. - gr_created_at r)
       (filter (\<lambda>r. gr_acknowledged_at r = None \<and> (case sc of None \<Rightarrow> True | Some x \<Rightarrow> gr_scope r = x)
          \<and> (case sid of None \<Rightarrow> True | Some x \<Rightarrow> gr_scope_id r = x)) rows)"

text \<open>\<open>UUID(alert_id)\<close> is None for a text that is no uuid.\<close>

definition acknowledge_greeks_alert ::
  "(string \<Rightarrow> string option) \<Rightarrow> int \<Rightarrow> string \<Rightarrow> string \<Rightarrow> greeks_alert_record list \<Rightarrow> greeks_alert_record list \<times> bool" where
  "acknowledge_greeks_alert parse_uuid now alert_id by' rows =
     (case parse_uuid alert_id of
        None \<Rightarrow> (rows, False)
      | Some u \<Rightarrow>
          (map (\<lambda>r. if gr_alert_id r = u then r\<lparr>gr_acknowledged_at := Some now, gr_acknowledged_by := Some by'\<rparr> else r) rows,
           length (filter (\<lambda>r. gr_alert_id r = u) rows) > 0))"

section \<open>History\<close>

record history_point =
  hp_ts :: int
  hp_dollar_delta :: decimal
  hp_gamma_dollar :: decimal
  hp_vega_per_1pct :: decimal
  hp_theta_per_day :: decimal
  hp_coverage_pct :: decimal
  hp_point_count :: nat

definition ts_second :: "int \<Rightarrow> int" where "ts_second ts = ts div 1000000 mod 60"
definition ts_minute :: "int \<Rightarrow> int" where "ts_minute ts = ts div 60000000 mod 60"
definition ts_hour :: "int \<Rightarrow> int" where "ts_hour ts = ts div 3600000000 mod 24"

text \<open>The three calls of \<open>datetime.replace\<close>; a second outside 0 to 59 raises.\<close>

definition bucket_start :: "int \<Rightarrow> int \<Rightarrow> int result" where
  "bucket_start interval_seconds ts =
     res_bind
       (if interval_seconds < 60
        then if interval_seconds = 0 then Inl DivisionByZero else Inr (ts_second ts div interval_seconds * interval_seconds)
        else Inr 0)
       (\<lambda>second. if second < 0 \<or> 59 < second then Inl ValueError
        else let b0 = ts - ts mod 60000000 + second * 1000000;
                 per_minutes = interval_seconds div 60;
                 b1 = (if interval_seconds \<ge> 60
                       then b0 - ts_minute ts * 60000000 + ts_minute ts div per_minutes * per_minutes * 60000000 else b0);
                 per_hours = interval_seconds div 3600
             in Inr (if interval_seconds \<ge> 3600
                     then b1 - ts_minute b1 * 60000000 - ts_hour ts * 3600000000 + ts_hour ts div per_hours * per_hours * 3600000000
                     else b1))"

definition average_of :: "(greeks_snapshot \<Rightarrow> decimal) \<Rightarrow> greeks_snapshot list \<Rightarrow> decimal result" where
  "average_of f rows = dec_div (dec_sum (map f rows)) (of_nat (length rows))"

definition bucket_point :: "int \<times> greeks_snapshot list \<Rightarrow> history_point result" where
  "bucket_point b =
     (case b of (ts, rows) \<Rightarrow>
        res_bind (average_of gs_dollar_delta rows) (\<lambda>d. res_bind (average_of gs_gamma_dollar rows) (\<lambda>g.
        res_bind (average_of gs_vega_per_1pct rows) (\<lambda>v. res_bind (average_of gs_theta_per_day rows) (\<lambda>t.
        res_bind (average_of gs_coverage_pct rows) (\<lambda>c.
          Inr \<lparr>hp_ts = ts, hp_dollar_delta = d, hp_gamma_dollar = g, hp_vega_per_1pct = v, hp_theta_per_day = t,
               hp_coverage_pct = c, hp_point_count = length rows\<rparr>))))))"

definition aggregate_snapshots :: "int \<Rightarrow> greeks_snapshot list \<Rightarrow> history_point list result" where
  "aggregate_snapshots interval_seconds rows =
     res_bind (res_map (\<lambda>r. res_bind (bucket_start interval_seconds (gs_as_of_ts r)) (\<lambda>b. Inr (b, r))) rows) (\<lambda>pairs.
       res_map bucket_point (sort_key fst (map (\<lambda>(b, xs). (b, map snd xs)) (group_by fst pairs))))"

definition get_history ::
  "scope \<Rightarrow> string \<Rightarrow> int \<Rightarrow> int \<Rightarrow> int option \<Rightarrow> greeks_snapshot list \<Rightarrow> history_point list result" where
  "get_history sc sid start_ts end_ts interval_seconds rows =
     (let found = sort_key gs_as_of_ts (filter (\<lambda>r. gs_scope r = sc \<and> gs_scope_id r = sid \<and> start_ts \<le> gs_as_of_ts r \<and> gs_as_of_ts r \<le> end_ts) rows)
      in if found = [] then Inr []
         else (case interval_seconds of
                 None \<Rightarrow> Inr (map (\<lambda>r. \<lparr>hp_ts = gs_as_of_ts r, hp_dollar_delta = gs_dollar_delta r, hp_gamma_dollar = gs_gamma_dollar r,
                     hp_vega_per_1pct = gs_vega_per_1pct r, hp_theta_per_day = gs_theta_per_day r, hp_coverage_pct = gs_coverage_pct r,
                     hp_point_count = 1\<rparr>) found)
               | Some i \<Rightarrow> aggregate_snapshots i found))"

section \<open>Connections\<close>

type_synonym connections = "(string \<times> nat list) list"

definition ws_connect :: "string \<Rightarrow> nat \<Rightarrow> connections \<Rightarrow> connections" where
  "ws_connect account ws cs = AList.update account ((case map_of cs account of None \<Rightarrow> [] | Some l \<Rightarrow> l) @ [ws]) cs"

definition ws_disconnect :: "string \<Rightarrow> nat \<Rightarrow> connections \<Rightarrow> connections" where
  "ws_disconnect account ws cs =
     (case map_of cs account of
        None \<Rightarrow> cs
      | Some l \<Rightarrow> if remove1 ws l = [] then AList.delete account cs else AList.update account (remove1 ws l) cs)"

text \<open>A broadcast; a client whose send raises is disconnected.\<close>

definition ws_broadcast :: "(nat \<Rightarrow> bool) \<Rightarrow> string \<Rightarrow> connections \<Rightarrow> connections" where
  "ws_broadcast sends account cs =
     (case map_of cs account of
        None \<Rightarrow> cs
      | Some l \<Rightarrow> fold (ws_disconnect account) (filter (\<lambda>w. \<not> sends w) l) cs)"

definition get_connection_count :: "string \<Rightarrow> connections \<Rightarrow> nat" where
  "get_connection_count account cs = length (case map_of cs account of None \<Rightarrow> [] | Some l \<Rightarrow> l)"

section \<open>The monitor\<close>

record monitor_env =
  mo_account_id :: string
  mo_config :: limits_config
  mo_primary :: greeks_provider
  mo_fallback :: "greeks_provider option"
  mo_state_ttl :: int
  mo_has_repository :: bool
  mo_columns :: greeks_columns
  mo_texts :: alert_texts
  mo_sends :: "nat \<Rightarrow> bool"

record monitor_state =
  mo_current_greeks :: "aggregated_greeks option"
  mo_alert_states :: alert_states
  mo_snapshots :: "greeks_snapshot list"
  mo_alerts :: "greeks_alert_record list"
  mo_connections :: connections
  mo_alerts_made :: nat

record monitor_result =
  mr_account_greeks :: aggregated_greeks
  mr_strategy_greeks :: "(string \<times> aggregated_greeks) list"
  mr_alerts :: "greeks_alert list"
  mr_snapshot_saved :: bool

text \<open>The uuids after the first \<open>n\<close>.\<close>

definition later_uuids :: "nat \<Rightarrow> alert_texts \<Rightarrow> alert_texts" where
  "later_uuids n tx = tx\<lparr>at_uuid := (\<lambda>i. at_uuid tx (n + i))\<rparr>"

definition rate_window :: "limits_config \<Rightarrow> int" where
  "rate_window cfg = (case lc_thresholds cfg of [] \<Rightarrow> 300 | (_, c) # _ \<Rightarrow> gt_rate_window_seconds c)"

fun check_strategies ::
  "int \<Rightarrow> int \<Rightarrow> alert_texts \<Rightarrow> limits_config \<Rightarrow> (string \<times> aggregated_greeks) list \<Rightarrow> greeks_alert list \<times> alert_states
   \<Rightarrow> greeks_alert list \<times> alert_states" where
  "check_strategies ttl now tx cfg [] s = s"
| "check_strategies ttl now tx cfg ((sid, g) # sgs) (alerts, states) =
     (if sid = ''_unassigned_'' then check_strategies ttl now tx cfg sgs (alerts, states)
      else case check_alerts ttl now (later_uuids (length alerts) tx) g cfg None states of
             (new, states1) \<Rightarrow> check_strategies ttl now tx cfg sgs (alerts @ new, states1))"

definition monitor_check :: "int \<Rightarrow> monitor_env \<Rightarrow> position_info list \<Rightarrow> monitor_state \<Rightarrow> monitor_result \<times> monitor_state" where
  "monitor_check now e infos s =
     (let position_greeks = calculate_greeks now (mo_primary e) (mo_fallback e) infos;
          tx = later_uuids (mo_alerts_made s) (mo_texts e)
      in case aggregate_by_strategy now position_greeks (mo_account_id e) of
           (account_greeks, strategy_greeks) \<Rightarrow>
             let prev = (if mo_has_repository e
                         then get_prev_snapshot now ACCOUNT (mo_account_id e) (rate_window (mo_config e)) (mo_snapshots s) else None)
             in case check_strategies (mo_state_ttl e) now tx (mo_config e) strategy_greeks
                       (check_alerts (mo_state_ttl e) now tx account_greeks (mo_config e) prev (mo_alert_states s)) of
                  (alerts, states) \<Rightarrow>
                    (\<lparr>mr_account_greeks = account_greeks, mr_strategy_greeks = strategy_greeks, mr_alerts = alerts,
                      mr_snapshot_saved = mo_has_repository e\<rparr>,
                     \<lparr>mo_current_greeks = Some account_greeks, mo_alert_states = states,
                      mo_snapshots = (if mo_has_repository e
                        then fold (save_snapshot (mo_columns e)) (account_greeks # map snd strategy_greeks) (mo_snapshots s) else mo_snapshots s),
                      mo_alerts = (if mo_has_repository e then fold (save_greeks_alert (mo_columns e)) alerts (mo_alerts s) else mo_alerts s),
                      mo_connections = ((ws_broadcast (mo_sends e) (mo_account_id e)) ^^ (1 + length alerts)) (mo_connections s),
                      mo_alerts_made = mo_alerts_made s + length alerts\<rparr>))"

section \<open>Loading positions\<close>

definition extract_underlying_symbol :: "string \<Rightarrow> string" where
  "extract_underlying_symbol sy =
     (if \<exists>c \<in> set sy. c \<in> set ''0123456789'' then takeWhile (\<lambda>c. c \<notin> set ''0123456789'') sy else take 4 sy)"

text \<open>The column of \<open>put_call\<close> is a String: a loaded row has a text, which has no attribute \<open>value\<close>, and None has none either.\<close>

definition position_to_info :: "(position \<Rightarrow> bool) \<Rightarrow> (int \<Rightarrow> string) \<Rightarrow> position \<Rightarrow> position_info result" where
  "position_to_info loaded iso_text p =
     (case pos_put_call p of
        None \<Rightarrow> Inl AttributeError
      | Some pc \<Rightarrow>
          if loaded p then Inl AttributeError
          else Inr \<lparr>pi_position_id = int (pos_id p), pi_symbol = pos_symbol p, pi_underlying_symbol = extract_underlying_symbol (pos_symbol p),
                 pi_quantity = pos_quantity p, pi_multiplier = 100, pi_option_type = (if pc = CALL then ''call'' else ''put''),
                 pi_strike = (case strike p of None \<Rightarrow> 0 | Some k \<Rightarrow> k), pi_expiry = (case expiry p of None \<Rightarrow> [] | Some d \<Rightarrow> iso_text d)\<rparr>)"

definition load_positions_from_db :: "(position \<Rightarrow> bool) \<Rightarrow> (int \<Rightarrow> string) \<Rightarrow> string \<Rightarrow> position list \<Rightarrow> position_info list result" where
  "load_positions_from_db loaded iso_text account_id rows =
     res_map (position_to_info loaded iso_text)
       (filter (\<lambda>p. pos_account_id p = account_id \<and> pos_asset_type p = OPTION \<and> pos_status p = OPEN) rows)"

definition create_greeks_monitor ::
  "string \<Rightarrow> limits_config option \<Rightarrow> bool \<Rightarrow> futu_client result \<Rightarrow> greeks_columns \<Rightarrow> alert_texts \<Rightarrow> (nat \<Rightarrow> bool) \<Rightarrow> monitor_env" where
  "create_greeks_monitor account_id config has_session client co tx sends =
     \<lparr>mo_account_id = account_id, mo_config = (case config of None \<Rightarrow> default_account_config account_id | Some c \<Rightarrow> c),
      mo_primary = \<lparr>gp_source = SRC_FUTU, gp_fetch = futu_fetch client\<rparr>, mo_fallback = None, mo_state_ttl = 86400,
      mo_has_repository = has_session, mo_columns = co, mo_texts = tx, mo_sends = sends\<rparr>"

section \<open>Histories fall into buckets\<close>

lemma parts_of_minute:
  fixes ts :: int
  shows "ts mod 60000000 = ts_second ts * 1000000 + ts mod 1000000" "ts mod 3600000000 = ts_minute ts * 60000000 + ts mod 60000000"
    "ts mod 86400000000 = ts_hour ts * 3600000000 + ts mod 3600000000"
  unfolding ts_second_def ts_minute_def ts_hour_def
  using mod_mult2_eq' [of ts 1000000 60] mod_mult2_eq' [of ts 60000000 60] mod_mult2_eq' [of ts 3600000000 24]
  by (simp_all add: zmod_zmult2_eq)

lemma remainder_bound: "0 < i \<Longrightarrow> 0 \<le> r \<Longrightarrow> r < u \<Longrightarrow> s mod i * u + r < i * (u :: int)"
proof -
  assume a: "0 < i" "0 \<le> r" "r < u"
  have "s mod i < i" using a by simp
  then have "s mod i + 1 \<le> i" by linarith
  then have "(s mod i + 1) * u \<le> i * u" using a by (intro mult_right_mono) simp_all
  then show ?thesis using a by (simp add: algebra_simps)
qed

lemma split_unit: "s * u = s div i * i * u + s mod i * (u :: int)"
  by (metis div_mult_mod_eq distrib_right)

lemma bucket_start_covers:
  assumes i: "0 < i"
  shows "\<exists>b. bucket_start i ts = Inr b \<and> b \<le> ts \<and> ts < b + i * 1000000"
proof -
  have s: "0 \<le> ts_second ts" "ts_second ts \<le> 59" by (simp_all add: ts_second_def)
  have m: "0 \<le> ts_minute ts" "ts_minute ts \<le> 59" by (simp_all add: ts_minute_def)
  have h: "0 \<le> ts_hour ts" by (simp add: ts_hour_def)
  have r: "0 \<le> ts mod 1000000" "ts mod 1000000 < 1000000" "0 \<le> ts mod 60000000" "ts mod 60000000 < 60000000"
    "0 \<le> ts mod 3600000000" "ts mod 3600000000 < 3600000000" by simp_all
  consider "i < 60" | "60 \<le> i" "i < 3600" | "3600 \<le> i" by linarith
  then show ?thesis
  proof cases
    case 1
    let ?b = "ts - ts mod 60000000 + ts_second ts div i * i * 1000000"
    have le: "ts_second ts div i * i \<le> ts_second ts" using i by (metis div_mult_mod_eq le_add_same_cancel1 pos_mod_sign)
    have "0 \<le> ts_second ts div i * i" using i s by (simp add: pos_imp_zdiv_nonneg_iff)
    then have "bucket_start i ts = Inr ?b" using 1 i s le by (simp add: bucket_start_def Let_def)
    moreover have "ts - ?b = ts_second ts mod i * 1000000 + ts mod 1000000"
      using parts_of_minute(1) [of ts] split_unit [of "ts_second ts" 1000000 i] by linarith
    moreover have "ts_second ts mod i * 1000000 + ts mod 1000000 < i * 1000000" using i r by (intro remainder_bound) simp_all
    moreover have "0 \<le> ts_second ts mod i * 1000000 + ts mod 1000000" using i r by simp
    ultimately show ?thesis by (intro exI [of _ ?b]) linarith
  next
    case 2
    let ?p = "i div 60"
    have p: "0 < ?p" "?p * 60 \<le> i" using 2 by (simp_all add: pos_imp_zdiv_pos_iff)
    let ?b = "ts - ts mod 60000000 - ts_minute ts * 60000000 + ts_minute ts div ?p * ?p * 60000000"
    have "bucket_start i ts = Inr ?b" using 2 by (simp add: bucket_start_def Let_def)
    moreover have d: "ts - ?b = ts_minute ts mod ?p * 60000000 + ts mod 60000000"
      using split_unit [of "ts_minute ts" 60000000 ?p] by linarith
    moreover have "ts_minute ts mod ?p * 60000000 + ts mod 60000000 < ?p * 60000000" using p r by (intro remainder_bound) simp_all
    moreover have "0 \<le> ts_minute ts mod ?p * 60000000 + ts mod 60000000" using p r by simp
    ultimately show ?thesis using p by (intro exI [of _ ?b]) linarith
  next
    case 3
    let ?p = "i div 60" and ?q = "i div 3600"
    have p: "60 \<le> ?p" "0 < ?q" "?q * 3600 \<le> i" using 3 by (simp_all add: pos_imp_zdiv_pos_iff zdiv_mono1 [of 3600 i 60, simplified])
    then have z: "ts_minute ts div ?p = 0" using m by (intro div_pos_pos_trivial) simp_all
    have b1: "ts - ts mod 60000000 - ts_minute ts * 60000000 = ts - ts mod 3600000000" using parts_of_minute(2) [of ts] by linarith
    have "(ts - ts mod 3600000000) div 60000000 = ts div 3600000000 * 60"
      by (simp add: minus_mod_eq_mult_div mult.commute [of 3600000000])
    then have "ts_minute (ts - ts mod 3600000000) = 0" by (simp add: ts_minute_def)
    then have zb: "ts_minute (ts - ts mod 60000000 - ts_minute ts * 60000000) = 0" unfolding b1 .
    then have "bucket_start i ts = Inr (ts - ts mod 3600000000 - ts_hour ts * 3600000000 + ts_hour ts div ?q * ?q * 3600000000)"
      using 3 z unfolding bucket_start_def Let_def by (simp only: b1 zb) (simp add: zb flip: b1)
    moreover note split_unit [of "ts_hour ts" 3600000000 ?q]
    moreover have "ts_hour ts mod ?q * 3600000000 + ts mod 3600000000 < ?q * 3600000000" using p r by (intro remainder_bound) simp_all
    moreover have "0 \<le> ts_hour ts mod ?q * 3600000000 + ts mod 3600000000" using p r by simp
    ultimately show ?thesis using p
      by (intro exI [of _ "ts - ts mod 3600000000 - ts_hour ts * 3600000000 + ts_hour ts div ?q * ?q * 3600000000"]) linarith
  qed
qed

lemma res_map_pairs:
  assumes "\<And>x. x \<in> set xs \<Longrightarrow> f x = Inr (g x)"
  shows "res_map (\<lambda>x. res_bind (f x) (\<lambda>y. Inr (y, x))) xs = Inr (map (\<lambda>x. (g x, x)) xs)"
  using assms by (induction xs) simp_all

lemma history_average_total: "rows \<noteq> [] \<Longrightarrow> \<exists>q. average_of f rows = Inr q"
  by (simp add: average_of_def dec_div_def)

lemma bucket_point_total: "rows \<noteq> [] \<Longrightarrow> \<exists>p. bucket_point (b, rows) = Inr p \<and> hp_ts p = b \<and> hp_point_count p = length rows"
  using history_average_total [of rows gs_dollar_delta] history_average_total [of rows gs_gamma_dollar] history_average_total [of rows gs_vega_per_1pct]
    history_average_total [of rows gs_theta_per_day] history_average_total [of rows gs_coverage_pct]
  by (auto simp: bucket_point_def)

lemma distinct_map_sort_key: "distinct (map f (sort_key k xs)) \<longleftrightarrow> distinct (map f xs)"
  by (rule mset_eq_imp_distinct_iff) simp

text \<open>C37. For every positive interval the buckets cover the snapshots: their times increase, every snapshot falls into a bucket that
  starts less than an interval before it, and the counts of the buckets add up to the number of snapshots.\<close>

theorem history_buckets_partition:
  assumes "0 < i"
  shows "\<exists>points. aggregate_snapshots i rows = Inr points \<and> sorted_wrt (<) (map hp_ts points)
    \<and> sum_list (map hp_point_count points) = length rows
    \<and> (\<forall>r \<in> set rows. \<exists>p \<in> set points. hp_ts p \<le> gs_as_of_ts r \<and> gs_as_of_ts r < hp_ts p + i * 1000000)"
proof -
  define start where "start = (\<lambda>r :: greeks_snapshot. case bucket_start i (gs_as_of_ts r) of Inr b \<Rightarrow> b)"
  have st: "bucket_start i (gs_as_of_ts r) = Inr (start r)" "start r \<le> gs_as_of_ts r" "gs_as_of_ts r < start r + i * 1000000" for r
    using bucket_start_covers [OF assms, of "gs_as_of_ts r"] by (auto simp: start_def)
  define pairs where "pairs = map (\<lambda>r. (start r, r)) rows"
  define bs where "bs = sort_key fst (map (\<lambda>(b, xs). (b, map snd xs)) (group_by fst pairs))"
  have keys: "fst ` set bs = start ` set rows" "distinct (map fst bs)"
  proof -
    have "fst ` set bs = fst ` set (group_by fst pairs)" by (force simp: bs_def image_iff)
    then show "fst ` set bs = start ` set rows" by (simp add: group_by_keys(2) pairs_def image_image)
    have "distinct (map fst (map (\<lambda>(b, xs). (b, map snd xs)) (group_by fst pairs)))"
      using group_by_keys(1) [of fst pairs] by (simp add: comp_def case_prod_beta)
    then show "distinct (map fst bs)" unfolding bs_def distinct_map_sort_key .
  qed
  have ne: "rs \<noteq> []" if "(b, rs) \<in> set bs" for b rs
  proof -
    from that obtain xs where "(b, xs) \<in> set (group_by fst pairs)" "rs = map snd xs" by (auto simp: bs_def)
    moreover from this(1) have "b \<in> fst ` set pairs" unfolding group_by_keys(2) [of fst pairs, symmetric] by (force simp: image_iff)
    moreover from calculation(1) have "xs = filter (\<lambda>x. fst x = b) pairs" by (rule group_by_entry)
    ultimately show ?thesis by (auto simp: filter_empty_conv)
  qed
  define g where "g = (\<lambda>x. case bucket_point x of Inr p \<Rightarrow> p)"
  have g: "bucket_point x = Inr (g x)" "hp_ts (g x) = fst x" "hp_point_count (g x) = length (snd x)" if "x \<in> set bs" for x
    using bucket_point_total [of "snd x" "fst x"] ne [of "fst x" "snd x"] that by (auto simp: g_def)
  have run: "aggregate_snapshots i rows = Inr (map g bs)"
    using res_map_pairs [of rows "\<lambda>r. bucket_start i (gs_as_of_ts r)" start] st(1) res_map_total [of bs bucket_point g] g(1)
    by (simp add: aggregate_snapshots_def pairs_def bs_def)
  have ts: "map hp_ts (map g bs) = map fst bs" using g(2) by simp
  have "sorted (map fst bs)" by (simp add: bs_def)
  then have 1: "sorted_wrt (<) (map hp_ts (map g bs))" unfolding ts using keys(2) by (simp add: strict_sorted_iff)
  have "sum_list (map hp_point_count (map g bs)) = sum_list (map (\<lambda>x. length (snd x)) bs)" using g(3) by (simp add: comp_def cong: map_cong)
  also have "\<dots> = sum_mset (image_mset (\<lambda>x. length (snd x)) (mset bs))" by (metis mset_map sum_mset_sum_list)
  also have "\<dots> = sum_list (map (\<lambda>(k, ys). length ys) (group_by fst pairs))"
    by (simp add: bs_def multiset.map_comp comp_def case_prod_unfold sum_mset_sum_list flip: mset_map)
  also have "\<dots> = length rows" using groups_length [of "\<lambda>_. True" fst pairs] by (simp add: pairs_def)
  finally have 2: "sum_list (map hp_point_count (map g bs)) = length rows" .
  have 3: "\<exists>p \<in> set (map g bs). hp_ts p \<le> gs_as_of_ts r \<and> gs_as_of_ts r < hp_ts p + i * 1000000" if "r \<in> set rows" for r
  proof -
    from that keys(1) obtain x where "x \<in> set bs" "fst x = start r" by (metis (no_types, lifting) imageE imageI)
    then show ?thesis using g(2) [of x] st(2,3) [of r] by (auto intro!: bexI [of _ x])
  qed
  show ?thesis using run 1 2 3 by blast
qed

section \<open>A cycle\<close>

text \<open>No calculated position has a strategy, so every cycle has at most the one breakdown \<open>_unassigned_\<close>, and alerts come
  from the account's aggregate only.\<close>

lemma calculated_fields:
  assumes "g \<in> set (calculate_greeks now primary fallback ps)"
  shows "pg_strategy_id g = None \<and> pg_as_of_ts g = now"
  using assms
proof (cases rule: calculate_cases)
  case (primary rs ms)
  then show ?thesis by (auto simp: split_answered_def Let_def map_filter_def convert_to_dollar_greeks_def)
next
  case (fallback fb ms rs' ms')
  then show ?thesis by (auto simp: split_answered_def Let_def map_filter_def convert_to_dollar_greeks_def)
qed (simp add: create_invalid_position_greeks_def)

lemma check_strategies_unassigned:
  "fst ` set sgs \<subseteq> {''_unassigned_''} \<Longrightarrow> check_strategies ttl now tx cfg sgs s = s"
  by (induction ttl now tx cfg sgs s rule: check_strategies.induct) auto

lemma strategies_never_known:
  assumes "aggregate_by_strategy now (calculate_greeks now primary fallback ps) account = (whole, parts)"
  shows "fst ` set parts \<subseteq> {''_unassigned_''}"
  using aggregate_groups_partition [OF assms [unfolded aggregate_by_strategy_def]] calculated_fields [of _ now primary fallback ps]
  by (auto simp: strategy_key_def)

lemma aggregate_time:
  assumes "\<And>g. g \<in> set gs \<Longrightarrow> pg_as_of_ts g = now"
  shows "agg_as_of_ts (aggregate now gs sc sid) = now"
proof (cases "gs = []")
  case False
  then have "pg_as_of_ts ` set gs = {now}" using assms by (auto simp: image_iff neq_Nil_conv)
  then show ?thesis using False by (simp add: aggregate_reference reference_aggregate_def Let_def)
qed (simp add: aggregate_reference reference_aggregate_def Let_def)

lemma aggregate_scope [simp]: "agg_scope (aggregate now gs sc sid) = sc" "agg_scope_id (aggregate now gs sc sid) = sid"
  by (simp_all add: aggregate_def Let_def)

text \<open>What a column changes apart, the snapshot keeps everything but the lists of legs and the range of times.\<close>

definition kept_fields :: "aggregated_greeks \<Rightarrow> aggregated_greeks" where
  "kept_fields g = g\<lparr>agg_missing_positions := [], agg_warning_legs_count := 0, agg_has_positions := (agg_total_legs_count g > 0),
     agg_as_of_ts_min := None, agg_as_of_ts_max := None\<rparr>"

lemma saved_row:
  assumes "co_value co = id"
  shows "\<exists>r. save_snapshot co g rows = rows @ [r] \<and> snapshot_to_aggregated r = kept_fields g \<and> gs_scope r = agg_scope g
    \<and> gs_scope_id r = agg_scope_id g \<and> gs_as_of_ts r = agg_as_of_ts g"
  using assms by (simp add: save_snapshot_def Let_def snapshot_to_aggregated_def kept_fields_def)

lemma saved_rows:
  "\<exists>rs. fold (save_snapshot co) gs rows = rows @ rs \<and> map gs_scope rs = map agg_scope gs \<and> length rs = length gs"
proof (induction gs arbitrary: rows)
  case (Cons g gs)
  obtain r where r: "save_snapshot co g rows = rows @ [r]" "gs_scope r = agg_scope g" by (auto simp: save_snapshot_def Let_def)
  obtain rs where "fold (save_snapshot co) gs (rows @ [r]) = (rows @ [r]) @ rs"
    "map gs_scope rs = map agg_scope gs" "length rs = length gs" using Cons by blast
  then show ?case using r by (intro exI [of _ "r # rs"]) simp
qed simp

lemma newest_last:
  assumes "\<And>r. r \<in> set rows \<Longrightarrow> gs_as_of_ts r < gs_as_of_ts x"
  shows "newest_snapshot (rows @ [x]) = Some (snapshot_to_aggregated x)"
proof -
  have "sort_key (\<lambda>r. - gs_as_of_ts r) (rows @ [x]) = x # sort_key (\<lambda>r. - gs_as_of_ts r) rows"
  proof (rule properties_for_sort_key)
    show "mset (x # sort_key (\<lambda>r. - gs_as_of_ts r) rows) = mset (rows @ [x])" by simp
    show "filter (\<lambda>y. - gs_as_of_ts k = - gs_as_of_ts y) (x # sort_key (\<lambda>r. - gs_as_of_ts r) rows)
        = filter (\<lambda>y. - gs_as_of_ts k = - gs_as_of_ts y) (rows @ [x])" if "k \<in> set (x # sort_key (\<lambda>r. - gs_as_of_ts r) rows)" for k
    proof (cases "gs_as_of_ts k = gs_as_of_ts x")
      case True
      have "y \<notin> set rows" if "gs_as_of_ts y = gs_as_of_ts x" for y using assms that by force
      then have "filter (\<lambda>y. gs_as_of_ts x = gs_as_of_ts y) ys = []" if "set ys = set rows" for ys
        using that by (force simp: filter_empty_conv)
      then show ?thesis using True by simp
    next
      case False
      have "filter (\<lambda>y. - gs_as_of_ts y = - gs_as_of_ts k) (sort_key (\<lambda>r. - gs_as_of_ts r) rows) = filter (\<lambda>y. - gs_as_of_ts y = - gs_as_of_ts k) rows"
        using stable_sort_key_sort_key unfolding stable_sort_key_def by (elim allE)
      then show ?thesis using False by (simp add: eq_commute [of "gs_as_of_ts k"])
    qed
    show "sorted (map (\<lambda>r. - gs_as_of_ts r) (x # sort_key (\<lambda>r. - gs_as_of_ts r) rows))" using assms by (auto intro: less_imp_le)
  qed
  then show ?thesis by (simp add: newest_snapshot_def)
qed
lemma newest_of_earliest_scope:
  assumes "\<forall>r \<in> set rs. gs_scope r \<noteq> gs_scope x" and "\<And>r. r \<in> set rows \<Longrightarrow> gs_as_of_ts r < gs_as_of_ts x"
  shows "get_latest_snapshot (gs_scope x) (gs_scope_id x) (rows @ x # rs) = Some (snapshot_to_aggregated x)"
proof -
  have "filter (\<lambda>r. gs_scope r = gs_scope x \<and> gs_scope_id r = gs_scope_id x) rs = []" using assms(1) by (simp add: filter_empty_conv)
  then show ?thesis using newest_last [of "filter (\<lambda>r. gs_scope r = gs_scope x \<and> gs_scope_id r = gs_scope_id x) rows" x] assms(2)
    by (simp add: get_latest_snapshot_def)
qed


text \<open>An acknowledged alert is in no list of unacknowledged ones, and acknowledging one changes no other.\<close>

lemma acknowledged_leaves:
  assumes "acknowledge_greeks_alert parse now i who rows = (rows', True)" and "parse i = Some u"
  shows "\<forall>r \<in> set (get_unacknowledged_alerts sc sid rows'). gr_alert_id r \<noteq> u"
    and "filter (\<lambda>r. gr_alert_id r \<noteq> u) (get_unacknowledged_alerts sc sid rows') = filter (\<lambda>r. gr_alert_id r \<noteq> u) (get_unacknowledged_alerts sc sid rows)"
proof -
  define ack where "ack = (\<lambda>r :: greeks_alert_record. if gr_alert_id r = u then r\<lparr>gr_acknowledged_at := Some now, gr_acknowledged_by := Some who\<rparr> else r)"
  have r: "rows' = map ack rows" using assms by (simp add: acknowledge_greeks_alert_def ack_def)
  have a: "gr_alert_id (ack x) = gr_alert_id x" "gr_acknowledged_at (ack x) = (if gr_alert_id x = u then Some now else gr_acknowledged_at x)" for x
    by (simp_all add: ack_def)
  show "\<forall>r \<in> set (get_unacknowledged_alerts sc sid rows'). gr_alert_id r \<noteq> u"
    by (auto simp: get_unacknowledged_alerts_def r a)
  have "filter (\<lambda>r. P r \<and> gr_alert_id r \<noteq> u) (map ack rows) = filter (\<lambda>r. P r \<and> gr_alert_id r \<noteq> u) rows" for P
  proof (induction rows)
    case (Cons r rows)
    then show ?case by (cases "gr_alert_id r = u") (simp_all add: ack_def)
  qed simp
  then show "filter (\<lambda>r. gr_alert_id r \<noteq> u) (get_unacknowledged_alerts sc sid rows') = filter (\<lambda>r. gr_alert_id r \<noteq> u) (get_unacknowledged_alerts sc sid rows)"
    by (simp only: get_unacknowledged_alerts_def r filter_sort filter_filter)
qed

text \<open>Loading fails as soon as the account has an open option: the loaded contract type is a text.\<close>

lemma loading_fails:
  assumes "p \<in> set rows" and "pos_account_id p = a" and "pos_asset_type p = OPTION" and "pos_status p = OPEN"
  shows "load_positions_from_db (\<lambda>_. True) iso_text a rows = Inl AttributeError"
proof -
  have "position_to_info (\<lambda>_. True) iso_text q = Inl AttributeError" for q
    by (simp add: position_to_info_def split: option.split)
  moreover have "filter (\<lambda>p. pos_account_id p = a \<and> pos_asset_type p = OPTION \<and> pos_status p = OPEN) rows \<noteq> []"
    using assms by (auto simp: filter_empty_conv)
  ultimately show ?thesis unfolding load_positions_from_db_def
    by (cases "filter (\<lambda>p. pos_account_id p = a \<and> pos_asset_type p = OPTION \<and> pos_status p = OPEN) rows") simp_all
qed

section \<open>The gate in front of the order\<close>

text \<open>The gate that the risk manager is given, reading the monitor's current Greeks.\<close>

definition monitor_gate ::
  "int \<Rightarrow> gate_config \<Rightarrow> monitor_state \<Rightarrow> (order_intent \<Rightarrow> (string \<times> decimal) list result) \<Rightarrow> order_intent \<Rightarrow> bool result" where
  "monitor_gate now cfg s impact order =
     res_bind (check_order now cfg (mo_current_greeks s) impact order) (\<lambda>r. Inr (ck_ok r))"

text \<open>C35. With a gate that does not fail open, an order that the risk manager approves after a cycle of the monitor found Greeks no older
  than the configured staleness, and the account's Greeks of that cycle plus the order's impact stay within every hard limit.\<close>

theorem approved_within_greeks_limits:
  assumes "monitor_check t0 e infos m = (r, m')" and "gc_fail_mode gc \<noteq> ''open''"
    and "evaluate (Some (monitor_gate now gc m' impact)) cfg src d sg s = (t, Inr Approved)"
  shows "elapsed_seconds now t0 \<le> of_int (gc_max_staleness_seconds gc)
    \<and> (\<exists>i. impact (signal_intent cfg sg) = Inr i \<and> (\<forall>f \<in> set greeks_fields. \<forall>l. map_of (gc_hard_limits gc) f = Some l
         \<longrightarrow> dec_abs (dec_add (get_or_zero (greeks_to_dict (mr_account_greeks r)) f) (get_or_zero i f)) \<le> l))"
proof -
  let ?gs = "calculate_greeks t0 (mo_primary e) (mo_fallback e) infos"
  have cur: "mo_current_greeks m' = Some (mr_account_greeks r)" and w: "mr_account_greeks r = aggregate t0 ?gs ACCOUNT (mo_account_id e)"
    using assms(1) by (auto simp: monitor_check_def Let_def aggregate_by_strategy_def aggregate_groups_def split: prod.splits)
  have time: "agg_as_of_ts (mr_account_greeks r) = t0" unfolding w by (rule aggregate_time) (use calculated_fields in blast)
  obtain s1 where "check_greeks_limits (Some (monitor_gate now gc m' impact)) cfg sg s1 = (t, Inr True)"
    using assms(3) by (rule evaluate_Approved)
  then have "\<exists>k. check_order now gc (mo_current_greeks m') impact (signal_intent cfg sg) = Inr k \<and> ck_ok k"
    by (cases "check_order now gc (mo_current_greeks m') impact (signal_intent cfg sg)")
      (auto simp: check_greeks_limits_def monitor_gate_def)
  then show ?thesis unfolding gate_decides [OF assms(2)] using cur time by auto
qed
section \<open>Concrete cycles\<close>

definition demo_snapshot :: "int \<Rightarrow> decimal \<Rightarrow> greeks_snapshot" where
  "demo_snapshot ts d =
     \<lparr>gs_id = 1, gs_scope = ACCOUNT, gs_scope_id = ''a'', gs_strategy_id = None, gs_dollar_delta = d, gs_gamma_dollar = 0,
      gs_gamma_pnl_1pct = 0, gs_vega_per_1pct = 0, gs_theta_per_day = 0, gs_valid_legs_count = 0, gs_total_legs_count = 0,
      gs_valid_notional = 0, gs_total_notional = 0, gs_coverage_pct = 100, gs_has_high_risk_missing_legs = False, gs_as_of_ts = ts\<rparr>"

text \<open>Three snapshots at 0:00:10, 0:04:50 and 0:05:00 in buckets of five minutes.\<close>

theorem history_buckets_partition_witness:
  "\<exists>points. aggregate_snapshots 300 [demo_snapshot 10000000 1, demo_snapshot 290000000 3, demo_snapshot 300000000 5] = Inr points
    \<and> sorted_wrt (<) (map hp_ts points) \<and> sum_list (map hp_point_count points) = 3"
  using history_buckets_partition [of 300 "[demo_snapshot 10000000 1, demo_snapshot 290000000 3, demo_snapshot 300000000 5]"] by auto

definition demo_monitor :: monitor_env where
  "demo_monitor = \<lparr>mo_account_id = ''a'', mo_config = demo_limits, mo_primary = demo_provider, mo_fallback = None, mo_state_ttl = 86400,
     mo_has_repository = True, mo_columns = \<lparr>co_value = id, co_percent = id, co_coverage = id\<rparr>, mo_texts = demo_alert_texts, mo_sends = (\<lambda>_. True)\<rparr>"

definition fresh_monitor :: monitor_state where
  "fresh_monitor = \<lparr>mo_current_greeks = None, mo_alert_states = [], mo_snapshots = [], mo_alerts = [], mo_connections = [], mo_alerts_made = 0\<rparr>"


theorem approved_within_greeks_limits_witness:
  "dec_abs (dec_add (get_or_zero (greeks_to_dict (mr_account_greeks (fst (monitor_check 0 demo_monitor [] fresh_monitor)))) ''dollar_delta'') 30) \<le> 150"
proof -
  let ?impact = "\<lambda>_. Inr [(''dollar_delta'', 30)] :: (string \<times> decimal) list result"
  obtain r m where c: "monitor_check 0 demo_monitor [] fresh_monitor = (r, m)" by fastforce
  then have w: "mo_current_greeks m = Some (aggregate 0 [] ACCOUNT ''a'')"
    by (auto simp: monitor_check_def Let_def aggregate_by_strategy_def aggregate_groups_def calculate_greeks_def demo_monitor_def split: prod.splits)
  have z: "agg_as_of_ts (aggregate 0 [] ACCOUNT ''a'') = 0" "agg_dollar_delta (aggregate 0 [] ACCOUNT ''a'') = 0"
    by (simp_all add: aggregate_def empty_accumulator_def)
  have o: "gc_fail_mode demo_gate \<noteq> ''open''" by (simp add: demo_gate_def)
  have "\<exists>k. check_order 0 demo_gate (mo_current_greeks m) ?impact (signal_intent demo_config demo_buy) = Inr k \<and> ck_ok k"
    unfolding gate_decides [OF o] w
    by (simp add: z demo_gate_def elapsed_seconds_def greeks_fields_def greeks_to_dict_def get_or_zero_def dec_add_def dec_abs_def dec_exact [of 30 30 0])
  then have g: "monitor_gate 0 demo_gate m ?impact (signal_intent demo_config demo_buy) = Inr True"
    by (auto simp: monitor_gate_def)
  have "\<exists>t. evaluate (Some (monitor_gate 0 demo_gate m ?impact)) demo_config No_Redis demo_tables demo_buy risk_init = (t, Inr Approved)"
    using demo_position demo_portfolio demo_loss demo_allowed g
    by (simp add: evaluate_def Let_def check_greeks_limits_def) (simp add: demo_risk)
  then obtain t where e: "evaluate (Some (monitor_gate 0 demo_gate m ?impact)) demo_config No_Redis demo_tables demo_buy risk_init = (t, Inr Approved)" ..
  show ?thesis using approved_within_greeks_limits [OF c o e] c
    by (auto simp: greeks_fields_def demo_gate_def get_or_zero_def)
qed
end
