(* ===== verification/Spec2Isabelle.thy ===== *)
theory Spec2Isabelle
  imports Order_Manager Close_Workflow Risk_Manager Trading_State Live_Broker Recovery Db_Buffer
    Audit_Service Reconciliation Backtest_Engine Governance_Pool Governance_Monitoring Options Trend_Breakout Greeks_Monitor
begin

text \<open>
  Verification development of AQ Trading, the Python backend under src/backend/src.

  The program and its parts. A strategy emits signals. The risk manager
  (risk/manager.py) checks a signal against limits and a kill switch; the order manager
  (orders/manager.py) turns an approved one into an order, stores it (db/repositories/
  order_repo.py), submits it to a broker (broker/paper_broker.py, broker/live_broker.py)
  and, when fills come back, updates the portfolio (core/portfolio.py on db/repositories/
  portfolio_repo.py). A position is closed on request through an outbox: the endpoint of
  api/options.py writes a close request and an event, workers/outbox_worker.py submits the
  closing order, workers/order_handler.py follows the broker's updates, and
  workers/reconciler.py repairs what got stuck. The degradation package watches the
  external systems and restricts trading by a system mode. The audit package keeps a hash
  chain of what happened, and the reconciliation package compares local and broker state.
  The alerts package stores and delivers notices; derivatives and options watch contracts
  near expiry and raise alerts through it. The governance package decides from hypotheses
  and constraints which symbols a strategy may trade and with which limits. The backtest
  engine runs a strategy over past bars and evaluates the result; the strategies under
  strategies/ compute indicators and factors from the bars. The greeks package prices the
  option positions, aggregates their sensitivities, alerts on them and gates orders by them.

  Theories and the code they model (one group of definitions per class, in the order of the
  code; definitions carry the names of the methods):
  \<^item> Prelude, Numerics: errors as values of \<open>py_error\<close> in a sum, association lists for
    dictionaries, table rows, decimal digits; \<open>Decimal\<close> with 28 digits and binary doubles
    as rationals rounded to significant digits, half to even.
  \<^item> Trading_Types: strategies/signals.py, orders/models.py, models/position.py,
    models/transaction.py, models/account.py. Portfolio_Repo and Portfolio_Manager:
    the repository and core/portfolio.py. Order_Repo and Order_Manager: models/order.py,
    the order repository and orders/manager.py.
  \<^item> Close_Tables, Order_Update, Outbox_Worker, Close_Recovery, Close_Workflow: the tables
    of close requests and outbox events and the handlers over them; Close_Workflow composes
    them into one step relation in which they interleave freely.
  \<^item> Trading_State and Risk_Manager: risk/state.py, risk/manager.py and risk/models.py.
  \<^item> Broker_Interface, Paper_Broker, Live_Broker: the contract of broker/base.py, the
    simulated broker whose coroutines run in slices, and the guarding decorator.
  \<^item> Degradation_Types, Breakers, Trading_Gate, Event_Bus, State_Service, Recovery,
    Db_Buffer: degradation/models.py and config.py and the files of those names.
  \<^item> Json and Iso_Time: what the code uses of the modules json and datetime.
  \<^item> Audit_Values, Audit_Chain, Audit_Service: audit/models.py, config.py and diff.py;
    integrity.py and repository.py; service.py.
  \<^item> Reconciliation: reconciliation/comparator.py, models.py and service.py.
  \<^item> Decimal_Error, Decimal_Root: error bounds for chains of decimal operations; powers and
    roots of the decimal module and the Newton root of strategies/indicators/volume.py.
  \<^item> Backtest_Portfolio, Backtest_Engine, Backtest_Metrics, Backtest_Benchmark: the backtest
    package, from its models, fills and traces over the event loop to attribution, metrics
    and the comparison with a benchmark. A strategy is a function of a bar, the position
    shown to it and its own state, and may raise.
  \<^item> Indicators, Ic_Weights, Trend_Breakout: strategies/indicators/, strategies/factors/,
    backtest/ic_weight_calculator.py, and the two strategies of strategies/examples/.
  \<^item> Governance, Constraint_Resolver, Governance_Pool, Governance_Monitoring: the registries,
    models and audit store; constraints/resolver.py; pool/filters.py and builder.py;
    monitoring/, regime/detector.py and context.py.
  \<^item> Alerts, Alert_Hub: alerts/models.py, factory.py and routing.py; repository.py, hub.py
    and service.py. Derivatives: derivatives/ and workers/expiration_worker.py. Options:
    options/ and the alert endpoints of api/options.py.
  \<^item> Greeks_Models, Greeks_Aggregation, Greeks_Alerts, Greeks_Monitor: greeks/models.py,
    black_scholes.py and calculator.py; aggregator.py; alerts.py, limits_store.py, scenario.py
    and greeks_gate.py; repository.py, websocket.py and monitor.py, and the monitor and the
    gate in front of the risk manager.

  State. A class with state is a record that its operations return updated; a database
  table is a list of rows in insertion order; an \<open>await\<close> at which other code can run ends a
  step. Clock readings, random draws, fresh uuids, and the answers of brokers, Redis and the
  network are arguments. An exception is \<open>Inl e\<close>; where a handler has changed state before
  it raises, the changed state is returned beside the error. What a database column does to
  a decimal is the parameter of the locale \<open>numeric_column\<close>. SHA-256 is the argument \<open>digest\<close>,
  Python's text of a float \<open>str_float\<close>, a notification channel the reply it gives to the n-th
  attempt, the functions of the module math a record \<open>bs_math\<close>, and a metric provider or alert handler of the application a function.

  Interfaces. \<open>step_invariant\<close> and its extension \<open>step_progress\<close> carry invariants and
  progress along runs; every component that moves in steps interprets one of them on its own
  step relation. \<open>order_broker\<close> is the broker contract, interpreted on the simulated broker
  and used for the live one. \<open>numeric_column\<close> is interpreted on rounding to four places, and
  \<open>str_enum\<close> on the enumerations of the degradation package. \<open>entity_registry\<close> is the contract
  of a registry (what get and list return after register and unregister), interpreted on the
  registries of hypotheses and of constraints and used by the resolver and the pool.
  \<open>greeks_source_contract\<close> is what a provider of Greeks promises, interpreted on both.

  What the lemmas show. Portfolio: every branch of recording a fill conserves value and the
  table invariants, and averages stay between the prices. Orders: redelivered fills have no
  effect, orders are stored before they are submitted, and the life of an order moves its
  position by its quantity. Close workflow: in every interleaving a position is closing
  exactly while a request is active, the endpoint is idempotent, orders never move back, and
  the recovery jobs leave no stuck request. Risk: what an approved buy guarantees and that
  a tripped kill switch stays. Brokers: fills add up to the order, nothing is filled
  after a cancel, and guarded submission. Degradation: gate, history and mode agree in every
  run, the mode is the maximum of the reported severities, recovery reaches NORMAL, the bus
  refines an unbounded channel, the log restores the buffer. Audit: a verified chain is
  tamper evident up to collisions, and recorded values are redacted. Reconciliation: a
  clean run means equal holdings. Backtests: no decision looks ahead, the final portfolio is
  the replay of the trades, the drawdown is the largest decline. Strategies: indicators and
  factors look at a fixed number of bars, so the bounded buffers refine the full history;
  no bar makes the strategy raise; what a signal implies and what its size risks.
  Governance: resolutions do not depend on the order of registration and the most
  restrictive value wins, a pool holds exactly the admitted symbols, every falsifier is
  checked once. Alerts: of a stream exactly the first of each key is stored and sent, with
  bounded attempts. Options and derivatives: one alert for each due threshold, and
  assignments conserve value. Greeks: the price model stays within the bounds of its
  formulas, the calculator answers every position once, aggregation equals its field-wise
  definition and partitions the account, alert levels have hysteresis and alerts keep their
  distance, histories fall into buckets, a cycle is stored, and an order approved behind the
  gate stays within the hard limits. Concrete runs at the end of each theory show that the
  hypotheses can hold.

  Bounds and fuel. Quantities that reach the exactness lemmas fit 32 bits and prices have
  four decimal places below \<open>10 ^ 14\<close>, as the columns do; then no decimal
  operation rounds. The JSON reader takes the length of the text as fuel, which is enough
  since each value consumes a character. The Newton iteration has the hundred steps of the
  code, enough for an accurate root of every value up to \<open>10 ^ 18\<close>. Other recursion is structural or has a measure.

  Not modelled. Decimal and float exponent limits and signed zeros; network, logging and
  metrics calls; the vendor SDKs behind the Tiger and Futu adapters; SQL beyond the queries
  of the repositories; response models and routing of the HTTP API; the frontend, migrations
  and scripts; jsonpatch and SHA-256, which are parameters; the agents, which run language
  models over processes; the loaders over YAML files and the linters over syntax trees.
\<close>

end
